(* ===== verification/Rank_Prelude.thy ===== *)
theory Rank_Prelude
  imports Main "HOL-Library.Word"
begin

text \<open>
  Shared ground of the development.

  The C++ sources signal failure in several ways: a thrown \<open>std::exception\<close>, the
  \<open>std::out_of_range\<close> of a checked \<open>at\<close>, an active \<open>assert\<close> of the debug build, the
  \<open>std::system_error\<close> and the call of \<open>std::terminate\<close> of a misused \<open>std::thread\<close>, and
  accesses whose behaviour the language leaves undefined.  All of them are values of
  \<open>fault\<close>, and a fallible operation returns a sum whose left injection is the fault.
  The rest of the theory holds the byte and word vocabulary, the checked container
  accesses the sources use, and the two interfaces (a byte codec and a FIFO queue) that
  several components provide.
\<close>

section \<open>Faults and fallible computations\<close>

datatype fault =
    StdException
  | OutOfRange
  | InvalidArgument
  | AssertionFailed
  | NullDeref
  | Dangling
  | UndefinedBehaviour
  | BadParse
  | SystemError
  | Terminated

type_synonym 'a res = "fault + 'a"

fun and_then :: "'a res \<Rightarrow> ('a \<Rightarrow> 'b res) \<Rightarrow> 'b res" where
  "and_then (Inl e) f = Inl e"
| "and_then (Inr x) f = f x"

definition require :: "bool \<Rightarrow> fault \<Rightarrow> unit res" where
  "require b e = (if b then Inr () else Inl e)"

named_theorems res_simps and word_codec

lemma require_simps [simp, res_simps]:
  "require True e = Inr ()"
  "require False e = Inl e"
  by (simp_all add: require_def)

lemma and_then_eq_Inr [simp]:
  "and_then m f = Inr y \<longleftrightarrow> (\<exists>x. m = Inr x \<and> f x = Inr y)"
  by (cases m) auto

lemma and_then_eq_Inl [simp]:
  "and_then m f = Inl e \<longleftrightarrow> m = Inl e \<or> (\<exists>x. m = Inr x \<and> f x = Inl e)"
  by (cases m) auto

lemma require_eq_Inr [simp]: "require b e = Inr u \<longleftrightarrow> b"
  by (simp add: require_def)

lemma require_eq_Inl [simp]: "require b e = Inl e' \<longleftrightarrow> \<not> b \<and> e' = e"
  by (auto simp: require_def)

lemma and_then_assoc [res_simps]:
  "and_then (and_then m f) g = and_then m (\<lambda>x. and_then (f x) g)"
  by (cases m) auto

lemma and_then_cong [fundef_cong]:
  "m = m' \<Longrightarrow> (\<And>x. m' = Inr x \<Longrightarrow> f x = f' x) \<Longrightarrow> and_then m f = and_then m' f'"
  by (cases m') auto

text \<open>\<open>try ... catch (const std::invalid_argument &)\<close>: other exceptions pass through.\<close>

definition catch_invalid :: "'a res \<Rightarrow> 'b res \<Rightarrow> ('a \<Rightarrow> 'b res) \<Rightarrow> 'b res" where
  "catch_invalid m handler f =
     (case m of Inl e \<Rightarrow> if e = InvalidArgument then handler else Inl e | Inr x \<Rightarrow> f x)"

lemma catch_invalid_simps [simp]:
  "catch_invalid (Inr x) h f = f x"
  "catch_invalid (Inl InvalidArgument) h f = h"
  by (simp_all add: catch_invalid_def)

lemma catch_invalid_eq_Inr [simp]:
  "catch_invalid m h f = Inr y \<longleftrightarrow>
     m = Inl InvalidArgument \<and> h = Inr y \<or> (\<exists>x. m = Inr x \<and> f x = Inr y)"
  by (cases m) (auto simp: catch_invalid_def)

text \<open>A loop over a container whose body may fail, and one that threads a state.\<close>

fun map_res :: "('a \<Rightarrow> 'b res) \<Rightarrow> 'a list \<Rightarrow> 'b list res" where
  "map_res f [] = Inr []"
| "map_res f (x # xs) = and_then (f x) (\<lambda>y. and_then (map_res f xs) (\<lambda>ys. Inr (y # ys)))"

fun fold_res :: "('a \<Rightarrow> 's \<Rightarrow> 's res) \<Rightarrow> 'a list \<Rightarrow> 's \<Rightarrow> 's res" where
  "fold_res f [] s = Inr s"
| "fold_res f (x # xs) s = and_then (f x s) (\<lambda>s'. fold_res f xs s')"

lemma map_res_cong [fundef_cong]:
  "xs = ys \<Longrightarrow> (\<And>x. x \<in> set ys \<Longrightarrow> f x = g x) \<Longrightarrow> map_res f xs = map_res g ys"
  by (induction ys arbitrary: xs) auto

lemma fold_res_cong [fundef_cong]:
  "xs = ys \<Longrightarrow> (\<And>x s. x \<in> set ys \<Longrightarrow> f x s = g x s) \<Longrightarrow> fold_res f xs s = fold_res g ys s"
  by (induction ys arbitrary: xs s) (auto intro!: and_then_cong)

lemma map_res_Inr: "(\<And>x. x \<in> set xs \<Longrightarrow> f x = Inr (g x)) \<Longrightarrow> map_res f xs = Inr (map g xs)"
  by (induction xs) auto

lemma map_res_map: "map_res f (map g xs) = map_res (\<lambda>x. f (g x)) xs"
  by (induction xs) auto

lemma fold_res_map: "fold_res f (map g xs) s = fold_res (\<lambda>x. f (g x)) xs s"
  by (induction xs arbitrary: s) (auto intro: and_then_cong)

lemma fold_res_append: "fold_res f (xs @ ys) s = and_then (fold_res f xs s) (fold_res f ys)"
  by (induction xs arbitrary: s) (auto intro!: and_then_cong simp: and_then_assoc)

lemma fold_res_Inr:
  "(\<And>x s. x \<in> set xs \<Longrightarrow> f x s = Inr (g x s)) \<Longrightarrow> fold_res f xs s = Inr (fold g xs s)"
  by (induction xs arbitrary: s) auto

lemma fold_res_inv:
  "(\<And>x s s'. x \<in> set xs \<Longrightarrow> I s \<Longrightarrow> f x s = Inr s' \<Longrightarrow> I s') \<Longrightarrow> I s \<Longrightarrow> fold_res f xs s = Inr s' \<Longrightarrow> I s'"
  by (induction xs arbitrary: s) auto

section \<open>Bytes and checked container accesses\<close>

type_synonym byte = "8 word"
type_synonym uint16 = "16 word"
type_synonym uint32 = "32 word"
type_synonym size_t = "64 word"

text \<open>\<open>vector::at\<close> and \<open>array::at\<close>: a checked read.\<close>

definition vec_at :: "'a list \<Rightarrow> nat \<Rightarrow> 'a res" where
  "vec_at xs i = (if i < length xs then Inr (xs ! i) else Inl OutOfRange)"

text \<open>\<open>array::at\<close> used as the target of an assignment.\<close>

definition set_at :: "'a list \<Rightarrow> nat \<Rightarrow> 'a \<Rightarrow> 'a list res" where
  "set_at xs i v = (if i < length xs then Inr (xs[i := v]) else Inl OutOfRange)"

text \<open>The loop \<open>for (i = 0; i != n; i++) out.push_back(in.at(off + i))\<close>.\<close>

fun read_loop :: "'a list \<Rightarrow> nat \<Rightarrow> nat \<Rightarrow> 'a list res" where
  "read_loop xs off 0 = Inr []"
| "read_loop xs off (Suc n) =
     and_then (vec_at xs off) (\<lambda>x. and_then (read_loop xs (Suc off) n) (\<lambda>ys. Inr (x # ys)))"

text \<open>The loop \<open>for (i = 0; i != n; i++) out.at(i) = in.at(i + off)\<close>, from index \<open>i\<close> on.\<close>

fun copy_loop :: "'a list \<Rightarrow> nat \<Rightarrow> nat \<Rightarrow> nat \<Rightarrow> 'a list \<Rightarrow> 'a list res" where
  "copy_loop src off i 0 dst = Inr dst"
| "copy_loop src off i (Suc n) dst =
     and_then (vec_at src (i + off)) (\<lambda>x. and_then (set_at dst i x) (\<lambda>dst'. copy_loop src off (Suc i) n dst'))"

lemma at_in [simp]: "i < length xs \<Longrightarrow> vec_at xs i = Inr (xs ! i)"
  by (simp add: vec_at_def)

lemma at_out [simp]: "length xs \<le> i \<Longrightarrow> vec_at xs i = Inl OutOfRange"
  by (simp add: vec_at_def)

lemma set_at_in [simp]: "i < length xs \<Longrightarrow> set_at xs i v = Inr (xs[i := v])"
  by (simp add: set_at_def)

lemma read_loop_in:
  "off + n \<le> length xs \<Longrightarrow> read_loop xs off n = Inr (take n (drop off xs))"
proof (induction n arbitrary: off)
  case 0
  then show ?case by simp
next
  case (Suc n)
  then have "drop off xs = xs ! off # drop (Suc off) xs"
    by (simp add: Cons_nth_drop_Suc)
  with Suc show ?case by simp
qed

lemma read_loop_out:
  "length xs < off + n \<Longrightarrow> 0 < n \<Longrightarrow> read_loop xs off n = Inl OutOfRange"
proof (induction n arbitrary: off)
  case 0
  then show ?case by simp
next
  case (Suc n)
  show ?case
  proof (cases "off < length xs")
    case True
    then have "0 < n" using Suc.prems by (cases n) auto
    with Suc True show ?thesis by simp
  next
    case False
    then show ?thesis by simp
  qed
qed

lemma copy_loop_in:
  "i + off + n \<le> length src \<Longrightarrow> i + n \<le> length dst \<Longrightarrow>
   copy_loop src off i n dst
     = Inr (take i dst @ take n (drop (i + off) src) @ drop (i + n) dst)"
proof (induction n arbitrary: i dst)
  case 0
  then show ?case by simp
next
  case (Suc n)
  have src: "drop (i + off) src = src ! (i + off) # drop (Suc (i + off)) src"
    using Suc.prems by (simp add: Cons_nth_drop_Suc)
  have "take (Suc i) (dst[i := v]) = take i dst @ [v]" for v
    using Suc.prems by (simp add: take_Suc_conv_app_nth)
  moreover have "drop (Suc (i + n)) (dst[i := v]) = drop (Suc (i + n)) dst" for v
    by simp
  ultimately show ?case using Suc src by simp
qed

lemma copy_loop_out:
  "length src < i + off + n \<Longrightarrow> 0 < n \<Longrightarrow> copy_loop src off i n dst = Inl OutOfRange"
proof (induction n arbitrary: i dst)
  case 0
  then show ?case by simp
next
  case (Suc n)
  show ?case
  proof (cases "i + off < length src")
    case True
    then have "0 < n" using Suc.prems by (cases n) auto
    with Suc True show ?thesis by (simp add: set_at_def)
  next
    case False
    then show ?thesis by simp
  qed
qed

lemma copy_loop_app:
  "length a = n \<Longrightarrow> n \<le> length dst \<Longrightarrow> copy_loop (x # a @ b) 1 0 n dst = Inr (a @ drop n dst)"
  by (simp add: copy_loop_in)

text \<open>\<open>std::to_string\<close> for an \<open>int\<close>.\<close>

fun decimal :: "nat \<Rightarrow> string" where
  "decimal n = (if n < 10 then [char_of (48 + n)] else decimal (n div 10) @ [char_of (48 + n mod 10)])"

definition to_string :: "int \<Rightarrow> string" where
  "to_string i = (if i < 0 then ''-'' @ decimal (nat (- i)) else decimal (nat i))"

section \<open>Interfaces\<close>

text \<open>
  A byte codec: whatever is encoded from a valid value, the decoder gives back.  The
  header and each message body provide it; the framing of a message relies on it.
\<close>

locale codec =
  fixes enc :: "'a \<Rightarrow> byte list res"
    and dec :: "byte list \<Rightarrow> 'a res"
    and ok :: "'a \<Rightarrow> bool"
  assumes dec_enc: "ok x \<Longrightarrow> and_then (enc x) dec = Inr x"
begin

lemma enc_defined: "ok x \<Longrightarrow> \<exists>bs. enc x = Inr bs \<and> dec bs = Inr x"
  using dec_enc [of x] by simp

lemma enc_inj: "ok x \<Longrightarrow> ok y \<Longrightarrow> enc x = enc y \<Longrightarrow> x = y"
  by (metis dec_enc sum.inject(2))

lemma enc_inj_on: "inj_on enc {x. ok x}"
  by (auto intro: inj_onI enc_inj)

end

text \<open>A codec all of whose encodings have one length: a prefix that frames can be cut at.\<close>

locale fixed_codec = codec +
  fixes width :: nat
  assumes enc_length: "ok x \<Longrightarrow> enc x = Inr bs \<Longrightarrow> length bs = width"
begin

lemma cut_prefix: "ok x \<Longrightarrow> enc x = Inr bs \<Longrightarrow> dec (take width (bs @ rest)) = Inr x"
  using dec_enc [of x] by (auto simp: enc_length)

lemma cut_rest: "ok x \<Longrightarrow> enc x = Inr bs \<Longrightarrow> drop width (bs @ rest) = rest"
  by (auto simp: enc_length)

lemma frame_inj:
  assumes "ok x" "ok y" "enc x = Inr bs" "enc y = Inr cs" "bs @ r = cs @ s"
  shows "x = y \<and> r = s"
proof -
  have "length bs = length cs" using assms enc_length by metis
  then have "bs = cs" "r = s" using assms(5) by simp_all
  then show ?thesis using assms enc_inj by metis
qed

end

text \<open>
  A queue: \<open>push\<close> at the back, \<open>pop\<close> at the front, abstracted to the list of what waits.
\<close>

locale fifo =
  fixes push :: "'m \<Rightarrow> 'q \<Rightarrow> 'q"
    and pop :: "'q \<Rightarrow> ('m \<times> 'q) option"
    and contents :: "'q \<Rightarrow> 'm list"
  assumes contents_push: "contents (push m q) = contents q @ [m]"
    and pop_None: "pop q = None \<longleftrightarrow> contents q = []"
    and pop_Some: "pop q = Some (m, q') \<Longrightarrow> contents q = m # contents q'"
begin

primrec push_all :: "'m list \<Rightarrow> 'q \<Rightarrow> 'q" where
  "push_all [] q = q"
| "push_all (m # ms) q = push_all ms (push m q)"

primrec pop_n :: "nat \<Rightarrow> 'q \<Rightarrow> 'm list" where
  "pop_n 0 q = []"
| "pop_n (Suc n) q = (case pop q of None \<Rightarrow> [] | Some (m, q') \<Rightarrow> m # pop_n n q')"

lemma contents_push_all: "contents (push_all ms q) = contents q @ ms"
  by (induction ms arbitrary: q) (simp_all add: contents_push)

lemma pop_n_take: "pop_n n q = take n (contents q)"
proof (induction n arbitrary: q)
  case 0
  then show ?case by simp
next
  case (Suc n)
  then show ?case
    using pop_None [of q] by (cases "pop q") (auto dest: pop_Some)
qed

lemma fifo_order: "contents q = [] \<Longrightarrow> pop_n (length ms) (push_all ms q) = ms"
  by (simp add: pop_n_take contents_push_all)

end

text \<open>
  A step system with an invariant: initial states satisfy it, steps keep it, and so every
  state on every run satisfies it.
\<close>

locale step_system =
  fixes init :: "'s \<Rightarrow> bool"
    and step :: "'s \<Rightarrow> 's \<Rightarrow> bool"
    and safe :: "'s \<Rightarrow> bool"
  assumes safe_init: "init s \<Longrightarrow> safe s"
    and safe_step: "safe s \<Longrightarrow> step s s' \<Longrightarrow> safe s'"
begin

inductive reachable :: "'s \<Rightarrow> bool" where
  start: "init s \<Longrightarrow> reachable s"
| advance: "reachable s \<Longrightarrow> step s s' \<Longrightarrow> reachable s'"

lemma reachable_safe: "reachable s \<Longrightarrow> safe s"
  by (induction rule: reachable.induct) (auto intro: safe_init safe_step)

lemma run_safe: "step\<^sup>*\<^sup>* s s' \<Longrightarrow> safe s \<Longrightarrow> safe s'"
  by (induction rule: rtranclp_induct) (auto intro: safe_step)

end

text \<open>
  A step system whose parts, named by indices, refine an abstract machine: in every step a part
  that is there stays and makes at most one move of the machine, and a part that appears starts
  in one of its initial states.
\<close>

locale component_simulation = step_system init step safe
  for init :: "'s \<Rightarrow> bool" and step :: "'s \<Rightarrow> 's \<Rightarrow> bool" and safe :: "'s \<Rightarrow> bool" +
  fixes view :: "'s \<Rightarrow> 'i \<Rightarrow> 'p option"
    and spec :: "'p \<Rightarrow> 'p \<Rightarrow> bool"
    and born :: "'p \<Rightarrow> bool"
  assumes simulates: "safe s \<Longrightarrow> step s s' \<Longrightarrow> view s i = Some p \<Longrightarrow> \<exists>p'. view s' i = Some p' \<and> spec\<^sup>=\<^sup>= p p'"
    and births: "safe s \<Longrightarrow> step s s' \<Longrightarrow> view s i = None \<Longrightarrow> view s' i = Some p' \<Longrightarrow> born p'"
    and empty_start: "init s \<Longrightarrow> view s i = None"
begin

lemma run_simulates:
  assumes "step\<^sup>*\<^sup>* s s'" "safe s" "view s i = Some p"
  shows "\<exists>p'. view s' i = Some p' \<and> spec\<^sup>*\<^sup>* p p'"
  using assms
proof (induction rule: rtranclp_induct)
  case (step t t')
  then obtain q where q: "view t i = Some q" "spec\<^sup>*\<^sup>* p q"
    by blast
  have "safe t"
    using step.hyps(1) step.prems(1) by (rule run_safe)
  then obtain q' where "view t' i = Some q'" "spec\<^sup>=\<^sup>= q q'"
    using simulates [OF _ step.hyps(2) q(1)] by blast
  with q(2) show ?case
    by (auto intro: rtranclp.rtrancl_into_rtrancl)
qed blast

lemma run_from_birth:
  assumes "step\<^sup>*\<^sup>* s s'" "init s" "view s' i = Some p"
  shows "\<exists>b. born b \<and> spec\<^sup>*\<^sup>* b p"
  using assms(1,3)
proof (induction arbitrary: p rule: rtranclp_induct)
  case base
  with assms(2) show ?case
    by (simp add: empty_start)
next
  case (step t t')
  have safe: "safe t"
    using step.hyps(1) safe_init [OF assms(2)] by (rule run_safe)
  show ?case
  proof (cases "view t i")
    case None
    then show ?thesis
      using births [OF safe step.hyps(2)] step.prems by blast
  next
    case (Some q)
    then have "spec\<^sup>=\<^sup>= q p"
      using simulates [OF safe step.hyps(2) Some] step.prems by auto
    with step.IH [OF Some] show ?thesis
      by (auto intro: rtranclp.rtrancl_into_rtrancl)
  qed
qed

end

end
