(* ===== verification/Identifiers.thy ===== *)
theory Identifiers
  imports Rank_Prelude
begin

text \<open>
  Request identifiers (\<open>structs/identifier.cpp\<close>).  A \<open>UUIDv4\<close> is a ULID of the library
  \<open>ulid.hh\<close>, which is not part of the sources: the functions of it that the program calls
  are the fields of \<open>ulid_lib\<close>, a parameter of every definition that needs them.
  \<open>ulid_ok\<close> is the documented behaviour the properties rely on: the binary form is
  16 octets and unmarshalling inverts marshalling.  \<open>ulid_spec\<close> is the layout of the
  ULID specification (most significant octet first), and shows the behaviour possible.
\<close>

type_synonym UUIDv4 = "128 word"

record ulid_lib =
  MarshalBinary :: "UUIDv4 \<Rightarrow> byte list"
  UnmarshalBinary :: "byte list \<Rightarrow> UUIDv4"

definition marshall_into_vector :: "ulid_lib \<Rightarrow> UUIDv4 \<Rightarrow> byte list" where
  "marshall_into_vector L uuid = MarshalBinary L uuid"

definition unmarshall_from_vector :: "ulid_lib \<Rightarrow> byte list \<Rightarrow> UUIDv4" where
  "unmarshall_from_vector L marshalled = UnmarshalBinary L marshalled"

text \<open>\<open>std::equal\<close> over the first six octets; reading past a shorter vector is undefined.\<close>

definition is_same_timestamp :: "ulid_lib \<Rightarrow> UUIDv4 \<Rightarrow> UUIDv4 \<Rightarrow> bool" where
  "is_same_timestamp L left right =
     (take 6 (marshall_into_vector L left) = take 6 (marshall_into_vector L right))"

definition ulid_ok :: "ulid_lib \<Rightarrow> bool" where
  "ulid_ok L \<longleftrightarrow>
     (\<forall>u. length (MarshalBinary L u) = 16 \<and> UnmarshalBinary L (MarshalBinary L u) = u)"

lemma ulid_okD [simp]:
  assumes "ulid_ok L"
  shows "length (marshall_into_vector L u) = 16"
    and "unmarshall_from_vector L (marshall_into_vector L u) = u"
  using assms by (simp_all add: ulid_ok_def marshall_into_vector_def unmarshall_from_vector_def)

lemma is_same_timestamp_refl [simp]: "is_same_timestamp L u u"
  by (simp add: is_same_timestamp_def)

lemma is_same_timestamp_sym: "is_same_timestamp L u v \<Longrightarrow> is_same_timestamp L v u"
  by (simp add: is_same_timestamp_def)

lemma is_same_timestamp_trans:
  "is_same_timestamp L u v \<Longrightarrow> is_same_timestamp L v w \<Longrightarrow> is_same_timestamp L u w"
  by (simp add: is_same_timestamp_def)

section \<open>The layout of the specification\<close>

fun be_bytes :: "nat \<Rightarrow> 'a::len word \<Rightarrow> byte list" where
  "be_bytes 0 w = []"
| "be_bytes (Suc n) w = ucast (drop_bit (8 * n) w) # be_bytes n w"

fun be_word :: "'a::len word \<Rightarrow> byte list \<Rightarrow> 'a word" where
  "be_word acc [] = acc"
| "be_word acc (b # bs) = be_word (push_bit 8 acc + ucast b) bs"

definition ulid_spec :: ulid_lib where
  "ulid_spec = \<lparr> MarshalBinary = be_bytes 16, UnmarshalBinary = be_word 0 \<rparr>"

lemma length_be_bytes [simp]: "length (be_bytes n w) = n"
  by (induction n) simp_all

lemma uint_be_step:
  fixes w :: "'a::len word" and n :: nat
  assumes "8 \<le> LENGTH('a)"
  shows "push_bit 8 (drop_bit (8 * Suc n) w) + ucast (ucast (drop_bit (8 * n) w) :: byte)
         = drop_bit (8 * n) w"
proof -
  have "push_bit 8 (drop_bit 8 v) + take_bit 8 v = v" for v :: "'a word"
    using bits_ident [of 8 v] .
  moreover have "drop_bit (8 * Suc n) w = drop_bit 8 (drop_bit (8 * n) w)"
    by (simp add: drop_bit_drop_bit add.commute)
  moreover have "ucast (ucast v :: byte) = take_bit 8 v" for v :: "'a word"
    by (simp add: unsigned_ucast_eq)
  ultimately show ?thesis by (simp only:)
qed

lemma be_word_be_bytes:
  fixes w :: "'a::len word"
  assumes "8 \<le> LENGTH('a)"
  shows "be_word (drop_bit (8 * n) w) (be_bytes n w) = w"
proof (induction n)
  case 0
  then show ?case by simp
next
  case (Suc n)
  then show ?case using uint_be_step [OF assms, of n w] by simp
qed

lemma ulid_spec_ok [simp]: "ulid_ok ulid_spec"
proof -
  have "be_word 0 (be_bytes 16 u) = u" for u :: UUIDv4
  proof -
    have "drop_bit (8 * 16) u = 0" by (simp add: drop_bit_word_beyond)
    then show ?thesis using be_word_be_bytes [of 16 u] by simp
  qed
  then show ?thesis by (simp add: ulid_ok_def ulid_spec_def)
qed

section \<open>New identifiers\<close>

text \<open>
  The functions of the library that make an identifier and show it; the arguments are the
  milliseconds of the system clock and what \<open>rand\<close> returns.  \<open>ulid_clock_ok\<close> is the layout of the
  specification: the first six octets are the time, the entropy leaves them alone.
\<close>

record ulid_clock =
  EncodeTimeSystemClockNow :: "nat \<Rightarrow> UUIDv4 \<Rightarrow> UUIDv4"
  EncodeEntropyRand :: "nat \<Rightarrow> UUIDv4 \<Rightarrow> UUIDv4"
  Marshal :: "UUIDv4 \<Rightarrow> string"

definition generate_new_uuid :: "ulid_clock \<Rightarrow> nat \<Rightarrow> nat \<Rightarrow> UUIDv4" where
  "generate_new_uuid G now random = EncodeEntropyRand G random (EncodeTimeSystemClockNow G now 0)"

definition uuid_display :: "ulid_clock \<Rightarrow> UUIDv4 \<Rightarrow> string" where
  "uuid_display G uuid = Marshal G uuid"

definition ulid_clock_ok :: "ulid_lib \<Rightarrow> ulid_clock \<Rightarrow> bool" where
  "ulid_clock_ok L G \<longleftrightarrow>
     (\<forall>now u. take 6 (MarshalBinary L (EncodeTimeSystemClockNow G now u)) = be_bytes 6 (word_of_nat now :: UUIDv4))
     \<and> (\<forall>r u. take 6 (MarshalBinary L (EncodeEntropyRand G r u)) = take 6 (MarshalBinary L u))"

lemma take_be_bytes: "take k (be_bytes (k + n) w) = be_bytes k (drop_bit (8 * n) w)"
  by (induction k) (simp_all add: drop_bit_drop_bit add.commute distrib_left)

lemma be_bytes_take_bit:
  fixes w :: "'a::len word"
  shows "8 * k \<le> n \<Longrightarrow> be_bytes k (take_bit n w) = be_bytes k w"
proof (induction k)
  case (Suc k)
  have "ucast (drop_bit (8 * k) (take_bit n w)) = (ucast (drop_bit (8 * k) w) :: byte)"
    by (rule bit_word_eqI) (use Suc.prems in \<open>auto simp: bit_simps\<close>)
  with Suc show ?case by simp
qed simp

lemma be_bytes_inject:
  fixes v w :: "'a::len word"
  assumes "8 \<le> LENGTH('a)"
  shows "be_bytes n v = be_bytes n w \<longleftrightarrow> take_bit (8 * n) v = take_bit (8 * n) w"
proof -
  have "be_word 0 (be_bytes n u) = take_bit (8 * n) u" for u :: "'a word"
  proof -
    have "drop_bit (8 * n) (take_bit (8 * n) u) = 0"
      by (rule bit_word_eqI) (simp add: bit_simps)
    then show ?thesis
      using be_word_be_bytes [OF assms, of n "take_bit (8 * n) u"] be_bytes_take_bit [of n "8 * n" u] by simp
  qed
  then show ?thesis
    by (metis be_bytes_take_bit order_refl)
qed

text \<open>
  Two new identifiers have the same timestamp exactly if they were made in the same millisecond,
  whatever their entropy.
\<close>

lemma generated_same_timestamp:
  assumes "ulid_clock_ok L G"
  shows "is_same_timestamp L (generate_new_uuid G now r) (generate_new_uuid G now' r')
    \<longleftrightarrow> now mod 2 ^ 48 = now' mod 2 ^ 48"
proof -
  have "is_same_timestamp L (generate_new_uuid G now r) (generate_new_uuid G now' r')
      \<longleftrightarrow> be_bytes 6 (word_of_nat now :: UUIDv4) = be_bytes 6 (word_of_nat now' :: UUIDv4)"
    using assms by (simp add: is_same_timestamp_def generate_new_uuid_def marshall_into_vector_def ulid_clock_ok_def)
  also have "\<dots> \<longleftrightarrow> take_bit 48 (word_of_nat now :: UUIDv4) = take_bit 48 (word_of_nat now')"
    by (subst be_bytes_inject) simp_all
  also have "\<dots> \<longleftrightarrow> now mod 2 ^ 48 = now' mod 2 ^ 48"
    by (simp only: word_unat_eq_iff unsigned_take_bit_eq unsigned_of_nat flip: take_bit_eq_mod) simp
  finally show ?thesis .
qed

definition ulid_clock_spec :: ulid_clock where
  "ulid_clock_spec =
     \<lparr> EncodeTimeSystemClockNow = (\<lambda>now u. or (push_bit 80 (word_of_nat now)) (take_bit 80 u)),
       EncodeEntropyRand = (\<lambda>r u. or (push_bit 80 (drop_bit 80 u)) (take_bit 80 (word_of_nat r))),
       Marshal = (\<lambda>u. replicate 26 (CHR ''0'')) \<rparr>"

lemma ulid_clock_spec_ok: "ulid_clock_ok ulid_spec ulid_clock_spec"
proof -
  have front: "take 6 (be_bytes 16 u) = be_bytes 6 (drop_bit 80 u)" for u :: UUIDv4
    using take_be_bytes [of 6 10 u] by simp
  have keep: "drop_bit 80 (or (push_bit 80 (drop_bit 80 u)) (take_bit 80 v)) = drop_bit 80 u" for u v :: UUIDv4
    by (rule bit_word_eqI) (auto simp: bit_simps dest: bit_imp_le_length)
  have low: "take_bit 48 (drop_bit 80 (or (push_bit 80 v) (take_bit 80 u))) = take_bit 48 v" for u v :: UUIDv4
    by (rule bit_word_eqI) (auto simp: bit_simps)
  have "be_bytes 6 (drop_bit 80 (or (push_bit 80 v) (take_bit 80 u))) = be_bytes 6 v" for u v :: UUIDv4
    using low [of v u] by (subst be_bytes_inject) simp_all
  then show ?thesis
    by (simp add: ulid_clock_ok_def ulid_spec_def ulid_clock_spec_def front keep)
qed

end
