(* ===== verification/Std_Map.thy ===== *)
theory Std_Map
  imports Rank_Prelude
begin

text \<open>
  \<open>std::map\<close> and \<open>std::set\<close> as the sources use them: iteration is in key order, \<open>insert\<close>
  keeps the element already stored under the key, \<open>erase\<close> of an absent key does nothing
  and \<open>at\<close> throws.  A map is the list of its elements in iteration order; \<open>std_map_wf\<close>
  is the class invariant.  The locale \<open>dictionary\<close> states what the clients rely on.
\<close>

type_synonym ('k, 'v) std_map = "('k \<times> 'v) list"

definition std_map_wf :: "('k::linorder, 'v) std_map \<Rightarrow> bool" where
  "std_map_wf m = sorted_wrt (<) (map fst m)"

fun map_insert :: "'k::linorder \<Rightarrow> 'v \<Rightarrow> ('k, 'v) std_map \<Rightarrow> ('k, 'v) std_map" where
  "map_insert k v [] = [(k, v)]"
| "map_insert k v ((k', v') # m) =
     (if k < k' then (k, v) # (k', v') # m
      else if k = k' then (k', v') # m
      else (k', v') # map_insert k v m)"

definition map_erase :: "'k \<Rightarrow> ('k \<times> 'v) list \<Rightarrow> ('k \<times> 'v) list" where
  "map_erase k m = filter (\<lambda>p. fst p \<noteq> k) m"

definition map_contains :: "'k \<Rightarrow> ('k \<times> 'v) list \<Rightarrow> bool" where
  "map_contains k m = list_ex (\<lambda>p. fst p = k) m"

definition map_at :: "('k \<times> 'v) list \<Rightarrow> 'k \<Rightarrow> 'v res" where
  "map_at m k = (case map_of m k of None \<Rightarrow> Inl OutOfRange | Some v \<Rightarrow> Inr v)"

text \<open>\<open>m[k] = v\<close>: overwrites, or inserts when the key is absent.\<close>

definition map_assign :: "'k::linorder \<Rightarrow> 'v \<Rightarrow> ('k, 'v) std_map \<Rightarrow> ('k, 'v) std_map" where
  "map_assign k v m = map_insert k v (map_erase k m)"

lemma map_of_insert [simp]:
  "map_of (map_insert k v m) =
     (map_of m)(k \<mapsto> (case map_of m k of None \<Rightarrow> v | Some w \<Rightarrow> w))"
  if "std_map_wf m"
  using that
proof (induction m)
  case Nil
  then show ?case by simp
next
  case (Cons p m)
  obtain k' v' where p: "p = (k', v')" by (cases p)
  have wf: "std_map_wf m" and gt: "\<forall>q\<in>set m. k' < fst q"
    using Cons.prems p by (auto simp: std_map_wf_def)
  have "k < k' \<Longrightarrow> map_of m k = None"
    using gt by (force simp: map_of_eq_None_iff)
  then show ?case using Cons.IH [OF wf] p by (auto simp: fun_eq_iff split: option.splits)
qed

lemma map_of_erase [simp]: "map_of (map_erase k m) = (map_of m)(k := None)"
  by (induction m) (auto simp: map_erase_def fun_eq_iff)

lemma set_map_insert_subset: "set (map_insert k v m) \<subseteq> insert (k, v) (set m)"
  by (induction k v m rule: map_insert.induct) auto

lemma map_insert_fst: "fst ` set (map_insert k v m) = insert k (fst ` set m)"
  by (induction k v m rule: map_insert.induct) auto

lemma std_map_wf_Nil [simp]: "std_map_wf []"
  by (simp add: std_map_wf_def)

lemma std_map_wf_insert [simp]: "std_map_wf m \<Longrightarrow> std_map_wf (map_insert k v m)"
proof (induction m)
  case Nil
  then show ?case by (simp add: std_map_wf_def)
next
  case (Cons p m)
  obtain k' v' where p: "p = (k', v')" by (cases p)
  have wf: "std_map_wf m" and gt: "\<forall>q\<in>set m. k' < fst q"
    using Cons.prems p by (auto simp: std_map_wf_def)
  have "\<forall>x\<in>fst ` set (map_insert k v m). k' < x" if "k' < k"
    using gt that by (auto simp: map_insert_fst)
  then show ?case using Cons.IH [OF wf] Cons.prems gt p
    by (auto simp: std_map_wf_def)
qed

lemma sorted_wrt_filter_fst:
  "sorted_wrt (<) (map fst m) \<Longrightarrow> sorted_wrt (<) (map fst (filter P m))"
  by (induction m) auto

lemma std_map_wf_erase [simp]: "std_map_wf m \<Longrightarrow> std_map_wf (map_erase k m)"
  by (simp add: std_map_wf_def map_erase_def sorted_wrt_filter_fst)

lemma std_map_wf_assign [simp]: "std_map_wf m \<Longrightarrow> std_map_wf (map_assign k v m)"
  by (simp add: map_assign_def)

lemma map_of_assign [simp]: "std_map_wf m \<Longrightarrow> map_of (map_assign k v m) = (map_of m)(k \<mapsto> v)"
  by (simp add: map_assign_def fun_eq_iff)

lemma map_contains_iff [simp]: "map_contains k m \<longleftrightarrow> k \<in> dom (map_of m)"
  by (force simp: map_contains_def list_ex_iff dom_map_of_conv_image_fst image_iff)

lemma std_map_distinct: "std_map_wf m \<Longrightarrow> distinct (map fst m)"
  by (simp add: std_map_wf_def strict_sorted_iff)

lemma map_of_in_set: "std_map_wf m \<Longrightarrow> map_of m k = Some v \<longleftrightarrow> (k, v) \<in> set m"
  by (simp add: std_map_distinct)

lemma map_insert_last:
  "(\<And>p. p \<in> set m \<Longrightarrow> fst p < k) \<Longrightarrow> map_insert k v m = m @ [(k, v)]"
proof (induction m)
  case Nil
  then show ?case by simp
next
  case (Cons p m)
  then have "fst p < k" by simp
  with Cons show ?case by (cases p) auto
qed

lemma map_insert_present: "std_map_wf m \<Longrightarrow> map_of m k = Some w \<Longrightarrow> map_insert k v m = m"
proof (induction m)
  case Nil
  then show ?case by simp
next
  case (Cons p m)
  obtain k' v' where p: "p = (k', v')" by (cases p)
  have wf: "std_map_wf m" and gt: "\<forall>q\<in>set m. k' < fst q"
    using Cons.prems p by (auto simp: std_map_wf_def)
  show ?case
  proof (cases "k = k'")
    case True
    then show ?thesis by (simp add: p)
  next
    case False
    then have "map_of m k = Some w" using Cons.prems p by simp
    moreover from this have "k' < k" using gt by (force dest: map_of_SomeD)
    ultimately show ?thesis using Cons.IH [OF wf] p by auto
  qed
qed

text \<open>
  What a client of a key-value store relies on.  \<open>put\<close> keeps the first value, as
  \<open>std::map::insert\<close> does.
\<close>

locale dictionary =
  fixes put :: "'k \<Rightarrow> 'v \<Rightarrow> 'd \<Rightarrow> 'd"
    and drop_key :: "'k \<Rightarrow> 'd \<Rightarrow> 'd"
    and get :: "'d \<Rightarrow> 'k \<Rightarrow> 'v option"
    and inv :: "'d \<Rightarrow> bool"
  assumes inv_put: "inv d \<Longrightarrow> inv (put k v d)"
    and inv_drop: "inv d \<Longrightarrow> inv (drop_key k d)"
    and get_put: "inv d \<Longrightarrow> get (put k v d) k' =
          (if k' = k \<and> get d k = None then Some v else get d k')"
    and get_drop: "inv d \<Longrightarrow> get (drop_key k d) k' = (if k' = k then None else get d k')"
begin

lemma put_fresh: "inv d \<Longrightarrow> get d k = None \<Longrightarrow> get (put k v d) k = Some v"
  by (simp add: get_put)

lemma put_keeps: "inv d \<Longrightarrow> get d k = Some w \<Longrightarrow> get (put k v d) k = Some w"
  by (simp add: get_put)

lemma drop_put: "inv d \<Longrightarrow> get (drop_key k (put k v d)) = get (drop_key k d)"
  by (auto simp: fun_eq_iff get_drop get_put inv_put)

lemma put_other: "inv d \<Longrightarrow> k' \<noteq> k \<Longrightarrow> get (put k v d) k' = get d k'"
  by (simp add: get_put)

lemma inv_fold_put: "inv d \<Longrightarrow> inv (fold (\<lambda>(k, v). put k v) kvs d)"
  by (induction kvs arbitrary: d) (auto simp: inv_put)

end

interpretation smap: dictionary "map_insert :: 'k::linorder \<Rightarrow> 'v \<Rightarrow> ('k, 'v) std_map \<Rightarrow> ('k, 'v) std_map"
  map_erase map_of std_map_wf
  by unfold_locales (auto split: option.splits)

end
