(* ===== verification/Capabilities.thy ===== *)
theory Capabilities
  imports Std_Map
begin

text \<open>
  Requirement sets: the FNV hash that names their kinds (\<open>utils/hashing.h\<close>,
  \<open>constants.h\<close>), \<open>Capabilities\<close> and \<open>RequestingCapabilities\<close>
  (\<open>structs/capabilities.cpp\<close>, \<open>structs/requesting_capabilities.cpp\<close>).
  \<open>CapabilityItemType\<close> is an enumeration with a fixed 32-bit base and so holds any 32-bit
  value: it is that word, and its enumerators are constants.
\<close>

section \<open>FNV hashing\<close>

definition FNV_PRIME :: uint32 where "FNV_PRIME = 16777619"
definition OFFSET_BASIS :: uint32 where "OFFSET_BASIS = 2166136261"

text \<open>A plain \<open>char\<close> is signed on the targets of the program: it is sign-extended.\<close>

definition char_promote :: "char \<Rightarrow> uint32" where
  "char_promote c = scast (of_char c :: byte)"

definition fnv_step :: "char \<Rightarrow> uint32 \<Rightarrow> uint32" where
  "fnv_step c hash = (xor hash (char_promote c)) * FNV_PRIME"

text \<open>Run-time version: \<open>strlen(str) + 1\<close> rounds over a NUL-terminated buffer.\<close>

definition strlen :: "string \<Rightarrow> nat" where
  "strlen str = length (takeWhile (\<lambda>c. c \<noteq> CHR 0x00) str)"

fun fnvHash_loop :: "nat \<Rightarrow> string \<Rightarrow> uint32 \<Rightarrow> uint32" where
  "fnvHash_loop 0 str hash = hash"
| "fnvHash_loop (Suc n) [] hash = hash"
| "fnvHash_loop (Suc n) (c # str) hash = fnvHash_loop n str (fnv_step c hash)"

definition fnvHash :: "string \<Rightarrow> uint32" where
  "fnvHash str = fnvHash_loop (strlen str + 1) (str @ [CHR 0x00]) OFFSET_BASIS"

text \<open>Compile-time version: recursion from the end of the array, \<open>I\<close> counting down to 1.\<close>

fun fnvHashConst :: "string \<Rightarrow> nat \<Rightarrow> uint32" where
  "fnvHashConst str 0 = OFFSET_BASIS"
| "fnvHashConst str (Suc i) =
     (if i = 0 then (xor OFFSET_BASIS (char_promote (str ! 0))) * FNV_PRIME
      else (xor (fnvHashConst str i) (char_promote (str ! i))) * FNV_PRIME)"

text \<open>A string literal is an array of its characters and the terminator.\<close>

definition FnvHash :: "string \<Rightarrow> uint32" where
  "FnvHash lit = fnvHashConst (lit @ [CHR 0x00]) (length lit + 1)"

lemma fnvHash_loop_fold:
  "n \<le> length str \<Longrightarrow> fnvHash_loop n str h = fold fnv_step (take n str) h"
proof (induction n arbitrary: str h)
  case 0
  then show ?case by simp
next
  case (Suc n)
  then show ?case by (cases str) auto
qed

lemma fnvHashConst_fold:
  "i \<le> length str \<Longrightarrow> fnvHashConst str i = fold fnv_step (take i str) OFFSET_BASIS"
  by (induction i) (auto simp: take_Suc_conv_app_nth fnv_step_def)

section \<open>Kinds of requirement\<close>

type_synonym CapabilityItemType = uint32

definition UNSPECIFIED :: CapabilityItemType where "UNSPECIFIED = 0"
definition TIME :: CapabilityItemType where "TIME = FnvHash ''time''"
definition TIME_TAS :: CapabilityItemType where "TIME_TAS = FnvHash ''tas-request''"
definition TIME_CBS :: CapabilityItemType where "TIME_CBS = FnvHash ''cbs-request''"
definition NET :: CapabilityItemType where "NET = FnvHash ''net''"
definition NET_BANDWIDTH :: CapabilityItemType where "NET_BANDWIDTH = FnvHash ''interface-request''"
definition NET_DDS :: CapabilityItemType where "NET_DDS = FnvHash ''dds-request''"
definition COMP :: CapabilityItemType where "COMP = FnvHash ''cpu''"
definition COMP_CPU :: CapabilityItemType where "COMP_CPU = FnvHash ''cpu_cores''"
definition COMP_MEMORY :: CapabilityItemType where "COMP_MEMORY = FnvHash ''memory-request''"

lemma capability_codes [simp]:
  "UNSPECIFIED = 0"
  "TIME = 2859034604"
  "TIME_TAS = 1167066225"
  "TIME_CBS = 3811969407"
  "NET = 2294271368"
  "NET_BANDWIDTH = 675346600"
  "NET_DDS = 50294334"
  "COMP = 4194751147"
  "COMP_CPU = 1740938230"
  "COMP_MEMORY = 4287422138"
  by code_simp+

section \<open>Capabilities\<close>

text \<open>
  The \<open>std::any\<close> payloads: the program only ever stores an \<open>unsigned int\<close>; an empty value
  and one of any other type make \<open>any_cast\<close> throw.
\<close>

datatype any_value = AnyUint uint32 | AnyEmpty | AnyOther

definition any_cast_uint :: "any_value \<Rightarrow> uint32 res" where
  "any_cast_uint a = (case a of AnyUint n \<Rightarrow> Inr n | _ \<Rightarrow> Inl StdException)"

type_synonym capability_item = "CapabilityItemType \<times> any_value"

record capabilities =
  cap_items :: "(CapabilityItemType, any_value) std_map"

record requesting_capabilities = capabilities +
  cap_ordered_items :: "(byte, capability_item) std_map"

definition Capabilities_add_item ::
  "capability_item \<Rightarrow> 'a capabilities_scheme \<Rightarrow> 'a capabilities_scheme" where
  "Capabilities_add_item item c =
     c \<lparr> cap_items := map_insert (fst item) (snd item) (cap_items c) \<rparr>"

definition Capabilities_remove_item ::
  "capability_item \<Rightarrow> 'a capabilities_scheme \<Rightarrow> 'a capabilities_scheme" where
  "Capabilities_remove_item item c = c \<lparr> cap_items := map_erase (fst item) (cap_items c) \<rparr>"

definition Capabilities_less ::
  "'a capabilities_scheme \<Rightarrow> 'b capabilities_scheme \<Rightarrow> bool" where
  "Capabilities_less c prototype = False"

text \<open>
  \<open>operator==\<close>: after the sizes, one \<open>switch\<close> per item.  Only seven enumerators have a
  \<open>case\<close>, and each only tests that the other side has an item of the same kind.
\<close>

definition Capabilities_item_matches ::
  "CapabilityItemType \<Rightarrow> (CapabilityItemType, any_value) std_map \<Rightarrow> bool" where
  "Capabilities_item_matches k other =
     (if k = UNSPECIFIED then map_contains UNSPECIFIED other
      else if k = TIME_TAS then map_contains TIME_TAS other
      else if k = TIME_CBS then map_contains TIME_CBS other
      else if k = NET_BANDWIDTH then map_contains NET_BANDWIDTH other
      else if k = NET_DDS then map_contains NET_DDS other
      else if k = COMP_CPU then map_contains COMP_CPU other
      else if k = COMP_MEMORY then map_contains COMP_MEMORY other
      else True)"

definition Capabilities_eq ::
  "'a capabilities_scheme \<Rightarrow> 'b capabilities_scheme \<Rightarrow> bool" where
  "Capabilities_eq c prototype =
     (if length (cap_items c) \<noteq> length (cap_items prototype) then False
      else list_all (\<lambda>item. Capabilities_item_matches (fst item) (cap_items prototype)) (cap_items c))"

section \<open>Requesting capabilities\<close>

definition RequestingCapabilities_new :: requesting_capabilities where
  "RequestingCapabilities_new = \<lparr> cap_items = [], cap_ordered_items = [] \<rparr>"

definition RequestingCapabilities_add_item ::
  "capability_item \<Rightarrow> byte \<Rightarrow> requesting_capabilities \<Rightarrow> requesting_capabilities" where
  "RequestingCapabilities_add_item item place c =
     Capabilities_add_item item
       (c \<lparr> cap_ordered_items := map_insert place item (cap_ordered_items c) \<rparr>)"

text \<open>
  \<open>at(to_place) = at(place)\<close>: both places must exist already.  When they are the same the
  item is assigned to itself and erased.  The order in which the two \<open>at\<close> are evaluated
  does not matter, both throw the same exception.
\<close>

definition RequestingCapabilities_downgrade_item ::
  "byte \<Rightarrow> byte \<Rightarrow> requesting_capabilities \<Rightarrow> requesting_capabilities res" where
  "RequestingCapabilities_downgrade_item place to_place c =
     and_then (map_at (cap_ordered_items c) place) (\<lambda>item.
     and_then (map_at (cap_ordered_items c) to_place) (\<lambda>_.
       Inr (c \<lparr> cap_ordered_items :=
                  map_erase place (map_assign to_place item (cap_ordered_items c)) \<rparr>)))"

definition RequestingCapabilities_upgrade_item ::
  "byte \<Rightarrow> byte \<Rightarrow> requesting_capabilities \<Rightarrow> requesting_capabilities res" where
  "RequestingCapabilities_upgrade_item place to_place c =
     and_then (map_at (cap_ordered_items c) place) (\<lambda>item.
     and_then (map_at (cap_ordered_items c) to_place) (\<lambda>_.
       Inr (c \<lparr> cap_ordered_items :=
                  map_erase place (map_assign to_place item (cap_ordered_items c)) \<rparr>)))"

definition RequestingCapabilities_get_item ::
  "requesting_capabilities \<Rightarrow> byte \<Rightarrow> capability_item res" where
  "RequestingCapabilities_get_item c place = map_at (cap_ordered_items c) place"

definition RequestingCapabilities_remove_item ::
  "byte \<Rightarrow> requesting_capabilities \<Rightarrow> requesting_capabilities res" where
  "RequestingCapabilities_remove_item place c =
     and_then (map_at (cap_ordered_items c) place) (\<lambda>item.
       Inr (Capabilities_remove_item item
              (c \<lparr> cap_ordered_items := map_erase place (cap_ordered_items c) \<rparr>)))"

section \<open>Invariant and behaviour\<close>

text \<open>
  Both containers are well formed and every kind in \<open>items\<close> comes from an ordered item.
\<close>

definition capabilities_wf :: "requesting_capabilities \<Rightarrow> bool" where
  "capabilities_wf c \<longleftrightarrow>
     std_map_wf (cap_items c) \<and> std_map_wf (cap_ordered_items c)"

lemma capabilities_wf_new [simp]: "capabilities_wf RequestingCapabilities_new"
  by (simp add: capabilities_wf_def RequestingCapabilities_new_def)

lemma capabilities_wf_add [simp]:
  "capabilities_wf c \<Longrightarrow> capabilities_wf (RequestingCapabilities_add_item item place c)"
  by (simp add: capabilities_wf_def RequestingCapabilities_add_item_def Capabilities_add_item_def)

lemma capabilities_wf_downgrade:
  "capabilities_wf c \<Longrightarrow> RequestingCapabilities_downgrade_item p q c = Inr c' \<Longrightarrow> capabilities_wf c'"
  by (auto simp: capabilities_wf_def RequestingCapabilities_downgrade_item_def)

lemma capabilities_wf_remove:
  "capabilities_wf c \<Longrightarrow> RequestingCapabilities_remove_item p c = Inr c' \<Longrightarrow> capabilities_wf c'"
  by (auto simp: capabilities_wf_def RequestingCapabilities_remove_item_def
      Capabilities_remove_item_def)

lemma Capabilities_item_matches_self:
  "(k, v) \<in> set m \<Longrightarrow> Capabilities_item_matches k m"
proof -
  assume "(k, v) \<in> set m"
  then have "k \<in> dom (map_of m)" unfolding dom_map_of_conv_image_fst by (rule image_eqI [rotated]) simp
  then show ?thesis
    by (auto simp: Capabilities_item_matches_def simp del: capability_codes)
qed

lemma Capabilities_eq_refl [simp]: "Capabilities_eq c c"
  by (auto simp: Capabilities_eq_def list_all_iff intro: Capabilities_item_matches_self)

lemma Capabilities_eq_same_kinds:
  "map fst (cap_items c) = map fst (cap_items d) \<Longrightarrow> Capabilities_eq c d"
proof -
  assume kinds: "map fst (cap_items c) = map fst (cap_items d)"
  then have "length (cap_items c) = length (cap_items d)"
    by (metis length_map)
  moreover have "Capabilities_item_matches (fst p) (cap_items d)" if "p \<in> set (cap_items c)" for p
  proof -
    have "fst p \<in> set (map fst (cap_items d))"
      using that kinds by (metis image_eqI list.set_map)
    then show ?thesis using Capabilities_item_matches_self by force
  qed
  ultimately show ?thesis by (simp add: Capabilities_eq_def list_all_iff)
qed

text \<open>
  The two directions of the hash: the run-time and the compile-time evaluation agree, so a
  kind parsed from a member name equals the enumerator of the literal.
\<close>

lemma fnvHash_eq_FnvHash: "CHR 0x00 \<notin> set str \<Longrightarrow> fnvHash str = FnvHash str"
proof -
  assume "CHR 0x00 \<notin> set str"
  then have "takeWhile (\<lambda>c. c \<noteq> CHR 0x00) str = str"
    by auto
  then have "strlen str = length str" unfolding strlen_def by (rule arg_cong)
  then show ?thesis
    by (simp add: fnvHash_def FnvHash_def fnvHash_loop_fold fnvHashConst_fold del: fnvHashConst.simps)
qed

lemma take_past_terminator:
  "take (Suc (length (takeWhile (\<lambda>c. c \<noteq> z) xs))) (xs @ [z]) = takeWhile (\<lambda>c. c \<noteq> z) xs @ [z]"
  by (induction xs) auto

text \<open>
  The name of a requirement read at run time and the literal in the source hash alike: the
  loop of \<open>fnvHash\<close> gives what the compile-time recursion gives for the characters before the
  first NUL, and no two of the kinds of requirement have the same code.
\<close>

lemma hash_at_run_time:
  "fnvHash str = FnvHash (takeWhile (\<lambda>c. c \<noteq> CHR 0x00) str)
   \<and> distinct [UNSPECIFIED, TIME, TIME_TAS, TIME_CBS, NET, NET_BANDWIDTH, NET_DDS, COMP, COMP_CPU, COMP_MEMORY]"
proof -
  let ?s = "takeWhile (\<lambda>c. c \<noteq> CHR 0x00) str"
  have pre: "take (strlen str + 1) (str @ [CHR 0x00]) = ?s @ [CHR 0x00]"
    using take_past_terminator [of "CHR 0x00" str] by (simp add: strlen_def)
  have "strlen str + 1 \<le> length (str @ [CHR 0x00])"
    by (simp add: strlen_def length_takeWhile_le)
  then have "fnvHash str = fold fnv_step (?s @ [CHR 0x00]) OFFSET_BASIS"
    unfolding fnvHash_def using fnvHash_loop_fold pre by metis
  moreover have "FnvHash ?s = fold fnv_step (?s @ [CHR 0x00]) OFFSET_BASIS"
    using fnvHashConst_fold [of "length ?s + 1" "?s @ [CHR 0x00]"] by (simp add: FnvHash_def del: fnvHashConst.simps)
  ultimately show ?thesis
    by simp
qed

end
