(* ===== verification/Marshalling.thy ===== *)
theory Marshalling
  imports Capabilities
begin

text \<open>
  Requirements on the wire (\<open>utils/marshalling.cpp\<close> and \<open>utils/marshalling/\<close>): between
  \<open>RequestingCapabilities\<close> and a JSON document (\<open>transformation.cpp\<close>), the checks on a
  received document (\<open>validation.cpp\<close>, \<open>yang.cpp\<close>) and between the document and CBOR
  (\<open>serialization.cpp\<close>).  \<open>libcbor\<close> and \<open>libyang\<close> are not part of the sources: turning a
  CBOR item into octets and back, and the schema check, are fields of \<open>marshal_lib\<close>.  The
  JSON values of rapidjson and the items of libcbor are the datatypes \<open>json\<close> and \<open>cbor\<close>;
  a violated rapidjson precondition is its assertion.
\<close>

section \<open>JSON documents and CBOR items\<close>

text \<open>Numbers are an integer of rapidjson's range or the bit pattern of a double.\<close>

datatype json =
    JNull
  | JBool bool
  | JInt int
  | JDouble "64 word"
  | JString string
  | JArray "json list"
  | JObject "(string \<times> json) list"

text \<open>
  A map key is the text of a definite string, or \<open>None\<close> for a key of any other kind; half
  and single floats carry the value the accessors of libcbor return, as a single.
\<close>

datatype cbor =
    CUint "64 word"
  | CNegint "64 word"
  | CByteString
  | CString string
  | CChunkedString
  | CArray "cbor list"
  | CMap "(string option \<times> cbor) list"
  | CTag
  | CBool bool
  | CNull
  | CCtrl
  | CFloat2 uint32
  | CFloat4 uint32
  | CFloat8 "64 word"

record marshal_lib =
  cbor_serialize_alloc :: "cbor \<Rightarrow> byte list"
  cbor_load :: "byte list \<Rightarrow> cbor option"
  libyang_validate :: "json \<Rightarrow> bool"

section \<open>rapidjson accessors\<close>

definition GetObject :: "json \<Rightarrow> (string \<times> json) list res" where
  "GetObject j = (case j of JObject ms \<Rightarrow> Inr ms | _ \<Rightarrow> Inl AssertionFailed)"

definition GetArray :: "json \<Rightarrow> json list res" where
  "GetArray j = (case j of JArray xs \<Rightarrow> Inr xs | _ \<Rightarrow> Inl AssertionFailed)"

definition GetUint :: "json \<Rightarrow> uint32 res" where
  "GetUint j = (case j of JInt n \<Rightarrow>
       if 0 \<le> n \<and> n < 2 ^ 32 then Inr (word_of_int n) else Inl AssertionFailed
     | _ \<Rightarrow> Inl AssertionFailed)"

definition member :: "json \<Rightarrow> string \<Rightarrow> json res" where
  "member j name = and_then (GetObject j) (\<lambda>ms.
     case map_of ms name of None \<Rightarrow> Inl AssertionFailed | Some v \<Rightarrow> Inr v)"

definition HasMember :: "json \<Rightarrow> string \<Rightarrow> bool res" where
  "HasMember j name = and_then (GetObject j) (\<lambda>ms. Inr (name \<in> fst ` set ms))"

text \<open>\<open>MemberBegin()->name\<close>: the end iterator is dereferenced when there is no member.\<close>

definition first_member :: "json \<Rightarrow> (string \<times> json) res" where
  "first_member j = and_then (GetObject j) (\<lambda>ms.
     case ms of [] \<Rightarrow> Inl UndefinedBehaviour | m # _ \<Rightarrow> Inr m)"

text \<open>\<open>AddMember\<close> of rapidjson asserts that it is called on an object; a new document is null.\<close>

definition AddMember :: "json \<Rightarrow> string \<Rightarrow> json \<Rightarrow> json res" where
  "AddMember document name v =
     (case document of JObject ms \<Rightarrow> Inr (JObject (ms @ [(name, v)])) | _ \<Rightarrow> Inl AssertionFailed)"

text \<open>\<open>document[name]\<close> as a reference: the first member of the name, which has to be there.\<close>

fun update_first :: "string \<Rightarrow> (json \<Rightarrow> json res) \<Rightarrow> (string \<times> json) list \<Rightarrow> (string \<times> json) list res" where
  "update_first name f [] = Inl AssertionFailed"
| "update_first name f ((n, v) # ms) =
     (if n = name then and_then (f v) (\<lambda>v. Inr ((n, v) # ms))
      else and_then (update_first name f ms) (\<lambda>ms. Inr ((n, v) # ms)))"

definition at_member :: "string \<Rightarrow> (json \<Rightarrow> json res) \<Rightarrow> json \<Rightarrow> json res" where
  "at_member name f document =
     and_then (GetObject document) (\<lambda>ms. and_then (update_first name f ms) (\<lambda>ms. Inr (JObject ms)))"

lemma AddMember_object [simp]: "AddMember (JObject ms) name v = Inr (JObject (ms @ [(name, v)]))"
  by (simp add: AddMember_def)

lemma update_first_app:
  "name \<notin> fst ` set ms \<Longrightarrow>
     update_first name f (ms @ (name, v) # rest) = and_then (f v) (\<lambda>v. Inr (ms @ (name, v) # rest))"
proof (induction ms)
  case Nil
  then show ?case by simp
next
  case (Cons m ms)
  then show ?case by (cases m; cases "f v") auto
qed

lemma at_member_last:
  "name \<notin> fst ` set ms \<Longrightarrow>
     at_member name f (JObject (ms @ [(name, v)])) = and_then (f v) (\<lambda>v. Inr (JObject (ms @ [(name, v)])))"
  by (cases "f v") (simp_all add: at_member_def GetObject_def update_first_app)

section \<open>Transformation between requirements and JSON\<close>

definition requirements_key :: string where
  "requirements_key = ''nap-rank-requirements:requirements''"

definition transform_item :: "byte \<times> capability_item \<Rightarrow> json res" where
  "transform_item p = (case p of (order, type, requirement) \<Rightarrow>
     if type = COMP_CPU then
       and_then (any_cast_uint requirement) (\<lambda>n.
         Inr (JObject [(''order'', JInt (uint order)),
                       (''requirement'', JObject [(''cpu_cores'', JInt (uint n))])]))
     else Inr (JObject [(''order'', JInt (uint order))]))"

definition transform_to_json :: "requesting_capabilities \<Rightarrow> json res" where
  "transform_to_json capabilities =
     and_then (map_res transform_item (cap_ordered_items capabilities)) (\<lambda>items.
       Inr (JObject [(requirements_key, JObject [(''items'', JArray items)])]))"

text \<open>The place of an item is an octet: the order is truncated to it.\<close>

definition transform_to_requirement ::
  "json \<Rightarrow> requesting_capabilities \<Rightarrow> requesting_capabilities res" where
  "transform_to_requirement item capabilities =
     and_then (member item ''requirement'') (\<lambda>requirement.
     and_then (first_member requirement) (\<lambda>m.
     let type = fnvHash (fst m) in
       if type = COMP_CPU then
         and_then (member requirement ''cpu_cores'') (\<lambda>c.
         and_then (GetUint c) (\<lambda>n.
         and_then (member item ''order'') (\<lambda>o'.
         and_then (GetUint o') (\<lambda>order.
           Inr (RequestingCapabilities_add_item (COMP_CPU, AnyUint n) (ucast order) capabilities)))))
       else Inr capabilities))"

definition transform_to_requirements :: "json \<Rightarrow> requesting_capabilities res" where
  "transform_to_requirements doc =
     and_then (member doc requirements_key) (\<lambda>r.
     and_then (member r ''items'') (\<lambda>i.
     and_then (GetArray i) (\<lambda>items.
       fold_res transform_to_requirement items RequestingCapabilities_new)))"

section \<open>Validation of a received document\<close>

datatype RequestTypes = CPURequest | MemoryRequest | InterfaceRequest | Unknown

definition typify :: "string \<Rightarrow> RequestTypes" where
  "typify s = (if s = ''cpu_cores'' then CPURequest
               else if s = ''memory'' then MemoryRequest
               else if s = ''interface'' then InterfaceRequest
               else Unknown)"

fun stringify :: "RequestTypes \<Rightarrow> string" where
  "stringify CPURequest = ''cpu_cores''"
| "stringify MemoryRequest = ''memory''"
| "stringify InterfaceRequest = ''interface''"
| "stringify Unknown = ''''"

definition RANK_YANG_REPO_PATH :: string where
  "RANK_YANG_REPO_PATH = ''internal/rank-prelude/include/utils/marshalling/validation/yang-repo/''"

fun get_yang_module_content :: "RequestTypes \<Rightarrow> string" where
  "get_yang_module_content CPURequest =
     RANK_YANG_REPO_PATH @ ''/'' @ ''private/nap/rank'' @ ''/'' @ ''nap-rank-comp-cpu-request.yang''"
| "get_yang_module_content MemoryRequest =
     RANK_YANG_REPO_PATH @ ''/'' @ ''private/nap/rank'' @ ''/'' @ ''nap-rank-comp-memory-request.yang''"
| "get_yang_module_content InterfaceRequest =
     RANK_YANG_REPO_PATH @ ''/'' @ ''private/nap/rank'' @ ''/'' @ ''nap-rank-net-interface-request.yang''"
| "get_yang_module_content Unknown = ''''"

text \<open>One round of the loop over the items, \<open>expected_order\<close> counting from zero.\<close>

definition validate_item :: "marshal_lib \<Rightarrow> json \<Rightarrow> json \<Rightarrow> int \<Rightarrow> int res" where
  "validate_item M document pair expected_order =
     and_then (HasMember pair ''order'') (\<lambda>has_order.
     and_then (if has_order then HasMember pair ''requirement'' else Inr False) (\<lambda>has_both.
     and_then (require has_both InvalidArgument) (\<lambda>_.
     and_then (member pair ''order'') (\<lambda>o'.
     and_then (GetUint o') (\<lambda>order.
     and_then (require (sint order = expected_order) InvalidArgument) (\<lambda>_.
     and_then (member pair ''requirement'') (\<lambda>requirement.
     and_then (first_member requirement) (\<lambda>m.
     and_then (require (typify (fst m) \<noteq> Unknown) InvalidArgument) (\<lambda>_.
     and_then (require (libyang_validate M document) StdException) (\<lambda>_.
       Inr (expected_order + 1)))))))))))"

definition validate_yang :: "marshal_lib \<Rightarrow> json \<Rightarrow> bool res" where
  "validate_yang M document =
     and_then (GetObject document) (\<lambda>ms.
     and_then (require (length ms = 1) InvalidArgument) (\<lambda>_.
     and_then (first_member document) (\<lambda>m.
     and_then (require (fst m = requirements_key) InvalidArgument) (\<lambda>_.
     and_then (HasMember (snd m) ''items'') (\<lambda>has.
     and_then (require has InvalidArgument) (\<lambda>_.
     and_then (member (snd m) ''items'') (\<lambda>i.
     and_then (require (case i of JArray xs \<Rightarrow> True | _ \<Rightarrow> False) InvalidArgument) (\<lambda>_.
     and_then (GetArray i) (\<lambda>items.
     and_then (fold_res (validate_item M document) items 0) (\<lambda>_.
       Inr True))))))))))"

section \<open>CBOR\<close>

text \<open>
  The callbacks of libcbor build the item the calls describe.  A negative number is handed
  over as its two's complement pattern, although the item denotes \<open>-1 - v\<close>.
\<close>

primrec cbor_stream_decode :: "json \<Rightarrow> cbor" where
  "cbor_stream_decode JNull = CNull"
| "cbor_stream_decode (JBool b) = CBool b"
| "cbor_stream_decode (JInt n) =
     (if 0 \<le> n then CUint (word_of_int n) else CNegint (word_of_int n))"
| "cbor_stream_decode (JDouble d) = CFloat8 d"
| "cbor_stream_decode (JString s) = CString s"
| "cbor_stream_decode (JArray xs) = CArray (map cbor_stream_decode xs)"
| "cbor_stream_decode (JObject ms) = CMap (map (map_prod Some cbor_stream_decode) ms)"

text \<open>The conversion of a single to a double, exact on every value.\<close>

fun highest_bit :: "nat \<Rightarrow> nat \<Rightarrow> nat" where
  "highest_bit 0 m = 0"
| "highest_bit (Suc k) m = (if 2 ^ Suc k \<le> m then Suc k else highest_bit k m)"

definition float_to_double :: "uint32 \<Rightarrow> 64 word" where
  "float_to_double f =
     (let s = unat f div 2 ^ 31; e = unat f div 2 ^ 23 mod 256; m = unat f mod 2 ^ 23 in
      word_of_nat (s * 2 ^ 63 +
        (if e = 255 then 2047 * 2 ^ 52 + m * 2 ^ 29
         else if e \<noteq> 0 then (e + 896) * 2 ^ 52 + m * 2 ^ 29
         else if m = 0 then 0
         else let k = highest_bit 22 m in (874 + k) * 2 ^ 52 + (m - 2 ^ k) * 2 ^ (52 - k))))"

definition cbor_key :: "string option \<Rightarrow> string" where
  "cbor_key k = (case k of None \<Rightarrow> '''' | Some s \<Rightarrow> takeWhile (\<lambda>c. c \<noteq> CHR 0x00) s)"

primrec load_cbor_to_decode :: "cbor \<Rightarrow> json" where
  "load_cbor_to_decode (CUint v) = JInt (uint v)"
| "load_cbor_to_decode (CNegint v) = JInt (uint (- 1 - v))"
| "load_cbor_to_decode CByteString = JString ''Unimplemented feature (Byte string).''"
| "load_cbor_to_decode (CString s) = JString ''Unimplemented feature (Chunked string).''"
| "load_cbor_to_decode CChunkedString = JString ''Unimplemented feature (Chunked string).''"
| "load_cbor_to_decode (CArray xs) = JArray (map load_cbor_to_decode xs)"
| "load_cbor_to_decode (CMap ms) = JObject (map (map_prod cbor_key load_cbor_to_decode) ms)"
| "load_cbor_to_decode CTag = JString ''Unimplemented feature (tag).''"
| "load_cbor_to_decode (CBool b) = JBool b"
| "load_cbor_to_decode CNull = JNull"
| "load_cbor_to_decode CCtrl = JString ''Unimplemented feature (Control string).''"
| "load_cbor_to_decode (CFloat2 f) = JDouble (float_to_double f)"
| "load_cbor_to_decode (CFloat4 f) = JDouble (float_to_double f)"
| "load_cbor_to_decode (CFloat8 d) = JDouble d"

definition serialize_json_as_vector :: "marshal_lib \<Rightarrow> json \<Rightarrow> byte list" where
  "serialize_json_as_vector M doc = cbor_serialize_alloc M (cbor_stream_decode doc)"

text \<open>A load error is ignored: the null item becomes the null value.\<close>

definition deserialize_json :: "marshal_lib \<Rightarrow> byte list \<Rightarrow> json" where
  "deserialize_json M data =
     (case cbor_load M data of None \<Rightarrow> JNull | Some item \<Rightarrow> load_cbor_to_decode item)"

definition unmarshal :: "marshal_lib \<Rightarrow> byte list \<Rightarrow> requesting_capabilities res" where
  "unmarshal M data =
     (if data = [] then Inr RequestingCapabilities_new
      else let capabilities_as_json = deserialize_json M data in
        and_then (validate_yang M capabilities_as_json) (\<lambda>yang_compliant_json.
          if \<not> yang_compliant_json then Inl StdException
          else transform_to_requirements capabilities_as_json))"

text \<open>The payload of a request built from requirements.\<close>

definition payload_of :: "marshal_lib \<Rightarrow> requesting_capabilities \<Rightarrow> byte list res" where
  "payload_of M requirements =
     and_then (transform_to_json requirements) (\<lambda>doc. Inr (serialize_json_as_vector M doc))"

section \<open>What survives the trip over CBOR\<close>

text \<open>
  The documents the trip preserves: no string values, no negative numbers, and member names
  without a NUL character.
\<close>

primrec json_plain :: "json \<Rightarrow> bool" where
  "json_plain JNull = True"
| "json_plain (JBool b) = True"
| "json_plain (JInt n) = (0 \<le> n \<and> n < 2 ^ 64)"
| "json_plain (JDouble d) = True"
| "json_plain (JString s) = False"
| "json_plain (JArray xs) = list_all id (map json_plain xs)"
| "json_plain (JObject ms) = list_all (\<lambda>(k, ok). CHR 0x00 \<notin> set k \<and> ok) (map (map_prod id json_plain) ms)"

lemma cbor_key_Some [simp]: "CHR 0x00 \<notin> set s \<Longrightarrow> cbor_key (Some s) = s"
  by (auto simp: cbor_key_def takeWhile_eq_all_conv)

lemma json_plain_trip: "json_plain j \<Longrightarrow> load_cbor_to_decode (cbor_stream_decode j) = j"
proof (induction j)
  case (JInt n)
  then show ?case by (simp add: uint_word_of_int take_bit_int_eq_self)
next
  case (JArray xs)
  then show ?case by (auto simp: list_all_iff intro: map_idI)
next
  case (JObject ms)
  have "map_prod cbor_key load_cbor_to_decode (map_prod Some cbor_stream_decode p) = p"
    if "p \<in> set ms" for p
  proof -
    obtain k v where p: "p = (k, v)" by (cases p)
    have "CHR 0x00 \<notin> set k" "json_plain v"
      using JObject.prems that p by (auto simp: list_all_iff)
    then show ?thesis using JObject.IH [OF that] p by (simp add: snds.simps)
  qed
  then show ?case by (auto intro: map_idI)
qed simp_all

lemma negative_number_trip:
  "- (2 ^ 63) \<le> n \<Longrightarrow> n < 0 \<Longrightarrow> load_cbor_to_decode (cbor_stream_decode (JInt n)) = JInt (- 1 - n)"
proof -
  assume "- (2 ^ 63) \<le> n" "n < 0"
  moreover have "- 1 - (word_of_int n :: 64 word) = word_of_int (- 1 - n)" by simp
  ultimately show ?thesis
    by (simp add: uint_word_of_int take_bit_int_eq_self del: of_int_diff of_int_minus)
qed

section \<open>Requirements on the wire\<close>

text \<open>The requirement sets a node can send: processor cores, at places counted from zero.\<close>

definition cpu_requirements :: "uint32 list \<Rightarrow> requesting_capabilities" where
  "cpu_requirements ns =
     fold (\<lambda>(i, n). RequestingCapabilities_add_item (COMP_CPU, AnyUint n) (word_of_nat i))
       (enumerate 0 ns) RequestingCapabilities_new"

definition cpu_item :: "nat \<times> uint32 \<Rightarrow> json" where
  "cpu_item p = JObject [(''order'', JInt (int (fst p))),
                         (''requirement'', JObject [(''cpu_cores'', JInt (uint (snd p)))])]"

definition cpu_document :: "uint32 list \<Rightarrow> json" where
  "cpu_document ns = JObject [(requirements_key,
     JObject [(''items'', JArray (map cpu_item (enumerate 0 ns)))])]"

lemma cpu_requirements_items:
  "length ns \<le> 256 \<Longrightarrow> cap_ordered_items (cpu_requirements ns) =
     map (\<lambda>(i, n). (word_of_nat i, (COMP_CPU, AnyUint n))) (enumerate 0 ns)"
proof (induction ns rule: rev_induct)
  case Nil
  then show ?case by (simp add: cpu_requirements_def RequestingCapabilities_new_def)
next
  case (snoc n ns)
  have "word_of_nat i < (word_of_nat (length ns) :: byte)" if "i < length ns" for i
    using that snoc.prems by (simp add: word_less_nat_alt unat_of_nat)
  then have "map_insert (word_of_nat (length ns)) v
        (map (\<lambda>(i, n). (word_of_nat i :: byte, (COMP_CPU, AnyUint n))) (enumerate 0 ns))
      = map (\<lambda>(i, n). (word_of_nat i, (COMP_CPU, AnyUint n))) (enumerate 0 ns) @ [(word_of_nat (length ns), v)]" for v
    by (intro map_insert_last) (auto simp: in_set_enumerate_eq)
  with snoc show ?case
    by (simp add: cpu_requirements_def enumerate_append_eq RequestingCapabilities_add_item_def
        Capabilities_add_item_def)
qed

lemma transform_cpu_requirements:
  assumes "length ns \<le> 256"
  shows "transform_to_json (cpu_requirements ns) = Inr (cpu_document ns)"
proof -
  have "transform_item (case p of (i, n) \<Rightarrow> (word_of_nat i, (COMP_CPU, AnyUint n))) = Inr (cpu_item p)"
    if "p \<in> set (enumerate 0 ns)" for p
  proof -
    obtain i n where p: "p = (i, n)" by (cases p)
    with that assms have "i < 256" by (auto simp: in_set_enumerate_eq)
    then have "uint (word_of_nat i :: byte) = int i"
      by (simp add: unsigned_of_nat take_bit_nat_eq_self)
    then show ?thesis
      by (simp add: p transform_item_def any_cast_uint_def cpu_item_def)
  qed
  then have "map_res transform_item (map (\<lambda>(i, n). (word_of_nat i, (COMP_CPU, AnyUint n))) (enumerate 0 ns))
      = Inr (map cpu_item (enumerate 0 ns))"
    by (simp add: map_res_map map_res_Inr)
  then show ?thesis
    using assms by (simp add: transform_to_json_def cpu_requirements_items cpu_document_def)
qed

lemma cpu_document_plain: "length ns \<le> 256 \<Longrightarrow> json_plain (cpu_document ns)"
proof -
  assume len: "length ns \<le> 256"
  have "uint n < 18446744073709551616" for n :: uint32
    using uint_bounded [of n] by simp
  then show ?thesis
    using len by (auto simp: cpu_document_def cpu_item_def requirements_key_def list_all_iff
        in_set_enumerate_eq)
qed

lemma validate_cpu_items:
  assumes "libyang_validate M doc" and "k + length ns \<le> 256"
  shows "fold_res (validate_item M doc) (map cpu_item (enumerate k ns)) (int k)
           = Inr (int (k + length ns))"
  using assms(2)
proof (induction ns arbitrary: k)
  case Nil
  then show ?case by simp
next
  case (Cons n ns)
  have "sint (word_of_nat k :: uint32) = int k"
    using Cons.prems by (simp add: signed_of_nat signed_take_bit_int_eq_self)
  then have "validate_item M doc (cpu_item (k, n)) (int k) = Inr (int (Suc k))"
    using assms(1) Cons.prems
    by (simp add: validate_item_def cpu_item_def HasMember_def member_def GetObject_def GetUint_def
        first_member_def typify_def)
  then show ?case using Cons.IH [of "Suc k"] Cons.prems by simp
qed

lemma transform_cpu_items:
  assumes "k + length ns \<le> 256"
  shows "fold_res transform_to_requirement (map cpu_item (enumerate k ns)) c
     = Inr (fold (\<lambda>(i, n). RequestingCapabilities_add_item (COMP_CPU, AnyUint n) (word_of_nat i))
         (enumerate k ns) c)"
  using assms
proof (induction ns arbitrary: k c)
  case Nil
  then show ?case by simp
next
  case (Cons n ns)
  have hash: "fnvHash ''cpu_cores'' = COMP_CPU"
    by (simp add: fnvHash_eq_FnvHash COMP_CPU_def del: capability_codes)
  have "uint n < 4294967296" using uint_bounded [of n] by simp
  moreover have "ucast (word_of_nat k :: uint32) = (word_of_nat k :: byte)"
    using Cons.prems by (simp add: unsigned_of_nat take_bit_nat_eq_self)
  ultimately have "transform_to_requirement (cpu_item (k, n)) c
      = Inr (RequestingCapabilities_add_item (COMP_CPU, AnyUint n) (word_of_nat k) c)"
    using hash Cons.prems
    by (simp add: transform_to_requirement_def cpu_item_def member_def GetObject_def GetUint_def
        first_member_def Let_def del: capability_codes)
  then show ?case using Cons.IH [of "Suc k"] Cons.prems by (simp del: capability_codes)
qed

text \<open>What the properties assume of the two libraries on one document.\<close>

definition cbor_inverts :: "marshal_lib \<Rightarrow> json \<Rightarrow> bool" where
  "cbor_inverts M doc \<longleftrightarrow>
     (let c = cbor_stream_decode doc in
      cbor_serialize_alloc M c \<noteq> [] \<and> cbor_load M (cbor_serialize_alloc M c) = Some c)"

lemma unmarshal_cpu_document:
  assumes "length ns \<le> 256" "cbor_inverts M (cpu_document ns)" "libyang_validate M (cpu_document ns)"
  shows "unmarshal M (serialize_json_as_vector M (cpu_document ns)) = Inr (cpu_requirements ns)"
proof -
  let ?doc = "cpu_document ns"
  have de: "deserialize_json M (serialize_json_as_vector M ?doc) = ?doc"
    using assms(1,2) json_plain_trip [OF cpu_document_plain]
    by (simp add: deserialize_json_def serialize_json_as_vector_def cbor_inverts_def Let_def)
  have "fold_res (validate_item M ?doc) (map cpu_item (enumerate 0 ns)) 0 = Inr (int (length ns))"
    using validate_cpu_items [of M ?doc 0 ns] assms by simp
  then have "validate_yang M ?doc = Inr True"
    by (simp add: validate_yang_def cpu_document_def GetObject_def first_member_def HasMember_def
        member_def GetArray_def)
  moreover have "transform_to_requirements ?doc = Inr (cpu_requirements ns)"
    using transform_cpu_items [of 0 ns RequestingCapabilities_new] assms(1)
    by (simp add: transform_to_requirements_def cpu_document_def member_def GetObject_def GetArray_def
        cpu_requirements_def)
  moreover have "serialize_json_as_vector M ?doc \<noteq> []"
    using assms(2) by (simp add: cbor_inverts_def serialize_json_as_vector_def Let_def)
  ultimately show ?thesis using de by (simp add: unmarshal_def)
qed

section \<open>Properties\<close>

text \<open>
  C30. Requirements survive the wire: the payload built from up to 256 processor requirements,
  decoded, validated and transformed again by the receiver, gives the same requirements,
  provided that the CBOR library decodes what it encoded and the schema accepts the document.
\<close>

theorem requirements_roundtrip:
  assumes "length ns \<le> 256" "cbor_inverts M (cpu_document ns)" "libyang_validate M (cpu_document ns)"
  shows "and_then (payload_of M (cpu_requirements ns)) (unmarshal M) = Inr (cpu_requirements ns)"
  using assms by (simp add: payload_of_def transform_cpu_requirements unmarshal_cpu_document)

text \<open>The CBOR encoding of one document: maps of text keys, small unsigned integers.\<close>

definition cbor_text :: "string \<Rightarrow> byte list" where
  "cbor_text s = (if length s < 24 then [0x60 + word_of_nat (length s)] else [0x78, word_of_nat (length s)])
     @ map of_char s"

definition sample_payload :: "byte list" where
  "sample_payload = [0xA1] @ cbor_text requirements_key @ [0xA1] @ cbor_text ''items'' @ [0x81, 0xA2]
     @ cbor_text ''order'' @ [0x00] @ cbor_text ''requirement'' @ [0xA1] @ cbor_text ''cpu_cores'' @ [0x04]"

definition sample_marshal :: marshal_lib where
  "sample_marshal = \<lparr>
     cbor_serialize_alloc = (\<lambda>c. if c = cbor_stream_decode (cpu_document [4]) then sample_payload else [0xF6]),
     cbor_load = (\<lambda>bs. if bs = sample_payload then Some (cbor_stream_decode (cpu_document [4]))
                      else if bs = [0xF6] then Some CNull else None),
     libyang_validate = (\<lambda>doc. doc = cpu_document [4]) \<rparr>"

lemma sample_marshal_ok:
  "cbor_inverts sample_marshal (cpu_document [4])" "libyang_validate sample_marshal (cpu_document [4])"
  "serialize_json_as_vector sample_marshal (cpu_document [4]) = sample_payload"
  by (simp_all add: sample_marshal_def cbor_inverts_def serialize_json_as_vector_def sample_payload_def)

theorem requirements_roundtrip_witness:
  "and_then (payload_of sample_marshal (cpu_requirements [4])) (unmarshal sample_marshal)
     = Inr (cpu_requirements [4])"
  by (rule requirements_roundtrip) (simp_all add: sample_marshal_ok)

text \<open>
  Numbers below zero do not survive the wire: a negative integer of a document is decoded as
  the non-negative number \<open>- 1 - n\<close>.
\<close>

lemma negative_numbers_are_lost:
  assumes "- (2 ^ 63) \<le> n" "n < 0"
  shows "load_cbor_to_decode (cbor_stream_decode (JInt n)) = JInt (- 1 - n)"
  using assms by (rule negative_number_trip)

end
