(* ===== verification/Messages.thy ===== *)
theory Messages
  imports Identifiers Marshalling
begin

unbundle bit_operations_syntax

text \<open>
  Protocol messages (\<open>structs/message.cpp\<close>, \<open>structs/messages/\<close>,
  \<open>utils/marshalling.cpp\<close>, \<open>utils/messaging.cpp\<close>): the header, the six kinds of
  message, their octets and the parser.  A single-precision value is its 32-bit pattern,
  stored least significant octet first as on the machines the program targets.  The members a
  constructor leaves uninitialised are an argument \<open>junk\<close>: what is proved holds whatever
  they contain.
\<close>

section \<open>Header\<close>

datatype MessageType = NOTYPE | EAR | MAR | BID | ACC | REF | REP | Unlisted byte

definition message_type_of_code :: "byte \<Rightarrow> MessageType" where
  "message_type_of_code c =
     (if c = 7 then NOTYPE else if c = 0 then EAR else if c = 1 then MAR else if c = 2 then BID
      else if c = 3 then ACC else if c = 4 then REF else if c = 5 then REP else Unlisted c)"

fun message_type_code :: "MessageType \<Rightarrow> byte" where
  "message_type_code NOTYPE = 7"
| "message_type_code EAR = 0"
| "message_type_code MAR = 1"
| "message_type_code BID = 2"
| "message_type_code ACC = 3"
| "message_type_code REF = 4"
| "message_type_code REP = 5"
| "message_type_code (Unlisted c) = c"

fun message_type_to_string :: "MessageType \<Rightarrow> string res" where
  "message_type_to_string NOTYPE = Inr ''NOTYPE''"
| "message_type_to_string EAR = Inr ''EAR''"
| "message_type_to_string MAR = Inr ''MAR''"
| "message_type_to_string BID = Inr ''BID''"
| "message_type_to_string ACC = Inr ''ACC''"
| "message_type_to_string REF = Inr ''REF''"
| "message_type_to_string REP = Inr ''REP''"
| "message_type_to_string (Unlisted c) = Inl UndefinedBehaviour"

record header =
  hdr_version :: byte
  hdr_type :: MessageType
  hdr_reserved_field :: byte
  hdr_uuid :: UUIDv4

definition RANK_HEADER_LEN :: nat where "RANK_HEADER_LEN = 17"
definition RANK_UUID_LENGTH :: nat where "RANK_UUID_LENGTH = 16"
definition RANK_HEADER_VERSION :: byte where "RANK_HEADER_VERSION = 1"
definition RANK_LISTENER_MAX_LEN :: nat where "RANK_LISTENER_MAX_LEN = 16"

definition Header :: "byte \<Rightarrow> MessageType \<Rightarrow> UUIDv4 \<Rightarrow> header" where
  "Header version type uuid =
     \<lparr> hdr_version = version, hdr_type = type, hdr_reserved_field = 0, hdr_uuid = uuid \<rparr>"

definition Header_default :: header where
  "Header_default = Header RANK_HEADER_VERSION NOTYPE 0"

definition unmarshal_header :: "ulid_lib \<Rightarrow> byte list \<Rightarrow> header" where
  "unmarshal_header L data =
     (let version = drop_bit 6 (data ! 0) AND 3;
          type = message_type_of_code (drop_bit 2 (data ! 0) AND 15);
          marshalled_uuid = take RANK_UUID_LENGTH (drop 1 data)
      in Header version type (unmarshall_from_vector L marshalled_uuid))"

definition marshal_header :: "ulid_lib \<Rightarrow> header \<Rightarrow> byte list res" where
  "marshal_header L h =
     (let first_byte = push_bit 6 (hdr_version h AND 3)
                       OR push_bit 2 (message_type_code (hdr_type h) AND 15);
          marshalled_uuid = marshall_into_vector L (hdr_uuid h)
      in and_then (read_loop marshalled_uuid 0 RANK_UUID_LENGTH) (\<lambda>u. Inr (first_byte # u)))"

section \<open>Message kinds\<close>

text \<open>\<open>EAR\<close> and \<open>MAR\<close> have the same members.\<close>

record request =
  req_header :: header
  req_priority :: byte
  req_listener_length :: byte
  req_reserved :: byte
  req_listener :: "byte list"
  req_payload_length :: uint16
  req_payload :: "byte list"

record bid_message =
  bid_header :: header
  bid_value :: uint32

record rep_message =
  rep_header :: header
  rep_listener_length :: byte
  rep_reserved :: byte
  rep_listener :: "byte list"

datatype Message =
    EAR_msg request
  | MAR_msg request
  | BID_msg bid_message
  | ACC_msg header
  | REF_msg header
  | REP_msg rep_message

fun Message_header :: "Message \<Rightarrow> header" where
  "Message_header (EAR_msg r) = req_header r"
| "Message_header (MAR_msg r) = req_header r"
| "Message_header (BID_msg b) = bid_header b"
| "Message_header (ACC_msg h) = h"
| "Message_header (REF_msg h) = h"
| "Message_header (REP_msg r) = rep_header r"

definition Message_type :: "Message \<Rightarrow> MessageType" where
  "Message_type m = hdr_type (Message_header m)"

definition Message_uuid :: "Message \<Rightarrow> UUIDv4" where
  "Message_uuid m = hdr_uuid (Message_header m)"

definition Message_version :: "Message \<Rightarrow> byte" where
  "Message_version m = hdr_version (Message_header m)"

text \<open>Length codes of the listener field and the octets each stands for.\<close>

definition LT_CODE_0 :: byte where "LT_CODE_0 = 0"
definition LT_IP4 :: byte where "LT_IP4 = 2"
definition LT_MAC :: byte where "LT_MAC = 3"
definition LT_IP6 :: byte where "LT_IP6 = 4"
definition LT_DDS :: byte where "LT_DDS = 5"

definition SIMUZILLA_ADDR_LEN :: nat where "SIMUZILLA_ADDR_LEN = 1"
definition IPV4_ADDR_LEN :: nat where "IPV4_ADDR_LEN = 4"
definition MAC_ADDR_LEN :: nat where "MAC_ADDR_LEN = 6"
definition IPV6_ADDR_LEN :: nat where "IPV6_ADDR_LEN = 16"
definition DDS_ADDR_LEN :: nat where "DDS_ADDR_LEN = 16"

lemmas length_codes [simp] =
  LT_CODE_0_def LT_IP4_def LT_MAC_def LT_IP6_def LT_DDS_def
  SIMUZILLA_ADDR_LEN_def IPV4_ADDR_LEN_def MAC_ADDR_LEN_def IPV6_ADDR_LEN_def DDS_ADDR_LEN_def
  RANK_HEADER_LEN_def RANK_UUID_LENGTH_def RANK_LISTENER_MAX_LEN_def

section \<open>Constructors\<close>

definition EAR_new ::
  "UUIDv4 \<Rightarrow> byte \<Rightarrow> byte \<Rightarrow> byte list \<Rightarrow> uint16 \<Rightarrow> byte list \<Rightarrow> Message" where
  "EAR_new uuid priority listener_length listener payload_length payload =
     EAR_msg \<lparr> req_header = Header RANK_HEADER_VERSION EAR uuid, req_priority = priority,
       req_listener_length = listener_length, req_reserved = 0, req_listener = listener,
       req_payload_length = payload_length, req_payload = payload \<rparr>"

definition EAR_with_header ::
  "header \<Rightarrow> byte \<Rightarrow> byte \<Rightarrow> byte list \<Rightarrow> uint16 \<Rightarrow> byte list \<Rightarrow> Message" where
  "EAR_with_header h priority listener_length listener payload_length payload =
     EAR_msg \<lparr> req_header = h, req_priority = priority,
       req_listener_length = listener_length, req_reserved = 0, req_listener = listener,
       req_payload_length = payload_length, req_payload = payload \<rparr>"

text \<open>From requirements: the payload length is the size of the payload at 16 bits.\<close>

definition EAR_of_requirements ::
  "marshal_lib \<Rightarrow> UUIDv4 \<Rightarrow> byte \<Rightarrow> byte \<Rightarrow> byte list \<Rightarrow> requesting_capabilities \<Rightarrow> Message res" where
  "EAR_of_requirements M uuid priority listener_length listener requirements =
     and_then (payload_of M requirements) (\<lambda>payload.
       Inr (EAR_new uuid priority listener_length listener (word_of_nat (length payload)) payload))"

definition MAR_new ::
  "UUIDv4 \<Rightarrow> byte \<Rightarrow> byte \<Rightarrow> byte list \<Rightarrow> uint16 \<Rightarrow> byte list \<Rightarrow> Message" where
  "MAR_new uuid priority listener_length listener payload_length payload =
     MAR_msg \<lparr> req_header = Header RANK_HEADER_VERSION MAR uuid, req_priority = priority,
       req_listener_length = listener_length, req_reserved = 0, req_listener = listener,
       req_payload_length = payload_length, req_payload = payload \<rparr>"

definition MAR_of_requirements ::
  "marshal_lib \<Rightarrow> UUIDv4 \<Rightarrow> byte \<Rightarrow> byte \<Rightarrow> byte list \<Rightarrow> requesting_capabilities \<Rightarrow> Message res" where
  "MAR_of_requirements M uuid priority listener_length listener requirements =
     and_then (payload_of M requirements) (\<lambda>payload.
       Inr (MAR_new uuid priority listener_length listener (word_of_nat (length payload)) payload))"

definition BID_new :: "UUIDv4 \<Rightarrow> uint32 \<Rightarrow> Message" where
  "BID_new uuid v = BID_msg \<lparr> bid_header = Header RANK_HEADER_VERSION BID uuid, bid_value = v \<rparr>"

definition ACC_new :: "UUIDv4 \<Rightarrow> Message" where
  "ACC_new uuid = ACC_msg (Header RANK_HEADER_VERSION ACC uuid)"

definition REF_new :: "UUIDv4 \<Rightarrow> Message" where
  "REF_new uuid = REF_msg (Header RANK_HEADER_VERSION REF uuid)"

text \<open>\<open>REP\<close> leaves its reserved bits uninitialised.\<close>

definition REP_new :: "byte \<Rightarrow> UUIDv4 \<Rightarrow> byte \<Rightarrow> byte list \<Rightarrow> Message" where
  "REP_new junk uuid listener_length listener =
     REP_msg \<lparr> rep_header = Header RANK_HEADER_VERSION REP uuid, rep_listener_length = listener_length,
       rep_reserved = junk, rep_listener = listener \<rparr>"

text \<open>
  From a vector: \<open>copy_n\<close> of \<open>listener_length\<close> octets into the 16-octet array, which is
  undefined past the end of either.
\<close>

definition REP_of_vector :: "byte \<Rightarrow> UUIDv4 \<Rightarrow> byte \<Rightarrow> byte list \<Rightarrow> Message res" where
  "REP_of_vector junk uuid listener_length listener =
     (let n = unat listener_length in
      if n \<le> length listener \<and> n \<le> RANK_LISTENER_MAX_LEN
      then Inr (REP_new junk uuid listener_length
                  (take n listener @ replicate (RANK_LISTENER_MAX_LEN - n) 0))
      else Inl UndefinedBehaviour)"

section \<open>Parsing\<close>

definition uint16_of_bytes :: "byte \<Rightarrow> byte \<Rightarrow> uint16" where
  "uint16_of_bytes hi lo = push_bit 8 (ucast hi) OR ucast lo"

text \<open>
  One arm of the \<open>switch\<close> on the listener length: \<open>n\<close> octets of listener, two of payload
  length, and the payload.
\<close>

definition parse_listener :: "byte list \<Rightarrow> nat \<Rightarrow> byte list \<Rightarrow> (byte list \<times> uint16 \<times> byte list) res" where
  "parse_listener junk n data =
     and_then (copy_loop data 1 0 n junk) (\<lambda>listener.
     and_then (vec_at data (1 + n)) (\<lambda>hi.
     and_then (vec_at data (1 + n + 1)) (\<lambda>lo.
     let payload_length = uint16_of_bytes hi lo in
     and_then (read_loop data (1 + n + 2) (unat payload_length)) (\<lambda>payload.
       Inr (listener, payload_length, payload)))))"

definition EAR_parse :: "byte list \<Rightarrow> header \<Rightarrow> byte list \<Rightarrow> request res" where
  "EAR_parse junk h data =
     and_then (vec_at data 0) (\<lambda>first.
     let priority = drop_bit 5 first AND 7; listener_length = drop_bit 2 first AND 7 in
     and_then
       (if listener_length = LT_CODE_0 then parse_listener junk SIMUZILLA_ADDR_LEN data
        else if listener_length = LT_IP4 then parse_listener junk IPV4_ADDR_LEN data
        else if listener_length = LT_MAC then parse_listener junk MAC_ADDR_LEN data
        else if listener_length = LT_IP6 then parse_listener junk IPV6_ADDR_LEN data
        else if listener_length = LT_DDS then parse_listener junk DDS_ADDR_LEN data
        else Inl StdException)
       (\<lambda>(listener, payload_length, payload).
          Inr \<lparr> req_header = h, req_priority = priority, req_listener_length = listener_length,
                req_reserved = 0, req_listener = listener,
                req_payload_length = payload_length, req_payload = payload \<rparr>))"

definition MAR_parse :: "byte list \<Rightarrow> header \<Rightarrow> byte list \<Rightarrow> request res" where
  "MAR_parse junk h data =
     and_then (vec_at data 0) (\<lambda>first.
     let priority = drop_bit 5 first AND 7; listener_length = drop_bit 2 first AND 7 in
     and_then
       (if listener_length = LT_CODE_0 then parse_listener junk SIMUZILLA_ADDR_LEN data
        else if listener_length = LT_IP4 then parse_listener junk IPV4_ADDR_LEN data
        else if listener_length = LT_MAC then parse_listener junk MAC_ADDR_LEN data
        else if listener_length = LT_IP6 then parse_listener junk IPV6_ADDR_LEN data
        else if listener_length = LT_DDS then parse_listener junk DDS_ADDR_LEN data
        else Inl StdException)
       (\<lambda>(listener, payload_length, payload).
          Inr \<lparr> req_header = h, req_priority = priority, req_listener_length = listener_length,
                req_reserved = 0, req_listener = listener,
                req_payload_length = payload_length, req_payload = payload \<rparr>))"

definition REP_parse :: "header \<Rightarrow> byte list \<Rightarrow> rep_message res" where
  "REP_parse h data =
     and_then (vec_at data 0) (\<lambda>first.
     let listener_length = drop_bit 5 first AND 7; zeros = replicate RANK_LISTENER_MAX_LEN 0 in
     and_then
       (if listener_length = LT_CODE_0 then copy_loop data 1 0 SIMUZILLA_ADDR_LEN zeros
        else if listener_length = LT_IP4 then copy_loop data 1 0 IPV4_ADDR_LEN zeros
        else if listener_length = LT_MAC then copy_loop data 1 0 MAC_ADDR_LEN zeros
        else if listener_length = LT_IP6 then copy_loop data 1 0 IPV6_ADDR_LEN zeros
        else if listener_length = LT_DDS then copy_loop data 1 0 DDS_ADDR_LEN zeros
        else Inl StdException)
       (\<lambda>listener. Inr \<lparr> rep_header = h, rep_listener_length = listener_length,
                          rep_reserved = 0, rep_listener = listener \<rparr>))"

fun le_word :: "byte list \<Rightarrow> uint32" where
  "le_word [] = 0"
| "le_word (b # bs) = push_bit 8 (le_word bs) OR ucast b"

definition float_bytes :: "uint32 \<Rightarrow> byte list" where
  "float_bytes v = [ucast v, ucast (drop_bit 8 v), ucast (drop_bit 16 v), ucast (drop_bit 24 v)]"

definition BID_parse :: "header \<Rightarrow> byte list \<Rightarrow> bid_message res" where
  "BID_parse h data =
     and_then (read_loop data 0 4) (\<lambda>v. Inr \<lparr> bid_header = h, bid_value = le_word v \<rparr>)"

text \<open>
  \<open>ntohs\<close> on one octet: on a little-endian host the octet moves to the upper half of the
  16-bit result, and storing that in an octet keeps the lower half.
\<close>

definition ntohs_byte :: "byte \<Rightarrow> byte" where
  "ntohs_byte b = (let w = ucast b :: uint16 in ucast (push_bit 8 w OR drop_bit 8 w))"

definition parse_message_from_bytes ::
  "ulid_lib \<Rightarrow> byte list \<Rightarrow> byte list \<Rightarrow> bool \<Rightarrow> Message option res" where
  "parse_message_from_bytes L junk bytes from_network =
     (if length bytes < RANK_HEADER_LEN then Inr None
      else
        let bytes = (if from_network then map ntohs_byte bytes else bytes);
            h = unmarshal_header L (take RANK_HEADER_LEN bytes);
            message_content = drop RANK_HEADER_LEN bytes
        in case hdr_type h of
             NOTYPE \<Rightarrow> Inr None
           | EAR \<Rightarrow> and_then (EAR_parse junk h message_content) (\<lambda>m. Inr (Some (EAR_msg m)))
           | MAR \<Rightarrow> and_then (MAR_parse junk h message_content) (\<lambda>m. Inr (Some (MAR_msg m)))
           | BID \<Rightarrow> and_then (BID_parse h message_content) (\<lambda>m. Inr (Some (BID_msg m)))
           | ACC \<Rightarrow> Inr (Some (ACC_msg h))
           | REF \<Rightarrow> Inr (Some (REF_msg h))
           | REP \<Rightarrow> and_then (REP_parse h message_content) (\<lambda>m. Inr (Some (REP_msg m)))
           | Unlisted c \<Rightarrow> Inr None)"

section \<open>Octets of a message\<close>

text \<open>
  \<open>raw_payload\<close> answers the empty vector for a listener length without an address family.
\<close>

definition EAR_raw_payload :: "ulid_lib \<Rightarrow> request \<Rightarrow> byte list res" where
  "EAR_raw_payload L m =
     and_then (marshal_header L (req_header m)) (\<lambda>marshalled_array.
     let first_byte = push_bit 5 (req_priority m) OR push_bit 2 (req_listener_length m AND 7)
                      OR (req_reserved m AND 3);
         rest = [ucast (drop_bit 8 (req_payload_length m)), ucast (req_payload_length m)]
                @ req_payload m;
         len = req_listener_length m in
       if len = LT_CODE_0 then Inr (marshalled_array @ first_byte # take SIMUZILLA_ADDR_LEN (req_listener m) @ rest)
       else if len = LT_IP4 then Inr (marshalled_array @ first_byte # take IPV4_ADDR_LEN (req_listener m) @ rest)
       else if len = LT_MAC then Inr (marshalled_array @ first_byte # take MAC_ADDR_LEN (req_listener m) @ rest)
       else if len = LT_IP6 then Inr (marshalled_array @ first_byte # take IPV6_ADDR_LEN (req_listener m) @ rest)
       else if len = LT_DDS then Inr (marshalled_array @ first_byte # take DDS_ADDR_LEN (req_listener m) @ rest)
       else Inr [])"

definition MAR_raw_payload :: "ulid_lib \<Rightarrow> request \<Rightarrow> byte list res" where
  "MAR_raw_payload L m =
     and_then (marshal_header L (req_header m)) (\<lambda>marshalled_array.
     let first_byte = push_bit 5 (req_priority m) OR push_bit 2 (req_listener_length m AND 7)
                      OR (req_reserved m AND 3);
         rest = [ucast (drop_bit 8 (req_payload_length m)), ucast (req_payload_length m)]
                @ req_payload m;
         len = req_listener_length m in
       if len = LT_CODE_0 then Inr (marshalled_array @ first_byte # take SIMUZILLA_ADDR_LEN (req_listener m) @ rest)
       else if len = LT_IP4 then Inr (marshalled_array @ first_byte # take IPV4_ADDR_LEN (req_listener m) @ rest)
       else if len = LT_MAC then Inr (marshalled_array @ first_byte # take MAC_ADDR_LEN (req_listener m) @ rest)
       else if len = LT_IP6 then Inr (marshalled_array @ first_byte # take IPV6_ADDR_LEN (req_listener m) @ rest)
       else if len = LT_DDS then Inr (marshalled_array @ first_byte # take DDS_ADDR_LEN (req_listener m) @ rest)
       else Inr [])"

definition REP_raw_payload :: "ulid_lib \<Rightarrow> rep_message \<Rightarrow> byte list res" where
  "REP_raw_payload L m =
     and_then (marshal_header L (rep_header m)) (\<lambda>marshalled_array.
     let first_byte = push_bit 5 (rep_listener_length m AND 7) OR (rep_reserved m AND 3);
         len = rep_listener_length m in
       if len = LT_CODE_0 then Inr (marshalled_array @ first_byte # take SIMUZILLA_ADDR_LEN (rep_listener m))
       else if len = LT_IP4 then Inr (marshalled_array @ first_byte # take IPV4_ADDR_LEN (rep_listener m))
       else if len = LT_MAC then Inr (marshalled_array @ first_byte # take MAC_ADDR_LEN (rep_listener m))
       else if len = LT_IP6 then Inr (marshalled_array @ first_byte # take IPV6_ADDR_LEN (rep_listener m))
       else if len = LT_DDS then Inr (marshalled_array @ first_byte # take DDS_ADDR_LEN (rep_listener m))
       else Inr [])"

definition BID_raw_payload :: "ulid_lib \<Rightarrow> bid_message \<Rightarrow> byte list res" where
  "BID_raw_payload L m =
     and_then (marshal_header L (bid_header m)) (\<lambda>marshalled_array.
       Inr (marshalled_array @ float_bytes (bid_value m)))"

definition ACC_raw_payload :: "ulid_lib \<Rightarrow> header \<Rightarrow> byte list res" where
  "ACC_raw_payload L h = marshal_header L h"

definition REF_raw_payload :: "ulid_lib \<Rightarrow> header \<Rightarrow> byte list res" where
  "REF_raw_payload L h = marshal_header L h"

fun raw_payload :: "ulid_lib \<Rightarrow> Message \<Rightarrow> byte list res" where
  "raw_payload L (EAR_msg m) = EAR_raw_payload L m"
| "raw_payload L (MAR_msg m) = MAR_raw_payload L m"
| "raw_payload L (BID_msg m) = BID_raw_payload L m"
| "raw_payload L (ACC_msg h) = ACC_raw_payload L h"
| "raw_payload L (REF_msg h) = REF_raw_payload L h"
| "raw_payload L (REP_msg m) = REP_raw_payload L m"

section \<open>Accessors\<close>

text \<open>
  \<open>listener()\<close> copies as many octets as the length code says, not as many as the address
  family has; code 0 stands for one octet.
\<close>

definition EAR_listener :: "request \<Rightarrow> byte list res" where
  "EAR_listener m =
     (if req_listener_length m = LT_CODE_0
      then and_then (vec_at (req_listener m) 0) (\<lambda>b. Inr [b])
      else read_loop (req_listener m) 0 (unat (req_listener_length m)))"

definition MAR_listener :: "request \<Rightarrow> byte list res" where
  "MAR_listener m =
     (if req_listener_length m = LT_CODE_0
      then and_then (vec_at (req_listener m) 0) (\<lambda>b. Inr [b])
      else read_loop (req_listener m) 0 (unat (req_listener_length m)))"

definition REP_listener :: "rep_message \<Rightarrow> byte list res" where
  "REP_listener m =
     (if rep_listener_length m = LT_CODE_0
      then and_then (vec_at (rep_listener m) 0) (\<lambda>b. Inr [b])
      else read_loop (rep_listener m) 0 (unat (rep_listener_length m)))"

definition EAR_requirements :: "marshal_lib \<Rightarrow> request \<Rightarrow> requesting_capabilities res" where
  "EAR_requirements M m = unmarshal M (req_payload m)"

definition MAR_requirements :: "marshal_lib \<Rightarrow> request \<Rightarrow> requesting_capabilities res" where
  "MAR_requirements M m = unmarshal M (req_payload m)"

text \<open>The array is not initialised; a longer connection writes past its end.\<close>

definition listener_message_format :: "byte list \<Rightarrow> byte list \<Rightarrow> byte list res" where
  "listener_message_format junk connection =
     (if length connection \<le> RANK_LISTENER_MAX_LEN
      then Inr (connection @ drop (length connection) junk)
      else Inl UndefinedBehaviour)"

definition make_payload_length :: "requesting_capabilities \<Rightarrow> uint16" where
  "make_payload_length capabilities = 0"

definition make_payload :: "requesting_capabilities \<Rightarrow> byte list" where
  "make_payload capabilities = []"

section \<open>Bit layout\<close>

lemma byte_masks: "(3 :: byte) = mask 2" "(7 :: byte) = mask 3" "(15 :: byte) = mask 4"
  by (simp_all add: mask_eq_exp_minus_1)

lemma header_byte_version [word_codec]:
  "drop_bit 6 (push_bit 6 (v AND 3) OR push_bit 2 (c AND 15)) AND 3 = (v AND 3 :: byte)"
  unfolding byte_masks by (rule bit_word_eqI) (auto simp: bit_simps)

lemma header_byte_type [word_codec]:
  "drop_bit 2 (push_bit 6 (v AND 3) OR push_bit 2 (c AND 15)) AND 15 = (c AND 15 :: byte)"
  unfolding byte_masks by (rule bit_word_eqI) (auto simp: bit_simps)

lemma request_byte_priority [word_codec]:
  "drop_bit 5 (push_bit 5 p OR push_bit 2 (l AND 7) OR (r AND 3)) AND 7 = (p AND 7 :: byte)"
  unfolding byte_masks by (rule bit_word_eqI) (auto simp: bit_simps)

lemma request_byte_length [word_codec]:
  "drop_bit 2 (push_bit 5 p OR push_bit 2 (l AND 7) OR (r AND 3)) AND 7 = (l AND 7 :: byte)"
  unfolding byte_masks by (rule bit_word_eqI) (auto simp: bit_simps)

lemma rep_byte_length [word_codec]:
  "drop_bit 5 (push_bit 5 (l AND 7) OR (r AND 3)) AND 7 = (l AND 7 :: byte)"
  unfolding byte_masks by (rule bit_word_eqI) (auto simp: bit_simps)

lemma uint16_of_bytes_split [word_codec]: "uint16_of_bytes (ucast (drop_bit 8 w)) (ucast w) = w"
  unfolding uint16_of_bytes_def by (rule bit_word_eqI) (auto simp: bit_simps)

lemma le_word_float_bytes [word_codec]: "le_word (float_bytes v) = v"
proof (rule bit_word_eqI)
  fix n :: nat
  assume "n < LENGTH(32)"
  then consider "n < 8" | "8 \<le> n" "n < 16" | "16 \<le> n" "n < 24" | "24 \<le> n" "n < 32"
    by (simp, linarith)
  then show "bit (le_word (float_bytes v)) n \<longleftrightarrow> bit v n"
    by cases (auto simp: float_bytes_def bit_simps)
qed

lemma ntohs_byte_0 [simp]: "ntohs_byte b = 0"
  unfolding ntohs_byte_def Let_def
  by (rule bit_word_eqI) (auto simp: bit_simps dest: bit_imp_le_length)

section \<open>Round trips\<close>

text \<open>The octets a listener length code stands for.\<close>

definition addr_len :: "byte \<Rightarrow> nat option" where
  "addr_len code =
     (if code = LT_CODE_0 then Some SIMUZILLA_ADDR_LEN else if code = LT_IP4 then Some IPV4_ADDR_LEN
      else if code = LT_MAC then Some MAC_ADDR_LEN else if code = LT_IP6 then Some IPV6_ADDR_LEN
      else if code = LT_DDS then Some DDS_ADDR_LEN else None)"

lemma addr_len_cases:
  assumes "addr_len code = Some n"
  obtains "code = LT_CODE_0" "n = SIMUZILLA_ADDR_LEN" | "code = LT_IP4" "n = IPV4_ADDR_LEN"
  | "code = LT_MAC" "n = MAC_ADDR_LEN" | "code = LT_IP6" "n = IPV6_ADDR_LEN"
  | "code = LT_DDS" "n = DDS_ADDR_LEN"
  using assms unfolding addr_len_def by (auto split: if_splits)

lemma addr_len_and_7: "addr_len code = Some n \<Longrightarrow> code AND 7 = code \<and> n \<le> 16"
  by (erule addr_len_cases) simp_all

definition header_ok :: "header \<Rightarrow> bool" where
  "header_ok h \<longleftrightarrow> hdr_version h < 4 \<and> hdr_reserved_field h = 0 \<and>
     message_type_code (hdr_type h) < 16 \<and>
     message_type_of_code (message_type_code (hdr_type h)) = hdr_type h"

lemma and_mask_less: "(w :: byte) < 4 \<Longrightarrow> w AND 3 = w" "(w :: byte) < 8 \<Longrightarrow> w AND 7 = w"
    "(w :: byte) < 16 \<Longrightarrow> w AND 15 = w"
proof -
  have "w AND mask n = w" if "unat w < 2 ^ n" for n
    using that by (simp add: take_bit_eq_mask [symmetric] word_unat_eq_iff unsigned_take_bit_eq
        take_bit_nat_eq_self)
  then show "w < 4 \<Longrightarrow> w AND 3 = w" "w < 8 \<Longrightarrow> w AND 7 = w" "w < 16 \<Longrightarrow> w AND 15 = w"
    unfolding byte_masks by (simp_all add: word_less_nat_alt)
qed

lemma message_type_of_code_code [simp]:
  "t \<in> {NOTYPE, EAR, MAR, BID, ACC, REF, REP} \<Longrightarrow> message_type_of_code (message_type_code t) = t"
  by (auto simp: message_type_of_code_def)

lemma marshal_header_Inr:
  "ulid_ok L \<Longrightarrow> \<exists>b u. marshal_header L h = Inr (b # u) \<and> length u = 16 \<and> u = marshall_into_vector L (hdr_uuid h)
     \<and> b = push_bit 6 (hdr_version h AND 3) OR push_bit 2 (message_type_code (hdr_type h) AND 15)"
  by (simp add: marshal_header_def read_loop_in)

interpretation header_codec: fixed_codec "marshal_header L" "\<lambda>bs. Inr (unmarshal_header L bs)"
  "\<lambda>h. ulid_ok L \<and> header_ok h" 17 for L
proof
  fix h
  assume ok: "ulid_ok L \<and> header_ok h"
  then obtain b u where m: "marshal_header L h = Inr (b # u)" "length u = 16"
    "u = marshall_into_vector L (hdr_uuid h)"
    and b: "b = push_bit 6 (hdr_version h AND 3) OR push_bit 2 (message_type_code (hdr_type h) AND 15)"
    using marshal_header_Inr by blast
  have "drop_bit 6 b AND 3 = hdr_version h" "drop_bit 2 b AND 15 = message_type_code (hdr_type h)"
    unfolding b header_byte_version header_byte_type using ok by (simp_all add: header_ok_def and_mask_less)
  then show "and_then (marshal_header L h) (\<lambda>bs. Inr (unmarshal_header L bs)) = Inr h"
    using m ok by (simp add: unmarshal_header_def Let_def Header_def header_ok_def)
  show "length bs = 17" if "marshal_header L h = Inr bs" for bs
    using that ok marshal_header_Inr [of L h] by auto
qed

text \<open>Well-formed messages of each kind, and what the receiver of a request reconstructs.\<close>

definition request_ok :: "MessageType \<Rightarrow> request \<Rightarrow> bool" where
  "request_ok t m \<longleftrightarrow> header_ok (req_header m) \<and> hdr_type (req_header m) = t \<and>
     req_priority m < 8 \<and> addr_len (req_listener_length m) \<noteq> None \<and> req_reserved m = 0 \<and>
     length (req_listener m) = 16 \<and> unat (req_payload_length m) = length (req_payload m)"

definition request_received :: "byte list \<Rightarrow> request \<Rightarrow> request" where
  "request_received junk m =
     (let n = the (addr_len (req_listener_length m)) in
      m \<lparr> req_listener := take n (req_listener m) @ drop n junk \<rparr>)"

definition rep_ok :: "rep_message \<Rightarrow> bool" where
  "rep_ok m \<longleftrightarrow> header_ok (rep_header m) \<and> hdr_type (rep_header m) = REP \<and> rep_reserved m = 0 \<and>
     length (rep_listener m) = 16 \<and>
     (\<exists>n. addr_len (rep_listener_length m) = Some n \<and> drop n (rep_listener m) = replicate (16 - n) 0)"

lemma parse_listener_frame:
  assumes "length a = n" "n \<le> length junk" "unat pl = length payload"
  shows "parse_listener junk n
           (b # a @ [ucast (drop_bit 8 pl), ucast pl] @ payload @ extra)
         = Inr (a @ drop n junk, pl, payload)"
proof -
  let ?data = "b # a @ [ucast (drop_bit 8 pl), ucast pl] @ payload @ extra"
  have "copy_loop ?data 1 0 n junk = Inr (a @ drop n junk)"
    using assms copy_loop_app [of a n junk b] by simp
  moreover have "vec_at ?data (1 + n) = Inr (ucast (drop_bit 8 pl))" "vec_at ?data (1 + n + 1) = Inr (ucast pl)"
    using assms by (simp_all add: nth_append)
  moreover have "read_loop ?data (1 + n + 2) (length payload) = Inr payload"
    using assms by (simp add: read_loop_in)
  ultimately show ?thesis
    using assms by (simp add: parse_listener_def Let_def uint16_of_bytes_split)
qed

lemma EAR_parse_frame:
  assumes "addr_len l = Some n" "length a = n" "n \<le> length junk" "unat pl = length payload"
    "drop_bit 5 b AND 7 = p" "drop_bit 2 b AND 7 = l"
  shows "EAR_parse junk h (b # a @ [ucast (drop_bit 8 pl), ucast pl] @ payload @ extra)
    = Inr \<lparr> req_header = h, req_priority = p, req_listener_length = l, req_reserved = 0,
            req_listener = a @ drop n junk, req_payload_length = pl, req_payload = payload \<rparr>"
  using assms(1)
  by (rule addr_len_cases)
    (use parse_listener_frame [of a n junk pl payload b extra] assms in
      \<open>simp_all add: EAR_parse_def\<close>)

lemma MAR_parse_eq: "MAR_parse = EAR_parse"
  by (simp add: fun_eq_iff MAR_parse_def EAR_parse_def)

lemma MAR_raw_payload_eq: "MAR_raw_payload = EAR_raw_payload"
  by (simp add: fun_eq_iff MAR_raw_payload_def EAR_raw_payload_def)

lemma EAR_raw_payload_frame:
  assumes "addr_len (req_listener_length m) = Some n" "marshal_header L (req_header m) = Inr hb"
  shows "EAR_raw_payload L m = Inr (hb @
     (push_bit 5 (req_priority m) OR push_bit 2 (req_listener_length m AND 7) OR (req_reserved m AND 3))
     # take n (req_listener m) @
     [ucast (drop_bit 8 (req_payload_length m)), ucast (req_payload_length m)] @ req_payload m)"
  using assms(1) by (rule addr_len_cases) (use assms(2) in \<open>simp_all add: EAR_raw_payload_def Let_def\<close>)

lemma request_trip:
  assumes "ulid_ok L" "request_ok t m" "length junk = 16"
  shows "\<exists>hb body. EAR_raw_payload L m = Inr (hb @ body) \<and> marshal_header L (req_header m) = Inr hb \<and>
     EAR_parse junk (req_header m) (body @ extra) = Inr (request_received junk m)"
proof -
  obtain hb where hb: "marshal_header L (req_header m) = Inr hb"
    using assms(1) marshal_header_Inr by blast
  obtain n where n: "addr_len (req_listener_length m) = Some n"
    using assms(2) by (auto simp: request_ok_def)
  define b where "b = push_bit 5 (req_priority m) OR push_bit 2 (req_listener_length m AND 7)
     OR (req_reserved m AND 3)"
  have bits: "drop_bit 5 b AND 7 = req_priority m" "drop_bit 2 b AND 7 = req_listener_length m"
    unfolding b_def request_byte_priority request_byte_length
    using assms(2) addr_len_and_7 [OF n] by (simp_all add: request_ok_def and_mask_less)
  have "EAR_parse junk (req_header m) ((b # take n (req_listener m) @
     [ucast (drop_bit 8 (req_payload_length m)), ucast (req_payload_length m)] @ req_payload m) @ extra)
     = Inr (request_received junk m)"
    using EAR_parse_frame [OF n _ _ _ bits, of "take n (req_listener m)" junk "req_payload_length m"
        "req_payload m" "req_header m" extra] assms(2,3) addr_len_and_7 [OF n]
    by (simp add: request_received_def n request_ok_def)
  then show ?thesis
    using EAR_raw_payload_frame [OF n hb, folded b_def] hb by blast
qed

lemma rep_trip:
  assumes "ulid_ok L" "rep_ok m"
  shows "\<exists>hb body. REP_raw_payload L m = Inr (hb @ body) \<and> marshal_header L (rep_header m) = Inr hb \<and>
     REP_parse (rep_header m) (body @ extra) = Inr m"
proof -
  obtain hb where hb: "marshal_header L (rep_header m) = Inr hb"
    using assms(1) marshal_header_Inr by blast
  obtain n where n: "addr_len (rep_listener_length m) = Some n"
    and tail: "drop n (rep_listener m) = replicate (16 - n) 0"
    using assms(2) by (auto simp: rep_ok_def)
  define b where "b = push_bit 5 (rep_listener_length m AND 7) OR (rep_reserved m AND 3)"
  have bits: "drop_bit 5 b AND 7 = rep_listener_length m"
    unfolding b_def rep_byte_length using addr_len_and_7 [OF n] by simp
  have raw: "REP_raw_payload L m = Inr (hb @ b # take n (rep_listener m))"
    using n by (rule addr_len_cases) (use hb in \<open>simp_all add: REP_raw_payload_def b_def Let_def\<close>)
  have copy: "copy_loop (b # take n (rep_listener m) @ extra) 1 0 n (replicate 16 0) = Inr (rep_listener m)"
    using copy_loop_app [of "take n (rep_listener m)" n "replicate 16 0" b extra] tail assms(2)
      addr_len_and_7 [OF n]
    by (simp add: rep_ok_def) (metis append_take_drop_id)
  have "REP_parse (rep_header m) ((b # take n (rep_listener m)) @ extra) = Inr m"
    using n by (rule addr_len_cases)
      (use copy bits assms(2) in \<open>simp_all add: REP_parse_def Let_def rep_ok_def\<close>)
  then show ?thesis using raw hb by blast
qed

fun message_ok :: "Message \<Rightarrow> bool" where
  "message_ok (EAR_msg m) = request_ok EAR m"
| "message_ok (MAR_msg m) = request_ok MAR m"
| "message_ok (BID_msg m) = (header_ok (bid_header m) \<and> hdr_type (bid_header m) = BID)"
| "message_ok (ACC_msg h) = (header_ok h \<and> hdr_type h = ACC)"
| "message_ok (REF_msg h) = (header_ok h \<and> hdr_type h = REF)"
| "message_ok (REP_msg m) = rep_ok m"

fun message_received :: "byte list \<Rightarrow> Message \<Rightarrow> Message" where
  "message_received junk (EAR_msg m) = EAR_msg (request_received junk m)"
| "message_received junk (MAR_msg m) = MAR_msg (request_received junk m)"
| "message_received junk m = m"

lemma parse_message_frame:
  assumes "ulid_ok L" "header_ok h" "marshal_header L h = Inr hb"
  shows "parse_message_from_bytes L junk (hb @ body) False =
     (case hdr_type h of
        NOTYPE \<Rightarrow> Inr None
      | EAR \<Rightarrow> and_then (EAR_parse junk h body) (\<lambda>m. Inr (Some (EAR_msg m)))
      | MAR \<Rightarrow> and_then (MAR_parse junk h body) (\<lambda>m. Inr (Some (MAR_msg m)))
      | BID \<Rightarrow> and_then (BID_parse h body) (\<lambda>m. Inr (Some (BID_msg m)))
      | ACC \<Rightarrow> Inr (Some (ACC_msg h))
      | REF \<Rightarrow> Inr (Some (REF_msg h))
      | REP \<Rightarrow> and_then (REP_parse h body) (\<lambda>m. Inr (Some (REP_msg m)))
      | Unlisted c \<Rightarrow> Inr None)"
proof -
  have "length hb = 17" using assms header_codec.enc_length by blast
  moreover have "unmarshal_header L (take 17 (hb @ body)) = h"
    using assms header_codec.cut_prefix [of L h hb body] by simp
  moreover have "drop 17 (hb @ body) = body"
    using assms header_codec.cut_rest [of L h hb body] by simp
  ultimately show ?thesis
    by (cases "hdr_type h") (simp_all add: parse_message_from_bytes_def)
qed

lemma message_trip:
  assumes "ulid_ok L" "message_ok m" "length junk = 16"
  shows "\<exists>bs. raw_payload L m = Inr bs \<and>
     parse_message_from_bytes L junk bs False = Inr (Some (message_received junk m))"
proof (cases m)
  case (EAR_msg r)
  then show ?thesis
    using request_trip [OF assms(1), of EAR r junk "[]"] assms parse_message_frame [OF assms(1)]
    by (fastforce simp: request_ok_def)
next
  case (MAR_msg r)
  then show ?thesis
    using request_trip [OF assms(1), of MAR r junk "[]"] assms parse_message_frame [OF assms(1)]
    by (fastforce simp: request_ok_def MAR_parse_eq MAR_raw_payload_eq)
next
  case (BID_msg b)
  obtain hb where "marshal_header L (bid_header b) = Inr hb"
    using assms(1) marshal_header_Inr by blast
  moreover have "read_loop (float_bytes v) 0 4 = Inr (float_bytes v)" for v
    by (simp add: read_loop_in float_bytes_def)
  ultimately show ?thesis
    using BID_msg assms parse_message_frame [OF assms(1), of "bid_header b" hb junk]
    by (simp add: BID_raw_payload_def BID_parse_def le_word_float_bytes)
next
  case (ACC_msg h)
  obtain hb where "marshal_header L h = Inr hb" using assms(1) marshal_header_Inr by blast
  then show ?thesis using ACC_msg assms parse_message_frame [OF assms(1), of h hb junk "[]"]
    by (simp add: ACC_raw_payload_def)
next
  case (REF_msg h)
  obtain hb where "marshal_header L h = Inr hb" using assms(1) marshal_header_Inr by blast
  then show ?thesis using REF_msg assms parse_message_frame [OF assms(1), of h hb junk "[]"]
    by (simp add: REF_raw_payload_def)
next
  case (REP_msg r)
  then show ?thesis
    using rep_trip [OF assms(1), of r "[]"] assms parse_message_frame [OF assms(1)]
    by (fastforce simp: rep_ok_def)
qed

interpretation message_codec: codec "raw_payload L"
  "\<lambda>bs. and_then (parse_message_from_bytes L junk bs False)
          (\<lambda>m. case m of None \<Rightarrow> Inl BadParse | Some m \<Rightarrow> Inr m)"
  "\<lambda>m. ulid_ok L \<and> length junk = 16 \<and> message_ok m \<and> message_received junk m = m" for L junk
  by unfold_locales (use message_trip in fastforce)

text \<open>
  C10. Every well-formed message of the six kinds survives marshalling and parsing: the parser
  returns the message with the listener octets its length code covers; the octets of the
  listener array behind them are those of the uninitialised array of the receiver.
\<close>

theorem message_roundtrip:
  assumes "ulid_ok L" "message_ok m" "length junk = 16"
  shows "and_then (raw_payload L m) (\<lambda>bs. parse_message_from_bytes L junk bs False)
     = Inr (Some (message_received junk m))"
  using message_trip [OF assms] by auto

definition sample_request :: request where
  "sample_request = \<lparr> req_header = Header 1 MAR 77, req_priority = 5, req_listener_length = LT_IP4,
     req_reserved = 0, req_listener = [10, 0, 0, 1] @ replicate 12 0, req_payload_length = 3,
     req_payload = [1, 2, 3] \<rparr>"

theorem message_roundtrip_witness:
  "ulid_ok ulid_spec \<and> message_ok (MAR_msg sample_request) \<and>
   and_then (raw_payload ulid_spec (MAR_msg sample_request))
     (\<lambda>bs. parse_message_from_bytes ulid_spec (replicate 16 9) bs False)
   = Inr (Some (MAR_msg (sample_request \<lparr> req_listener := [10, 0, 0, 1] @ replicate 12 9 \<rparr>)))"
proof -
  have ok: "message_ok (MAR_msg sample_request)"
    by (simp add: sample_request_def request_ok_def header_ok_def Header_def addr_len_def
        message_type_of_code_def)
  have "message_received (replicate 16 9) (MAR_msg sample_request)
      = MAR_msg (sample_request \<lparr> req_listener := [10, 0, 0, 1] @ replicate 12 9 \<rparr>)"
    by (simp add: sample_request_def request_received_def addr_len_def)
  then show ?thesis
    using message_roundtrip [OF ulid_spec_ok ok, of "replicate 16 9"] ok by simp
qed

text \<open>
  Two well-formed messages that the parser reconstructs exactly have different octets
  unless they are equal: nothing of a message is lost on the wire.
\<close>

lemma raw_payload_injective:
  assumes "ulid_ok L" "length junk = 16"
    and "message_ok m" "message_received junk m = m"
    and "message_ok m'" "message_received junk m' = m'"
    and "raw_payload L m = raw_payload L m'"
  shows "m = m'"
  using message_codec.enc_inj [of L junk m m'] assms by simp

text \<open>
  A message taken from the network never keeps its content: the byte-wise \<open>ntohs\<close> turns
  every octet into zero, so that whatever arrived is parsed as an early admission request of
  version 0, priority 0 and empty payload with listener 0, or runs out of octets when fewer
  than four follow the header.
\<close>

lemma network_message_is_zeroed:
  "parse_message_from_bytes L junk bytes True =
     (if length bytes < 17 then Inr None
      else if length bytes < 21 then Inl OutOfRange
      else and_then (set_at junk 0 0) (\<lambda>listener. Inr (Some (EAR_msg
         \<lparr> req_header = Header 0 EAR (UnmarshalBinary L (replicate 16 0)), req_priority = 0,
           req_listener_length = 0, req_reserved = 0, req_listener = listener,
           req_payload_length = 0, req_payload = [] \<rparr>))))"
proof -
  have zeros: "map ntohs_byte bytes = replicate (length bytes) 0"
    by (rule nth_equalityI) auto
  have hdr: "unmarshal_header L (replicate 17 0) = Header 0 EAR (UnmarshalBinary L (replicate 16 0))"
    by (simp add: unmarshal_header_def message_type_of_code_def unmarshall_from_vector_def Let_def
        nth_replicate)
  have body: "EAR_parse junk h (replicate k 0) =
     (if k < 4 then Inl OutOfRange else and_then (set_at junk 0 0) (\<lambda>listener. Inr
         \<lparr> req_header = h, req_priority = 0, req_listener_length = 0, req_reserved = 0,
           req_listener = listener, req_payload_length = 0, req_payload = [] \<rparr>))" for k h
    by (cases "k = 0"; cases "k = 1"; cases "k = 2"; cases "k = 3"; cases "junk = []")
      (auto simp: EAR_parse_def parse_listener_def vec_at_def set_at_def uint16_of_bytes_def Let_def)
  show ?thesis
    using hdr by (auto simp: parse_message_from_bytes_def Let_def zeros body Header_def set_at_def)
qed

text \<open>
  \<open>listener()\<close> returns as many octets as the length code of the family, not the octets
  of its address: two of four for IPv4, three of six for a MAC address, four and five of
  sixteen for IPv6 and DDS.  Only the one-octet simulation identifiers come back complete.
\<close>

lemma listener_truncated:
  assumes "length (req_listener m) = 16" "addr_len (req_listener_length m) = Some n"
  shows "\<exists>k. EAR_listener m = Inr (take k (req_listener m)) \<and> MAR_listener m = EAR_listener m \<and>
     k = (if req_listener_length m = LT_CODE_0 then 1 else unat (req_listener_length m)) \<and>
     (k = n \<longleftrightarrow> req_listener_length m = LT_CODE_0)"
proof -
  have eq: "MAR_listener m = EAR_listener m" by (simp add: MAR_listener_def EAR_listener_def)
  have "take 1 (req_listener m) = [req_listener m ! 0]"
    using assms(1) by (cases "req_listener m") auto
  then show ?thesis
    using assms(2) by (rule_tac addr_len_cases [OF assms(2)])
      (use eq assms(1) in \<open>simp_all add: EAR_listener_def read_loop_in\<close>)
qed

end
