(* ===== verification/Api_Wire.thy ===== *)
theory Api_Wire
  imports Messages
begin

text \<open>
  The request format of the client interface (\<open>include/rankd-api.h\<close>): the octets a client
  writes into the FIFO of the daemon and what the daemon reads back, and the search for the
  delimiter (\<open>structs/dispatchers/api.h\<close>, loop of \<open>api.cpp\<close>).  The read pointer of
  \<open>deserialize\<close> only moves forward: it is the suffix that is still to be read.
\<close>

datatype IdentifierType = Simulation | MAC | IPv4 | IPv6 | DDS

fun identifier_code :: "IdentifierType \<Rightarrow> byte" where
  "identifier_code Simulation = 0"
| "identifier_code MAC = 2"
| "identifier_code IPv4 = 3"
| "identifier_code IPv6 = 4"
| "identifier_code DDS = 5"

fun identifier_to_string :: "IdentifierType \<Rightarrow> string" where
  "identifier_to_string IPv4 = ''IPv4''"
| "identifier_to_string MAC = ''MAC''"
| "identifier_to_string IPv6 = ''IPv6''"
| "identifier_to_string DDS = ''DDS''"
| "identifier_to_string Simulation = ''Simulation''"

record AdmissionRequest =
  adm_requirements :: string
  adm_priority :: byte
  adm_target :: "byte list"
  adm_target_type :: IdentifierType
  adm_pid :: uint32

definition byte_of_char :: "char \<Rightarrow> byte" where "byte_of_char c = of_char c"
definition char_of_byte :: "byte \<Rightarrow> char" where "char_of_byte b = char_of (unat b)"

section \<open>Serialisation\<close>

text \<open>The loop \<open>for (i = 3; i >= 0; i--) push_back((w >> i) & 0xFF)\<close>.\<close>

definition shifted_bytes :: "uint32 \<Rightarrow> byte list" where
  "shifted_bytes w = [ucast (drop_bit 3 w), ucast (drop_bit 2 w), ucast (drop_bit 1 w), ucast w]"

definition serialize_to_rank ::
  "string \<Rightarrow> byte \<Rightarrow> byte list \<Rightarrow> IdentifierType \<Rightarrow> uint32 \<Rightarrow> byte list" where
  "serialize_to_rank json_requirements_list prio tgt type p =
     shifted_bytes (word_of_nat (length json_requirements_list))
     @ map byte_of_char json_requirements_list
     @ [prio, identifier_code type, word_of_nat (length tgt)]
     @ tgt
     @ shifted_bytes p"

definition RANK_FIFO_DELIMITER :: "byte list" where
  "RANK_FIFO_DELIMITER = [0x23, 0x52, 0x41, 0x4e, 0x4b, 0x23]"

text \<open>What \<open>place_admission_request\<close> writes into the FIFO of the server.\<close>

definition place_admission_request ::
  "string \<Rightarrow> byte \<Rightarrow> byte list \<Rightarrow> IdentifierType \<Rightarrow> uint32 \<Rightarrow> byte list" where
  "place_admission_request json_requirements_list prio tgt type p =
     serialize_to_rank json_requirements_list prio tgt type p @ RANK_FIFO_DELIMITER"

section \<open>Deserialisation\<close>

text \<open>\<open>serialized[pointer++]\<close> is not checked: past the end the behaviour is undefined.\<close>

fun next_byte :: "byte list \<Rightarrow> (byte \<times> byte list) res" where
  "next_byte [] = Inl UndefinedBehaviour"
| "next_byte (b # bs) = Inr (b, bs)"

fun next_bytes :: "nat \<Rightarrow> byte list \<Rightarrow> (byte list \<times> byte list) res" where
  "next_bytes 0 bs = Inr ([], bs)"
| "next_bytes (Suc n) bs =
     and_then (next_byte bs) (\<lambda>(b, bs). and_then (next_bytes n bs) (\<lambda>(xs, bs). Inr (b # xs, bs)))"

text \<open>The loop \<open>for (i = 3; i >= 0; i--) w |= serialized[pointer++] << i\<close>.\<close>

fun shifted_loop :: "nat \<Rightarrow> uint32 \<Rightarrow> byte list \<Rightarrow> (uint32 \<times> byte list) res" where
  "shifted_loop 0 w bs = Inr (w, bs)"
| "shifted_loop (Suc i) w bs =
     and_then (next_byte bs) (\<lambda>(b, bs). shifted_loop i (w OR push_bit i (ucast b)) bs)"

definition identifier_of_code :: "byte \<Rightarrow> IdentifierType res" where
  "identifier_of_code c =
     (if c = 0 then Inr Simulation else if c = 2 then Inr IPv4 else if c = 3 then Inr MAC
      else if c = 4 then Inr IPv6 else if c = 5 then Inr DDS else Inl StdException)"

definition deserialize :: "byte list \<Rightarrow> AdmissionRequest res" where
  "deserialize serialized =
     and_then (shifted_loop 4 0 serialized) (\<lambda>(requirements_length, s).
     and_then (next_bytes (unat requirements_length) s) (\<lambda>(reqs, s).
     and_then (next_byte s) (\<lambda>(prio, s).
     and_then (next_byte s) (\<lambda>(code, s).
     and_then (identifier_of_code code) (\<lambda>type.
     and_then (next_byte s) (\<lambda>(target_length, s).
     and_then (next_bytes (unat target_length) s) (\<lambda>(tgt, s).
     and_then (shifted_loop 4 0 s) (\<lambda>(p, s).
       Inr \<lparr> adm_requirements = map char_of_byte reqs, adm_priority = prio, adm_target = tgt,
             adm_target_type = type, adm_pid = p \<rparr>))))))))"

section \<open>Finding the delimiter\<close>

definition found_delimiter :: "byte list \<Rightarrow> bool" where
  "found_delimiter bytestream =
     (if length bytestream \<noteq> length RANK_FIFO_DELIMITER then False
      else bytestream = RANK_FIFO_DELIMITER)"

text \<open>
  The reading loop of \<open>API::operator()\<close>: \<open>tester\<close> accumulates, and once the delimiter is
  found what precedes it becomes the \<open>bytestream\<close> (the moved-from vector is empty).
\<close>

fun api_read :: "byte list \<Rightarrow> byte list \<times> byte list \<Rightarrow> byte list \<times> byte list" where
  "api_read [] (tester, bytestream) = (tester, bytestream)"
| "api_read (b # bs) (tester, bytestream) =
     (let tester = tester @ [b] in
      if found_delimiter tester
      then api_read bs ([], take (length tester - 6) tester)
      else api_read bs (tester, bytestream))"

section \<open>Behaviour\<close>

lemma next_bytes_app: "length xs = n \<Longrightarrow> next_bytes n (xs @ ys) = Inr (xs, ys)"
  by (induction n arbitrary: xs) (auto simp: length_Suc_conv)

lemma shifted_bit:
  fixes w :: uint32
  shows "bit (push_bit i (ucast (ucast (drop_bit i w) :: byte)) :: uint32) n
    \<longleftrightarrow> i \<le> n \<and> n < i + 8 \<and> bit w n"
  by (auto simp: bit_simps dest: bit_imp_le_length)

lemma shifted_or:
  fixes w :: uint32
  shows "push_bit 3 (ucast (ucast (drop_bit 3 w) :: byte)) OR
     (push_bit 2 (ucast (ucast (drop_bit 2 w) :: byte)) OR
     (push_bit 1 (ucast (ucast (drop_bit 1 w) :: byte)) OR
      push_bit 0 (ucast (ucast (drop_bit 0 w) :: byte)))) = take_bit 11 w"
  by (rule bit_word_eqI) (unfold bit_or_iff shifted_bit bit_take_bit_iff, auto)

lemma shifted_loop_bytes: "shifted_loop 4 0 (shifted_bytes w @ rest) = Inr (take_bit 11 w, rest)"
  using shifted_or [of w] by (simp add: shifted_bytes_def numeral_eq_Suc or.assoc)

lemma char_of_byte_of_char [simp]: "char_of_byte (byte_of_char c) = c"
proof -
  have "(of_char c :: nat) < 256" by (rule nat_of_char_less_256)
  then have "unat (word_of_nat (of_char c) :: byte) = of_char c"
    by (simp add: unsigned_of_nat take_bit_nat_eq_self)
  then have "unat (of_char c :: byte) = of_char c" by (simp only: of_nat_of_char)
  then show ?thesis unfolding char_of_byte_def byte_of_char_def by simp
qed

text \<open>
  What the daemon makes of the code a client sends: the codes of MAC and IPv4 are read the
  other way round.
\<close>

fun swap_mac_ipv4 :: "IdentifierType \<Rightarrow> IdentifierType" where
  "swap_mac_ipv4 MAC = IPv4"
| "swap_mac_ipv4 IPv4 = MAC"
| "swap_mac_ipv4 t = t"

lemma identifier_of_code_code: "identifier_of_code (identifier_code t) = Inr (swap_mac_ipv4 t)"
  by (cases t) (simp_all add: identifier_of_code_def)

text \<open>
  C35. A request of fewer than 2048 characters for a target of fewer than 256 octets is read
  back with its requirements, priority and target; MAC and IPv4 target types are exchanged
  and of the process identifier only the lower eleven bits remain.
\<close>

theorem api_roundtrip:
  assumes "length reqs < 2048" "length tgt < 256"
  shows "deserialize (serialize_to_rank reqs prio tgt type p) = Inr
     \<lparr> adm_requirements = reqs, adm_priority = prio, adm_target = tgt, adm_target_type = swap_mac_ipv4 type,
       adm_pid = take_bit 11 p \<rparr>"
proof -
  have len: "unat (take_bit 11 (word_of_nat (length reqs) :: uint32)) = length reqs"
    using assms(1) by (simp add: unsigned_take_bit_eq unsigned_of_nat take_bit_nat_eq_self)
  have tl: "unat (word_of_nat (length tgt) :: byte) = length tgt"
    using assms(2) by (simp add: unsigned_of_nat take_bit_nat_eq_self)
  have "next_bytes (length reqs) (map byte_of_char reqs @ s) = Inr (map byte_of_char reqs, s)"
    and "next_bytes (length tgt) (tgt @ s) = Inr (tgt, s)" for s
    by (simp_all add: next_bytes_app)
  then show ?thesis
    using shifted_loop_bytes [of p "[]"]
    by (simp add: deserialize_def serialize_to_rank_def shifted_loop_bytes len tl
        identifier_of_code_code comp_def)
qed

theorem api_roundtrip_witness:
  "deserialize (serialize_to_rank ''{}'' 3 [10, 0, 0, 7] IPv4 5000) = Inr
     \<lparr> adm_requirements = ''{}'', adm_priority = 3, adm_target = [10, 0, 0, 7], adm_target_type = MAC, adm_pid = 904 \<rparr>"
  using api_roundtrip [of "''{}''" "[10, 0, 0, 7]" 3 IPv4 5000] by simp

text \<open>
  The daemon never recognises the end of a request: for every request a client can place,
  the reading loop ends with all octets still in its buffer and no request extracted.
\<close>

lemma delimiter_never_found:
  "api_read (place_admission_request reqs prio tgt type p) ([], [])
     = (place_admission_request reqs prio tgt type p, [])"
proof -
  have step: "api_read bs (t, d) = (t @ bs, d)"
    if "take 6 (t @ bs) \<noteq> RANK_FIFO_DELIMITER" for t d and bs :: "byte list"
    using that
  proof (induction bs arbitrary: t)
    case Nil
    then show ?case by simp
  next
    case (Cons b bs)
    have "\<not> found_delimiter (t @ [b])"
    proof
      assume "found_delimiter (t @ [b])"
      then have "t @ [b] = RANK_FIFO_DELIMITER" and "length (t @ [b]) = 6"
        by (auto simp: found_delimiter_def RANK_FIFO_DELIMITER_def split: if_splits)
      then have "take 6 (t @ b # bs) = RANK_FIFO_DELIMITER"
        by (metis append_Cons append_Nil append_eq_conv_conj append_assoc)
      then show False using Cons.prems by contradiction
    qed
    moreover have "api_read bs (t @ [b], d) = ((t @ [b]) @ bs, d)"
      by (rule Cons.IH) (use Cons.prems in \<open>simp del: take_append\<close>)
    ultimately show ?case by simp
  qed
  have "take 6 (place_admission_request reqs prio tgt type p) \<noteq> RANK_FIFO_DELIMITER"
  proof
    let ?w = "word_of_nat (length reqs) :: uint32"
    assume "take 6 (place_admission_request reqs prio tgt type p) = RANK_FIFO_DELIMITER"
    then have "take 4 (shifted_bytes ?w) = take 4 RANK_FIFO_DELIMITER"
      by (simp add: place_admission_request_def serialize_to_rank_def shifted_bytes_def
          RANK_FIFO_DELIMITER_def)
    then have "ucast (drop_bit 2 ?w) = (0x52 :: byte)" "ucast (drop_bit 1 ?w) = (0x41 :: byte)"
      by (simp_all add: shifted_bytes_def RANK_FIFO_DELIMITER_def)
    then have "bit (ucast (drop_bit 2 ?w) :: byte) 0 = bit (0x52 :: byte) 0"
      and "bit (ucast (drop_bit 1 ?w) :: byte) 1 = bit (0x41 :: byte) 1"
      and "bit (ucast (drop_bit 2 ?w) :: byte) 1 = bit (0x52 :: byte) 1"
      and "bit (ucast (drop_bit 1 ?w) :: byte) 2 = bit (0x41 :: byte) 2"
      by simp_all
    then show False by (simp add: bit_simps numeral_3_eq_3 numeral_2_eq_2)
  qed
  then show ?thesis using step [of "[]"] by simp
qed

end
