(* ===== verification/Dispatcher.thy ===== *)
theory Dispatcher
  imports Api_Wire
begin

text \<open>
  Moving messages in and out of a node (\<open>structs/dispatcher.cpp\<close>,
  \<open>structs/dispatchers/\<close>): the two queues of the \<open>Dispatcher\<close>, the \<open>Sender\<close> that empties
  the sending queue, the pair of simulation receivers that fills the receiving queue, and the
  \<open>API\<close> that injects the requests of the local client.  Each thread body is one step function:
  one round of its loop, from the wake-up of its condition variable (a non-empty queue) to the
  end of the round.  Locks are not modelled, a round is atomic.
\<close>

type_synonym queue_item = "Message \<times> byte list \<times> IdentifierType"

record dispatcher =
  received_messages :: "queue_item list"
  sending_messages :: "queue_item list"

section \<open>Queues of the dispatcher\<close>

text \<open>The log line reads \<open>target.at(0)\<close> before the message is placed.\<close>

definition Dispatcher_send_message ::
  "Message \<Rightarrow> byte list \<Rightarrow> IdentifierType \<Rightarrow> dispatcher \<Rightarrow> dispatcher res" where
  "Dispatcher_send_message message tgt type d =
     and_then (vec_at tgt 0) (\<lambda>_.
       Inr (d \<lparr> sending_messages := sending_messages d @ [(message, tgt, type)] \<rparr>))"

definition receiving_queue_is_empty :: "dispatcher \<Rightarrow> bool" where
  "receiving_queue_is_empty d = (received_messages d = [])"

definition receiving_queue_has_message :: "dispatcher \<Rightarrow> bool" where
  "receiving_queue_has_message d = (\<not> receiving_queue_is_empty d)"

text \<open>\<open>front\<close> and \<open>pop\<close> of an empty queue are undefined.\<close>

definition dequeue_item :: "dispatcher \<Rightarrow> (queue_item \<times> dispatcher) res" where
  "dequeue_item d = (case received_messages d of
      [] \<Rightarrow> Inl UndefinedBehaviour
    | item # rest \<Rightarrow> Inr (item, d \<lparr> received_messages := rest \<rparr>))"

definition enqueue_item :: "queue_item \<Rightarrow> dispatcher \<Rightarrow> dispatcher" where
  "enqueue_item item d = d \<lparr> received_messages := received_messages d @ [item] \<rparr>"

text \<open>
  \<open>vector(UINT8_MAX, size)\<close> makes 255 elements of value \<open>size\<close>, over which the first
  components are written; a longer topology is written past the end.
\<close>

definition get_topology :: "(byte \<times> byte) list \<Rightarrow> byte list res" where
  "get_topology entire_topology =
     (if length entire_topology \<le> 255
      then Inr (map fst entire_topology
                @ drop (length entire_topology) (replicate 255 (word_of_nat (length entire_topology))))
      else Inl UndefinedBehaviour)"

interpretation received_queue: fifo enqueue_item
  "\<lambda>d. case dequeue_item d of Inl e \<Rightarrow> None | Inr p \<Rightarrow> Some p" received_messages
  by unfold_locales (auto simp: enqueue_item_def dequeue_item_def split: list.splits)

section \<open>Sender\<close>

text \<open>What leaves the node in one round.\<close>

datatype transmission =
    NoTransmission
  | SimulatedSend byte "byte list"
  | Frame int "byte list" "byte list"

text \<open>
  The switch on the type of the message and the \<open>dynamic_cast\<close>: a message whose class does
  not match its header type yields the null pointer.
\<close>

definition serialize_message :: "ulid_lib \<Rightarrow> Message \<Rightarrow> byte list res" where
  "serialize_message L m =
     (case Message_type m of
        EAR \<Rightarrow> (case m of EAR_msg r \<Rightarrow> EAR_raw_payload L r | _ \<Rightarrow> Inl NullDeref)
      | MAR \<Rightarrow> (case m of MAR_msg r \<Rightarrow> MAR_raw_payload L r | _ \<Rightarrow> Inl NullDeref)
      | BID \<Rightarrow> (case m of BID_msg b \<Rightarrow> BID_raw_payload L b | _ \<Rightarrow> Inl NullDeref)
      | ACC \<Rightarrow> (case m of ACC_msg h \<Rightarrow> ACC_raw_payload L h | _ \<Rightarrow> Inl NullDeref)
      | REF \<Rightarrow> (case m of REF_msg h \<Rightarrow> REF_raw_payload L h | _ \<Rightarrow> Inl NullDeref)
      | REP \<Rightarrow> (case m of REP_msg r \<Rightarrow> REP_raw_payload L r | _ \<Rightarrow> Inl NullDeref)
      | NOTYPE \<Rightarrow> Inr []
      | Unlisted c \<Rightarrow> Inr [])"

definition make_and_send_bytes :: "ulid_lib \<Rightarrow> Message \<Rightarrow> byte list \<Rightarrow> transmission res" where
  "make_and_send_bytes L m tgt =
     and_then (vec_at tgt 0) (\<lambda>port_to_target.
     and_then (serialize_message L m) (\<lambda>serialized.
       Inr (SimulatedSend port_to_target serialized)))"

text \<open>
  \<open>sprintf\<close> of a MAC address and the search among the layer-2 neighbours (an address and an
  interface index each, from the network data source): the last match wins, and without one
  nothing is sent.
\<close>

definition hex_digit :: "nat \<Rightarrow> char" where
  "hex_digit n = (if n < 10 then char_of (48 + n) else char_of (87 + n))"

definition hex_byte :: "byte \<Rightarrow> string" where
  "hex_byte b = [hex_digit (unat b div 16), hex_digit (unat b mod 16)]"

fun colon_separated :: "string list \<Rightarrow> string" where
  "colon_separated [] = ''''"
| "colon_separated [x] = x"
| "colon_separated (x # xs) = x @ '':'' @ colon_separated xs"

definition stringified_target :: "byte list \<Rightarrow> string res" where
  "stringified_target tgt =
     and_then (read_loop tgt 0 6) (\<lambda>bs. Inr (colon_separated (map hex_byte bs)))"

definition find_interface :: "(string \<times> int) list \<Rightarrow> string \<Rightarrow> int" where
  "find_interface neighbors name =
     fold (\<lambda>(l2_address, interface_index) found. if l2_address = name then interface_index else found)
       neighbors (- 1)"

text \<open>
  What sending a frame asks of the system: the neighbours of the snapshot, the name of an
  interface (\<open>if_indextoname\<close>, which leaves the array of the caller as it is when there is no
  such interface), the capture device of that name (a null pointer when the library has none),
  whether it opens, and whether it takes a packet with the given octets.
\<close>

record pcap_device =
  pcap_opens :: bool
  pcap_sends :: "byte list \<Rightarrow> bool"

record link_layer =
  ll_neighbors :: "(string \<times> int) list"
  ll_indextoname :: "int \<Rightarrow> string option"
  ll_device :: "string \<Rightarrow> pcap_device option"

text \<open>
  The name is written to the log before the message is serialized: without an interface that
  reads an uninitialised array.  Neither the result of \<open>open\<close> nor that of \<open>sendPacket\<close>, which
  fails on a device that is not open, is looked at.
\<close>

definition make_and_send_frame ::
  "ulid_lib \<Rightarrow> link_layer \<Rightarrow> Message \<Rightarrow> byte list \<Rightarrow> transmission res" where
  "make_and_send_frame L link m tgt =
     and_then (stringified_target tgt) (\<lambda>name.
     let target_interface_index = find_interface (ll_neighbors link) name in
       if target_interface_index = - 1 then Inr NoTransmission
       else case ll_indextoname link target_interface_index of
         None \<Rightarrow> Inl UndefinedBehaviour
       | Some interface_name \<Rightarrow>
           and_then (serialize_message L m) (\<lambda>serialized.
             case ll_device link interface_name of
               None \<Rightarrow> Inl NullDeref
             | Some device \<Rightarrow> Inr (
                 if pcap_opens device \<and> pcap_sends device serialized
                 then Frame target_interface_index (take 6 tgt) serialized
                 else NoTransmission)))"

text \<open>
  One round of \<open>Sender::operator()\<close>.  Sending packets (IPv4, IPv6) and DDS messages has an
  empty body.  For a simulated target the log lines read the first octet of the target and of
  the listener.
\<close>

definition log_listener :: "Message \<Rightarrow> unit res" where
  "log_listener m =
     (case Message_type m of
        EAR \<Rightarrow> (case m of EAR_msg r \<Rightarrow> and_then (EAR_listener r) (\<lambda>l. and_then (vec_at l 0) (\<lambda>_. Inr ()))
                          | _ \<Rightarrow> Inl NullDeref)
      | MAR \<Rightarrow> (case m of MAR_msg r \<Rightarrow> and_then (MAR_listener r) (\<lambda>l. and_then (vec_at l 0) (\<lambda>_. Inr ()))
                          | _ \<Rightarrow> Inl NullDeref)
      | _ \<Rightarrow> Inr ())"

definition Sender_step ::
  "ulid_lib \<Rightarrow> link_layer \<Rightarrow> dispatcher \<Rightarrow> (transmission \<times> dispatcher) res" where
  "Sender_step L link d =
     (case sending_messages d of
        [] \<Rightarrow> Inr (NoTransmission, d)
      | (message, tgt, type) # rest \<Rightarrow>
          let d' = d \<lparr> sending_messages := rest \<rparr> in
          case type of
            MAC \<Rightarrow> and_then (make_and_send_frame L link message tgt) (\<lambda>t. Inr (t, d'))
          | IPv4 \<Rightarrow> Inr (NoTransmission, d')
          | IPv6 \<Rightarrow> Inr (NoTransmission, d')
          | DDS \<Rightarrow> Inr (NoTransmission, d')
          | Simulation \<Rightarrow>
              and_then (vec_at tgt 0) (\<lambda>_.
              and_then (log_listener message) (\<lambda>_.
              and_then (make_and_send_bytes L message tgt) (\<lambda>t. Inr (t, d')))))"

section \<open>Simulation receivers\<close>

type_synonym raw_item = "byte list \<times> byte list"

text \<open>
  One round of \<open>RawReceiverSimulation::operator()\<close> on what the receive function returned:
  the port 255 stands for no data.
\<close>

definition RawReceiverSimulation_step :: "byte \<times> byte list \<Rightarrow> raw_item list \<Rightarrow> raw_item list" where
  "RawReceiverSimulation_step data queue =
     (if fst data = 255 then queue else queue @ [([fst data], snd data)])"

text \<open>
  One round of \<open>ReceiverSimulation::operator()\<close>.  An unparseable message is dropped; an
  exception of the parser leaves the thread.
\<close>

definition ReceiverSimulation_step ::
  "ulid_lib \<Rightarrow> byte list \<Rightarrow> raw_item list \<times> dispatcher \<Rightarrow> (raw_item list \<times> dispatcher) res" where
  "ReceiverSimulation_step L junk s =
     (case s of
        ([], d) \<Rightarrow> Inr ([], d)
      | ((source, bytes) # queue, d) \<Rightarrow>
          and_then (parse_message_from_bytes L junk bytes False) (\<lambda>message.
            case message of
              None \<Rightarrow> Inr (queue, d)
            | Some m \<Rightarrow> Inr (queue, enqueue_item (m, source, Simulation) d)))"

section \<open>Client interface\<close>

text \<open>
  \<open>API::build_message_from_arguments\<close>.  \<open>generate_new_uuid\<close> reads a clock and a random
  source: the identifier is an argument.  The text is parsed by rapidjson, the result of which
  is the argument \<open>doc\<close>.  Copying a target of more than 16 octets is undefined, and the
  priority, an \<open>int\<close>, is cut to an octet.
\<close>

definition copy_target :: "byte list \<Rightarrow> byte list res" where
  "copy_target tgt =
     (if length tgt \<le> RANK_LISTENER_MAX_LEN
      then Inr (tgt @ drop (length tgt) (replicate RANK_LISTENER_MAX_LEN 0))
      else Inl UndefinedBehaviour)"

definition build_EAR_from_arguments ::
  "marshal_lib \<Rightarrow> UUIDv4 \<Rightarrow> json \<Rightarrow> int \<Rightarrow> byte list \<Rightarrow> IdentifierType \<Rightarrow> Message res" where
  "build_EAR_from_arguments M new_uuid doc prio tgt type =
     and_then (copy_target tgt) (\<lambda>listener.
     let payload = serialize_json_as_vector M doc in
       Inr (EAR_with_header (Header RANK_HEADER_VERSION EAR new_uuid) (word_of_int prio)
              (identifier_code type) listener (word_of_nat (length payload)) payload))"

definition build_REP_from_arguments ::
  "byte \<Rightarrow> UUIDv4 \<Rightarrow> byte list \<Rightarrow> IdentifierType \<Rightarrow> Message res" where
  "build_REP_from_arguments junk uuid tgt type =
     and_then (copy_target tgt) (\<lambda>listener.
       Inr (REP_msg \<lparr> rep_header = Header RANK_HEADER_VERSION REP uuid,
              rep_listener_length = identifier_code type, rep_reserved = junk,
              rep_listener = listener \<rparr>))"

text \<open>
  \<open>mark_origin\<close> is the function the process registers with the dispatcher; it acts on the
  state \<open>'s\<close> of the process.  The item is enqueued before \<open>own_id.at(0)\<close> is evaluated.
\<close>

definition API_deliver_request ::
  "marshal_lib \<Rightarrow> (UUIDv4 \<Rightarrow> uint32 \<Rightarrow> 's \<Rightarrow> 's) \<Rightarrow> UUIDv4 \<Rightarrow> json \<Rightarrow> int \<Rightarrow> byte list \<Rightarrow> byte list
     \<Rightarrow> IdentifierType \<Rightarrow> dispatcher \<times> 's \<Rightarrow> (UUIDv4 \<times> dispatcher \<times> 's) res" where
  "API_deliver_request M mark_origin new_uuid doc prio tgt own_id type s =
     and_then (require (tgt \<noteq> []) UndefinedBehaviour) (\<lambda>_.
     and_then (build_EAR_from_arguments M new_uuid doc prio tgt type) (\<lambda>ear_message.
     let d = enqueue_item (ear_message, own_id, type) (fst s) in
     and_then (vec_at own_id 0) (\<lambda>own.
       Inr (Message_uuid ear_message, d,
            mark_origin (Message_uuid ear_message) (100 + ucast own) (snd s)))))"

definition API_replenish_request ::
  "(UUIDv4 \<Rightarrow> uint32 \<Rightarrow> 's \<Rightarrow> 's) \<Rightarrow> byte \<Rightarrow> UUIDv4 \<Rightarrow> byte list \<Rightarrow> byte list
     \<Rightarrow> IdentifierType \<Rightarrow> dispatcher \<times> 's \<Rightarrow> (UUIDv4 \<times> dispatcher \<times> 's) res" where
  "API_replenish_request mark_origin junk uuid tgt own_id type s =
     and_then (require (tgt \<noteq> []) UndefinedBehaviour) (\<lambda>_.
     and_then (build_REP_from_arguments junk uuid tgt type) (\<lambda>rep_message.
     let d = enqueue_item (rep_message, own_id, type) (fst s) in
     and_then (vec_at own_id 0) (\<lambda>own.
       Inr (Message_uuid rep_message, d,
            mark_origin (Message_uuid rep_message) (100 + ucast own) (snd s)))))"

section \<open>From one node to another\<close>

text \<open>The loops of the sender and of the receiver for a number of rounds.\<close>

fun Sender_rounds ::
  "ulid_lib \<Rightarrow> link_layer \<Rightarrow> nat \<Rightarrow> dispatcher \<Rightarrow> (transmission list \<times> dispatcher) res" where
  "Sender_rounds L link 0 d = Inr ([], d)"
| "Sender_rounds L link (Suc n) d =
     and_then (Sender_step L link d) (\<lambda>(t, d).
     and_then (Sender_rounds L link n d) (\<lambda>(ts, d). Inr (t # ts, d)))"

fun Receiver_rounds ::
  "ulid_lib \<Rightarrow> byte list \<Rightarrow> nat \<Rightarrow> raw_item list \<times> dispatcher \<Rightarrow> (raw_item list \<times> dispatcher) res" where
  "Receiver_rounds L junk 0 s = Inr s"
| "Receiver_rounds L junk (Suc n) s =
     and_then (ReceiverSimulation_step L junk s) (\<lambda>s. Receiver_rounds L junk n s)"

text \<open>A simulated link of the node \<open>a\<close>: what it sends arrives as data from \<open>a\<close>.\<close>

fun link_data :: "byte \<Rightarrow> transmission \<Rightarrow> (byte \<times> byte list) list" where
  "link_data a (SimulatedSend p bytes) = [(a, bytes)]"
| "link_data a t = []"

lemma serialize_message_raw_payload:
  "message_ok m \<Longrightarrow> serialize_message L m = raw_payload L m"
  by (cases m) (simp_all add: serialize_message_def Message_type_def request_ok_def rep_ok_def)

lemma log_listener_ok: "message_ok m \<Longrightarrow> log_listener m = Inr ()"
proof (cases m)
  case (EAR_msg r)
  assume "message_ok m"
  then show ?thesis
    by (auto simp: EAR_msg log_listener_def Message_type_def request_ok_def EAR_listener_def
        addr_len_def read_loop_in split: if_splits)
next
  case (MAR_msg r)
  assume "message_ok m"
  then show ?thesis
    by (auto simp: MAR_msg log_listener_def Message_type_def request_ok_def MAR_listener_def
        addr_len_def read_loop_in split: if_splits)
qed (simp_all add: log_listener_def Message_type_def rep_ok_def)

lemma Sender_step_ok:
  assumes "ulid_ok L" "message_ok m" "sending_messages d = (m, [p], Simulation) # rest"
  obtains bs where "Sender_step L nb d = Inr (SimulatedSend p bs, d \<lparr> sending_messages := rest \<rparr>)"
    "raw_payload L m = Inr bs"
proof -
  obtain bs where "raw_payload L m = Inr bs"
    using message_trip [OF assms(1,2), of "replicate 16 0"] by auto
  then show ?thesis using that assms
    by (simp add: Sender_step_def log_listener_ok make_and_send_bytes_def serialize_message_raw_payload)
qed

lemma Sender_rounds_ok:
  assumes "ulid_ok L" "\<And>m. m \<in> set ms \<Longrightarrow> message_ok m"
    "sending_messages d = map (\<lambda>m. (m, [p], Simulation)) ms"
  shows "\<exists>bss. Sender_rounds L nb (length ms) d
       = Inr (map (SimulatedSend p) bss, d \<lparr> sending_messages := [] \<rparr>) \<and>
     list_all2 (\<lambda>m bs. raw_payload L m = Inr bs) ms bss"
  using assms(2,3)
proof (induction ms arbitrary: d)
  case Nil
  then show ?case by auto
next
  case (Cons m ms)
  obtain bs where st: "Sender_step L nb d
      = Inr (SimulatedSend p bs, d \<lparr> sending_messages := map (\<lambda>m. (m, [p], Simulation)) ms \<rparr>)"
    "raw_payload L m = Inr bs"
    using Sender_step_ok [OF assms(1), of m d p _ nb] Cons.prems by auto
  obtain bss where "Sender_rounds L nb (length ms)
        (d \<lparr> sending_messages := map (\<lambda>m. (m, [p], Simulation)) ms \<rparr>)
      = Inr (map (SimulatedSend p) bss, d \<lparr> sending_messages := [] \<rparr>)"
    "list_all2 (\<lambda>m bs. raw_payload L m = Inr bs) ms bss"
    using Cons.IH [of "d \<lparr> sending_messages := map (\<lambda>m. (m, [p], Simulation)) ms \<rparr>"] Cons.prems by auto
  then show ?case using st by (intro exI [of _ "bs # bss"]) auto
qed

lemma Receiver_rounds_ok:
  assumes "ulid_ok L" "length junk = 16" "\<And>m. m \<in> set ms \<Longrightarrow> message_ok m"
    "list_all2 (\<lambda>m bs. raw_payload L m = Inr bs) ms bss"
  shows "Receiver_rounds L junk (length ms) (map (Pair [a]) bss, e)
    = Inr ([], e \<lparr> received_messages := received_messages e
                 @ map (\<lambda>m. (message_received junk m, [a], Simulation)) ms \<rparr>)"
  using assms(4,3)
proof (induction ms bss arbitrary: e rule: list_all2_induct)
  case Nil
  then show ?case by simp
next
  case (Cons m ms bs bss)
  then show ?case
    using message_trip [OF assms(1) _ assms(2), of m]
    by (simp add: ReceiverSimulation_step_def enqueue_item_def)
qed

lemma raw_receiver_keeps:
  "a \<noteq> 255 \<Longrightarrow> fold RawReceiverSimulation_step (map (Pair a) bss) q = q @ map (Pair [a]) bss"
  by (induction bss arbitrary: q) (simp_all add: RawReceiverSimulation_step_def)

text \<open>
  Well-formed messages queued for a simulated neighbour reach it: after as many rounds of
  the sender as there are messages, of the raw receiver and of the receiver, the receiving
  queue of the neighbour has got all of them, in the order of sending, marked with their
  source, and the sending queue is empty.
\<close>

lemma simulated_delivery:
  assumes "ulid_ok L" "length junk = 16" "a \<noteq> 255"
    and "list_all message_ok ms"
    and "sending_messages d = map (\<lambda>m. (m, [p], Simulation)) ms"
  shows "\<exists>ts d'. Sender_rounds L nb (length ms) d = Inr (ts, d') \<and> sending_messages d' = [] \<and>
     Receiver_rounds L junk (length ms)
       (fold RawReceiverSimulation_step (concat (map (link_data a) ts)) [], e)
     = Inr ([], e \<lparr> received_messages := received_messages e
                  @ map (\<lambda>m. (message_received junk m, [a], Simulation)) ms \<rparr>)"
proof -
  have ok: "m \<in> set ms \<Longrightarrow> message_ok m" for m using assms(4) by (simp add: list_all_iff)
  obtain bss where s: "Sender_rounds L nb (length ms) d
       = Inr (map (SimulatedSend p) bss, d \<lparr> sending_messages := [] \<rparr>)"
    and r: "list_all2 (\<lambda>m bs. raw_payload L m = Inr bs) ms bss"
    using Sender_rounds_ok [OF assms(1) ok assms(5)] by blast
  have "concat (map (link_data a) (map (SimulatedSend p) bss)) = map (Pair a) bss"
    by (induction bss) simp_all
  then show ?thesis
    using s Receiver_rounds_ok [OF assms(1,2) ok r] raw_receiver_keeps [OF assms(3)] by simp
qed

fun dequeue_items :: "nat \<Rightarrow> dispatcher \<Rightarrow> (queue_item list \<times> dispatcher) res" where
  "dequeue_items 0 d = Inr ([], d)"
| "dequeue_items (Suc n) d =
     and_then (dequeue_item d) (\<lambda>(item, d).
     and_then (dequeue_items n d) (\<lambda>(items, d). Inr (item # items, d)))"

lemma push_all_fold: "received_queue.push_all items d = fold enqueue_item items d"
  by (induction items arbitrary: d) simp_all

lemma dequeue_items_take:
  "n \<le> length (received_messages d) \<Longrightarrow> dequeue_items n d
     = Inr (take n (received_messages d), d \<lparr> received_messages := drop n (received_messages d) \<rparr>)"
proof (induction n arbitrary: d)
  case 0
  then show ?case by simp
next
  case (Suc n)
  then obtain item rest where "received_messages d = item # rest"
    by (cases "received_messages d") auto
  then show ?case using Suc by (simp add: dequeue_item_def)
qed

text \<open>
  The receiving queue is first in, first out: of what is enqueued behind \<open>k\<close> waiting items,
  the first \<open>k\<close> calls of \<open>dequeue_item\<close> return those items and the next ones return the new
  items in the order they were enqueued.
\<close>

lemma receiving_queue_fifo:
  "dequeue_items (length (received_messages d) + length items) (fold enqueue_item items d)
     = Inr (received_messages d @ items, (fold enqueue_item items d) \<lparr> received_messages := [] \<rparr>)"
proof -
  have "received_messages (fold enqueue_item items d) = received_messages d @ items"
    using received_queue.contents_push_all [of items d] by (simp add: push_all_fold)
  then show ?thesis
    using dequeue_items_take [of "length (received_messages d) + length items" "fold enqueue_item items d"]
    by simp
qed

text \<open>
  Messages for IPv4, IPv6 and DDS targets are taken from the sending queue and never leave
  the node.
\<close>

lemma packets_are_dropped:
  fixes d :: dispatcher
  assumes "type \<in> {IPv4, IPv6, DDS}"
  shows "Sender_step L nb (d \<lparr> sending_messages := (m, tgt, type) # rest \<rparr>)
     = Inr (NoTransmission, d \<lparr> sending_messages := rest \<rparr>)"
  using assms by (auto simp: Sender_step_def)

text \<open>
  \<open>get_topology\<close> always returns 255 entries for a topology of at most 255 links: first the
  neighbours, then the number of links repeated, which is indistinguishable from a neighbour.
\<close>

lemma get_topology_padded:
  assumes "length topology \<le> 255"
  shows "\<exists>ports. get_topology topology = Inr ports \<and> length ports = 255 \<and>
     take (length topology) ports = map fst topology \<and>
     drop (length topology) ports = replicate (255 - length topology) (word_of_nat (length topology))"
  using assms by (simp add: get_topology_def)

end
