(* ===== verification/Reservations.thy ===== *)
theory Reservations
  imports Complex_Main Api_Wire
begin

text \<open>
  Reservations (\<open>structs/reservation.cpp\<close>): the record, its copy constructor, which starts
  over in the state \<open>CREATED\<close>, the state changers with their assertions, and the equality
  the resource manager searches with.  An estimated bid is a \<open>double\<close>: it is a real number
  here, the arithmetic of \<open>Resources\<close> on it stays within small exact ratios.
\<close>

datatype ReservationState = CREATED | VIRTUALLY_PRE_RESERVED | PRE_RESERVED | RESERVED | CLEARED

fun reservation_state_as_string :: "ReservationState \<Rightarrow> string" where
  "reservation_state_as_string CREATED = ''created''"
| "reservation_state_as_string VIRTUALLY_PRE_RESERVED = ''virtually pre-reserved''"
| "reservation_state_as_string PRE_RESERVED = ''pre-reserved''"
| "reservation_state_as_string RESERVED = ''reserved''"
| "reservation_state_as_string CLEARED = ''cleared''"

type_synonym node = "byte list \<times> IdentifierType"

record reservation =
  rsv_state :: ReservationState
  rsv_priority :: byte
  rsv_capabilities :: requesting_capabilities
  rsv_uuid :: UUIDv4
  rsv_listener_length :: byte
  rsv_estimated_bid :: real
  rsv_next_nodes :: "node list"
  rsv_past_node :: node
  rsv_listener :: "byte list"

section \<open>Construction\<close>

definition Reservation_new :: "requesting_capabilities \<Rightarrow> byte \<Rightarrow> reservation" where
  "Reservation_new capabilities prio =
     \<lparr> rsv_state = CREATED, rsv_priority = prio, rsv_capabilities = capabilities, rsv_uuid = 0,
       rsv_listener_length = 0, rsv_estimated_bid = - 1, rsv_next_nodes = [],
       rsv_past_node = ([], Simulation), rsv_listener = replicate RANK_LISTENER_MAX_LEN 0 \<rparr>"

definition Reservation_copy :: "reservation \<Rightarrow> reservation" where
  "Reservation_copy r = r \<lparr> rsv_state := CREATED \<rparr>"

definition Reservation_copy_named :: "reservation \<Rightarrow> reservation" where
  "Reservation_copy_named r = r \<lparr> rsv_state := CREATED, rsv_estimated_bid := - 1 \<rparr>"

section \<open>Nodes and members\<close>

text \<open>
  Both setters also log the nodes as text.  For an address shorter than its type says, the text
  is built with \<open>at\<close> past the end, which throws after the member was changed; the sources of
  messages in the model have the length of their type, and the text is left out.
\<close>

definition add_next_node :: "node \<Rightarrow> reservation \<Rightarrow> reservation" where
  "add_next_node n r = r \<lparr> rsv_next_nodes := rsv_next_nodes r @ [n] \<rparr>"

definition set_past_node :: "node \<Rightarrow> reservation \<Rightarrow> reservation" where
  "set_past_node n r = r \<lparr> rsv_past_node := n \<rparr>"

text \<open>\<open>copy_n\<close> past the end of the source or of the array is undefined; the length member stays.\<close>

definition mark_listener :: "byte list \<Rightarrow> byte \<Rightarrow> reservation \<Rightarrow> reservation res" where
  "mark_listener listener len r =
     (let n = unat len in
      if n \<le> length listener \<and> n \<le> RANK_LISTENER_MAX_LEN
      then Inr (r \<lparr> rsv_listener := take n listener @ drop n (rsv_listener r) \<rparr>)
      else Inl UndefinedBehaviour)"

definition set_uuid :: "UUIDv4 \<Rightarrow> reservation \<Rightarrow> reservation" where
  "set_uuid u r = r \<lparr> rsv_uuid := u \<rparr>"

definition set_priority :: "byte \<Rightarrow> reservation \<Rightarrow> reservation" where
  "set_priority p r = r \<lparr> rsv_priority := p \<rparr>"

definition update_last_bid :: "real \<Rightarrow> reservation \<Rightarrow> reservation" where
  "update_last_bid v r = r \<lparr> rsv_estimated_bid := v \<rparr>"

section \<open>State changers\<close>

definition wait_for_sacrifice :: "reservation \<Rightarrow> reservation res" where
  "wait_for_sacrifice r =
     and_then (require (rsv_state r = CREATED) AssertionFailed) (\<lambda>_.
       Inr (r \<lparr> rsv_state := VIRTUALLY_PRE_RESERVED \<rparr>))"

definition reserve :: "reservation \<Rightarrow> reservation res" where
  "reserve r =
     and_then (require (rsv_state r = CREATED \<or> rsv_state r = VIRTUALLY_PRE_RESERVED) AssertionFailed) (\<lambda>_.
       Inr (r \<lparr> rsv_state := RESERVED \<rparr>))"

definition pre_reserve :: "reservation \<Rightarrow> reservation res" where
  "pre_reserve r =
     and_then (require (rsv_state r = CREATED) AssertionFailed) (\<lambda>_.
       Inr (r \<lparr> rsv_state := PRE_RESERVED \<rparr>))"

definition unconsider :: "reservation \<Rightarrow> reservation res" where
  "unconsider r =
     and_then (require (rsv_state r = CREATED) AssertionFailed) (\<lambda>_.
       Inr (r \<lparr> rsv_state := CLEARED \<rparr>))"

definition replenish :: "reservation \<Rightarrow> reservation res" where
  "replenish r =
     and_then (require (rsv_state r = RESERVED \<or> rsv_state r = PRE_RESERVED
                        \<or> rsv_state r = VIRTUALLY_PRE_RESERVED) AssertionFailed) (\<lambda>_.
       Inr (r \<lparr> rsv_state := CLEARED \<rparr>))"

definition mark_pre_reserved :: "reservation \<Rightarrow> reservation res" where
  "mark_pre_reserved r =
     and_then (require (rsv_state r = RESERVED) AssertionFailed) (\<lambda>_.
       Inr (r \<lparr> rsv_state := PRE_RESERVED \<rparr>))"

definition mark_reserved :: "reservation \<Rightarrow> reservation res" where
  "mark_reserved r =
     and_then (require (rsv_state r = PRE_RESERVED) AssertionFailed) (\<lambda>_.
       Inr (r \<lparr> rsv_state := RESERVED \<rparr>))"

lemmas state_changers =
  wait_for_sacrifice_def reserve_def pre_reserve_def unconsider_def replenish_def
  mark_pre_reserved_def mark_reserved_def

section \<open>Operators\<close>

definition Reservation_less :: "reservation \<Rightarrow> reservation \<Rightarrow> bool" where
  "Reservation_less r r' = (rsv_priority r < rsv_priority r' \<and> rsv_uuid r < rsv_uuid r')"

definition Reservation_eq :: "reservation \<Rightarrow> reservation \<Rightarrow> bool" where
  "Reservation_eq r r' =
     (rsv_uuid r = rsv_uuid r' \<and> rsv_state r = rsv_state r' \<and>
      Capabilities_eq (rsv_capabilities r) (rsv_capabilities r'))"

lemma Reservation_eq_refl [simp]: "Reservation_eq r r"
  by (simp add: Reservation_eq_def)

section \<open>Life cycle\<close>

datatype reservation_op =
  WaitForSacrifice | Reserve | PreReserve | Unconsider | Replenish | MarkPreReserved | MarkReserved

fun reservation_apply :: "reservation_op \<Rightarrow> reservation \<Rightarrow> reservation res" where
  "reservation_apply WaitForSacrifice r = wait_for_sacrifice r"
| "reservation_apply Reserve r = reserve r"
| "reservation_apply PreReserve r = pre_reserve r"
| "reservation_apply Unconsider r = unconsider r"
| "reservation_apply Replenish r = replenish r"
| "reservation_apply MarkPreReserved r = mark_pre_reserved r"
| "reservation_apply MarkReserved r = mark_reserved r"

text \<open>The transitions the assertions leave, as a step relation on states.\<close>

inductive reservation_step :: "ReservationState \<Rightarrow> reservation_op \<Rightarrow> ReservationState \<Rightarrow> bool" where
  wait: "reservation_step CREATED WaitForSacrifice VIRTUALLY_PRE_RESERVED"
| reserve_fresh: "reservation_step CREATED Reserve RESERVED"
| reserve_waiting: "reservation_step VIRTUALLY_PRE_RESERVED Reserve RESERVED"
| prereserve: "reservation_step CREATED PreReserve PRE_RESERVED"
| forget: "reservation_step CREATED Unconsider CLEARED"
| free: "s \<in> {RESERVED, PRE_RESERVED, VIRTUALLY_PRE_RESERVED} \<Longrightarrow> reservation_step s Replenish CLEARED"
| demote: "reservation_step RESERVED MarkPreReserved PRE_RESERVED"
| promote: "reservation_step PRE_RESERVED MarkReserved RESERVED"

inductive_simps reservation_step_simps [simp]:
  "reservation_step s WaitForSacrifice s'"
  "reservation_step s Reserve s'"
  "reservation_step s PreReserve s'"
  "reservation_step s Unconsider s'"
  "reservation_step s Replenish s'"
  "reservation_step s MarkPreReserved s'"
  "reservation_step s MarkReserved s'"

inductive_cases reservation_step_cleared: "reservation_step CLEARED oper s'"

lemma reservation_apply_Inr:
  "reservation_apply oper r = Inr r' \<longleftrightarrow>
     (\<exists>s'. reservation_step (rsv_state r) oper s' \<and> r' = r \<lparr> rsv_state := s' \<rparr>)"
  by (cases oper) (auto simp: state_changers)

lemma reservation_apply_Inl:
  "reservation_apply oper r = Inl e \<longleftrightarrow>
     e = AssertionFailed \<and> (\<forall>s'. \<not> reservation_step (rsv_state r) oper s')"
  by (cases oper) (auto simp: state_changers)

fun reservation_run :: "reservation_op list \<Rightarrow> reservation \<Rightarrow> reservation res" where
  "reservation_run [] r = Inr r"
| "reservation_run (oper # ops) r = and_then (reservation_apply oper r) (reservation_run ops)"

lemma cleared_stuck: "rsv_state r = CLEARED \<Longrightarrow> reservation_apply oper r = Inl AssertionFailed"
  by (auto simp: reservation_apply_Inl elim: reservation_step_cleared)

lemma clearing_step: "reservation_step s oper s' \<Longrightarrow> (s' = CLEARED) = (oper \<in> {Unconsider, Replenish})"
  by (cases oper) auto

text \<open>
  The operations that end a reservation really end it: in any sequence of state changers
  that runs without a failed assertion, \<open>unconsider\<close> and \<open>replenish\<close> can only be the last
  one, the reservation ends \<open>CLEARED\<close> exactly when the last one is one of the two (given that
  it did not start cleared), and on a cleared reservation every state changer fails its
  assertion.
\<close>

lemma reservation_cleared_is_final:
  assumes "reservation_run ops r = Inr r'" and "rsv_state r \<noteq> CLEARED"
  shows "set (butlast ops) \<inter> {Unconsider, Replenish} = {} \<and>
     (rsv_state r' = CLEARED) = (ops \<noteq> [] \<and> last ops \<in> {Unconsider, Replenish}) \<and>
     (\<exists>oper. reservation_apply oper r' \<noteq> Inl AssertionFailed) = (rsv_state r' \<noteq> CLEARED)"
proof -
  have "set (butlast ops) \<inter> {Unconsider, Replenish} = {} \<and>
     (rsv_state r' = CLEARED) = (ops \<noteq> [] \<and> last ops \<in> {Unconsider, Replenish})"
    using assms
  proof (induction ops arbitrary: r)
    case Nil
    then show ?case by simp
  next
    case (Cons oper ops)
    then obtain s' where s': "reservation_step (rsv_state r) oper s'"
      and run: "reservation_run ops (r \<lparr> rsv_state := s' \<rparr>) = Inr r'"
      by (auto simp: reservation_apply_Inr)
    show ?case
    proof (cases "s' = CLEARED")
      case True
      then have "ops = []" using run by (cases ops) (auto simp: cleared_stuck)
      then show ?thesis using run True clearing_step [OF s'] by auto
    next
      case False
      then show ?thesis using Cons.IH [OF run] clearing_step [OF s'] run by auto
    qed
  qed
  moreover have "(\<exists>oper. reservation_apply oper r' \<noteq> Inl AssertionFailed) = (rsv_state r' \<noteq> CLEARED)"
  proof (cases "rsv_state r'")
    case CREATED
    then have "reservation_apply Reserve r' \<noteq> Inl AssertionFailed" by (simp add: reserve_def)
    then show ?thesis using CREATED by (metis ReservationState.distinct(7))
  next
    case CLEARED
    then show ?thesis by (simp add: cleared_stuck)
  qed (auto simp: replenish_def intro!: exI [of _ Replenish])
  ultimately show ?thesis by blast
qed

end
