(* ===== verification/Resources.thy ===== *)
theory Resources
  imports Reservations "HOL-Library.List_Lexorder"
begin

text \<open>
  The resource manager (\<open>structs/resources.cpp\<close>, \<open>structs/current_capabilities.cpp\<close>, the
  simulated metrics of \<open>dry-rankd-net\<close>): estimating a bid, and the list of reservations.
  Handlers and the manager share reservations through pointers, and the code mutates through
  them: reservations live in an explicit heap, \<open>std::list<Reservation>\<close> is the list of the
  addresses of its nodes, and a freed address is absent from the heap.  What the manager reads
  from the system (cores, memory, clock, random draws of the metrics) is the record
  \<open>environment\<close>, an argument of each call.  A \<open>double\<close> is a real number and an unset metric
  (\<open>NAN\<close>) is \<open>None\<close>.
\<close>

type_synonym addr = nat
type_synonym ptr = "addr option"

type_synonym metric = "int \<times> real option \<times> real option \<times> real option \<times> real option"
type_synonym metrics_map = "(byte list, metric) std_map"

record environment =
  env_cpu_cores :: uint32
  env_memory_total :: size_t
  env_memory_available :: size_t
  env_rtt :: real
  env_pdv :: real
  env_pl :: real
  env_now :: int

record resources =
  heap :: "addr \<Rightarrow> reservation option"
  next_addr :: addr
  reservations :: "addr list"
  proximity_metrics :: metrics_map

section \<open>Current capabilities\<close>

definition bare_metal_cpu_cores :: "environment \<Rightarrow> uint32" where
  "bare_metal_cpu_cores E = env_cpu_cores E"

definition bare_metal_memory :: "environment \<Rightarrow> uint32" where
  "bare_metal_memory E = ucast (env_memory_total E)"

definition current_cpu_cores :: "environment \<Rightarrow> real" where
  "current_cpu_cores E = 1"

text \<open>A division of \<open>size_t\<close> values: the quotient is an integer.\<close>

definition current_memory :: "environment \<Rightarrow> real res" where
  "current_memory E =
     (if env_memory_total E = 0 then Inl UndefinedBehaviour
      else Inr (real (unat (env_memory_available E div env_memory_total E))))"

section \<open>Bare-metal and current resources\<close>

fun bare_metal_loop :: "environment \<Rightarrow> (byte \<times> capability_item) list \<Rightarrow> real res" where
  "bare_metal_loop E [] = Inr 1"
| "bare_metal_loop E ((item_order, item_key, item_value) # items) =
     (if item_value = AnyEmpty then Inr 0
      else if item_key = COMP_CPU then
        and_then (any_cast_uint item_value) (\<lambda>n.
          if bare_metal_cpu_cores E \<le> n then Inr 0 else bare_metal_loop E items)
      else if item_key = COMP_MEMORY then
        and_then (any_cast_uint item_value) (\<lambda>n.
          if bare_metal_memory E \<le> n then Inr 0 else bare_metal_loop E items)
      else bare_metal_loop E items)"

definition bare_metal_resource_assessment :: "environment \<Rightarrow> requesting_capabilities \<Rightarrow> real res" where
  "bare_metal_resource_assessment E requirements = bare_metal_loop E (cap_ordered_items requirements)"

text \<open>The loop of the second assessment: \<open>None\<close> is the early return of zero.\<close>

fun current_loop ::
  "environment \<Rightarrow> (byte \<times> capability_item) list \<Rightarrow> real list \<Rightarrow> real list option res" where
  "current_loop E [] individual_assessments = Inr (Some individual_assessments)"
| "current_loop E ((item_order, item_key, item_value) # items) individual_assessments =
     (if item_value = AnyEmpty then Inr None
      else if item_key = COMP_CPU then
        (if current_cpu_cores E = 0 then Inr None
         else current_loop E items (individual_assessments @ [current_cpu_cores E]))
      else if item_key = COMP_MEMORY then
        and_then (current_memory E) (\<lambda>value.
          if value = 0 then Inr None
          else current_loop E items (individual_assessments @ [value]))
      else current_loop E items individual_assessments)"

text \<open>The macro is \<open>(2/3)\<close>, an integer division.\<close>

definition RANK_CURRENT_RESOURCES_EVAL_THRESHOLD :: int where
  "RANK_CURRENT_RESOURCES_EVAL_THRESHOLD = 2 div 3"

fun alpha :: "real list \<Rightarrow> real" where
  "alpha [] = 0"
| "alpha [x] = x"
| "alpha (x # xs) =
     real_of_int RANK_CURRENT_RESOURCES_EVAL_THRESHOLD * x
     + real_of_int (1 - RANK_CURRENT_RESOURCES_EVAL_THRESHOLD) * alpha xs"

definition current_resource_assessment :: "environment \<Rightarrow> requesting_capabilities \<Rightarrow> real res" where
  "current_resource_assessment E requirements =
     and_then (current_loop E (cap_ordered_items requirements) []) (\<lambda>individual.
       case individual of
         None \<Rightarrow> Inr 0
       | Some individual_assessments \<Rightarrow>
           if individual_assessments = [] then Inr 0 else Inr (alpha individual_assessments))"

section \<open>Proximity\<close>

definition number_of_hops_to :: "byte list \<Rightarrow> byte" where
  "number_of_hops_to tgt =
     (if length tgt = 4 then 1 else if length tgt = 16 then 2 else 0)"

definition phi_2 :: "real \<Rightarrow> real" where
  "phi_2 metric = 2 powr (- real_of_int \<lfloor>metric\<rfloor>)"

definition phi_1 :: "real \<Rightarrow> real" where
  "phi_1 metric = (if metric \<le> 100 then 1 else 2 powr (- ((metric - 100) / 100)))"

definition phi_3 :: "real \<Rightarrow> real" where
  "phi_3 metric =
     (if metric \<le> 30 then 1
      else if 30 + 30 * 0.3 < metric then 0
      else - (metric - 30) / (30 + 30 * 0.3) + 1)"

text \<open>The linear variant, which is the default of the build.\<close>

definition phi_4 :: "real \<Rightarrow> real" where
  "phi_4 metric = (if 10 < metric then 0 else - 0.75 * (1 / 10) * metric + 1)"

definition proximity_hops_assessment ::
  "environment \<Rightarrow> byte list \<Rightarrow> bool \<Rightarrow> metrics_map \<Rightarrow> real \<times> metrics_map" where
  "proximity_hops_assessment E tgt update ms =
     (let hops = real (unat (number_of_hops_to tgt)) in
      (phi_2 hops,
       case map_of ms tgt of
         Some (t, h, r, v, l) \<Rightarrow>
           map_assign tgt (if update then env_now E else t, Some hops, r, v, l) ms
       | None \<Rightarrow> map_insert tgt (env_now E, Some hops, None, None, None) ms))"

definition proximity_rtt_assessment ::
  "environment \<Rightarrow> byte list \<Rightarrow> bool \<Rightarrow> metrics_map \<Rightarrow> real \<times> metrics_map" where
  "proximity_rtt_assessment E tgt update ms =
     (phi_1 (env_rtt E),
      case map_of ms tgt of
        Some (t, h, r, v, l) \<Rightarrow>
          map_assign tgt (if update then env_now E else t, h, Some (env_rtt E), v, l) ms
      | None \<Rightarrow> map_insert tgt (env_now E, None, Some (env_rtt E), None, None) ms)"

definition proximity_pdv_assessment ::
  "environment \<Rightarrow> byte list \<Rightarrow> bool \<Rightarrow> metrics_map \<Rightarrow> real \<times> metrics_map" where
  "proximity_pdv_assessment E tgt update ms =
     (phi_3 (env_pdv E),
      case map_of ms tgt of
        Some (t, h, r, v, l) \<Rightarrow>
          map_assign tgt (if update then env_now E else t, h, r, Some (env_pdv E), l) ms
      | None \<Rightarrow> map_insert tgt (env_now E, None, None, Some (env_pdv E), None) ms)"

definition proximity_pl_assessment ::
  "environment \<Rightarrow> byte list \<Rightarrow> bool \<Rightarrow> metrics_map \<Rightarrow> real \<times> metrics_map" where
  "proximity_pl_assessment E tgt update ms =
     (phi_4 (env_pl E),
      case map_of ms tgt of
        Some (t, h, r, v, l) \<Rightarrow>
          map_assign tgt (if update then env_now E else t, h, r, v, Some (env_pl E)) ms
      | None \<Rightarrow> map_insert tgt (env_now E, None, None, None, Some (env_pl E)) ms)"

text \<open>\<open>copy_n\<close> of more octets than the array of 16 has is undefined.\<close>

definition proximity_assessment ::
  "environment \<Rightarrow> byte list \<Rightarrow> byte \<Rightarrow> metrics_map \<Rightarrow> (real \<times> metrics_map) res" where
  "proximity_assessment E tgt target_length ms =
     (if length tgt < unat target_length then Inl UndefinedBehaviour
      else
        let cut_target = take (unat target_length) tgt;
            (hops, ms) = proximity_hops_assessment E cut_target True ms;
            (rtt, ms) = proximity_rtt_assessment E cut_target True ms;
            (pdv, ms) = proximity_pdv_assessment E cut_target True ms;
            (pl, ms) = proximity_pl_assessment E cut_target True ms
        in Inr ((hops + rtt + pdv + pl) / 4, ms))"

definition hysteresis_assessment :: "reservation \<Rightarrow> real" where
  "hysteresis_assessment r = 1"

definition RANK_MAX_PRIORITY :: real where "RANK_MAX_PRIORITY = 8"

definition estimate_bid ::
  "environment \<Rightarrow> reservation \<Rightarrow> metrics_map \<Rightarrow> (real \<times> metrics_map) res" where
  "estimate_bid E r ms =
     and_then (bare_metal_resource_assessment E (rsv_capabilities r)) (\<lambda>node_resources.
     and_then (current_resource_assessment E (rsv_capabilities r)) (\<lambda>current_resources.
     let fairness = real (unat (rsv_priority r)) / RANK_MAX_PRIORITY in
     and_then (proximity_assessment E (rsv_listener r) (rsv_listener_length r) ms) (\<lambda>(proximity, ms).
     let hysteresis = hysteresis_assessment r in
       Inr (node_resources * (proximity + hysteresis) / 2 * current_resources
            * (fairness / RANK_MAX_PRIORITY), ms))))"

section \<open>The list of reservations\<close>

definition deref :: "ptr \<Rightarrow> resources \<Rightarrow> reservation res" where
  "deref p R = (case p of None \<Rightarrow> Inl NullDeref
     | Some a \<Rightarrow> (case heap R a of None \<Rightarrow> Inl Dangling | Some r \<Rightarrow> Inr r))"

definition store_at :: "addr \<Rightarrow> reservation \<Rightarrow> resources \<Rightarrow> resources" where
  "store_at a r R = R \<lparr> heap := (heap R)(a \<mapsto> r) \<rparr>"

text \<open>\<open>new Reservation\<close> of a client of the manager.\<close>

definition new_reservation :: "reservation \<Rightarrow> resources \<Rightarrow> addr \<times> resources" where
  "new_reservation r R =
     (next_addr R, R \<lparr> heap := (heap R)(next_addr R \<mapsto> r), next_addr := next_addr R + 1 \<rparr>)"

text \<open>\<open>_reservations.push_back(*p)\<close> copies; the address of \<open>back()\<close> is returned.\<close>

definition push_back :: "reservation \<Rightarrow> resources \<Rightarrow> addr \<times> resources" where
  "push_back r R =
     (let (a, R) = new_reservation (Reservation_copy r) R in
      (a, R \<lparr> reservations := reservations R @ [a] \<rparr>))"

text \<open>
  The environment is one reading for the whole call.  The code reads its data sources again for
  each item; the model takes the readings of one call to agree.
\<close>

definition available_for_performance ::
  "environment \<Rightarrow> ptr \<Rightarrow> byte \<Rightarrow> resources \<Rightarrow> (ptr \<times> resources) res" where
  "available_for_performance E statement prio R =
     and_then (deref statement R) (\<lambda>r.
     and_then (bare_metal_resource_assessment E (rsv_capabilities r)) (\<lambda>bare.
       if bare = 0 then Inr (None, R)
       else
         let r = set_priority prio r; R = store_at (the statement) r R in
         and_then (estimate_bid E r (proximity_metrics R)) (\<lambda>(bid, ms).
           let r = update_last_bid bid r;
               R = (store_at (the statement) r R) \<lparr> proximity_metrics := ms \<rparr> in
           if bid \<noteq> 0 then (let (a, R) = push_back r R in Inr (Some a, R))
           else Inr (None, R))))"

text \<open>\<open>std::find\<close> by \<open>operator==\<close>, the element on the left.\<close>

fun find_reservation :: "resources \<Rightarrow> reservation \<Rightarrow> addr list \<Rightarrow> addr option res" where
  "find_reservation R r [] = Inr None"
| "find_reservation R r (a # as) =
     and_then (deref (Some a) R) (\<lambda>item.
       if Reservation_eq item r then Inr (Some a) else find_reservation R r as)"

definition replenish_reservation :: "ptr \<Rightarrow> resources \<Rightarrow> resources res" where
  "replenish_reservation p R =
     and_then (deref p R) (\<lambda>r.
     and_then (find_reservation R r (reservations R)) (\<lambda>found_reservation.
       case found_reservation of
         None \<Rightarrow> Inl StdException
       | Some a \<Rightarrow>
           and_then (replenish r) (\<lambda>r.
           let R = store_at (the p) r R in
             Inr (R \<lparr> heap := (heap R)(a := None), reservations := remove1 a (reservations R) \<rparr>))))"

text \<open>
  The loop compares through the pointer in every round: when the pointer is one of the
  elements, a change of that element is seen by the later comparisons.
\<close>

fun mark_reservation_loop :: "ptr \<Rightarrow> addr list \<Rightarrow> bool \<Rightarrow> resources \<Rightarrow> (bool \<times> resources) res" where
  "mark_reservation_loop p [] found R = Inr (found, R)"
| "mark_reservation_loop p (a # as) found R =
     and_then (deref p R) (\<lambda>r.
     and_then (deref (Some a) R) (\<lambda>item.
       if Reservation_eq r item then
         and_then (if rsv_state item \<noteq> CREATED then mark_reserved item else reserve item) (\<lambda>item.
           mark_reservation_loop p as True (store_at a item R))
       else mark_reservation_loop p as found R))"

definition mark_reservation :: "ptr \<Rightarrow> resources \<Rightarrow> resources res" where
  "mark_reservation p R =
     and_then (mark_reservation_loop p (reservations R) False R) (\<lambda>(found, R).
       if \<not> found then
         and_then (deref p R) (\<lambda>r. and_then (reserve r) (\<lambda>r. Inr (store_at (the p) r R)))
       else Inr R)"

fun find_pre_reservation :: "ptr \<Rightarrow> addr list \<Rightarrow> resources \<Rightarrow> addr option res" where
  "find_pre_reservation p [] R = Inr None"
| "find_pre_reservation p (a # as) R =
     and_then (deref p R) (\<lambda>r.
     and_then (deref (Some a) R) (\<lambda>item.
       if Reservation_eq r item then Inr (Some a) else find_pre_reservation p as R))"

definition mark_pre_reservation :: "ptr \<Rightarrow> resources \<Rightarrow> (ptr \<times> resources) res" where
  "mark_pre_reservation p R =
     and_then (find_pre_reservation p (reservations R) R) (\<lambda>found.
       case found of
         Some a \<Rightarrow>
           and_then (deref (Some a) R) (\<lambda>item.
           and_then (pre_reserve item) (\<lambda>item. Inr (Some a, store_at a item R)))
       | None \<Rightarrow>
           and_then (deref p R) (\<lambda>r.
           and_then (pre_reserve r) (\<lambda>r.
             let (a, R) = push_back r (store_at (the p) r R) in Inr (Some a, R))))"

fun find_by_timestamp :: "ulid_lib \<Rightarrow> UUIDv4 \<Rightarrow> addr list \<Rightarrow> resources \<Rightarrow> addr option res" where
  "find_by_timestamp L uuid [] R = Inr None"
| "find_by_timestamp L uuid (a # as) R =
     and_then (deref (Some a) R) (\<lambda>r.
       if is_same_timestamp L (rsv_uuid r) uuid then Inr (Some a)
       else find_by_timestamp L uuid as R)"

definition get_reservation_for :: "ulid_lib \<Rightarrow> UUIDv4 \<Rightarrow> resources \<Rightarrow> (ptr \<times> resources) res" where
  "get_reservation_for L uuid R =
     and_then (find_by_timestamp L uuid (reservations R) R) (\<lambda>found.
       case found of
         None \<Rightarrow> Inr (None, R)
       | Some a \<Rightarrow>
           and_then (deref (Some a) R) (\<lambda>r.
             if rsv_uuid r = uuid then Inr (Some a, R)
             else Inr (Some a, store_at a (set_uuid uuid r) R)))"

definition reservations_size :: "resources \<Rightarrow> nat" where
  "reservations_size R = length (reservations R)"

section \<open>The updating thread\<close>

text \<open>
  One round of \<open>Resources::operator()\<close>: entries whose last update is 60 or more clock ticks
  ago are removed, the others re-assessed.  Each call of the hop assessment also stores the
  raw hop count again, so that the first component ends up raw and the other three hold the
  value of the last three calls.
\<close>

definition RANK_DURATION_OLD :: int where "RANK_DURATION_OLD = 60"

fun refresh_metrics :: "environment \<Rightarrow> (byte list \<times> metric) list \<Rightarrow> metrics_map \<Rightarrow> metrics_map" where
  "refresh_metrics E [] ms = ms"
| "refresh_metrics E ((tgt, t, h, r, v, l) # entries) ms =
     (if RANK_DURATION_OLD \<le> env_now E - t then refresh_metrics E entries ms
      else
        let (hops, ms) = proximity_hops_assessment E tgt False ms;
            (rtt, ms) = proximity_hops_assessment E tgt False ms;
            (pdv, ms) = proximity_hops_assessment E tgt False ms;
            (pl, ms) = proximity_hops_assessment E tgt False ms
        in refresh_metrics E entries
             (map_assign tgt (t, Some (real (unat (number_of_hops_to tgt))), Some rtt, Some pdv, Some pl) ms))"

definition Resources_round :: "environment \<Rightarrow> resources \<Rightarrow> resources" where
  "Resources_round E R =
     (let keys_to_remove = map fst (filter (\<lambda>(tgt, t, rest). RANK_DURATION_OLD \<le> env_now E - t)
                                      (proximity_metrics R));
          ms = refresh_metrics E (proximity_metrics R) (proximity_metrics R)
      in R \<lparr> proximity_metrics := fold map_erase keys_to_remove ms \<rparr>)"

section \<open>Well-formedness\<close>

text \<open>
  The list names live, distinct reservations; addresses that were not given out yet are free;
  and no reservation ever learns the length of its listener.
\<close>

definition resources_wf :: "resources \<Rightarrow> bool" where
  "resources_wf R \<longleftrightarrow> distinct (reservations R) \<and> (\<forall>a \<in> set (reservations R). heap R a \<noteq> None) \<and>
     (\<forall>a. next_addr R \<le> a \<longrightarrow> heap R a = None) \<and>
     (\<forall>a r. heap R a = Some r \<longrightarrow> rsv_listener_length r = 0 \<and> length (rsv_listener r) = 16) \<and>
     std_map_wf (proximity_metrics R)"

definition reservation_ok :: "reservation \<Rightarrow> bool" where
  "reservation_ok r \<longleftrightarrow> rsv_listener_length r = 0 \<and> length (rsv_listener r) = 16"

definition Resources_init :: resources where
  "Resources_init = \<lparr> heap = (\<lambda>_. None), next_addr = 0, reservations = [], proximity_metrics = [] \<rparr>"

lemma deref_simps [simp]:
  "deref None R = Inl NullDeref"
  "heap R a = Some r \<Longrightarrow> deref (Some a) R = Inr r"
  "heap R a = None \<Longrightarrow> deref (Some a) R = Inl Dangling"
  by (simp_all add: deref_def)

lemma deref_Inr: "deref p R = Inr r \<longleftrightarrow> (\<exists>a. p = Some a \<and> heap R a = Some r)"
  by (auto simp: deref_def split: option.splits)

lemma store_at_simps [simp]:
  "heap (store_at a r R) = (heap R)(a \<mapsto> r)"
  "next_addr (store_at a r R) = next_addr R"
  "reservations (store_at a r R) = reservations R"
  "proximity_metrics (store_at a r R) = proximity_metrics R"
  by (simp_all add: store_at_def)

lemma push_back_simps:
  "push_back r R = (next_addr R, R \<lparr> heap := (heap R)(next_addr R \<mapsto> Reservation_copy r),
     next_addr := next_addr R + 1, reservations := reservations R @ [next_addr R] \<rparr>)"
  by (simp add: push_back_def new_reservation_def Let_def)

lemma resources_wf_init: "resources_wf Resources_init"
  by (simp add: resources_wf_def Resources_init_def)

lemma wf_live: "resources_wf R \<Longrightarrow> a \<in> set (reservations R) \<Longrightarrow> \<exists>r. heap R a = Some r"
  by (auto simp: resources_wf_def)

lemma wf_fresh: "resources_wf R \<Longrightarrow> next_addr R \<notin> set (reservations R)"
  by (auto simp: resources_wf_def)

lemma wf_heap_ok: "resources_wf R \<Longrightarrow> heap R a = Some r \<Longrightarrow> reservation_ok r"
  by (auto simp: resources_wf_def reservation_ok_def)

lemma wf_store: "resources_wf R \<Longrightarrow> heap R a \<noteq> None \<Longrightarrow> reservation_ok r \<Longrightarrow> resources_wf (store_at a r R)"
  by (auto simp: resources_wf_def reservation_ok_def)

lemma wf_new: "resources_wf R \<Longrightarrow> reservation_ok r \<Longrightarrow> resources_wf (snd (new_reservation r R))"
  by (auto simp: resources_wf_def reservation_ok_def new_reservation_def)

lemma wf_push_back: "resources_wf R \<Longrightarrow> reservation_ok r \<Longrightarrow> resources_wf (snd (push_back r R))"
  by (auto simp: resources_wf_def reservation_ok_def push_back_simps Reservation_copy_def)

lemma wf_metrics: "resources_wf R \<Longrightarrow> std_map_wf ms \<Longrightarrow> resources_wf (R \<lparr> proximity_metrics := ms \<rparr>)"
  by (simp add: resources_wf_def)

lemma reservation_ok_updates [simp]:
  "reservation_ok (r \<lparr> rsv_state := s \<rparr>) = reservation_ok r"
  "reservation_ok (set_uuid u r) = reservation_ok r"
  "reservation_ok (set_priority p r) = reservation_ok r"
  "reservation_ok (update_last_bid b r) = reservation_ok r"
  "reservation_ok (add_next_node n r) = reservation_ok r"
  "reservation_ok (set_past_node n r) = reservation_ok r"
  "reservation_ok (Reservation_copy r) = reservation_ok r"
  "reservation_ok (Reservation_new c p)"
  by (simp_all add: reservation_ok_def set_uuid_def set_priority_def update_last_bid_def
      add_next_node_def set_past_node_def Reservation_copy_def Reservation_new_def)

lemma reservation_ok_mark_listener:
  "reservation_ok r \<Longrightarrow> mark_listener l n r = Inr r' \<Longrightarrow> reservation_ok r'"
  by (auto simp: reservation_ok_def mark_listener_def Let_def split: if_splits)

lemma reservation_ok_changers:
  "reservation_ok r \<Longrightarrow> mark_reserved r = Inr r' \<Longrightarrow> reservation_ok r'"
  "reservation_ok r \<Longrightarrow> reserve r = Inr r' \<Longrightarrow> reservation_ok r'"
  "reservation_ok r \<Longrightarrow> pre_reserve r = Inr r' \<Longrightarrow> reservation_ok r'"
  "reservation_ok r \<Longrightarrow> replenish r = Inr r' \<Longrightarrow> reservation_ok r'"
  by (auto simp: state_changers)

lemma metrics_wf_assessments:
  "std_map_wf ms \<Longrightarrow> std_map_wf (snd (proximity_hops_assessment E t u ms))"
  "std_map_wf ms \<Longrightarrow> std_map_wf (snd (proximity_rtt_assessment E t u ms))"
  "std_map_wf ms \<Longrightarrow> std_map_wf (snd (proximity_pdv_assessment E t u ms))"
  "std_map_wf ms \<Longrightarrow> std_map_wf (snd (proximity_pl_assessment E t u ms))"
  by (auto simp: proximity_hops_assessment_def proximity_rtt_assessment_def Let_def
      proximity_pdv_assessment_def proximity_pl_assessment_def split: option.splits prod.splits)

lemma metrics_wf_steps:
  "proximity_hops_assessment E t u ms = (x, ms') \<Longrightarrow> std_map_wf ms \<Longrightarrow> std_map_wf ms'"
  "proximity_rtt_assessment E t u ms = (x, ms') \<Longrightarrow> std_map_wf ms \<Longrightarrow> std_map_wf ms'"
  "proximity_pdv_assessment E t u ms = (x, ms') \<Longrightarrow> std_map_wf ms \<Longrightarrow> std_map_wf ms'"
  "proximity_pl_assessment E t u ms = (x, ms') \<Longrightarrow> std_map_wf ms \<Longrightarrow> std_map_wf ms'"
  using metrics_wf_assessments by (metis snd_conv)+

lemma metrics_wf_proximity:
  assumes "std_map_wf ms" "proximity_assessment E t n ms = Inr (x, ms')"
  shows "std_map_wf ms'"
proof -
  let ?t = "take (unat n) t"
  obtain h m1 where 1: "proximity_hops_assessment E ?t True ms = (h, m1)" by force
  obtain r m2 where 2: "proximity_rtt_assessment E ?t True m1 = (r, m2)" by force
  obtain v m3 where 3: "proximity_pdv_assessment E ?t True m2 = (v, m3)" by force
  obtain l m4 where 4: "proximity_pl_assessment E ?t True m3 = (l, m4)" by force
  have "ms' = m4" using assms(2) 1 2 3 4 by (auto simp: proximity_assessment_def Let_def split: if_splits)
  then show ?thesis using assms(1) metrics_wf_steps 1 2 3 4 by metis
qed

lemma metrics_wf_estimate: "std_map_wf ms \<Longrightarrow> estimate_bid E r ms = Inr (b, ms') \<Longrightarrow> std_map_wf ms'"
  by (auto simp: estimate_bid_def Let_def dest: metrics_wf_proximity)

lemma wf_available:
  assumes "resources_wf R" "available_for_performance E p prio R = Inr (q, R')"
  shows "resources_wf R'"
proof -
  obtain r a bare where p: "p = Some a" "heap R a = Some r"
    and bare: "bare_metal_resource_assessment E (rsv_capabilities r) = Inr bare"
    using assms(2) by (auto simp: available_for_performance_def deref_Inr)
  have ok: "reservation_ok r" using wf_heap_ok assms(1) p by blast
  show ?thesis
  proof (cases "bare = 0")
    case True
    then show ?thesis using assms p bare by (simp add: available_for_performance_def)
  next
    case False
    let ?r = "set_priority prio r"
    obtain bid ms where est: "estimate_bid E ?r (proximity_metrics R) = Inr (bid, ms)"
      using assms(2) p bare False by (auto simp: available_for_performance_def Let_def)
    have "std_map_wf ms"
      using est metrics_wf_estimate assms(1) by (auto simp: resources_wf_def)
    then have wf: "resources_wf ((store_at a (update_last_bid bid ?r) (store_at a ?r R)) \<lparr> proximity_metrics := ms \<rparr>)"
      using assms(1) p ok by (intro wf_metrics wf_store) auto
    define R1 where "R1 = (store_at a (update_last_bid bid ?r) (store_at a ?r R)) \<lparr> proximity_metrics := ms \<rparr>"
    have "R' = (if bid \<noteq> 0 then snd (push_back (update_last_bid bid ?r) R1) else R1)"
      using assms(2) p bare False est R1_def
      by (simp add: available_for_performance_def Let_def split: prod.splits if_splits)
    then show ?thesis
      using wf wf_push_back [OF wf, of "update_last_bid bid ?r"] ok R1_def by auto
  qed
qed

lemma wf_mark_loop:
  "resources_wf R \<Longrightarrow> set as \<subseteq> set (reservations R) \<Longrightarrow>
   mark_reservation_loop p as found R = Inr (found', R') \<Longrightarrow> resources_wf R' \<and> reservations R' = reservations R"
proof (induction p as found R arbitrary: found' R' rule: mark_reservation_loop.induct)
  case (1 p found R)
  then show ?case by simp
next
  case (2 p a as found R)
  obtain r item where r: "deref p R = Inr r" and item: "heap R a = Some item"
    using "2.prems"(3) by (auto simp: deref_Inr)
  show ?case
  proof (cases "Reservation_eq r item")
    case True
    then obtain item' where i: "(if rsv_state item \<noteq> CREATED then mark_reserved item else reserve item) = Inr item'"
      and loop: "mark_reservation_loop p as True (store_at a item' R) = Inr (found', R')"
      using "2.prems"(3) r item by auto
    have "reservation_ok item'"
      using i wf_heap_ok [OF "2.prems"(1) item] by (auto simp: state_changers split: if_splits)
    then have "resources_wf (store_at a item' R)" using "2.prems"(1) item by (simp add: wf_store)
    then show ?thesis using "2.IH"(1) [OF r _ True i] item loop "2.prems"(2) by auto
  next
    case False
    then show ?thesis using "2.IH"(2) [OF r _ False] item r "2.prems" by auto
  qed
qed

lemma wf_mark_reservation:
  assumes "resources_wf R" "mark_reservation p R = Inr R'"
  shows "resources_wf R'"
proof -
  obtain found R1 where loop: "mark_reservation_loop p (reservations R) False R = Inr (found, R1)"
    using assms(2) by (auto simp: mark_reservation_def)
  then have "resources_wf R1" using wf_mark_loop [OF assms(1) subset_refl] by blast
  then show ?thesis
    using assms(2) loop wf_heap_ok reservation_ok_changers(2)
    by (fastforce simp: mark_reservation_def deref_Inr intro!: wf_store split: if_splits)
qed

lemma find_pre_in: "find_pre_reservation p as R = Inr (Some a) \<Longrightarrow> a \<in> set as \<and> heap R a \<noteq> None"
  by (induction p as R rule: find_pre_reservation.induct) (auto simp: deref_Inr split: if_splits)

lemma wf_mark_pre_reservation:
  assumes "resources_wf R" "mark_pre_reservation p R = Inr (q, R')"
  shows "resources_wf R'"
proof -
  obtain found where f: "find_pre_reservation p (reservations R) R = Inr found"
    using assms(2) by (auto simp: mark_pre_reservation_def)
  show ?thesis
  proof (cases found)
    case None
    then obtain a r r' where p: "p = Some a" "heap R a = Some r" "pre_reserve r = Inr r'"
      using assms(2) f by (auto simp: mark_pre_reservation_def deref_Inr)
    have "reservation_ok r'" using wf_heap_ok [OF assms(1) p(2)] reservation_ok_changers(3) p(3) by blast
    then show ?thesis
      using assms None f p wf_push_back [of "store_at a r' R" r'] wf_store [of R a r']
      by (auto simp: mark_pre_reservation_def Let_def split: prod.splits)
  next
    case (Some a)
    then show ?thesis
      using assms f wf_heap_ok reservation_ok_changers(3)
      by (fastforce simp: mark_pre_reservation_def deref_Inr intro!: wf_store)
  qed
qed

lemma wf_get_reservation_for:
  "resources_wf R \<Longrightarrow> get_reservation_for L u R = Inr (p, R') \<Longrightarrow> resources_wf R'"
  by (fastforce simp: get_reservation_for_def deref_Inr split: option.splits if_splits
      intro!: wf_store dest: wf_heap_ok)

lemma wf_erase:
  "resources_wf R \<Longrightarrow> a \<in> set (reservations R) \<Longrightarrow>
   resources_wf (R \<lparr> heap := (heap R)(a := None), reservations := remove1 a (reservations R) \<rparr>)"
  by (auto simp: resources_wf_def)

lemma find_reservation_in: "find_reservation R r as = Inr (Some a) \<Longrightarrow> a \<in> set as \<and> heap R a \<noteq> None"
  by (induction R r as rule: find_reservation.induct) (auto simp: deref_Inr split: if_splits)

lemma wf_replenish_reservation:
  assumes "resources_wf R" "replenish_reservation p R = Inr R'"
  shows "resources_wf R'"
proof -
  obtain b r r' a where p: "p = Some b" "heap R b = Some r" "replenish r = Inr r'"
    and f: "find_reservation R r (reservations R) = Inr (Some a)"
    and R': "R' = (store_at b r' R) \<lparr> heap := (heap (store_at b r' R))(a := None),
                reservations := remove1 a (reservations (store_at b r' R)) \<rparr>"
    using assms(2) by (auto simp: replenish_reservation_def deref_Inr Let_def split: option.splits)
  have "reservation_ok r'" using wf_heap_ok [OF assms(1) p(2)] reservation_ok_changers(4) p(3) by blast
  then have "resources_wf (store_at b r' R)" using assms(1) p by (simp add: wf_store)
  then show ?thesis unfolding R' using find_reservation_in [OF f] by (intro wf_erase) auto
qed

lemma metrics_wf_refresh: "std_map_wf ms \<Longrightarrow> std_map_wf (refresh_metrics E es ms)"
proof (induction es arbitrary: ms)
  case Nil
  then show ?case by simp
next
  case (Cons e es)
  obtain tgt t h r v l where e: "e = (tgt, t, h, r, v, l)" by (cases e)
  obtain h1 m1 where 1: "proximity_hops_assessment E tgt False ms = (h1, m1)" by force
  obtain h2 m2 where 2: "proximity_hops_assessment E tgt False m1 = (h2, m2)" by force
  obtain h3 m3 where 3: "proximity_hops_assessment E tgt False m2 = (h3, m3)" by force
  obtain h4 m4 where 4: "proximity_hops_assessment E tgt False m3 = (h4, m4)" by force
  have "std_map_wf m4" using Cons.prems metrics_wf_steps(1) 1 2 3 4 by metis
  then show ?case using Cons by (simp add: e 1 2 3 4)
qed

lemma wf_round: "resources_wf R \<Longrightarrow> resources_wf (Resources_round E R)"
proof -
  assume wf: "resources_wf R"
  have "std_map_wf (fold map_erase ks ms)" if "std_map_wf ms" for ks and ms :: metrics_map
    using that by (induction ks arbitrary: ms) simp_all
  then show ?thesis
    using wf metrics_wf_refresh unfolding Resources_round_def Let_def
    by (intro wf_metrics) (auto simp: resources_wf_def)
qed

text \<open>
  Everything that happens to the manager.  A handler makes a reservation with the constructor
  and marks its listener (\<open>Handler::operator()\<close>), and changes one it holds a pointer to with
  the mutators of the class; the rest are the manager's own operations.
\<close>

inductive reservation_mutation :: "reservation \<Rightarrow> reservation \<Rightarrow> bool" where
  next_node: "reservation_mutation r (add_next_node n r)"
| past_node: "reservation_mutation r (set_past_node n r)"
| listener: "mark_listener l len r = Inr r' \<Longrightarrow> reservation_mutation r r'"
| uuid: "reservation_mutation r (set_uuid u r)"
| priority: "reservation_mutation r (set_priority p r)"
| last_bid: "reservation_mutation r (update_last_bid v r)"

inductive resources_step :: "resources \<Rightarrow> resources \<Rightarrow> bool" where
  create: "mark_listener l len (Reservation_new capabilities prio) = Inr r \<Longrightarrow>
     resources_step R (snd (new_reservation r R))"
| touch: "heap R a = Some r \<Longrightarrow> reservation_mutation r r' \<Longrightarrow> resources_step R (store_at a r' R)"
| admit: "available_for_performance E p prio R = Inr (q, R') \<Longrightarrow> resources_step R R'"
| confirm: "mark_reservation p R = Inr R' \<Longrightarrow> resources_step R R'"
| preliminary: "mark_pre_reservation p R = Inr (q, R') \<Longrightarrow> resources_step R R'"
| release: "replenish_reservation p R = Inr R' \<Longrightarrow> resources_step R R'"
| find: "get_reservation_for L u R = Inr (q, R') \<Longrightarrow> resources_step R R'"
| refresh: "resources_step R (Resources_round E R)"

lemma mutation_ok: "reservation_mutation r r' \<Longrightarrow> reservation_ok r \<Longrightarrow> reservation_ok r'"
  by (induction rule: reservation_mutation.induct) (auto intro: reservation_ok_mark_listener)

lemma created_ok: "mark_listener l len (Reservation_new c p) = Inr r \<Longrightarrow> reservation_ok r"
  by (erule reservation_ok_mark_listener [rotated]) simp

lemma resources_step_wf: "resources_step R R' \<Longrightarrow> resources_wf R \<Longrightarrow> resources_wf R'"
proof (induction rule: resources_step.induct)
  case (touch R a r r')
  then show ?case using mutation_ok wf_heap_ok by (intro wf_store) auto
qed (blast intro: wf_new created_ok wf_available wf_mark_reservation wf_mark_pre_reservation
      wf_replenish_reservation wf_get_reservation_for wf_round)+

text \<open>
  The state \<open>VIRTUALLY_PRE_RESERVED\<close> is entered by \<open>wait_for_sacrifice\<close> alone, which nothing
  calls: no operation of the manager produces it.
\<close>

definition none_waiting :: "resources \<Rightarrow> bool" where
  "none_waiting R \<longleftrightarrow> (\<forall>a r. heap R a = Some r \<longrightarrow> rsv_state r \<noteq> VIRTUALLY_PRE_RESERVED)"

lemma none_waitingD: "none_waiting R \<Longrightarrow> heap R a = Some r \<Longrightarrow> rsv_state r \<noteq> VIRTUALLY_PRE_RESERVED"
  by (auto simp: none_waiting_def)

lemma none_waiting_store:
  "none_waiting R \<Longrightarrow> rsv_state r \<noteq> VIRTUALLY_PRE_RESERVED \<Longrightarrow> none_waiting (store_at a r R)"
  by (auto simp: none_waiting_def store_at_def)

lemma none_waiting_init [simp]: "none_waiting Resources_init"
  by (simp add: none_waiting_def Resources_init_def)

lemma none_waiting_new:
  "none_waiting R \<Longrightarrow> rsv_state r \<noteq> VIRTUALLY_PRE_RESERVED \<Longrightarrow> none_waiting (snd (new_reservation r R))"
  by (auto simp: none_waiting_def new_reservation_def)

lemma none_waiting_push_back: "none_waiting R \<Longrightarrow> none_waiting (snd (push_back r R))"
  by (auto simp: none_waiting_def push_back_simps Reservation_copy_def)

lemma none_waiting_metrics [simp]: "none_waiting (R \<lparr> proximity_metrics := ms \<rparr>) = none_waiting R"
  by (simp add: none_waiting_def)

lemma mutation_state: "reservation_mutation r r' \<Longrightarrow> rsv_state r' = rsv_state r"
  by (induction rule: reservation_mutation.induct)
    (auto simp: add_next_node_def set_past_node_def mark_listener_def set_uuid_def set_priority_def
      update_last_bid_def Let_def split: if_splits)

lemma none_waiting_available:
  assumes "none_waiting R" "available_for_performance E p prio R = Inr (q, R')"
  shows "none_waiting R'"
proof -
  obtain r a where p: "p = Some a" "heap R a = Some r"
    using assms(2) by (auto simp: available_for_performance_def deref_Inr)
  then have "rsv_state r \<noteq> VIRTUALLY_PRE_RESERVED" using none_waitingD assms(1) by blast
  then have st: "none_waiting (store_at a (set_priority prio r) R)"
    "none_waiting (store_at a (update_last_bid b (set_priority prio r)) (store_at a (set_priority prio r) R))" for b
    using assms(1) by (auto simp: set_priority_def update_last_bid_def intro!: none_waiting_store)
  let ?r = "set_priority prio r"
  obtain bare where bare: "bare_metal_resource_assessment E (rsv_capabilities r) = Inr bare"
    using assms(2) p by (auto simp: available_for_performance_def)
  show ?thesis
  proof (cases "bare = 0")
    case True
    then show ?thesis using assms p bare by (simp add: available_for_performance_def)
  next
    case False
    then obtain bid ms where est: "estimate_bid E ?r (proximity_metrics R) = Inr (bid, ms)"
      using assms(2) p bare by (auto simp: available_for_performance_def Let_def)
    define R1 where "R1 = (store_at a (update_last_bid bid ?r) (store_at a ?r R)) \<lparr> proximity_metrics := ms \<rparr>"
    have "R' = (if bid \<noteq> 0 then snd (push_back (update_last_bid bid ?r) R1) else R1)"
      using assms(2) p bare False est R1_def
      by (simp add: available_for_performance_def Let_def split: prod.splits if_splits)
    then show ?thesis using st none_waiting_push_back R1_def by simp
  qed
qed

lemma none_waiting_mark_loop:
  "none_waiting R \<Longrightarrow> mark_reservation_loop p as found R = Inr (found', R') \<Longrightarrow> none_waiting R'"
proof (induction p as found R arbitrary: found' R' rule: mark_reservation_loop.induct)
  case (1 p found R)
  then show ?case by simp
next
  case (2 p a as found R)
  obtain r item where r: "deref p R = Inr r" and item: "heap R a = Some item"
    using "2.prems"(2) by (auto simp: deref_Inr)
  show ?case
  proof (cases "Reservation_eq r item")
    case True
    then obtain item' where i: "(if rsv_state item \<noteq> CREATED then mark_reserved item else reserve item) = Inr item'"
      and loop: "mark_reservation_loop p as True (store_at a item' R) = Inr (found', R')"
      using "2.prems"(2) r item by auto
    have "none_waiting (store_at a item' R)"
      using i "2.prems"(1) by (intro none_waiting_store) (auto simp: state_changers split: if_splits)
    then show ?thesis using "2.IH"(1) [OF r _ True i] item loop by auto
  next
    case False
    then show ?thesis using "2.IH"(2) [OF r _ False] item r "2.prems" by auto
  qed
qed

lemma none_waiting_mark_reservation:
  assumes "none_waiting R" "mark_reservation p R = Inr R'"
  shows "none_waiting R'"
proof -
  obtain found R1 where loop: "mark_reservation_loop p (reservations R) False R = Inr (found, R1)"
    using assms(2) by (auto simp: mark_reservation_def)
  then have "none_waiting R1" using none_waiting_mark_loop assms(1) by blast
  then show ?thesis
    using assms(2) loop
    by (auto simp: mark_reservation_def deref_Inr state_changers intro!: none_waiting_store split: if_splits)
qed

lemma none_waiting_mark_pre_reservation:
  assumes "none_waiting R" "mark_pre_reservation p R = Inr (q, R')"
  shows "none_waiting R'"
proof -
  obtain found where f: "find_pre_reservation p (reservations R) R = Inr found"
    using assms(2) by (auto simp: mark_pre_reservation_def)
  show ?thesis
  proof (cases found)
    case None
    then obtain a r r' where p: "p = Some a" "heap R a = Some r" "pre_reserve r = Inr r'"
      using assms(2) f by (auto simp: mark_pre_reservation_def deref_Inr)
    then have "R' = snd (push_back r' (store_at a r' R))"
      using assms(2) f None by (simp add: mark_pre_reservation_def case_prod_beta)
    then show ?thesis
      using assms(1) p by (auto simp: state_changers intro!: none_waiting_push_back none_waiting_store)
  next
    case (Some a)
    then show ?thesis
      using assms f by (auto simp: mark_pre_reservation_def deref_Inr state_changers intro!: none_waiting_store)
  qed
qed

lemma none_waiting_replenish:
  "none_waiting R \<Longrightarrow> replenish_reservation p R = Inr R' \<Longrightarrow> none_waiting R'"
  by (auto simp: replenish_reservation_def deref_Inr state_changers Let_def none_waiting_def
      split: option.splits if_splits)

lemma none_waiting_get_reservation_for:
  "none_waiting R \<Longrightarrow> get_reservation_for L u R = Inr (q, R') \<Longrightarrow> none_waiting R'"
  using none_waitingD [of R]
  by (fastforce simp: get_reservation_for_def deref_Inr set_uuid_def split: option.splits if_splits
      intro!: none_waiting_store)

lemma resources_step_none_waiting: "resources_step R R' \<Longrightarrow> none_waiting R \<Longrightarrow> none_waiting R'"
proof (induction rule: resources_step.induct)
  case (create l len capabilities prio r R)
  then show ?case
    by (intro none_waiting_new) (auto simp: mark_listener_def Reservation_new_def Let_def split: if_splits)
next
  case (touch R a r r')
  then show ?case using mutation_state none_waitingD by (intro none_waiting_store) metis+
next
  case (refresh R E)
  then show ?case by (simp add: Resources_round_def Let_def)
qed (blast intro: none_waiting_available none_waiting_mark_reservation none_waiting_mark_pre_reservation
      none_waiting_replenish none_waiting_get_reservation_for)+

interpretation pool: step_system "\<lambda>R. R = Resources_init" resources_step "\<lambda>R. resources_wf R \<and> none_waiting R"
  by unfold_locales (auto simp: resources_wf_init resources_step_wf resources_step_none_waiting)

lemma run_from_init:
  assumes "resources_step\<^sup>*\<^sup>* Resources_init R"
  shows "resources_wf R" "none_waiting R"
  using pool.run_safe [OF assms] by (simp_all add: resources_wf_init)

section \<open>The bid\<close>

text \<open>What the simulated data sources guarantee: ranges of the draws, some memory.\<close>

definition env_ok :: "environment \<Rightarrow> bool" where
  "env_ok E \<longleftrightarrow> env_memory_total E \<noteq> 0 \<and> 0 \<le> env_rtt E \<and> 0 \<le> env_pdv E \<and> 0 \<le> env_pl E"

definition items_typed :: "(byte \<times> capability_item) list \<Rightarrow> bool" where
  "items_typed items = list_all (\<lambda>(place, k, v). case v of AnyUint n \<Rightarrow> True | _ \<Rightarrow> False) items"

definition item_fits :: "environment \<Rightarrow> byte \<times> capability_item \<Rightarrow> bool" where
  "item_fits E i = (case i of (place, k, v) \<Rightarrow> (case v of
       AnyUint n \<Rightarrow> (k = COMP_CPU \<longrightarrow> n < bare_metal_cpu_cores E) \<and> (k = COMP_MEMORY \<longrightarrow> n < bare_metal_memory E)
     | _ \<Rightarrow> False))"

definition item_kind :: "byte \<times> capability_item \<Rightarrow> CapabilityItemType" where
  "item_kind i = fst (snd i)"

definition memory_ratio :: "environment \<Rightarrow> real" where
  "memory_ratio E = real (unat (env_memory_available E div env_memory_total E))"

lemma bare_metal_loop_eq:
  "items_typed items \<Longrightarrow> bare_metal_loop E items = Inr (if list_all (item_fits E) items then 1 else 0)"
proof (induction items)
  case Nil
  then show ?case by simp
next
  case (Cons i items)
  obtain place k v where i: "i = (place, k, v)" by (cases i)
  then obtain n where v: "v = AnyUint n" using Cons.prems by (cases v) (auto simp: items_typed_def)
  have typed: "items_typed items" using Cons.prems by (simp add: items_typed_def)
  have fits: "item_fits E i \<longleftrightarrow> (k = COMP_CPU \<longrightarrow> \<not> bare_metal_cpu_cores E \<le> n) \<and> (k = COMP_MEMORY \<longrightarrow> \<not> bare_metal_memory E \<le> n)"
    by (auto simp: i v item_fits_def not_le)
  have ne: "COMP_CPU \<noteq> COMP_MEMORY" by simp
  then show ?case using Cons.IH [OF typed] fits
    by (simp add: i v any_cast_uint_def del: capability_codes)
qed

lemma current_loop_eq:
  assumes "items_typed items" "env_memory_total E \<noteq> 0"
  shows "current_loop E items acc = Inr
     (if memory_ratio E = 0 \<and> COMP_MEMORY \<in> item_kind ` set items then None
      else Some (acc @ map (\<lambda>i. if item_kind i = COMP_CPU then 1 else memory_ratio E)
                        (filter (\<lambda>i. item_kind i = COMP_CPU \<or> item_kind i = COMP_MEMORY) items)))"
  using assms(1)
proof (induction items arbitrary: acc)
  case Nil
  then show ?case by simp
next
  case (Cons i items)
  obtain place k v where i: "i = (place, k, v)" by (cases i)
  then obtain n where v: "v = AnyUint n" using Cons.prems by (cases v) (auto simp: items_typed_def)
  have typed: "items_typed items" using Cons.prems by (simp add: items_typed_def)
  have mem: "current_memory E = Inr (memory_ratio E)"
    using assms(2) by (simp add: current_memory_def memory_ratio_def)
  have ne: "COMP_CPU \<noteq> COMP_MEMORY" by simp
  consider "k = COMP_CPU" | "k = COMP_MEMORY" | "k \<noteq> COMP_CPU" "k \<noteq> COMP_MEMORY" by blast
  then show ?case
    by cases (use Cons.IH [OF typed] ne mem in
      \<open>auto simp: i v item_kind_def current_cpu_cores_def simp del: capability_codes\<close>)
qed

text \<open>
  The weighting of several requirements is lost: the macro \<open>(2/3)\<close> is the integer zero, and
  the assessment of a non-empty list is its last element.
\<close>
lemma alpha_last: "xs \<noteq> [] \<Longrightarrow> alpha xs = last xs"
  by (induction xs rule: alpha.induct) (simp_all add: RANK_CURRENT_RESOURCES_EVAL_THRESHOLD_def)

lemma phi_bounds:
  "0 < phi_1 x \<and> phi_1 x \<le> 1" "0 \<le> phi_3 x \<and> phi_3 x \<le> 1" "0 \<le> phi_4 x"
  "0 \<le> x \<Longrightarrow> phi_4 x \<le> 1" "phi_2 0 = 1"
proof -
  show "0 < phi_1 x \<and> phi_1 x \<le> 1"
  proof (cases "x \<le> 100")
    case False
    then have "2 powr (- ((x - 100) / 100)) \<le> (2::real) powr 0" by (intro powr_mono) auto
    then show ?thesis using False by (simp add: phi_1_def)
  qed (simp add: phi_1_def)
qed (auto simp: phi_3_def phi_4_def phi_2_def field_simps)

definition proximity_value :: "environment \<Rightarrow> real" where
  "proximity_value E = (phi_2 0 + phi_1 (env_rtt E) + phi_3 (env_pdv E) + phi_4 (env_pl E)) / 4"

lemma proximity_value_bounds: "env_ok E \<Longrightarrow> 0 < proximity_value E \<and> proximity_value E \<le> 1"
  using phi_bounds(1) [of "env_rtt E"] phi_bounds(2) [of "env_pdv E"] phi_bounds(3,4) [of "env_pl E"]
  by (simp add: proximity_value_def env_ok_def phi_bounds(5))

lemma proximity_assessment_unset:
  "\<exists>ms'. proximity_assessment E tgt 0 ms = Inr (proximity_value E, ms')"
  by (auto simp: proximity_assessment_def proximity_value_def proximity_hops_assessment_def
      proximity_rtt_assessment_def proximity_pdv_assessment_def proximity_pl_assessment_def
      number_of_hops_to_def Let_def)

text \<open>The last assessed requirement decides; the others only have to be non-zero.\<close>

definition current_value :: "environment \<Rightarrow> (byte \<times> capability_item) list \<Rightarrow> real" where
  "current_value E items =
     (let comp = filter (\<lambda>i. item_kind i = COMP_CPU \<or> item_kind i = COMP_MEMORY) items in
      if comp = [] \<or> memory_ratio E = 0 \<and> COMP_MEMORY \<in> item_kind ` set items then 0
      else if item_kind (last comp) = COMP_CPU then 1 else memory_ratio E)"

lemma current_resource_assessment_eq:
  assumes "items_typed (cap_ordered_items c)" "env_memory_total E \<noteq> 0"
  shows "current_resource_assessment E c = Inr (current_value E (cap_ordered_items c))"
  using current_loop_eq [OF assms, of "[]"]
  by (auto simp: current_resource_assessment_def current_value_def alpha_last last_map Let_def
      simp del: capability_codes)

lemma estimate_bid_eq:
  assumes "items_typed (cap_ordered_items (rsv_capabilities r))" "env_memory_total E \<noteq> 0"
    "rsv_listener_length r = 0"
  shows "\<exists>ms'. estimate_bid E r ms = Inr
     ((if list_all (item_fits E) (cap_ordered_items (rsv_capabilities r)) then 1 else 0)
      * (proximity_value E + 1) / 2 * current_value E (cap_ordered_items (rsv_capabilities r))
      * (real (unat (rsv_priority r)) / 8 / 8), ms')"
proof -
  obtain ms' where "proximity_assessment E (rsv_listener r) 0 ms = Inr (proximity_value E, ms')"
    using proximity_assessment_unset by blast
  then show ?thesis
    using assms bare_metal_loop_eq [OF assms(1)] current_resource_assessment_eq [OF assms(1,2)]
    by (simp add: estimate_bid_def bare_metal_resource_assessment_def hysteresis_assessment_def
        RANK_MAX_PRIORITY_def Let_def)
qed

section \<open>Admission\<close>

text \<open>The condition under which a request is admitted.\<close>

definition admissible :: "environment \<Rightarrow> (byte \<times> capability_item) list \<Rightarrow> byte \<Rightarrow> bool" where
  "admissible E items prio \<longleftrightarrow> list_all (item_fits E) items \<and>
     (\<exists>i \<in> set items. item_kind i \<in> {COMP_CPU, COMP_MEMORY}) \<and>
     (COMP_MEMORY \<in> item_kind ` set items \<longrightarrow> env_memory_total E \<le> env_memory_available E) \<and>
     prio \<noteq> 0"

lemma real_unsigned:
  "0 \<le> (unsigned w :: real)" "(unsigned w :: real) = 0 \<longleftrightarrow> w = 0"
proof -
  have "real (unat w) = unsigned w" by simp
  then show "0 \<le> (unsigned w :: real)" "(unsigned w :: real) = 0 \<longleftrightarrow> w = 0"
    by (metis of_nat_0_le_iff, metis of_nat_eq_0_iff unat_eq_zero)
qed

lemma memory_ratio_pos: "env_memory_total E \<noteq> 0 \<Longrightarrow> memory_ratio E = 0 \<longleftrightarrow> env_memory_available E < env_memory_total E"
proof -
  assume "env_memory_total E \<noteq> 0"
  then have "0 < unat (env_memory_total E)" by (simp add: unat_gt_0)
  then show ?thesis
    by (simp add: memory_ratio_def unat_div div_eq_0_iff word_less_nat_alt)
qed

lemma current_value_pos:
  assumes "env_memory_total E \<noteq> 0"
  shows "current_value E items \<ge> 0"
    and "current_value E items \<noteq> 0 \<longleftrightarrow> (\<exists>i \<in> set items. item_kind i \<in> {COMP_CPU, COMP_MEMORY}) \<and>
     (COMP_MEMORY \<in> item_kind ` set items \<longrightarrow> env_memory_total E \<le> env_memory_available E)"
proof -
  let ?comp = "filter (\<lambda>i. item_kind i = COMP_CPU \<or> item_kind i = COMP_MEMORY) items"
  show "current_value E items \<ge> 0" by (simp add: current_value_def memory_ratio_def Let_def real_unsigned)
  have some: "?comp \<noteq> [] \<longleftrightarrow> (\<exists>i \<in> set items. item_kind i \<in> {COMP_CPU, COMP_MEMORY})"
    by (auto simp: filter_empty_conv simp del: capability_codes)
  have ratio: "memory_ratio E = 0 \<longleftrightarrow> \<not> env_memory_total E \<le> env_memory_available E"
    using memory_ratio_pos [OF assms] by (simp add: not_le)
  have "COMP_MEMORY \<in> item_kind ` set items" if "item_kind (last ?comp) \<noteq> COMP_CPU" "?comp \<noteq> []"
  proof -
    have "last ?comp \<in> set ?comp" using that(2) by (rule last_in_set)
    then have "last ?comp \<in> set items" "item_kind (last ?comp) = COMP_MEMORY"
      using that(1) by (auto simp del: capability_codes)
    then show ?thesis by (intro image_eqI [of _ _ "last ?comp"]) (simp_all del: capability_codes)
  qed
  then show "current_value E items \<noteq> 0 \<longleftrightarrow> (\<exists>i \<in> set items. item_kind i \<in> {COMP_CPU, COMP_MEMORY}) \<and>
     (COMP_MEMORY \<in> item_kind ` set items \<longrightarrow> env_memory_total E \<le> env_memory_available E)"
    unfolding some [symmetric] using ratio
    by (auto simp: current_value_def Let_def simp del: capability_codes)
qed

text \<open>What an admission enters is the estimate for the reservation; a refusal changes that reservation only.\<close>

lemma available_estimate:
  assumes "available_for_performance E (Some p) prio R = Inr (Some a, R')" "heap R p = Some r"
  shows "\<exists>bid. estimate_bid E (set_priority prio r) (proximity_metrics R) = Inr (bid, proximity_metrics R')
     \<and> heap R' a = Some (Reservation_copy (update_last_bid bid (set_priority prio r)))"
  using assms
  by (auto simp: available_for_performance_def Let_def push_back_def new_reservation_def split: if_splits prod.splits)

lemma available_refused_frame:
  "available_for_performance E (Some p) prio R = Inr (None, R') \<Longrightarrow> c \<noteq> p \<Longrightarrow> heap R' c = heap R c"
  by (auto simp: available_for_performance_def Let_def push_back_def new_reservation_def deref_Inr
      split: if_splits prod.splits)

lemma available_effect:
  assumes "resources_wf R" "heap R a = Some r" "env_ok E"
    "items_typed (cap_ordered_items (rsv_capabilities r))"
  shows "if admissible E (cap_ordered_items (rsv_capabilities r)) prio
     then (\<exists>bid ms. 0 < bid \<and> std_map_wf ms \<and>
       available_for_performance E (Some a) prio R = Inr (Some (next_addr R),
         snd (push_back (update_last_bid bid (set_priority prio r))
           ((store_at a (update_last_bid bid (set_priority prio r)) R) \<lparr> proximity_metrics := ms \<rparr>))))
     else (\<exists>R'. available_for_performance E (Some a) prio R = Inr (None, R') \<and>
            reservations R' = reservations R)"
proof -
  let ?items = "cap_ordered_items (rsv_capabilities r)"
  have len: "rsv_listener_length r = 0" using assms(1,2) by (auto simp: resources_wf_def)
  have tot: "env_memory_total E \<noteq> 0" using assms(3) by (simp add: env_ok_def)
  have bare: "bare_metal_resource_assessment E (rsv_capabilities r)
      = Inr (if list_all (item_fits E) ?items then 1 else 0)"
    using bare_metal_loop_eq [OF assms(4)] by (simp add: bare_metal_resource_assessment_def)
  show ?thesis
  proof (cases "list_all (item_fits E) ?items")
    case False
    then show ?thesis using bare assms(2) by (simp add: available_for_performance_def admissible_def)
  next
    case True
    let ?r = "set_priority prio r"
    let ?bid = "(proximity_value E + 1) / 2 * current_value E ?items * (real (unat prio) / 8 / 8)"
    have caps: "rsv_capabilities ?r = rsv_capabilities r" "rsv_listener_length ?r = 0" "rsv_priority ?r = prio"
      using len by (simp_all add: set_priority_def)
    obtain ms where est: "estimate_bid E ?r (proximity_metrics R) = Inr (?bid, ms)"
      using estimate_bid_eq [of ?r E "proximity_metrics R"] caps assms(4) tot True by auto
    have wfm: "std_map_wf ms" using est metrics_wf_estimate assms(1) by (auto simp: resources_wf_def)
    have pos: "0 < proximity_value E" using proximity_value_bounds [OF assms(3)] by simp
    have prio: "real (unat prio) = 0 \<longleftrightarrow> prio = 0" "0 \<le> real (unat prio)" by (simp_all add: real_unsigned)
    have nz: "?bid \<noteq> 0 \<longleftrightarrow> admissible E ?items prio" and nn: "0 \<le> ?bid"
      using current_value_pos [OF tot, of ?items] pos prio True by (auto simp: admissible_def)
    have st: "store_at a (update_last_bid ?bid ?r) (store_at a ?r R) = store_at a (update_last_bid ?bid ?r) R"
      by (simp add: store_at_def)
    show ?thesis
    proof (cases "admissible E ?items prio")
      case yes: True
      then have "0 < ?bid" using nz nn by linarith
      then show ?thesis using yes bare True assms(2) est wfm st
        by (auto simp: available_for_performance_def Let_def push_back_simps intro!: exI [of _ ?bid] exI [of _ ms])
    next
      case no: False
      then have "?bid = 0" using nz by blast
      then show ?thesis using no bare True assms(2) est st
        by (simp add: available_for_performance_def Let_def)
    qed
  qed
qed

section \<open>Searching the list\<close>

definition uuid_free :: "resources \<Rightarrow> UUIDv4 \<Rightarrow> addr list \<Rightarrow> bool" where
  "uuid_free R u as = list_all (\<lambda>a. case heap R a of None \<Rightarrow> False | Some r \<Rightarrow> rsv_uuid r \<noteq> u) as"

lemma find_pre_skip:
  "uuid_free R (rsv_uuid r) as \<Longrightarrow> heap R p = Some r \<Longrightarrow>
   find_pre_reservation (Some p) (as @ bs) R = find_pre_reservation (Some p) bs R"
  by (induction as) (auto simp: uuid_free_def Reservation_eq_def split: option.splits)

lemma find_skip:
  "uuid_free R (rsv_uuid r) as \<Longrightarrow> find_reservation R r (as @ bs) = find_reservation R r bs"
  by (induction as) (auto simp: uuid_free_def Reservation_eq_def split: option.splits)

lemma mark_loop_skip:
  "uuid_free R (rsv_uuid r) as \<Longrightarrow> heap R p = Some r \<Longrightarrow>
   mark_reservation_loop (Some p) (as @ bs) found R = mark_reservation_loop (Some p) bs found R"
  by (induction as) (auto simp: uuid_free_def Reservation_eq_def split: option.splits)

lemma uuid_free_cong:
  "(\<And>a. a \<in> set as \<Longrightarrow> heap R' a = heap R a) \<Longrightarrow> uuid_free R' u as = uuid_free R u as"
  by (simp add: uuid_free_def list_all_iff)

text \<open>
  A reservation that stands last in the list and is the only one of its request: marking it
  and releasing it through its address touches nothing else.
\<close>

lemma mark_pre_last:
  assumes "reservations R = as @ [a]" "uuid_free R (rsv_uuid r) as" "heap R p = Some r"
    "heap R a = Some r'" "Reservation_eq r r'" "rsv_state r' = CREATED"
  shows "mark_pre_reservation (Some p) R = Inr (Some a, store_at a (r' \<lparr> rsv_state := PRE_RESERVED \<rparr>) R)"
  using assms find_pre_skip [OF assms(2,3), of "[a]"]
  by (simp add: mark_pre_reservation_def pre_reserve_def)

lemma mark_reservation_last:
  assumes "reservations R = as @ [a]" "uuid_free R (rsv_uuid r) as" "heap R a = Some r"
    "rsv_state r \<in> {CREATED, PRE_RESERVED}"
  shows "mark_reservation (Some a) R = Inr (store_at a (r \<lparr> rsv_state := RESERVED \<rparr>) R)"
  using assms mark_loop_skip [OF assms(2,3), of "[a]"]
  by (auto simp: mark_reservation_def state_changers)

lemma replenish_last:
  assumes "reservations R = as @ [a]" "uuid_free R (rsv_uuid r) as" "heap R a = Some r" "a \<notin> set as"
    "rsv_state r \<in> {RESERVED, PRE_RESERVED, VIRTUALLY_PRE_RESERVED}"
  shows "replenish_reservation (Some a) R = Inr (R \<lparr> heap := (heap R)(a := None), reservations := as \<rparr>)"
  using assms find_skip [OF assms(2), of "[a]"]
  by (auto simp: replenish_reservation_def replenish_def store_at_def remove1_append)

section \<open>Properties\<close>

text \<open>
  C12. From its creation, whatever happens to the manager -- handlers make reservations with the
  constructor, change the ones they hold with the mutators of the class, and call the
  operations -- its list names distinct live reservations, every
  address not yet given out is free, every reservation still has the listener length zero and
  the array of 16 octets it was created with, and none is in the state
  \<open>VIRTUALLY_PRE_RESERVED\<close>.
\<close>

theorem resources_invariant:
  assumes "resources_step\<^sup>*\<^sup>* Resources_init R"
  shows "distinct (reservations R) \<and> list_all (\<lambda>a. heap R a \<noteq> None) (reservations R) \<and>
     (\<forall>n. heap R (next_addr R + n) = None) \<and>
     (heap R a = Some r \<longrightarrow> rsv_listener_length r = 0 \<and> length (rsv_listener r) = 16
        \<and> rsv_state r \<noteq> VIRTUALLY_PRE_RESERVED)"
  using run_from_init [OF assms] none_waitingD [of R a r]
  unfolding resources_wf_def list_all_iff by simp

theorem resources_invariant_witness:
  "\<exists>R r. resources_step\<^sup>*\<^sup>* Resources_init R \<and> reservations R = [1] \<and> heap R 1 = Some r \<and>
     rsv_listener_length r = 0 \<and> length (rsv_listener r) = 16 \<and> rsv_state r \<noteq> VIRTUALLY_PRE_RESERVED \<and>
     (\<forall>n. heap R (2 + n) = None)"
proof -
  let ?r = "Reservation_new RequestingCapabilities_new 2"
  define R1 where "R1 = snd (new_reservation ?r Resources_init)"
  define R where "R = snd (push_back (?r \<lparr> rsv_state := PRE_RESERVED \<rparr>) (store_at 0 (?r \<lparr> rsv_state := PRE_RESERVED \<rparr>) R1))"
  have "mark_listener [] 0 ?r = Inr ?r"
    by (simp add: mark_listener_def)
  then have 1: "resources_step Resources_init R1"
    unfolding R1_def by (rule resources_step.create)
  have "mark_pre_reservation (Some 0) R1 = Inr (Some 1, R)"
    by (simp add: mark_pre_reservation_def pre_reserve_def R_def R1_def new_reservation_def
        Resources_init_def Reservation_new_def push_back_simps)
  then have "resources_step R1 R" by (rule resources_step.preliminary)
  then have run: "resources_step\<^sup>*\<^sup>* Resources_init R" using 1 by (meson rtranclp.simps)
  have R: "reservations R = [1]" "heap R 1 \<noteq> None" "next_addr R = 2"
    by (simp_all add: R_def R1_def new_reservation_def Resources_init_def push_back_simps)
  then obtain r where "heap R 1 = Some r" by auto
  then show ?thesis using R run resources_invariant [OF run, of 1 r] by auto
qed

text \<open>
  The bid does not depend on the target of the request: two reservations of a reachable
  manager that differ only in their listener get the same bid and leave the same metrics.
\<close>

lemma bid_ignores_target:
  assumes "resources_step\<^sup>*\<^sup>* Resources_init R" "heap R a = Some r" "length l = 16"
  shows "estimate_bid E (r \<lparr> rsv_listener := l \<rparr>) ms = estimate_bid E r ms"
proof -
  have "rsv_listener_length r = 0"
    using run_from_init [OF assms(1)] assms(2) unfolding resources_wf_def by blast
  then show ?thesis by (simp add: estimate_bid_def proximity_assessment_def hysteresis_assessment_def)
qed

definition sample_environment :: environment where
  "sample_environment = \<lparr> env_cpu_cores = 8, env_memory_total = 1000, env_memory_available = 400,
     env_rtt = 20, env_pdv = 5, env_pl = 0, env_now = 1 \<rparr>"

text \<open>
  C6. The admission decision: the manager admits a request exactly when every required number of
  cores and amount of memory is below what the node has, at least one requirement is of one of
  these two kinds, the available memory is not below the total memory when memory is required,
  and the priority is not zero.  An admitted request gets a new entry at the end of the list, a
  copy of the statement in the state \<open>CREATED\<close> with the priority and a positive bid; a refused
  one leaves the list as it is.
\<close>

theorem admission_decision:
  assumes "resources_wf R" "heap R a = Some r" "env_ok E"
    and "items_typed (cap_ordered_items (rsv_capabilities r))"
  shows "\<exists>q R'. available_for_performance E (Some a) prio R = Inr (q, R') \<and>
     (q \<noteq> None) = admissible E (cap_ordered_items (rsv_capabilities r)) prio \<and>
     (case q of None \<Rightarrow> reservations R' = reservations R
      | Some b \<Rightarrow> b = next_addr R \<and> reservations R' = reservations R @ [b] \<and>
          (\<exists>bid > 0. heap R' b = Some (r \<lparr> rsv_state := CREATED, rsv_priority := prio, rsv_estimated_bid := bid \<rparr>)))"
proof (cases "admissible E (cap_ordered_items (rsv_capabilities r)) prio")
  case True
  then obtain bid ms where "0 < bid" and av: "available_for_performance E (Some a) prio R = Inr (Some (next_addr R),
         snd (push_back (update_last_bid bid (set_priority prio r))
           ((store_at a (update_last_bid bid (set_priority prio r)) R) \<lparr> proximity_metrics := ms \<rparr>)))"
    using available_effect [OF assms, of prio] by auto
  then show ?thesis using True
    by (auto simp: av push_back_simps Reservation_copy_def update_last_bid_def set_priority_def)
next
  case False
  then show ?thesis using available_effect [OF assms, of prio] by auto
qed

lemma sample_typed: "items_typed (cap_ordered_items (cpu_requirements [4]))"
  by (simp add: cpu_requirements_items items_typed_def)

lemma sample_env_ok: "env_ok sample_environment"
  by (simp add: env_ok_def sample_environment_def)

definition sample_pool :: resources where
  "sample_pool = snd (new_reservation (Reservation_new (cpu_requirements [4]) 2) Resources_init)"

lemma sample_pool_facts:
  "resources_wf sample_pool" "heap sample_pool 0 = Some (Reservation_new (cpu_requirements [4]) 2)"
  "reservations sample_pool = []" "next_addr sample_pool = 1"
  by (simp_all add: sample_pool_def wf_new resources_wf_init)
    (simp_all add: new_reservation_def Resources_init_def)

lemma sample_admissible:
  "admissible sample_environment (cap_ordered_items (cpu_requirements [4])) prio \<longleftrightarrow> prio \<noteq> 0"
  by (simp add: cpu_requirements_items admissible_def item_fits_def item_kind_def
      sample_environment_def bare_metal_cpu_cores_def)

theorem admission_decision_witness:
  "\<exists>R'. available_for_performance sample_environment (Some 0) 5 sample_pool = Inr (Some 1, R') \<and>
     reservations R' = [1]"
proof -
  have "rsv_capabilities (Reservation_new c p) = c" for c p by (simp add: Reservation_new_def)
  then show ?thesis
    using admission_decision [OF sample_pool_facts(1,2) sample_env_ok, of 5] sample_typed
      sample_admissible [of 5] sample_pool_facts(3,4)
    by (auto split: option.splits)
qed

lemma cpu_items_fit:
  assumes "length ns \<le> 256"
  shows "list_all (item_fits E) (cap_ordered_items (cpu_requirements ns)) \<longleftrightarrow> list_all (\<lambda>n. n < env_cpu_cores E) ns"
proof -
  have "list_all (item_fits E) (cap_ordered_items (cpu_requirements ns))
      \<longleftrightarrow> (\<forall>n \<in> snd ` set (enumerate 0 ns). n < env_cpu_cores E)"
    by (auto simp: cpu_requirements_items [OF assms] list_all_iff item_fits_def bare_metal_cpu_cores_def)
  also have "\<dots> \<longleftrightarrow> list_all (\<lambda>n. n < env_cpu_cores E) ns"
    by (metis list_all_iff list.set_map map_snd_enumerate)
  finally show ?thesis .
qed

lemma cpu_admissible:
  assumes "length ns \<le> 256" "ns \<noteq> []"
  shows "admissible E (cap_ordered_items (cpu_requirements ns)) prio
    \<longleftrightarrow> list_all (\<lambda>n. n < env_cpu_cores E) ns \<and> prio \<noteq> 0"
proof -
  let ?items = "cap_ordered_items (cpu_requirements ns)"
  have kinds: "item_kind i = COMP_CPU" if "i \<in> set ?items" for i
    using that by (auto simp: cpu_requirements_items [OF assms(1)] item_kind_def)
  have "?items \<noteq> []"
    using assms by (cases ns) (simp_all add: cpu_requirements_items)
  then have "\<exists>i \<in> set ?items. item_kind i \<in> {COMP_CPU, COMP_MEMORY}"
    using kinds last_in_set by blast
  moreover have "COMP_MEMORY \<notin> item_kind ` set ?items"
    using kinds by force
  ultimately show ?thesis
    unfolding admissible_def cpu_items_fit [OF assms(1)] by blast
qed

lemma cpu_requirements_typed: "length ns \<le> 256 \<Longrightarrow> items_typed (cap_ordered_items (cpu_requirements ns))"
  by (auto simp: cpu_requirements_items items_typed_def list_all_iff)

text \<open>
  What the transformation of a document can put among the requirements: processor cores with an
  unsigned number, and nothing else.
\<close>

definition cores_only :: "requesting_capabilities \<Rightarrow> bool" where
  "cores_only c \<longleftrightarrow>
     capabilities_wf c \<and> list_all (\<lambda>(place, k, v). k = COMP_CPU \<and> v \<in> range AnyUint) (cap_ordered_items c)"

lemma cores_only_new: "cores_only RequestingCapabilities_new"
  by (simp add: cores_only_def RequestingCapabilities_new_def capabilities_wf_def)

lemma cores_only_add:
  "cores_only c \<Longrightarrow> cores_only (RequestingCapabilities_add_item (COMP_CPU, AnyUint n) place c)"
  unfolding cores_only_def list_all_iff
  by (auto simp: RequestingCapabilities_add_item_def Capabilities_add_item_def capabilities_wf_def
      simp del: capability_codes dest!: set_map_insert_subset [THEN subsetD])

lemma transform_cores_only: "transform_to_requirements doc = Inr c \<Longrightarrow> cores_only c"
proof -
  have step: "transform_to_requirement j c = Inr c' \<Longrightarrow> cores_only c \<Longrightarrow> cores_only c'" for j c c'
    by (auto simp: transform_to_requirement_def Let_def cores_only_add simp del: capability_codes split: if_split_asm)
  assume "transform_to_requirements doc = Inr c"
  then show ?thesis
    by (auto simp: transform_to_requirements_def
        intro: fold_res_inv [where I = cores_only, OF _ cores_only_new] step)
qed

lemma unmarshal_cores_only: "unmarshal M payload = Inr c \<Longrightarrow> cores_only c"
  by (auto simp: unmarshal_def Let_def cores_only_new transform_cores_only split: if_split_asm)

lemma cores_only_typed: "cores_only c \<Longrightarrow> items_typed (cap_ordered_items c)"
  by (auto simp: cores_only_def items_typed_def list_all_iff split: any_value.split)

text \<open>
  C19. Requirements that come out of a payload are well typed: the ordered items are a map from
  places to processor cores with an unsigned number.  So no payload that was unmarshalled, from
  whatever octets and whatever the libraries made of them, makes the admission of the request
  throw, read an empty value or dereference a null pointer.
\<close>

theorem received_requirements_typed:
  assumes "unmarshal M payload = Inr (rsv_capabilities r)"
    and "resources_wf R" "heap R a = Some r" "env_ok E"
  shows "capabilities_wf (rsv_capabilities r)
    \<and> list_all (\<lambda>(place, k, v). k = COMP_CPU \<and> v \<in> range AnyUint) (cap_ordered_items (rsv_capabilities r))
    \<and> (\<exists>q R'. available_for_performance E (Some a) prio R = Inr (q, R'))"
proof -
  have typed: "cores_only (rsv_capabilities r)"
    using assms(1) by (rule unmarshal_cores_only)
  have "\<exists>q R'. available_for_performance E (Some a) prio R = Inr (q, R')"
    using available_effect [OF assms(2-4) cores_only_typed [OF typed], of prio] by (auto split: if_split_asm)
  with typed show ?thesis
    by (simp add: cores_only_def)
qed

theorem received_requirements_typed_witness:
  "\<exists>q R'. available_for_performance sample_environment (Some 0) 5 sample_pool = Inr (q, R')"
proof -
  have caps: "rsv_capabilities (Reservation_new (cpu_requirements [4]) 2) = cpu_requirements [4]"
    by (simp add: Reservation_new_def)
  have "unmarshal sample_marshal sample_payload = Inr (cpu_requirements [4])"
    using unmarshal_cpu_document [of "[4]" sample_marshal] sample_marshal_ok by simp
  then show ?thesis
    using received_requirements_typed [of sample_marshal sample_payload, OF _ sample_pool_facts(1,2) sample_env_ok, of 5]
    by (simp add: caps)
qed

text \<open>
  C31. The bid of a request for processor cores with at least one requirement is zero when a
  required number of cores is not below the number of cores of the node, and otherwise lies
  between \<open>p/128\<close> and \<open>p/64\<close> for the priority \<open>p\<close>: it never exceeds one eighth of the
  fairness \<open>p/8\<close>.
\<close>

theorem cpu_bid_bounds:
  assumes "env_ok E" "ns \<noteq> []" "length ns \<le> 256" "rsv_capabilities r = cpu_requirements ns"
    and "rsv_listener_length r = 0"
  shows "\<exists>bid ms'. estimate_bid E r ms = Inr (bid, ms') \<and>
     (if list_all (\<lambda>n. n < env_cpu_cores E) ns
      then real (unat (rsv_priority r)) / 128 \<le> bid \<and> bid \<le> real (unat (rsv_priority r)) / 64
      else bid = 0)"
proof -
  let ?items = "cap_ordered_items (cpu_requirements ns)"
  have items: "?items = map (\<lambda>(i, n). (word_of_nat i, (COMP_CPU, AnyUint n))) (enumerate 0 ns)"
    using cpu_requirements_items [OF assms(3)] .
  have typed: "items_typed ?items" using assms(3) by (rule cpu_requirements_typed)
  have all_cpu: "item_kind i = COMP_CPU" if "i \<in> set ?items" for i
    using that by (auto simp: items item_kind_def)
  have ne: "?items \<noteq> []" unfolding items using assms(2) by (cases ns) simp_all
  then have "item_kind (last ?items) = COMP_CPU" using all_cpu last_in_set by blast
  moreover have "filter (\<lambda>i. item_kind i = COMP_CPU \<or> item_kind i = COMP_MEMORY) ?items = ?items"
    using all_cpu by (intro filter_True) (auto simp del: capability_codes)
  moreover have "COMP_MEMORY \<notin> item_kind ` set ?items" using all_cpu by force
  ultimately have cur: "current_value E ?items = 1"
    using ne by (simp add: current_value_def del: capability_codes)
  have fits: "list_all (item_fits E) ?items \<longleftrightarrow> list_all (\<lambda>n. n < env_cpu_cores E) ns"
    using assms(3) by (rule cpu_items_fit)
  have "env_memory_total E \<noteq> 0" using assms(1) by (simp add: env_ok_def)
  then obtain ms' where est: "estimate_bid E r ms = Inr
     ((if list_all (item_fits E) ?items then 1 else 0) * (proximity_value E + 1) / 2 * 1
      * (real (unat (rsv_priority r)) / 8 / 8), ms')"
    using estimate_bid_eq [of r E ms] typed assms(4,5) cur by auto
  have prox: "0 < proximity_value E" "proximity_value E \<le> 1"
    using proximity_value_bounds [OF assms(1)] by auto
  define p where "p = real (unat (rsv_priority r))"
  have "0 \<le> p" unfolding p_def by (rule of_nat_0_le_iff)
  then have "p / 128 \<le> (proximity_value E + 1) / 2 * (p / 8 / 8)" "(proximity_value E + 1) / 2 * (p / 8 / 8) \<le> p / 64"
    using prox mult_left_mono [of 1 "proximity_value E + 1" p] mult_left_mono [of "proximity_value E + 1" 2 p]
    by (simp_all add: field_simps)
  moreover have "estimate_bid E r ms = Inr (if list_all (\<lambda>n. n < env_cpu_cores E) ns
       then (proximity_value E + 1) / 2 * (p / 8 / 8) else 0, ms')"
    using est fits by (simp add: p_def)
  ultimately show ?thesis unfolding p_def [symmetric]
    by (cases "list_all (\<lambda>n. n < env_cpu_cores E) ns") (simp_all only: if_True if_False, blast+)
qed

theorem cpu_bid_bounds_witness:
  "\<exists>bid ms'. estimate_bid sample_environment (Reservation_new (cpu_requirements [4]) 2) [] = Inr (bid, ms') \<and>
     2 / 128 \<le> bid \<and> bid \<le> 2 / 64"
  using cpu_bid_bounds [OF sample_env_ok, of "[4]" "Reservation_new (cpu_requirements [4]) 2" "[]"]
  by (simp add: Reservation_new_def sample_environment_def)

text \<open>
  C11. The life of a reservation in the manager: a statement whose request has no entry yet and
  that is admissible is entered at a fresh address \<open>a\<close>; pre-reserving through the statement
  finds that entry; confirming and releasing through \<open>a\<close> act on that entry only.  Afterwards
  the list is the one before, the address is freed and no other entry was touched.
\<close>

theorem reservation_lifecycle:
  assumes "resources_wf R" "heap R p = Some r" "p \<notin> set (reservations R)" "rsv_state r = CREATED"
    and "env_ok E" "items_typed (cap_ordered_items (rsv_capabilities r))"
    and "admissible E (cap_ordered_items (rsv_capabilities r)) prio"
    and "uuid_free R (rsv_uuid r) (reservations R)"
  shows "\<exists>a R1 R2 R3 R4.
     available_for_performance E (Some p) prio R = Inr (Some a, R1) \<and> a \<notin> set (reservations R) \<and>
     mark_pre_reservation (Some p) R1 = Inr (Some a, R2) \<and>
     map_option rsv_state (heap R2 a) = Some PRE_RESERVED \<and>
     mark_reservation (Some a) R2 = Inr R3 \<and> map_option rsv_state (heap R3 a) = Some RESERVED \<and>
     replenish_reservation (Some a) R3 = Inr R4 \<and>
     reservations R4 = reservations R \<and> heap R4 a = None \<and>
     list_all (\<lambda>b. heap R4 b = heap R b) (reservations R)"
proof -
  let ?as = "reservations R" and ?a = "next_addr R"
  obtain bid ms where av: "available_for_performance E (Some p) prio R = Inr (Some ?a,
         snd (push_back (update_last_bid bid (set_priority prio r))
           ((store_at p (update_last_bid bid (set_priority prio r)) R) \<lparr> proximity_metrics := ms \<rparr>)))"
    using available_effect [OF assms(1,2,5,6), of prio] assms(7) by auto
  define s where "s = update_last_bid bid (set_priority prio r)"
  define R1 where "R1 = snd (push_back s ((store_at p s R) \<lparr> proximity_metrics := ms \<rparr>))"
  have s: "rsv_uuid s = rsv_uuid r" "rsv_state s = CREATED"
    using assms(4) by (simp_all add: s_def update_last_bid_def set_priority_def)
  have fresh: "?a \<notin> set ?as" "p \<noteq> ?a" using assms(1,2) wf_fresh by (auto simp: resources_wf_def)
  have R1: "reservations R1 = ?as @ [?a]" "heap R1 p = Some s" "heap R1 ?a = Some s"
    and keep1: "\<And>b. b \<in> set ?as \<Longrightarrow> heap R1 b = heap R b"
    using fresh assms(3) s(2) by (auto simp: R1_def push_back_simps Reservation_copy_def)
  have "uuid_free R1 (rsv_uuid s) ?as" using assms(8) uuid_free_cong keep1 s(1) by metis
  from mark_pre_last [OF R1(1) this R1(2,3)]
  have pre: "mark_pre_reservation (Some p) R1 = Inr (Some ?a, store_at ?a (s \<lparr> rsv_state := PRE_RESERVED \<rparr>) R1)"
    using s(2) by simp
  define s2 where "s2 = s \<lparr> rsv_state := PRE_RESERVED \<rparr>"
  define R2 where "R2 = store_at ?a s2 R1"
  have R2: "reservations R2 = ?as @ [?a]" "heap R2 ?a = Some s2" by (simp_all add: R2_def R1)
  have keep2: "heap R2 b = heap R b" if "b \<in> set ?as" for b
    using that keep1 fresh by (auto simp: R2_def)
  have "uuid_free R2 (rsv_uuid s2) ?as" using assms(8) uuid_free_cong keep2 s(1) by (metis s2_def reservation.select_convs(4) reservation.surjective reservation.update_convs(1))
  from mark_reservation_last [OF R2(1) this R2(2)]
  have res: "mark_reservation (Some ?a) R2 = Inr (store_at ?a (s2 \<lparr> rsv_state := RESERVED \<rparr>) R2)"
    by (simp add: s2_def)
  define s3 where "s3 = s2 \<lparr> rsv_state := RESERVED \<rparr>"
  define R3 where "R3 = store_at ?a s3 R2"
  have R3: "reservations R3 = ?as @ [?a]" "heap R3 ?a = Some s3" by (simp_all add: R3_def R2)
  have keep3: "heap R3 b = heap R b" if "b \<in> set ?as" for b
    using that keep2 fresh by (auto simp: R3_def)
  have "rsv_uuid s3 = rsv_uuid r" by (simp add: s3_def s2_def s)
  then have "uuid_free R3 (rsv_uuid s3) ?as" using assms(8) uuid_free_cong keep3 by metis
  from replenish_last [OF R3(1) this R3(2) fresh(1)]
  have rep: "replenish_reservation (Some ?a) R3
      = Inr (R3 \<lparr> heap := (heap R3)(?a := None), reservations := ?as \<rparr>)"
    by (simp add: s3_def)
  show ?thesis
    using av [folded s_def, folded R1_def] fresh pre [folded s2_def, folded R2_def] R2
      res [folded s3_def, folded R3_def] R3 rep keep3
    by (intro exI [of _ ?a] exI [of _ R1] exI [of _ R2] exI [of _ R3]
        exI [of _ "R3 \<lparr> heap := (heap R3)(?a := None), reservations := ?as \<rparr>"])
      (auto simp: s2_def s3_def list_all_iff)
qed

theorem reservation_lifecycle_witness:
  "\<exists>a R1 R2 R3 R4. available_for_performance sample_environment (Some 0) 5 sample_pool = Inr (Some a, R1) \<and>
     mark_pre_reservation (Some 0) R1 = Inr (Some a, R2) \<and> mark_reservation (Some a) R2 = Inr R3 \<and>
     replenish_reservation (Some a) R3 = Inr R4 \<and> reservations R4 = []"
proof -
  have "rsv_capabilities (Reservation_new c p) = c" "rsv_state (Reservation_new c p) = CREATED" for c p
    by (simp_all add: Reservation_new_def)
  then show ?thesis
    using reservation_lifecycle [OF sample_pool_facts(1,2) _ _ sample_env_ok, of 5]
      sample_pool_facts(3) sample_typed sample_admissible
    by (fastforce simp: uuid_free_def)
qed

text \<open>
  A reservation marked as pre-reserved without an entry in the list loses the mark: the list
  receives a copy in the state \<open>CREATED\<close>, and releasing the returned pointer fails the assertion
  of \<open>replenish\<close>.
\<close>

lemma pre_reservation_copy_is_created:
  assumes "resources_wf R" "heap R p = Some r" "rsv_state r = CREATED"
    and "uuid_free R (rsv_uuid r) (reservations R)"
  shows "\<exists>R'. mark_pre_reservation (Some p) R = Inr (Some (next_addr R), R') \<and>
     heap R' (next_addr R) = Some r \<and> heap R' p = Some (r \<lparr> rsv_state := PRE_RESERVED \<rparr>) \<and>
     replenish_reservation (Some (next_addr R)) R' = Inl AssertionFailed"
proof -
  let ?a = "next_addr R" and ?r = "r \<lparr> rsv_state := PRE_RESERVED \<rparr>"
  define R' where "R' = snd (push_back ?r (store_at p ?r R))"
  have copy: "Reservation_copy ?r = r" using assms(3) by (simp add: Reservation_copy_def)
  have fresh: "?a \<notin> set (reservations R)" "p \<noteq> ?a" using assms(1,2) wf_fresh by (auto simp: resources_wf_def)
  have "mark_pre_reservation (Some p) R = Inr (Some ?a, R')"
    using find_pre_skip [OF assms(4,2), of "[]"] assms(2,3)
    by (simp add: mark_pre_reservation_def pre_reserve_def R'_def push_back_simps)
  moreover have R': "heap R' ?a = Some r" "heap R' p = Some ?r" "reservations R' = reservations R @ [?a]"
    using fresh copy by (auto simp: R'_def push_back_simps)
  moreover have "uuid_free R' (rsv_uuid r) (reservations R)"
  proof -
    have "case heap R' b of None \<Rightarrow> False | Some r' \<Rightarrow> rsv_uuid r' \<noteq> rsv_uuid r"
      if "b \<in> set (reservations R)" for b
    proof -
      have "case heap R b of None \<Rightarrow> False | Some r' \<Rightarrow> rsv_uuid r' \<noteq> rsv_uuid r"
        using assms(4) that by (auto simp: uuid_free_def list_all_iff)
      then show ?thesis using that fresh assms(2) by (auto simp: R'_def push_back_simps)
    qed
    then show ?thesis by (simp add: uuid_free_def list_all_iff)
  qed
  then have "replenish_reservation (Some ?a) R' = Inl AssertionFailed"
    using find_skip [of R' r "reservations R" "[?a]"] R' assms(3)
    by (simp add: replenish_reservation_def replenish_def)
  ultimately show ?thesis by blast
qed

end
