(* ===== verification/Bids.thy ===== *)
theory Bids
  imports Reservations "HOL-Library.List_Lexorder"
begin

text \<open>
  Bids of an auction (\<open>structs/bidset.h\<close>, \<open>Handler::new_bid\<close>, \<open>Handler::max_bids\<close>).  A
  bid value is the 32-bit pattern of a \<open>float\<close>; comparison goes through \<open>float_key\<close>, which
  orders the patterns like the numbers they denote (both zeros are equal).  A \<open>NaN\<close> compares
  false with everything, which breaks the ordering \<open>std::set\<close> requires: sets with such a bid
  are outside the model's invariant \<open>bidset_wf\<close>.
\<close>

section \<open>Single precision numbers\<close>

definition float_key :: "uint32 \<Rightarrow> int" where
  "float_key f = (let m = uint f mod 2 ^ 31 in if uint f < 2 ^ 31 then m else - m)"

definition float_nan :: "uint32 \<Rightarrow> bool" where
  "float_nan f = (0x7f800000 < uint f mod 2 ^ 31)"

definition float_less :: "uint32 \<Rightarrow> uint32 \<Rightarrow> bool" where
  "float_less a b = (\<not> float_nan a \<and> \<not> float_nan b \<and> float_key a < float_key b)"

definition float_eq :: "uint32 \<Rightarrow> uint32 \<Rightarrow> bool" where
  "float_eq a b = (\<not> float_nan a \<and> \<not> float_nan b \<and> float_key a = float_key b)"

text \<open>The number a finite pattern denotes.\<close>

definition float_value :: "uint32 \<Rightarrow> real" where
  "float_value f =
     (let e = uint f div 2 ^ 23 mod 256; m = real_of_int (uint f mod 2 ^ 23);
          v = (if e = 0 then m * 2 powi (- 149) else (2 ^ 23 + m) * 2 powi (e - 150))
      in if uint f < 2 ^ 31 then v else - v)"

section \<open>Sets of bids\<close>

type_synonym bid_entry = "uint32 \<times> node"
type_synonym BidSet = "bid_entry list"

definition node_key :: "node \<Rightarrow> byte list \<times> byte" where
  "node_key n = (fst n, identifier_code (snd n))"

definition node_less :: "node \<Rightarrow> node \<Rightarrow> bool" where
  "node_less n n' = (fst n < fst n' \<or> fst n = fst n' \<and> identifier_code (snd n) < identifier_code (snd n'))"

text \<open>\<open>operator<\<close> of the pairs: by value, then by address, then by kind of address.\<close>

definition bid_less :: "bid_entry \<Rightarrow> bid_entry \<Rightarrow> bool" where
  "bid_less x y = (float_less (fst x) (fst y) \<or> \<not> float_less (fst y) (fst x) \<and> node_less (snd x) (snd y))"

text \<open>Insertion into an ordered set without duplicates, in iteration order.\<close>

fun set_insert :: "('a \<Rightarrow> 'a \<Rightarrow> bool) \<Rightarrow> 'a \<Rightarrow> 'a list \<Rightarrow> 'a list" where
  "set_insert lt x [] = [x]"
| "set_insert lt x (y # ys) =
     (if lt x y then x # y # ys else if lt y x then y # set_insert lt x ys else y # ys)"

definition bids_insert :: "bid_entry \<Rightarrow> BidSet \<Rightarrow> BidSet" where
  "bids_insert b bs = set_insert bid_less b bs"

text \<open>
  \<open>max_bids\<close>: the value of the last element, and the nodes of all elements with that value.
  \<open>rbegin\<close> of an empty set is undefined.
\<close>

definition max_bids :: "BidSet \<Rightarrow> node list res" where
  "max_bids bs =
     (if bs = [] then Inl UndefinedBehaviour
      else let maximum_bid = fst (last bs) in
        Inr (fold (\<lambda>b ns. if float_eq maximum_bid (fst b) then set_insert node_less (snd b) ns else ns) bs []))"

definition is_max_bid_unique :: "node list \<Rightarrow> bool" where
  "is_max_bid_unique targets = (length targets = 1)"

section \<open>Order\<close>

definition bidset_wf :: "BidSet \<Rightarrow> bool" where
  "bidset_wf bs = (sorted_wrt bid_less bs \<and> list_all (\<lambda>b. \<not> float_nan (fst b)) bs)"

lemma identifier_code_inj: "identifier_code a = identifier_code b \<longleftrightarrow> a = b"
  by (cases a; cases b) simp_all

lemma node_less_total: "node_less a b \<or> node_less b a \<or> a = b"
  unfolding node_less_def by (metis identifier_code_inj linorder_neqE prod_eqI)

lemma node_less_irrefl [simp]: "\<not> node_less a a"
  by (simp add: node_less_def)

lemma node_less_trans: "node_less a b \<Longrightarrow> node_less b c \<Longrightarrow> node_less a c"
  by (auto simp: node_less_def)

lemma bid_less_trans:
  assumes "\<not> float_nan (fst a)" "\<not> float_nan (fst b)" "\<not> float_nan (fst c)" "bid_less a b" "bid_less b c"
  shows "bid_less a c"
  using assms by (auto simp: bid_less_def float_less_def intro: node_less_trans)

lemma bid_less_total:
  "\<not> float_nan (fst a) \<Longrightarrow> \<not> float_nan (fst b) \<Longrightarrow>
   bid_less a b \<or> bid_less b a \<or> snd a = snd b \<and> float_eq (fst a) (fst b)"
  using node_less_total [of "snd a" "snd b"] by (auto simp: bid_less_def float_less_def float_eq_def)

lemma set_insert_subset: "set (set_insert lt x ys) \<subseteq> insert x (set ys)"
  by (induction lt x ys rule: set_insert.induct) auto

lemma set_insert_keeps: "set ys \<subseteq> set (set_insert lt x ys)"
  by (induction lt x ys rule: set_insert.induct) auto

lemma set_insert_sorted:
  assumes "\<And>a b c. P a \<Longrightarrow> P b \<Longrightarrow> P c \<Longrightarrow> lt a b \<Longrightarrow> lt b c \<Longrightarrow> lt a c"
    and "sorted_wrt lt ys" "list_all P ys" "P x"
  shows "sorted_wrt lt (set_insert lt x ys)"
  using assms(2-)
proof (induction ys)
  case Nil
  then show ?case by simp
next
  case (Cons y ys)
  then have tail: "sorted_wrt lt ys" "list_all P ys" and head: "\<forall>z\<in>set ys. lt y z" "P y" by auto
  show ?case
  proof (cases "lt x y")
    case True
    have "lt x z" if "z \<in> set ys" for z
      using assms(1) [of x y z] that True head tail(2) \<open>P x\<close> by (simp add: list_all_iff)
    then show ?thesis using True head(1) tail(1) by simp
  next
    case False
    have "lt y z" if "lt y x" "z \<in> set (set_insert lt x ys)" for z
      using set_insert_subset [of lt x ys] that head(1) by blast
    then show ?thesis using False Cons.IH [OF tail \<open>P x\<close>] head(1) tail(1) by simp
  qed
qed

lemma bidset_wf_insert: "bidset_wf bs \<Longrightarrow> \<not> float_nan (fst b) \<Longrightarrow> bidset_wf (bids_insert b bs)"
proof -
  assume wf: "bidset_wf bs" and b: "\<not> float_nan (fst b)"
  then have "sorted_wrt bid_less (bids_insert b bs)"
    unfolding bids_insert_def
    by (intro set_insert_sorted [where P = "\<lambda>b. \<not> float_nan (fst b)"])
      (auto simp: bidset_wf_def intro: bid_less_trans)
  then show ?thesis
    using wf b set_insert_subset [of bid_less b bs] by (auto simp: bidset_wf_def bids_insert_def list_all_iff)
qed

lemma set_insert_nodes: "set (set_insert node_less n ns) = insert n (set ns)"
proof (induction ns)
  case Nil
  then show ?case by simp
next
  case (Cons m ns)
  then show ?case using node_less_total [of n m] by auto
qed

lemma fold_insert_nodes:
  "set (fold (\<lambda>b ns. if P b then set_insert node_less (snd b) ns else ns) bs ns)
     = set ns \<union> snd ` {b \<in> set bs. P b}"
  by (induction bs arbitrary: ns) (auto simp: set_insert_nodes)

lemma fold_insert_sorted:
  "sorted_wrt node_less ns \<Longrightarrow>
   sorted_wrt node_less (fold (\<lambda>b ns. if P b then set_insert node_less (snd b) ns else ns) bs ns)"
proof (induction bs arbitrary: ns)
  case Nil
  then show ?case by simp
next
  case (Cons b bs)
  have "sorted_wrt node_less (set_insert node_less (snd b) ns)"
    using Cons.prems by (intro set_insert_sorted [where P = "\<lambda>_. True"]) (auto intro: node_less_trans simp: list_all_iff)
  then show ?case using Cons by simp
qed

lemma last_is_maximum:
  assumes "bidset_wf bs" "b \<in> set bs"
  shows "float_key (fst b) \<le> float_key (fst (last bs))"
proof (cases "b = last bs")
  case False
  have "bs \<noteq> []" using assms(2) by auto
  then have bs: "bs = butlast bs @ [last bs]" by simp
  then have "b \<in> set (butlast bs)" using False assms(2) by (metis in_set_butlastD insert_iff list.simps(15) append_Nil2 Un_iff set_append empty_set empty_iff)
  moreover have "sorted_wrt bid_less (butlast bs @ [last bs])" using assms(1) bs by (metis bidset_wf_def)
  ultimately have "bid_less b (last bs)" by (simp add: sorted_wrt_append)
  moreover have "\<not> float_nan (fst b)" "\<not> float_nan (fst (last bs))"
    using assms \<open>bs \<noteq> []\<close> by (auto simp: bidset_wf_def list_all_iff)
  ultimately show ?thesis by (auto simp: bid_less_def float_less_def)
qed simp

text \<open>
  C14. \<open>max_bids\<close> returns exactly the nodes that bid most: for a non-empty set of bids that are
  numbers, a node is in the result if and only if one of its bids is at least as high as every
  bid of the auction; the result is ordered without duplicates, and never empty.
\<close>

theorem max_bids_exact:
  assumes "bidset_wf bs" "bs \<noteq> []"
  shows "\<exists>ns. max_bids bs = Inr ns \<and> ns \<noteq> [] \<and> sorted_wrt node_less ns \<and>
     (n \<in> set ns) = (\<exists>v. (v, n) \<in> set bs \<and> list_all (\<lambda>b. float_key (fst b) \<le> float_key v) bs)"
proof -
  define ns where "ns = fold (\<lambda>b ns. if float_eq (fst (last bs)) (fst b)
      then set_insert node_less (snd b) ns else ns) bs []"
  have run: "max_bids bs = Inr ns" using assms(2) by (simp add: max_bids_def ns_def)
  have nan: "\<not> float_nan (fst b)" if "b \<in> set bs" for b
    using assms(1) that by (simp add: bidset_wf_def list_all_iff)
  have set: "set ns = snd ` {b \<in> set bs. float_eq (fst (last bs)) (fst b)}"
    unfolding ns_def by (subst fold_insert_nodes) simp
  have last: "last bs \<in> set bs" using assms(2) by simp
  then have "snd (last bs) \<in> set ns" using nan by (auto simp: set float_eq_def)
  then have ne: "ns \<noteq> []" by auto
  have "(n \<in> set ns) = (\<exists>v. (v, n) \<in> set bs \<and> float_key (fst (last bs)) = float_key v)"
  proof -
    have "float_eq (fst (last bs)) (fst b) \<longleftrightarrow> float_key (fst (last bs)) = float_key (fst b)"
      if "b \<in> set bs" for b
      using nan [OF that] nan [OF last] by (simp add: float_eq_def)
    then have "{b \<in> set bs. float_eq (fst (last bs)) (fst b)}
        = {b \<in> set bs. float_key (fst (last bs)) = float_key (fst b)}" by blast
    then show ?thesis unfolding set by (cases n) (auto simp: image_iff)
  qed
  also have "\<dots> = (\<exists>v. (v, n) \<in> set bs \<and> list_all (\<lambda>b. float_key (fst b) \<le> float_key v) bs)"
  proof -
    have "float_key (fst (last bs)) = float_key v \<longleftrightarrow> list_all (\<lambda>b. float_key (fst b) \<le> float_key v) bs"
      if "(v, n) \<in> set bs" for v
      using last_is_maximum [OF assms(1)] last_is_maximum [OF assms(1) that] last
      by (auto simp: list_all_iff intro: antisym)
    then show ?thesis by blast
  qed
  finally have "(n \<in> set ns) = \<dots>" .
  moreover have "sorted_wrt node_less ns" unfolding ns_def by (rule fold_insert_sorted) simp
  ultimately show ?thesis using run ne by blast
qed

definition sample_bids :: BidSet where
  "sample_bids = bids_insert (0x3e800000, ([3], Simulation))
     (bids_insert (0x3f000000, ([7], Simulation)) (bids_insert (0x3f000000, ([5], Simulation)) []))"

theorem max_bids_exact_witness:
  "max_bids sample_bids = Inr [([5], Simulation), ([7], Simulation)] \<and>
   (\<exists>v. (v, ([7], Simulation)) \<in> set sample_bids \<and>
      list_all (\<lambda>b. float_key (fst b) \<le> float_key v) sample_bids)"
proof -
  have run: "max_bids sample_bids = Inr [([5], Simulation), ([7], Simulation)]" by code_simp
  have "bidset_wf sample_bids" "sample_bids \<noteq> []" by code_simp+
  then show ?thesis using max_bids_exact [of sample_bids "([7], Simulation)"] run by auto
qed

end
