(* ===== verification/Handler.thy ===== *)
theory Handler
  imports Dispatcher Resources Bids
begin

text \<open>
  Sessions (\<open>structs/handler.cpp\<close>, \<open>structs/timeout_handler.cpp\<close>): one handler per request
  identifier.  The program is modelled in its simulated configuration (\<open>FROM_SIMUZILLA\<close>).
  A handler reaches the rest of the node through pointers (resources, dispatcher, store,
  translation table, origin set): these are the fields of \<open>world\<close>, and a handler step works
  on the handler's own record and the world.  What lies outside the sources is the record
  \<open>node_config\<close>: the ULID and marshalling libraries, the answers of the simulator, the
  interface list of the operating system, the conversion of a \<open>double\<close> to a \<open>float\<close> and the
  content of uninitialised memory.

  One call of \<open>operator()\<close> on a message is one step.  The only blocking point, the wait for
  the bids of an auction, splits the BID branch in two: the step up to the wait and the step
  after the notification.
\<close>

section \<open>State\<close>

datatype HandlerState =
    READY | PRESENTING | AUCTION_BIDDING | AUCTION_WAITING | ASSESSING
  | PRE_RESERVED | RESERVED | REPLENISHING | CLOSED

datatype TimeoutType = EAR | MAR | BID | AUCT | REP

fun handler_state_to_string :: "HandlerState \<Rightarrow> string" where
  "handler_state_to_string READY = ''ready''"
| "handler_state_to_string PRESENTING = ''presenting''"
| "handler_state_to_string AUCTION_BIDDING = ''auction bidding''"
| "handler_state_to_string AUCTION_WAITING = ''auction waiting''"
| "handler_state_to_string ASSESSING = ''assessing''"
| "handler_state_to_string PRE_RESERVED = ''pre-reserved''"
| "handler_state_to_string RESERVED = ''reserved''"
| "handler_state_to_string REPLENISHING = ''replenishing''"
| "handler_state_to_string CLOSED = ''closed''"

type_synonym haddr = nat

text \<open>Where the thread of the handler stands relative to the condition variable of the auction.\<close>

datatype auction_position = NotWaiting | Waiting | Notified

record handler =
  h_this :: haddr
  h_uuid :: UUIDv4
  h_source :: node
  h_accepting :: "node list"
  h_message :: "Message option"
  h_state :: HandlerState
  h_waiting_bids :: byte
  h_arriving_bids :: byte
  h_auction :: auction_position
  h_bids :: BidSet
  h_reservation :: ptr
  h_running :: bool

record world =
  w_resources :: resources
  w_dispatcher :: dispatcher
  w_translations :: "(UUIDv4, UUIDv4) std_map"
  w_origins :: "(UUIDv4, byte) std_map"
  w_store :: "(UUIDv4, haddr) std_map"
  w_handlers :: "haddr \<Rightarrow> handler option"
  w_next_handler :: haddr
  w_timeouts :: "(haddr \<times> TimeoutType) list"
  w_draws :: nat

record node_config =
  cfg_ulid :: ulid_lib
  cfg_EncodeTime :: "size_t \<Rightarrow> nat \<Rightarrow> UUIDv4"
  cfg_marshal :: marshal_lib
  cfg_env :: environment
  cfg_connections :: "byte \<Rightarrow> (byte \<times> byte) list"
  cfg_simulated_is_me :: "byte \<Rightarrow> bool"
  cfg_is_me :: "byte list \<Rightarrow> bool"
  cfg_topology :: "(byte \<times> byte) list"
  cfg_to_float :: "real \<Rightarrow> uint32"
  cfg_stack_word :: size_t
  cfg_stack_byte :: byte

type_synonym session = "handler \<times> world"

text \<open>How a branch of the message switch ends.\<close>

datatype ctl = Break | Return | Wait

section \<open>Construction and setters\<close>

definition Handler_new :: "haddr \<Rightarrow> UUIDv4 \<Rightarrow> handler" where
  "Handler_new a uuid =
     \<lparr> h_this = a, h_uuid = uuid, h_source = ([], Simulation), h_accepting = [], h_message = None,
       h_state = READY, h_waiting_bids = 0, h_arriving_bids = 0, h_auction = NotWaiting,
       h_bids = [], h_reservation = None, h_running = False \<rparr>"

definition Handler_of_header :: "haddr \<Rightarrow> header \<Rightarrow> handler" where
  "Handler_of_header a header = Handler_new a (hdr_uuid header)"

definition handle :: "Message \<Rightarrow> handler \<Rightarrow> handler" where
  "handle message h = h \<lparr> h_message := Some message \<rparr>"

definition new_id :: "UUIDv4 \<Rightarrow> handler \<Rightarrow> handler" where
  "new_id u h = h \<lparr> h_uuid := u \<rparr>"

definition mark_source :: "node \<Rightarrow> handler \<Rightarrow> handler" where
  "mark_source source h = h \<lparr> h_source := source \<rparr>"

definition mark_accepting_node :: "node \<Rightarrow> handler \<Rightarrow> handler" where
  "mark_accepting_node n h = h \<lparr> h_accepting := h_accepting h @ [n] \<rparr>"

definition Handler_execute :: "handler \<Rightarrow> handler" where
  "Handler_execute h = (if h_running h then h else h \<lparr> h_running := True \<rparr>)"

definition Handler_stop :: "handler \<Rightarrow> handler" where
  "Handler_stop h = (if \<not> h_running h then h else h \<lparr> h_running := False \<rparr>)"

section \<open>Translations\<close>

text \<open>
  \<open>create_translation\<close>: the first six octets of the identifier are shifted into an
  uninitialised 64-bit variable, of which the two low octets stay above them.
\<close>

definition translation_timestamp :: "node_config \<Rightarrow> UUIDv4 \<Rightarrow> size_t" where
  "translation_timestamp C original =
     fold (\<lambda>b t. push_bit 8 t OR ucast b) (take 6 (marshall_into_vector (cfg_ulid C) original))
       (cfg_stack_word C)"

definition generate_new_uuid_with :: "node_config \<Rightarrow> size_t \<Rightarrow> world \<Rightarrow> UUIDv4 \<times> world" where
  "generate_new_uuid_with C time w =
     (cfg_EncodeTime C time (w_draws w), w \<lparr> w_draws := Suc (w_draws w) \<rparr>)"

definition create_translation :: "node_config \<Rightarrow> UUIDv4 \<Rightarrow> world \<Rightarrow> UUIDv4 \<times> world" where
  "create_translation C original w =
     (let (new_uuid, w) = generate_new_uuid_with C (translation_timestamp C original) w in
      (new_uuid, w \<lparr> w_translations := map_insert new_uuid original (w_translations w) \<rparr>))"

definition is_translation_table_empty_for :: "UUIDv4 \<Rightarrow> world \<Rightarrow> bool" where
  "is_translation_table_empty_for u w = (\<not> map_contains u (w_translations w))"

definition is_translation_table_empty :: "world \<Rightarrow> bool" where
  "is_translation_table_empty w = (w_translations w = [])"

definition locate_original_of :: "UUIDv4 \<Rightarrow> world \<Rightarrow> UUIDv4 res" where
  "locate_original_of translated w =
     (if is_translation_table_empty_for translated w then Inr 0
      else map_at (w_translations w) translated)"

section \<open>Bids\<close>

text \<open>The overloads of \<open>new_bid\<close> differ in the kind of the address only.\<close>

definition new_bid :: "uint32 \<Rightarrow> node \<Rightarrow> handler \<Rightarrow> handler" where
  "new_bid v n h = h \<lparr> h_bids := bids_insert (v, n) (h_bids h), h_arriving_bids := h_arriving_bids h + 1 \<rparr>"

definition new_bid_simulation :: "uint32 \<Rightarrow> byte \<Rightarrow> handler \<Rightarrow> handler" where
  "new_bid_simulation v simuzilla_address h = new_bid v ([simuzilla_address], Simulation) h"

definition clear_bids :: "handler \<Rightarrow> handler" where
  "clear_bids h = h \<lparr> h_bids := [], h_arriving_bids := 0, h_waiting_bids := 0 \<rparr>"

definition cardinal_bids :: "handler \<Rightarrow> nat" where
  "cardinal_bids h = length (h_bids h)"

section \<open>Store\<close>

text \<open>The handler a store entry points to; the running handler's own record is at hand.\<close>

definition handler_at :: "session \<Rightarrow> haddr \<Rightarrow> handler res" where
  "handler_at s a =
     (if a = h_this (fst s) then Inr (fst s)
      else case w_handlers (snd s) a of None \<Rightarrow> Inl Dangling | Some h \<Rightarrow> Inr h)"

definition is_uuid_in_store :: "UUIDv4 \<Rightarrow> session \<Rightarrow> bool" where
  "is_uuid_in_store u s = map_contains u (w_store (snd s))"

definition is_bid_in_store :: "UUIDv4 \<Rightarrow> session \<Rightarrow> bool res" where
  "is_bid_in_store u s =
     (if \<not> is_uuid_in_store u s then Inr False
      else and_then (map_at (w_store (snd s)) u) (\<lambda>a.
           and_then (handler_at s a) (\<lambda>h. Inr (h_state h = PRE_RESERVED))))"

text \<open>The members of the process the handler calls.\<close>

definition am_i_origin_for :: "UUIDv4 \<Rightarrow> world \<Rightarrow> bool" where
  "am_i_origin_for u w = map_contains u (w_origins w)"

definition remove_as_origin :: "UUIDv4 \<Rightarrow> world \<Rightarrow> bool \<times> world" where
  "remove_as_origin u w =
     (if \<not> am_i_origin_for u w then (False, w)
      else (True, w \<lparr> w_origins := map_erase u (w_origins w) \<rparr>))"

section \<open>Timeouts\<close>

definition initiate_timeout :: "haddr \<Rightarrow> TimeoutType \<Rightarrow> world \<Rightarrow> world" where
  "initiate_timeout a timeout w = w \<lparr> w_timeouts := w_timeouts w @ [(a, timeout)] \<rparr>"

text \<open>
  \<open>notify_one\<close>: a notification that finds no thread waiting is lost.  Before it notifies, the
  polling thread unlocks \<open>_auction_mutex\<close>, of which it is never the owner (\<open>handler.cpp\<close>, lines
  254 and 276): the standard leaves that undefined.  The model goes on as the mutexes of the
  platforms the program is built for do, where the unlock of a mutex that the waiting thread has
  released changes nothing; what follows from a notification here is therefore conditional on
  that.  The wait has no predicate (line 1349): a notification between the start of the timer and
  the wait, which the model cannot show because a round of the handler is one step, would be lost.
\<close>

definition notify_auction :: "handler \<Rightarrow> handler" where
  "notify_auction h = (if h_auction h = Waiting then h \<lparr> h_auction := Notified \<rparr> else h)"

definition all_bids_arrived :: "handler \<Rightarrow> bool \<times> handler" where
  "all_bids_arrived h =
     (if h_waiting_bids h = h_arriving_bids h then (True, notify_auction h) else (False, h))"

definition on_auct_timeout :: "handler \<Rightarrow> handler" where
  "on_auct_timeout h =
     (let (arrived, h) = all_bids_arrived h in if arrived then h else notify_auction h)"

text \<open>
  The three handlers below have the same body; \<open>and\<close> binds tighter than \<open>or\<close>.  The pool
  throws when it does not know the reservation.
\<close>

definition release :: "session \<Rightarrow> session res" where
  "release s =
     (let (h, w) = s in
      and_then (replenish_reservation (h_reservation h) (w_resources w)) (\<lambda>R.
        Inr (h \<lparr> h_state := CLOSED \<rparr>, w \<lparr> w_resources := R \<rparr>)))"

definition rollback_due :: "handler \<Rightarrow> bool" where
  "rollback_due h =
     (h_state h \<noteq> CLOSED \<and> h_state h \<noteq> RESERVED \<or> (h_message h = None \<and> h_state h = PRE_RESERVED))"

definition on_bid_timeout :: "session \<Rightarrow> session res" where
  "on_bid_timeout s =
     (if rollback_due (fst s) then release ((fst s) \<lparr> h_bids := [] \<rparr>, snd s) else Inr s)"

definition on_ear_timeout :: "session \<Rightarrow> session res" where
  "on_ear_timeout s =
     (if rollback_due (fst s) then release ((fst s) \<lparr> h_bids := [] \<rparr>, snd s) else Inr s)"

definition on_mar_timeout :: "session \<Rightarrow> session res" where
  "on_mar_timeout s =
     (if rollback_due (fst s) then release ((fst s) \<lparr> h_bids := [] \<rparr>, snd s) else Inr s)"

definition on_rep_timeout :: "session \<Rightarrow> session res" where
  "on_rep_timeout s =
     (if h_state (fst s) \<noteq> CLOSED \<or> (h_message (fst s) = None \<and> h_state (fst s) = REPLENISHING)
      then release s else Inr s)"

text \<open>The function \<open>initiate_timeout\<close> registers for each kind of timeout, when its time is over.\<close>

fun on_timeout :: "TimeoutType \<Rightarrow> session \<Rightarrow> session res" where
  "on_timeout EAR s = on_ear_timeout s"
| "on_timeout MAR s = on_mar_timeout s"
| "on_timeout BID s = on_bid_timeout s"
| "on_timeout AUCT s = Inr (on_auct_timeout (fst s), snd s)"
| "on_timeout REP s = on_rep_timeout s"

text \<open>
  The polling loop of \<open>AUCTTimeout\<close> for a number of rounds, before its time is over: each
  round asks whether all bids are there, and ends the loop when they are.
\<close>

fun AUCTTimeout_rounds :: "nat \<Rightarrow> handler \<Rightarrow> bool \<times> handler" where
  "AUCTTimeout_rounds 0 h = (False, h)"
| "AUCTTimeout_rounds (Suc n) h =
     (let (arrived, h) = all_bids_arrived h in if arrived then (True, h) else AUCTTimeout_rounds n h)"

end
