(* ===== verification/Handler_Steps.thy ===== *)
theory Handler_Steps
  imports Handler
begin

text \<open>
  The body of \<open>Handler::operator()\<close> (\<open>structs/handler.cpp\<close>), branch by branch: the preamble
  that looks the reservation up, one definition per message type with its sub-cases in the
  order of the code, the second half of the auction after the wait, and the step that ties
  them together.  An exception leaves the thread and ends the program: it is the fault of the
  step.
\<close>

section \<open>Connections\<close>

text \<open>
  The filter over the connections the simulator knows to a target, each a depth and a port.
  A connection is kept when it is no deeper than all before it.
\<close>

fun min_depth_filter :: "byte \<Rightarrow> (byte \<times> byte) list \<Rightarrow> node list" where
  "min_depth_filter min_depth [] = []"
| "min_depth_filter min_depth ((depth, locator) # connections) =
     (let min_depth = (if depth < min_depth then depth else min_depth) in
      (if depth = min_depth then [([locator], Simulation)] else [])
        @ min_depth_filter min_depth connections)"

definition get_connections_to :: "node_config \<Rightarrow> byte \<Rightarrow> (byte \<times> byte) list" where
  "get_connections_to C tgt = cfg_connections C tgt"

definition connections_to_target :: "node_config \<Rightarrow> byte \<Rightarrow> node list" where
  "connections_to_target C tgt = min_depth_filter 255 (get_connections_to C tgt)"

definition connections_cardinal :: "node list \<Rightarrow> nat" where
  "connections_cardinal connections = length connections"

text \<open>\<open>vector::front\<close> of an empty vector is undefined.\<close>

definition front :: "'a list \<Rightarrow> 'a res" where
  "front xs = (case xs of [] \<Rightarrow> Inl UndefinedBehaviour | x # _ \<Rightarrow> Inr x)"

section \<open>Small steps on a session\<close>

definition set_state :: "HandlerState \<Rightarrow> session \<Rightarrow> session" where
  "set_state st s = ((fst s) \<lparr> h_state := st \<rparr>, snd s)"

definition set_reservation :: "ptr \<Rightarrow> session \<Rightarrow> session" where
  "set_reservation p s = ((fst s) \<lparr> h_reservation := p \<rparr>, snd s)"

definition set_resources :: "resources \<Rightarrow> session \<Rightarrow> session" where
  "set_resources R s = (fst s, (snd s) \<lparr> w_resources := R \<rparr>)"

definition stop :: "session \<Rightarrow> session" where
  "stop s = (Handler_stop (fst s), snd s)"

definition start_timeout :: "TimeoutType \<Rightarrow> session \<Rightarrow> session" where
  "start_timeout timeout s = (fst s, initiate_timeout (h_this (fst s)) timeout (snd s))"

definition send_message :: "Message \<Rightarrow> byte list \<Rightarrow> IdentifierType \<Rightarrow> session \<Rightarrow> session res" where
  "send_message m tgt type s =
     and_then (Dispatcher_send_message m tgt type (w_dispatcher (snd s))) (\<lambda>d.
       Inr (fst s, (snd s) \<lparr> w_dispatcher := d \<rparr>))"

text \<open>Reading and changing the reservation through the pointer of the handler.\<close>

definition reservation_of :: "session \<Rightarrow> reservation res" where
  "reservation_of s = deref (h_reservation (fst s)) (w_resources (snd s))"

definition change_reservation :: "(reservation \<Rightarrow> reservation) \<Rightarrow> session \<Rightarrow> session res" where
  "change_reservation f s =
     and_then (reservation_of s) (\<lambda>r.
       Inr (set_resources (store_at (the (h_reservation (fst s))) (f r) (w_resources (snd s))) s))"

text \<open>Calls of the resource manager that take the pointer of the handler.\<close>

definition available :: "node_config \<Rightarrow> byte \<Rightarrow> session \<Rightarrow> (ptr \<times> session) res" where
  "available C prio s =
     and_then (available_for_performance (cfg_env C) (h_reservation (fst s)) prio (w_resources (snd s)))
       (\<lambda>(position, R). Inr (position, set_resources R s))"

definition mark_reserved_here :: "session \<Rightarrow> session res" where
  "mark_reserved_here s =
     and_then (mark_reservation (h_reservation (fst s)) (w_resources (snd s))) (\<lambda>R.
       Inr (set_resources R s))"

definition mark_pre_reserved_here :: "session \<Rightarrow> session res" where
  "mark_pre_reserved_here s =
     and_then (mark_pre_reservation (h_reservation (fst s)) (w_resources (snd s))) (\<lambda>(p, R).
       Inr (set_reservation p (set_resources R s)))"

definition produce_reservation ::
  "requesting_capabilities \<Rightarrow> byte \<Rightarrow> byte list \<Rightarrow> session \<Rightarrow> session res" where
  "produce_reservation capabilities prio listener s =
     and_then (mark_listener listener (word_of_nat (length listener)) (Reservation_new capabilities prio)) (\<lambda>r.
     let (a, R) = new_reservation r (w_resources (snd s)) in
       Inr (set_reservation (Some a) (set_resources R s)))"

text \<open>\<open>operator[]\<close> on a vector, for the first \<open>n\<close> octets: undefined past the end.\<close>

definition read_octets :: "byte list \<Rightarrow> nat \<Rightarrow> byte list res" where
  "read_octets listener n = (if n \<le> length listener then Inr (take n listener) else Inl UndefinedBehaviour)"

text \<open>The octets an address of the given length code has in the switches of the handler.\<close>

definition address_octets :: "byte list \<Rightarrow> byte \<Rightarrow> byte list res" where
  "address_octets listener code =
     (if code = LT_CODE_0 then read_octets listener SIMUZILLA_ADDR_LEN
      else if code = LT_IP4 then read_octets listener IPV4_ADDR_LEN
      else if code = LT_MAC then read_octets listener MAC_ADDR_LEN
      else if code = LT_IP6 then read_octets listener IPV6_ADDR_LEN
      else Inl StdException)"

text \<open>A reply over the first of the least deep connections to the source.\<close>

definition reply_on_connection :: "node_config \<Rightarrow> Message \<Rightarrow> session \<Rightarrow> session res" where
  "reply_on_connection C m s =
     and_then (vec_at (fst (h_source (fst s))) 0) (\<lambda>source.
     and_then (front (connections_to_target C source)) (\<lambda>(locator, type).
       send_message m locator (snd (h_source (fst s))) s))"

text \<open>The port of the first connection the simulator gives for a target.\<close>

definition first_port :: "node_config \<Rightarrow> byte list \<Rightarrow> byte list res" where
  "first_port C address =
     and_then (vec_at address 0) (\<lambda>b.
     and_then (vec_at (get_connections_to C b) 0) (\<lambda>(depth, locator). Inr [locator]))"

text \<open>
  The port of a direct neighbour, by its position in the topology: \<open>None\<close> when the
  neighbour is not found.  For other kinds of address the target keeps its initial, empty
  value.
\<close>

fun index_of :: "'a \<Rightarrow> 'a list \<Rightarrow> nat option" where
  "index_of x [] = None"
| "index_of x (y # ys) = (if y = x then Some 0 else map_option Suc (index_of x ys))"

definition topology_target :: "node_config \<Rightarrow> node \<Rightarrow> node option res" where
  "topology_target C n =
     (if snd n = Simulation then
        and_then (get_topology (cfg_topology C)) (\<lambda>topology.
        and_then (vec_at (fst n) 0) (\<lambda>b.
          Inr (map_option (\<lambda>i. ([word_of_nat i], Simulation)) (index_of b topology))))
      else Inr (Some ([], Simulation)))"

section \<open>Preamble\<close>

text \<open>
  The reservation of the identifier is looked up; its listener length must be a known code
  (\<open>0\<close> to \<open>7\<close>).
\<close>

definition Handler_preamble :: "node_config \<Rightarrow> session \<Rightarrow> session res" where
  "Handler_preamble C s =
     and_then (get_reservation_for (cfg_ulid C) (h_uuid (fst s)) (w_resources (snd s))) (\<lambda>(p, R).
     let s = set_reservation p (set_resources R s) in
       if p = None then Inr s
       else and_then (reservation_of s) (\<lambda>r.
            and_then (require (rsv_listener_length r \<le> 7) StdException) (\<lambda>_. Inr s)))"

section \<open>EAR\<close>

text \<open>
  Am I the listener?  Unless the session is already pre-reserved, the requirements of the
  message become a new reservation.  Requirements that do not conform close the session when
  the listener is a simulated one (\<open>None\<close>); for the other kinds nobody catches the exception.
\<close>

definition EAR_produce :: "node_config \<Rightarrow> request \<Rightarrow> byte list \<Rightarrow> session \<Rightarrow> session res" where
  "EAR_produce C m address s =
     (if h_state (fst s) \<noteq> PRE_RESERVED then
        and_then (EAR_requirements (cfg_marshal C) m) (\<lambda>capabilities.
          produce_reservation capabilities (req_priority m) address s)
      else Inr s)"

definition EAR_identify ::
  "node_config \<Rightarrow> request \<Rightarrow> byte list \<Rightarrow> session \<Rightarrow> (bool option \<times> session) res" where
  "EAR_identify C m listener s =
     (if req_listener_length m = LT_CODE_0 then
        and_then (vec_at listener 0) (\<lambda>simuzilla_address.
          catch_invalid (EAR_produce C m [simuzilla_address] s)
            (Inr (None, stop (set_state CLOSED s)))
            (\<lambda>s. Inr (Some (cfg_simulated_is_me C simuzilla_address), s)))
      else
        and_then (address_octets listener (req_listener_length m)) (\<lambda>address.
        and_then (EAR_produce C m address s) (\<lambda>s. Inr (Some (cfg_is_me C address), s))))"

definition EAR_as_listener :: "node_config \<Rightarrow> request \<Rightarrow> session \<Rightarrow> (ctl \<times> session) res" where
  "EAR_as_listener C m s =
     and_then (available C (req_priority m) s) (\<lambda>(position, s).
       if position \<noteq> None then
         and_then (mark_reserved_here (set_reservation position s)) (\<lambda>s.
         and_then (reply_on_connection C (ACC_new (h_uuid (fst s))) s) (\<lambda>s.
           Inr (Break, stop (set_state RESERVED s))))
       else
         and_then (reply_on_connection C (REF_new (h_uuid (fst s))) s) (\<lambda>s.
           Inr (Return, stop (set_state CLOSED s))))"

text \<open>
  Towards the listener: a refusal to the source when nothing leads there, the request itself
  over a single connection, an auction over several.  The forwarded requests carry the
  listener of the reservation, of which the simulated configuration copies one octet.
\<close>

definition forwarded_listener :: "reservation \<Rightarrow> byte list res" where
  "forwarded_listener r =
     and_then (vec_at (rsv_listener r) 0) (\<lambda>b. Inr (b # replicate (RANK_LISTENER_MAX_LEN - 1) 0))"

definition forward_EAR :: "node_config \<Rightarrow> node \<Rightarrow> session \<Rightarrow> session res" where
  "forward_EAR C connection s =
     and_then (reservation_of s) (\<lambda>r.
     and_then (forwarded_listener r) (\<lambda>listener.
     and_then (EAR_of_requirements (cfg_marshal C) (h_uuid (fst s)) (rsv_priority r)
                 (rsv_listener_length r) listener (rsv_capabilities r)) (\<lambda>m.
       send_message m (fst connection) (snd connection) s)))"

definition forward_MAR :: "node_config \<Rightarrow> node \<Rightarrow> session \<Rightarrow> session res" where
  "forward_MAR C intermediate s =
     and_then (reservation_of s) (\<lambda>r.
     and_then (forwarded_listener r) (\<lambda>listener.
     and_then (MAR_of_requirements (cfg_marshal C) (h_uuid (fst s)) (rsv_priority r)
                 (rsv_listener_length r) listener (rsv_capabilities r)) (\<lambda>m.
       send_message m (fst intermediate) (snd intermediate) s)))"

definition open_auction :: "nat \<Rightarrow> session \<Rightarrow> session" where
  "open_auction n s = ((fst s) \<lparr> h_waiting_bids := word_of_nat n, h_arriving_bids := 0 \<rparr>, snd s)"

definition EAR_forward :: "node_config \<Rightarrow> request \<Rightarrow> byte list \<Rightarrow> session \<Rightarrow> (ctl \<times> session) res" where
  "EAR_forward C m listener s =
     and_then (address_octets listener (req_listener_length m)) (\<lambda>tgt.
     and_then (vec_at tgt 0) (\<lambda>t.
     let connections = connections_to_target C t; source = h_source (fst s) in
       if connections_cardinal connections = 0 then
         and_then (send_message (REF_new (h_uuid (fst s))) (fst source) (snd source) s) (\<lambda>s.
           Inr (Return, stop (set_state CLOSED s)))
       else if connections_cardinal connections = 1 then
         and_then (front connections) (\<lambda>connection.
         and_then (forward_EAR C connection s) (\<lambda>s.
         and_then (change_reservation (set_past_node source) (set_state PRE_RESERVED s)) (\<lambda>s.
           Inr (Break, stop (start_timeout EAR s)))))
       else
         and_then (fold_res (forward_MAR C) connections (open_auction (length connections) s)) (\<lambda>s.
         and_then (change_reservation (set_past_node source) (set_state AUCTION_WAITING s)) (\<lambda>s.
           Inr (Break, stop (start_timeout MAR s))))))"

definition EAR_unknown_bid ::
  "node_config \<Rightarrow> request \<Rightarrow> byte list \<Rightarrow> session \<Rightarrow> (ctl \<times> session) res" where
  "EAR_unknown_bid C m listener s =
     and_then (available C (req_priority m) s) (\<lambda>(position, s).
       if position = None then
         and_then (reply_on_connection C (REF_new (h_uuid (fst s))) (set_reservation None s)) (\<lambda>s.
           Inr (Return, stop (set_state CLOSED s)))
       else and_then (mark_pre_reserved_here s) (\<lambda>s. EAR_forward C m listener s))"

text \<open>The last element of the list of reservations with the identifier of the session.\<close>

fun last_with_uuid :: "UUIDv4 \<Rightarrow> resources \<Rightarrow> addr list \<Rightarrow> ptr \<Rightarrow> ptr res" where
  "last_with_uuid u R [] p = Inr p"
| "last_with_uuid u R (a # as) p =
     and_then (deref (Some a) R) (\<lambda>r. last_with_uuid u R as (if rsv_uuid r = u then Some a else p))"

definition EAR_known_bid ::
  "node_config \<Rightarrow> request \<Rightarrow> byte list \<Rightarrow> session \<Rightarrow> (ctl \<times> session) res" where
  "EAR_known_bid C m listener s =
     and_then (last_with_uuid (h_uuid (fst s)) (w_resources (snd s)) (reservations (w_resources (snd s)))
                 (h_reservation (fst s))) (\<lambda>p.
       EAR_forward C m listener (set_reservation p s))"

definition Handler_EAR :: "node_config \<Rightarrow> request \<Rightarrow> session \<Rightarrow> (ctl \<times> session) res" where
  "Handler_EAR C m s =
     (let s = (if h_state (fst s) \<noteq> PRE_RESERVED then set_state ASSESSING s else s) in
      and_then (EAR_listener m) (\<lambda>listener.
      and_then (EAR_identify C m listener s) (\<lambda>(identified, s).
        case identified of
          None \<Rightarrow> Inr (Return, s)
        | Some i_am_listener \<Rightarrow>
            and_then (if h_reservation (fst s) = None then Inr s
                      else change_reservation (set_uuid (h_uuid (fst s))) s) (\<lambda>s.
              if i_am_listener then EAR_as_listener C m s
              else
                and_then (is_bid_in_store (hdr_uuid (req_header m)) s) (\<lambda>known.
                  if \<not> known then EAR_unknown_bid C m listener s
                  else EAR_known_bid C m listener s)))))"

section \<open>MAR\<close>

definition MAR_produce :: "node_config \<Rightarrow> request \<Rightarrow> byte list \<Rightarrow> session \<Rightarrow> session res" where
  "MAR_produce C m address s =
     and_then (MAR_requirements (cfg_marshal C) m) (\<lambda>capabilities.
       produce_reservation capabilities (req_priority m) address s)"

definition MAR_assess ::
  "node_config \<Rightarrow> request \<Rightarrow> byte list \<Rightarrow> session \<Rightarrow> session option res" where
  "MAR_assess C m listener s =
     (if req_listener_length m = LT_CODE_0 then
        and_then (vec_at listener 0) (\<lambda>simuzilla_address.
          catch_invalid (MAR_produce C m [simuzilla_address] s) (Inr None) (\<lambda>s. Inr (Some s)))
      else
        and_then (address_octets listener (req_listener_length m)) (\<lambda>address.
        and_then (MAR_produce C m address s) (\<lambda>s. Inr (Some s))))"

text \<open>
  A bid: the estimate, a \<open>double\<close>, is narrowed to a \<open>float\<close>, which is sent and stored.
\<close>

definition MAR_bid :: "node_config \<Rightarrow> session \<Rightarrow> (ctl \<times> session) res" where
  "MAR_bid C s =
     and_then (reservation_of s) (\<lambda>r.
     let bid_value = cfg_to_float C (rsv_estimated_bid r); source = h_source (fst s) in
     and_then (first_port C (fst source)) (\<lambda>tgt.
     and_then (send_message (BID_new (h_uuid (fst s)) bid_value) tgt (snd source) s) (\<lambda>s.
     and_then (change_reservation (update_last_bid (float_value bid_value)) (set_state PRE_RESERVED s)) (\<lambda>s.
     and_then (mark_pre_reserved_here s) (\<lambda>s.
       Inr (Break, stop (start_timeout BID s)))))))"

text \<open>
  A zeroed bid goes to the identifier of the source itself, the port computed before is not used.
\<close>

definition MAR_no_bid :: "node_config \<Rightarrow> session \<Rightarrow> (ctl \<times> session) res" where
  "MAR_no_bid C s =
     (let source = h_source (fst s) in
      and_then (first_port C (fst source)) (\<lambda>_.
      and_then (send_message (BID_new (h_uuid (fst s)) 0) (fst source) (snd source) s) (\<lambda>s.
        Inr (Break, stop (set_state CLOSED s)))))"

definition Handler_MAR :: "node_config \<Rightarrow> request \<Rightarrow> session \<Rightarrow> (ctl \<times> session) res" where
  "Handler_MAR C m s =
     (let s = set_state AUCTION_BIDDING s in
      and_then (MAR_listener m) (\<lambda>listener.
      and_then (MAR_assess C m listener s) (\<lambda>assessed.
        case assessed of
          None \<Rightarrow> Inr (Return, stop (set_state CLOSED s))
        | Some s \<Rightarrow>
            and_then (change_reservation (set_uuid (h_uuid (fst s))) s) (\<lambda>s.
            and_then (available C (req_priority m) s) (\<lambda>(position, s).
              if position \<noteq> None then MAR_bid C (set_reservation position s)
              else MAR_no_bid C s)))))"

section \<open>BID\<close>

text \<open>
  The first bid reaches the handler as a message, starts the auction's timeout and blocks; the
  others are added by the process.  A bid outside an auction closes the session.
\<close>

definition Handler_BID :: "bid_message \<Rightarrow> session \<Rightarrow> (ctl \<times> session) res" where
  "Handler_BID m s =
     (if h_state (fst s) \<noteq> AUCTION_WAITING then Inr (Return, stop (set_state CLOSED s))
      else
        let h = new_bid (bid_value m) (h_source (fst s)) (fst s);
            s = start_timeout AUCT (h, snd s)
        in Inr (Wait, ((fst s) \<lparr> h_auction := Waiting \<rparr>, snd s)))"

text \<open>
  The request that goes to a winner has an empty payload; its listener is the first octet of
  the reservation's, and its port the first one the simulator gives.  The log line reads the
  source.
\<close>

definition award :: "node_config \<Rightarrow> UUIDv4 \<Rightarrow> node \<Rightarrow> session \<Rightarrow> session res" where
  "award C u winner s =
     and_then (reservation_of s) (\<lambda>r.
     and_then (forwarded_listener r) (\<lambda>listener.
     let m = EAR_new u (rsv_priority r) (rsv_listener_length r) listener
               (make_payload_length (rsv_capabilities r)) (make_payload (rsv_capabilities r)) in
     and_then (vec_at (fst winner) 0) (\<lambda>b.
     let connections = get_connections_to C b in
     and_then (vec_at (fst (h_source (fst s))) 0) (\<lambda>_.
     and_then (vec_at connections 0) (\<lambda>(depth, locator).
     and_then (send_message m [locator] (snd winner) s) (\<lambda>s.
       Inr (start_timeout EAR (set_state PRE_RESERVED s))))))))"

definition award_translated :: "node_config \<Rightarrow> node \<Rightarrow> session \<Rightarrow> session res" where
  "award_translated C winner s =
     (let (new_uuid, w) = create_translation C (h_uuid (fst s)) (snd s) in
      award C new_uuid winner (fst s, w))"

text \<open>After the notification: no bid, a single highest bid, or a tie.\<close>

definition auction_close :: "node_config \<Rightarrow> session \<Rightarrow> (ctl \<times> session) res" where
  "auction_close C s =
     (let s = ((fst s) \<lparr> h_auction := NotWaiting \<rparr>, snd s); source = h_source (fst s) in
      if cardinal_bids (fst s) = 0 then
        and_then (send_message (REF_new (h_uuid (fst s))) (fst source) (snd source) s) (\<lambda>s.
          Inr (Break, stop (set_state CLOSED s)))
      else
        and_then (max_bids (h_bids (fst s))) (\<lambda>maximum_bid.
          if is_max_bid_unique maximum_bid then
            and_then (front maximum_bid) (\<lambda>winner.
            and_then (award C (h_uuid (fst s)) winner s) (\<lambda>s. Inr (Break, stop s)))
          else
            and_then (fold_res (award_translated C) maximum_bid s) (\<lambda>s. Inr (Break, stop s))))"

section \<open>ACC\<close>

text \<open>The acceptance travels back to the node the request came from.\<close>

definition ACC_pass_on :: "node_config \<Rightarrow> session \<Rightarrow> (ctl \<times> session) res" where
  "ACC_pass_on C s =
     and_then (reservation_of s) (\<lambda>r.
     and_then (topology_target C (rsv_past_node r)) (\<lambda>new_target.
       case new_target of
         None \<Rightarrow> Inr (Break, stop s)
       | Some (locator, type) \<Rightarrow>
           and_then (send_message (ACC_new (h_uuid (fst s))) locator type s) (\<lambda>s.
           and_then (change_reservation (add_next_node (h_source (fst s))) (set_state RESERVED s)) (\<lambda>s.
             Inr (Break, stop s)))))"

text \<open>
  The store entry of a translated identifier moves to the original one.  The key of the empty
  node handle, which extracting an absent key gives, is undefined; an entry that is already at
  the original key stays and the extracted one is lost.
\<close>

definition rekey_store :: "UUIDv4 \<Rightarrow> UUIDv4 \<Rightarrow> world \<Rightarrow> world res" where
  "rekey_store u u' w =
     (case map_of (w_store w) u of
        None \<Rightarrow> Inl UndefinedBehaviour
      | Some a \<Rightarrow> Inr (w \<lparr> w_store := map_insert u' a (map_erase u (w_store w)) \<rparr>))"

definition Handler_ACC :: "node_config \<Rightarrow> session \<Rightarrow> (ctl \<times> session) res" where
  "Handler_ACC C s =
     (if h_state (fst s) = RESERVED then Inr (Break, stop s)
      else
        and_then (mark_reserved_here s) (\<lambda>s.
        let u = h_uuid (fst s) in
          if \<not> is_translation_table_empty_for u (snd s) then
            and_then (locate_original_of u (snd s)) (\<lambda>original_uuid.
            and_then (rekey_store u original_uuid (snd s)) (\<lambda>w.
              ACC_pass_on C (new_id original_uuid (fst s), w)))
          else if am_i_origin_for u (snd s) then
            and_then (change_reservation (add_next_node (h_source (fst s))) s) (\<lambda>s.
              Inr (Break, stop (set_state RESERVED s)))
          else ACC_pass_on C s))"

section \<open>REF\<close>

text \<open>
  The loop over the store erases the entry it stands on, which invalidates the iterator it
  then advances.
\<close>

fun REF_store_loop :: "session \<Rightarrow> (UUIDv4 \<times> haddr) list \<Rightarrow> unit res" where
  "REF_store_loop s [] = Inr ()"
| "REF_store_loop s ((u, a) # entries) =
     (if u = h_uuid (fst s) then
        and_then (handler_at s a) (\<lambda>h.
          if h_reservation h = None then REF_store_loop s entries
          else and_then (deref (h_reservation h) (w_resources (snd s))) (\<lambda>r.
            if rsv_state r = ReservationState.PRE_RESERVED then Inl UndefinedBehaviour
            else REF_store_loop s entries))
      else REF_store_loop s entries)"

definition REF_pass_on :: "node_config \<Rightarrow> session \<Rightarrow> (ctl \<times> session) res" where
  "REF_pass_on C s =
     and_then (topology_target C (h_source (fst s))) (\<lambda>new_target.
       case new_target of
         None \<Rightarrow> Inr (Break, stop s)
       | Some (locator, type) \<Rightarrow>
           and_then (send_message (REF_new (h_uuid (fst s))) locator type s) (\<lambda>s.
             Inr (Break, stop (set_state CLOSED s))))"

definition Handler_REF :: "node_config \<Rightarrow> session \<Rightarrow> (ctl \<times> session) res" where
  "Handler_REF C s =
     and_then (REF_store_loop s (w_store (snd s))) (\<lambda>_.
     let u = h_uuid (fst s) in
       if \<not> is_translation_table_empty_for u (snd s) then
         and_then (map_at (w_translations (snd s)) u) (\<lambda>old_uuid.
         let w = (snd s) \<lparr> w_translations := map_erase u (w_translations (snd s)) \<rparr>;
             s = (new_id old_uuid (fst s), w) in
           if \<not> is_translation_table_empty_for old_uuid w then REF_pass_on C s
           else Inr (Break, stop (set_state CLOSED s)))
       else if am_i_origin_for u (snd s) then
         Inr (Break, stop (set_state CLOSED (fst s, snd (remove_as_origin u (snd s)))))
       else REF_pass_on C s)"

section \<open>REP\<close>

definition REP_identify :: "node_config \<Rightarrow> rep_message \<Rightarrow> byte list \<Rightarrow> bool res" where
  "REP_identify C m listener =
     (if rep_listener_length m = LT_CODE_0 then
        and_then (vec_at listener 0) (\<lambda>b. Inr (cfg_simulated_is_me C b))
      else
        and_then (address_octets listener (rep_listener_length m)) (\<lambda>address.
          Inr (cfg_is_me C address)))"

text \<open>One replenishing message, sent in every direction the reservation was extended to.\<close>

definition REP_towards :: "node_config \<Rightarrow> Message \<Rightarrow> node \<Rightarrow> session \<Rightarrow> session res" where
  "REP_towards C m direction s =
     and_then (vec_at (fst direction) 0) (\<lambda>b.
     let connections = get_connections_to C b in
     and_then (vec_at (fst (h_source (fst s))) 0) (\<lambda>_.
     and_then (vec_at connections 0) (\<lambda>(depth, locator).
       send_message m [locator] (snd direction) s)))"

definition Handler_REP :: "node_config \<Rightarrow> rep_message \<Rightarrow> session \<Rightarrow> (ctl \<times> session) res" where
  "Handler_REP C m s =
     (let s = set_state REPLENISHING s; source = h_source (fst s) in
      and_then (REP_listener m) (\<lambda>listener.
      and_then (REP_identify C m listener) (\<lambda>i_am_listener.
        if i_am_listener then
          and_then (first_port C (fst source)) (\<lambda>tgt.
          and_then (send_message (REF_new (h_uuid (fst s))) tgt (snd source) s) (\<lambda>s.
            Inr (Break, stop (set_state CLOSED s))))
        else if is_uuid_in_store (h_uuid (fst s)) s then
          and_then (reservation_of s) (\<lambda>r.
          let new_rep_message = REP_new (cfg_stack_byte C) (h_uuid (fst s)) (rsv_listener_length r)
                (rsv_listener r) in
          and_then (fold_res (REP_towards C new_rep_message) (rsv_next_nodes r) s) (\<lambda>s.
            Inr (Break, stop (start_timeout REP s))))
        else Inr (Break, stop (set_state CLOSED s)))))"

section \<open>The loop of the thread\<close>

text \<open>
  The switch casts the message to the class its type names; a mismatch is a null pointer that
  EAR, MAR, BID and REP dereference.
\<close>

definition Handler_switch :: "node_config \<Rightarrow> Message \<Rightarrow> session \<Rightarrow> (ctl \<times> session) res" where
  "Handler_switch C m s =
     (case Message_type m of
        MessageType.EAR \<Rightarrow> (case m of EAR_msg r \<Rightarrow> Handler_EAR C r s | _ \<Rightarrow> Inl NullDeref)
      | MessageType.MAR \<Rightarrow> (case m of MAR_msg r \<Rightarrow> Handler_MAR C r s | _ \<Rightarrow> Inl NullDeref)
      | MessageType.BID \<Rightarrow>
          (case m of BID_msg b \<Rightarrow> Handler_BID b s
           | _ \<Rightarrow> if h_state (fst s) \<noteq> AUCTION_WAITING then Inr (Return, stop (set_state CLOSED s))
                  else Inl NullDeref)
      | ACC \<Rightarrow> Handler_ACC C s
      | REF \<Rightarrow> Handler_REF C s
      | MessageType.REP \<Rightarrow> (case m of REP_msg r \<Rightarrow> Handler_REP C r s | _ \<Rightarrow> Inl NullDeref)
      | NOTYPE \<Rightarrow> Inr (Break, s)
      | Unlisted c \<Rightarrow> Inr (Break, s))"

text \<open>The end of a round deletes the message, unless the branch returned or still waits.\<close>

definition finish :: "ctl \<times> session \<Rightarrow> session" where
  "finish r =
     (case r of (Break, s) \<Rightarrow> ((fst s) \<lparr> h_message := None \<rparr>, snd s) | (_, s) \<Rightarrow> s)"

definition Handler_round :: "node_config \<Rightarrow> session \<Rightarrow> session res" where
  "Handler_round C s =
     (if \<not> h_running (fst s) then Inr s
      else
        case h_auction (fst s) of
          Waiting \<Rightarrow> Inr s
        | Notified \<Rightarrow> and_then (auction_close C s) (\<lambda>r. Inr (finish r))
        | NotWaiting \<Rightarrow>
            (case h_message (fst s) of
               None \<Rightarrow> Inr s
             | Some m \<Rightarrow>
                 and_then (Handler_preamble C s) (\<lambda>s.
                 and_then (Handler_switch C m s) (\<lambda>r. Inr (finish r)))))"

section \<open>What every step keeps\<close>

text \<open>
  Relative to the frame a step starts in (its own address \<open>a\<close>, the handlers \<open>W\<close> and the next
  free address \<open>n\<close>): a step changes no other handler, keeps the pool of reservations
  well-formed and the maps sorted, and leaves no store entry and no timer without a handler.
\<close>

definition world_maps_wf :: "world \<Rightarrow> bool" where
  "world_maps_wf w \<longleftrightarrow>
     resources_wf (w_resources w) \<and> std_map_wf (w_translations w) \<and> std_map_wf (w_origins w)
     \<and> std_map_wf (w_store w)"

definition live_refs :: "(haddr \<Rightarrow> bool) \<Rightarrow> world \<Rightarrow> bool" where
  "live_refs live w \<longleftrightarrow> (\<forall>p \<in> set (w_store w). live (snd p)) \<and> (\<forall>p \<in> set (w_timeouts w). live (fst p))"

definition session_inv ::
  "haddr \<Rightarrow> (haddr \<Rightarrow> handler option) \<Rightarrow> haddr \<Rightarrow> session \<Rightarrow> bool" where
  "session_inv a W n s \<longleftrightarrow>
     h_this (fst s) = a \<and> h_auction (fst s) = NotWaiting \<and> w_handlers (snd s) = W
     \<and> w_next_handler (snd s) = n \<and> world_maps_wf (snd s)
     \<and> live_refs (\<lambda>b. b = a \<or> W b \<noteq> None) (snd s)"

named_theorems session_steps

lemma session_inv_set_state [simp]: "session_inv a W n (set_state st s) = session_inv a W n s"
  by (simp add: session_inv_def set_state_def)

lemma session_inv_set_reservation [simp]: "session_inv a W n (set_reservation p s) = session_inv a W n s"
  by (simp add: session_inv_def set_reservation_def)

lemma session_inv_stop [simp]: "session_inv a W n (stop s) = session_inv a W n s"
  by (simp add: session_inv_def stop_def Handler_stop_def)

lemma session_inv_open_auction [simp]: "session_inv a W n (open_auction k s) = session_inv a W n s"
  by (simp add: session_inv_def open_auction_def)

lemma session_inv_start_timeout [simp]: "session_inv a W n s \<Longrightarrow> session_inv a W n (start_timeout t s)"
  by (auto simp: session_inv_def start_timeout_def initiate_timeout_def live_refs_def world_maps_wf_def)

lemma session_inv_new_id [simp]: "session_inv a W n (new_id u (fst s), snd s) = session_inv a W n s"
  by (simp add: session_inv_def new_id_def)

lemma session_inv_resources:
  "session_inv a W n s \<Longrightarrow> resources_wf R \<Longrightarrow> session_inv a W n (set_resources R s)"
  by (simp add: session_inv_def set_resources_def world_maps_wf_def live_refs_def)

lemma session_inv_pool: "session_inv a W n s \<Longrightarrow> resources_wf (w_resources (snd s))"
  by (simp add: session_inv_def world_maps_wf_def)

lemma session_inv_send [session_steps]:
  "send_message m t ty s = Inr s' \<Longrightarrow> session_inv a W n s \<Longrightarrow> session_inv a W n s'"
  by (auto simp: send_message_def session_inv_def world_maps_wf_def live_refs_def)

lemma session_inv_change [session_steps]:
  assumes "change_reservation f s = Inr s'" "session_inv a W n s"
    and f: "\<And>r. reservation_ok r \<Longrightarrow> reservation_ok (f r)"
  shows "session_inv a W n s'"
proof -
  obtain r b where "heap (w_resources (snd s)) b = Some r" "h_reservation (fst s) = Some b"
    and s': "s' = set_resources (store_at b (f r) (w_resources (snd s))) s"
    using assms(1) by (auto simp: change_reservation_def reservation_of_def deref_Inr)
  with session_inv_pool [OF assms(2)] f have "resources_wf (store_at b (f r) (w_resources (snd s)))"
    by (intro wf_store) (auto dest: wf_heap_ok)
  with s' assms(2) show ?thesis
    by (simp add: session_inv_resources)
qed

lemma session_inv_available [session_steps]:
  "available C p s = Inr (q, s') \<Longrightarrow> session_inv a W n s \<Longrightarrow> session_inv a W n s'"
  by (auto simp: available_def intro!: session_inv_resources dest: session_inv_pool intro: wf_available)

lemma session_inv_mark_reserved [session_steps]:
  "mark_reserved_here s = Inr s' \<Longrightarrow> session_inv a W n s \<Longrightarrow> session_inv a W n s'"
  by (auto simp: mark_reserved_here_def intro!: session_inv_resources dest: session_inv_pool
      intro: wf_mark_reservation)

lemma session_inv_mark_pre [session_steps]:
  "mark_pre_reserved_here s = Inr s' \<Longrightarrow> session_inv a W n s \<Longrightarrow> session_inv a W n s'"
  by (auto simp: mark_pre_reserved_here_def intro!: session_inv_resources
      intro: wf_mark_pre_reservation [OF session_inv_pool])

lemma session_inv_produce [session_steps]:
  assumes "produce_reservation c p l s = Inr s'" "session_inv a W n s"
  shows "session_inv a W n s'"
proof -
  obtain r where r: "mark_listener l (word_of_nat (length l)) (Reservation_new c p) = Inr r"
    and s': "s' = set_reservation (Some (fst (new_reservation r (w_resources (snd s)))))
               (set_resources (snd (new_reservation r (w_resources (snd s)))) s)"
    using assms(1) by (fastforce simp: produce_reservation_def Let_def new_reservation_def)
  have "reservation_ok r"
    using r by (rule reservation_ok_mark_listener [rotated]) simp
  with s' assms(2) show ?thesis
    by (auto intro!: session_inv_resources wf_new dest: session_inv_pool)
qed

lemma session_inv_reply [session_steps]:
  "reply_on_connection C m s = Inr s' \<Longrightarrow> session_inv a W n s \<Longrightarrow> session_inv a W n s'"
  by (auto simp: reply_on_connection_def split: prod.splits elim: session_inv_send)

lemma session_inv_forward [session_steps]:
  "forward_EAR C c s = Inr s' \<Longrightarrow> session_inv a W n s \<Longrightarrow> session_inv a W n s'"
  "forward_MAR C c s = Inr s' \<Longrightarrow> session_inv a W n s \<Longrightarrow> session_inv a W n s'"
  by (auto simp: forward_EAR_def forward_MAR_def elim: session_inv_send)

lemma session_inv_REP_towards [session_steps]:
  "REP_towards C m d s = Inr s' \<Longrightarrow> session_inv a W n s \<Longrightarrow> session_inv a W n s'"
  by (auto simp: REP_towards_def Let_def split: prod.splits elim: session_inv_send)

lemma session_inv_award [session_steps]:
  "award C u x s = Inr s' \<Longrightarrow> session_inv a W n s \<Longrightarrow> session_inv a W n s'"
  by (auto simp: award_def Let_def split: prod.splits elim!: session_inv_send
      intro!: session_inv_start_timeout)

lemma session_inv_award_translated [session_steps]:
  assumes "award_translated C x s = Inr s'" "session_inv a W n s"
  shows "session_inv a W n s'"
proof -
  have "session_inv a W n (fst s, snd (create_translation C (h_uuid (fst s)) (snd s)))"
    using assms(2) by (auto simp: session_inv_def create_translation_def generate_new_uuid_with_def
        world_maps_wf_def live_refs_def)
  with assms(1) show ?thesis
    by (auto simp: award_translated_def split: prod.splits elim: session_inv_award)
qed

lemma session_inv_fold [session_steps]:
  "fold_res f xs s = Inr s' \<Longrightarrow> session_inv a W n s
   \<Longrightarrow> (\<And>x s s'. f x s = Inr s' \<Longrightarrow> session_inv a W n s \<Longrightarrow> session_inv a W n s')
   \<Longrightarrow> session_inv a W n s'"
  by (rule fold_res_inv [of xs "session_inv a W n" f]) blast+

lemma session_inv_request_produce:
  "EAR_produce C m l s = Inr s' \<Longrightarrow> session_inv a W n s \<Longrightarrow> session_inv a W n s'"
  "MAR_produce C m l s = Inr s' \<Longrightarrow> session_inv a W n s \<Longrightarrow> session_inv a W n s'"
  by (auto simp: EAR_produce_def MAR_produce_def split: if_splits elim!: session_inv_produce)

lemma session_inv_identify:
  "EAR_identify C m l s = Inr (r, s') \<Longrightarrow> session_inv a W n s \<Longrightarrow> session_inv a W n s'"
  "MAR_assess C m l s = Inr (Some s') \<Longrightarrow> session_inv a W n s \<Longrightarrow> session_inv a W n s'"
  by (auto simp: EAR_identify_def MAR_assess_def split: if_split_asm
      elim!: session_inv_request_produce)

lemma session_inv_EAR_forward:
  "EAR_forward C m l s = Inr (c, s') \<Longrightarrow> session_inv a W n s \<Longrightarrow> session_inv a W n s'"
  by (auto simp: EAR_forward_def Let_def split: if_splits elim!: session_steps
      intro!: session_inv_start_timeout)

lemma session_inv_EAR:
  "Handler_EAR C m s = Inr (c, s') \<Longrightarrow> session_inv a W n s \<Longrightarrow> session_inv a W n s'"
  by (auto simp: Handler_EAR_def EAR_as_listener_def EAR_unknown_bid_def EAR_known_bid_def Let_def
      split: if_splits prod.splits option.splits
      elim!: session_steps session_inv_identify session_inv_EAR_forward)

lemma session_inv_MAR:
  "Handler_MAR C m s = Inr (c, s') \<Longrightarrow> session_inv a W n s \<Longrightarrow> session_inv a W n s'"
  by (auto simp: Handler_MAR_def MAR_bid_def MAR_no_bid_def Let_def
      split: if_splits prod.splits option.splits
      elim!: session_steps session_inv_identify intro!: session_inv_start_timeout)

lemma session_inv_pass_on:
  "ACC_pass_on C s = Inr (c, s') \<Longrightarrow> session_inv a W n s \<Longrightarrow> session_inv a W n s'"
  "REF_pass_on C s = Inr (c, s') \<Longrightarrow> session_inv a W n s \<Longrightarrow> session_inv a W n s'"
  by (auto simp: ACC_pass_on_def REF_pass_on_def split: option.split_asm prod.split_asm
      elim!: session_steps)

lemma live_refs_insert:
  "live_refs live w \<Longrightarrow> live b \<Longrightarrow> set m \<subseteq> set (w_store w)
   \<Longrightarrow> live_refs live (w \<lparr> w_store := map_insert v b m \<rparr>)"
  by (fastforce simp: live_refs_def dest!: set_map_insert_subset [THEN subsetD])

lemma set_map_erase: "set (map_erase u m) \<subseteq> set m"
  by (auto simp: map_erase_def)

lemma session_inv_rekey:
  assumes "rekey_store u v w = Inr w'" "session_inv a W n (h, w)"
  shows "session_inv a W n (new_id v h, w')"
proof -
  obtain b where b: "(u, b) \<in> set (w_store w)"
    and w': "w' = w \<lparr> w_store := map_insert v b (map_erase u (w_store w)) \<rparr>"
    using assms(1) by (auto simp: rekey_store_def split: option.split_asm dest: map_of_SomeD)
  have live: "live_refs (\<lambda>b. b = a \<or> W b \<noteq> None) w"
    using assms(2) by (simp add: session_inv_def)
  with b have "b = a \<or> W b \<noteq> None"
    by (force simp: live_refs_def)
  with live have "live_refs (\<lambda>b. b = a \<or> W b \<noteq> None) w'"
    unfolding w' by (rule live_refs_insert) (rule set_map_erase)
  with assms(2) w' show ?thesis
    by (simp add: session_inv_def world_maps_wf_def new_id_def)
qed

lemma session_inv_ACC:
  "Handler_ACC C s = Inr (c, s') \<Longrightarrow> session_inv a W n s \<Longrightarrow> session_inv a W n s'"
  by (auto simp: Handler_ACC_def Let_def split: if_split_asm
      elim!: session_steps session_inv_pass_on session_inv_rekey)

lemma session_inv_REF:
  assumes "Handler_REF C s = Inr (c, s')" "session_inv a W n s"
  shows "session_inv a W n s'"
proof -
  have "session_inv a W n (new_id v (fst s), (snd s) \<lparr> w_translations := map_erase u (w_translations (snd s)) \<rparr>)"
    "session_inv a W n (fst s, snd (remove_as_origin u (snd s)))" for u v
    using assms(2) by (auto simp: session_inv_def world_maps_wf_def live_refs_def new_id_def remove_as_origin_def)
  with assms show ?thesis
    by (auto simp: Handler_REF_def Let_def split: if_split_asm elim!: session_inv_pass_on)
qed

lemma session_inv_REP:
  "Handler_REP C m s = Inr (c, s') \<Longrightarrow> session_inv a W n s \<Longrightarrow> session_inv a W n s'"
  by (auto simp: Handler_REP_def Let_def split: if_split_asm
      elim!: session_steps intro!: session_inv_start_timeout)

lemma session_inv_auction_close:
  assumes "auction_close C s = Inr (c, s')"
    and "session_inv a W n ((fst s) \<lparr> h_auction := NotWaiting \<rparr>, snd s)"
  shows "session_inv a W n s'"
  using assms by (auto simp: auction_close_def Let_def split: if_split_asm elim!: session_steps)

lemma session_inv_preamble:
  assumes "Handler_preamble C s = Inr s'" "session_inv a W n s"
  shows "session_inv a W n s'"
  using assms wf_get_reservation_for [OF session_inv_pool [OF assms(2)]]
  by (auto simp: Handler_preamble_def Let_def split: if_split_asm intro!: session_inv_resources)

lemma session_inv_switch:
  assumes "Handler_switch C m s = Inr (c, s')" "session_inv a W n s"
    and "Message_type m \<noteq> MessageType.BID"
  shows "session_inv a W n s'"
  using assms unfolding Handler_switch_def
  by (auto split: MessageType.split_asm Message.split_asm
      elim: session_inv_EAR session_inv_MAR session_inv_ACC session_inv_REF session_inv_REP)

text \<open>
  The whole round: the handler may also end up in the wait of its auction, then it is still
  running.
\<close>

definition handler_ok :: "haddr \<Rightarrow> handler \<Rightarrow> bool" where
  "handler_ok a h \<longleftrightarrow> h_this h = a \<and> (h_auction h \<noteq> NotWaiting \<longrightarrow> h_running h)"

definition round_inv ::
  "haddr \<Rightarrow> (haddr \<Rightarrow> handler option) \<Rightarrow> haddr \<Rightarrow> session \<Rightarrow> bool" where
  "round_inv a W n s \<longleftrightarrow>
     handler_ok a (fst s) \<and> session_inv a W n ((fst s) \<lparr> h_auction := NotWaiting \<rparr>, snd s)"

lemma round_inv_of_session: "session_inv a W n s \<Longrightarrow> round_inv a W n s"
  by (simp add: round_inv_def handler_ok_def session_inv_def)

lemma round_inv_finish: "round_inv a W n s \<Longrightarrow> round_inv a W n (finish (c, s))"
  by (cases c) (simp_all add: finish_def round_inv_def handler_ok_def session_inv_def)

lemma round_inv_BID:
  "Handler_BID b s = Inr (c, s') \<Longrightarrow> session_inv a W n s \<Longrightarrow> h_running (fst s) \<Longrightarrow> round_inv a W n s'"
  by (auto simp: Handler_BID_def Let_def round_inv_def handler_ok_def session_inv_def new_bid_def
      start_timeout_def initiate_timeout_def world_maps_wf_def live_refs_def set_state_def stop_def
      Handler_stop_def split: if_split_asm)

lemma round_inv_switch:
  assumes "Handler_switch C m s = Inr (c, s')" "session_inv a W n s" "h_running (fst s)"
  shows "round_inv a W n s'"
proof (cases "Message_type m = MessageType.BID")
  case True
  with assms show ?thesis
    by (auto simp: Handler_switch_def split: Message.split_asm if_split_asm
        intro: round_inv_BID round_inv_of_session)
next
  case False
  with assms show ?thesis
    by (auto intro: round_inv_of_session session_inv_switch)
qed

lemma preamble_running: "Handler_preamble C s = Inr s' \<Longrightarrow> h_running (fst s') = h_running (fst s)"
  by (auto simp: Handler_preamble_def Let_def set_reservation_def set_resources_def split: if_split_asm)

lemma round_inv_round:
  assumes "Handler_round C s = Inr s'" "round_inv a W n s"
  shows "round_inv a W n s'"
proof (cases "h_running (fst s)")
  case True
  show ?thesis
  proof (cases "h_auction (fst s)")
    case NotWaiting
    with assms(2) have "session_inv a W n s"
      by (simp add: round_inv_def session_inv_def)
    with assms NotWaiting True show ?thesis
      by (auto simp: Handler_round_def split: option.split_asm intro!: round_inv_finish
          intro: round_inv_switch session_inv_preamble dest: preamble_running)
  next
    case Waiting
    with assms show ?thesis
      by (simp add: Handler_round_def True)
  next
    case Notified
    with assms True show ?thesis
      by (auto simp: Handler_round_def round_inv_def [of a W n s] intro!: round_inv_finish
          intro: round_inv_of_session session_inv_auction_close)
  qed
qed (use assms in \<open>simp add: Handler_round_def\<close>)

end
