(* ===== verification/Process.thy ===== *)
theory Process
  imports Handler_Steps
begin

text \<open>
  The process of a node (\<open>structs/process.cpp\<close>): the store of handlers, the origin set, and
  the loop that takes a message from the receiving queue, decides whether the request is known
  and hands the message to a new or a resumed handler.
\<close>

section \<open>Handlers of the store\<close>

definition handler_ref :: "haddr \<Rightarrow> world \<Rightarrow> handler res" where
  "handler_ref a w = (case w_handlers w a of None \<Rightarrow> Inl Dangling | Some h \<Rightarrow> Inr h)"

definition put_handler :: "haddr \<Rightarrow> handler \<Rightarrow> world \<Rightarrow> world" where
  "put_handler a h w = w \<lparr> w_handlers := (w_handlers w)(a \<mapsto> h) \<rparr>"

definition change_handler :: "haddr \<Rightarrow> (handler \<Rightarrow> handler) \<Rightarrow> world \<Rightarrow> world res" where
  "change_handler a f w = and_then (handler_ref a w) (\<lambda>h. Inr (put_handler a (f h) w))"

text \<open>
  \<open>is_uuid_in_store\<close> matches by timestamp.  Unless asked to test only, it moves the first
  entry with another identifier of the same timestamp to the given one.  \<open>-1\<close> stands for no
  such entry.
\<close>

definition related_uuids :: "ulid_lib \<Rightarrow> UUIDv4 \<Rightarrow> world \<Rightarrow> UUIDv4 list" where
  "related_uuids L u w = filter (\<lambda>item_id. is_same_timestamp L item_id u) (map fst (w_store w))"

definition Process_is_uuid_in_store ::
  "ulid_lib \<Rightarrow> UUIDv4 \<Rightarrow> bool \<Rightarrow> world \<Rightarrow> (bool \<times> world) res" where
  "Process_is_uuid_in_store L u tester w =
     (let uuids = related_uuids L u w in
      if uuids = [] then Inr (False, w)
      else if tester then Inr (True, w)
      else
        let old = (case filter (\<lambda>uuid. uuid \<noteq> u) uuids of [] \<Rightarrow> - 1 | uuid # _ \<Rightarrow> uuid) in
        if old = - 1 then Inr (True, w)
        else
          and_then (map_at (w_store w) old) (\<lambda>a.
          and_then (change_handler a (new_id u) w) (\<lambda>w.
            Inr (True, w \<lparr> w_store := map_erase old (map_assign u a (w_store w)) \<rparr>))))"

definition get_handler :: "ulid_lib \<Rightarrow> UUIDv4 \<Rightarrow> bool \<Rightarrow> world \<Rightarrow> (haddr option \<times> world) res" where
  "get_handler L u tester w =
     and_then (Process_is_uuid_in_store L u tester w) (\<lambda>(known, w).
       if known then and_then (map_at (w_store w) u) (\<lambda>a. Inr (Some a, w))
       else Inr (None, w))"

text \<open>A handler that must exist: the null pointer throws.\<close>

definition existing_handler :: "ulid_lib \<Rightarrow> UUIDv4 \<Rightarrow> world \<Rightarrow> (haddr \<times> world) res" where
  "existing_handler L u w =
     and_then (get_handler L u False w) (\<lambda>(p, w).
       case p of None \<Rightarrow> Inl StdException | Some a \<Rightarrow> Inr (a, w))"

definition Process_store :: "ulid_lib \<Rightarrow> haddr \<Rightarrow> world \<Rightarrow> (bool \<times> world) res" where
  "Process_store L a w =
     and_then (handler_ref a w) (\<lambda>h.
     and_then (Process_is_uuid_in_store L (h_uuid h) False w) (\<lambda>(known, w).
       if known then Inr (False, w)
       else and_then (handler_ref a w) (\<lambda>h.
         Inr (True, w \<lparr> w_store := map_assign (h_uuid h) a (w_store w) \<rparr>))))"

definition delete_handler :: "ulid_lib \<Rightarrow> UUIDv4 \<Rightarrow> world \<Rightarrow> world res" where
  "delete_handler L u w =
     and_then (existing_handler L u w) (\<lambda>(a, w).
       Inr (w \<lparr> w_handlers := (w_handlers w)(a := None), w_store := map_erase u (w_store w) \<rparr>))"

definition create_handler :: "UUIDv4 \<Rightarrow> world \<Rightarrow> haddr \<times> world" where
  "create_handler u w =
     (let a = w_next_handler w in
      (a, w \<lparr> w_handlers := (w_handlers w)(a \<mapsto> Handler_new a u), w_next_handler := Suc a,
              w_store := map_assign u a (w_store w) \<rparr>))"

definition resume_handler :: "ulid_lib \<Rightarrow> UUIDv4 \<Rightarrow> world \<Rightarrow> (haddr \<times> world) res" where
  "resume_handler L u w =
     and_then (existing_handler L u w) (\<lambda>(a, w).
     and_then (change_handler a Handler_execute w) (\<lambda>w. Inr (a, w)))"

definition suspend_handler :: "ulid_lib \<Rightarrow> UUIDv4 \<Rightarrow> world \<Rightarrow> (haddr \<times> world) res" where
  "suspend_handler L u w =
     and_then (existing_handler L u w) (\<lambda>(a, w).
     and_then (change_handler a Handler_stop w) (\<lambda>w. Inr (a, w)))"

definition get_handler_state :: "ulid_lib \<Rightarrow> UUIDv4 \<Rightarrow> world \<Rightarrow> (HandlerState \<times> world) res" where
  "get_handler_state L u w =
     and_then (existing_handler L u w) (\<lambda>(a, w).
     and_then (handler_ref a w) (\<lambda>h. Inr (h_state h, w)))"

definition get_store_summary :: "world \<Rightarrow> (UUIDv4 \<times> HandlerState) list res" where
  "get_store_summary w =
     map_res (\<lambda>(u, a). and_then (handler_ref a w) (\<lambda>h. Inr (u, h_state h))) (w_store w)"

definition store_contains_uuids_related_to :: "ulid_lib \<Rightarrow> UUIDv4 \<Rightarrow> world \<Rightarrow> bool" where
  "store_contains_uuids_related_to L u w = list_ex (\<lambda>(item, _). is_same_timestamp L item u) (w_store w)"

section \<open>Origin set\<close>

text \<open>The process identifier is narrowed to the octet the set keeps; \<open>insert\<close> does not overwrite.\<close>

definition mark_origin :: "UUIDv4 \<Rightarrow> uint32 \<Rightarrow> world \<Rightarrow> world" where
  "mark_origin u pid w = w \<lparr> w_origins := map_insert u (ucast pid) (w_origins w) \<rparr>"

text \<open>Dereferencing the end iterator of \<open>find\<close> is undefined.\<close>

definition get_pid_on_origin :: "UUIDv4 \<Rightarrow> world \<Rightarrow> int res" where
  "get_pid_on_origin u w =
     (case map_of (w_origins w) u of None \<Rightarrow> Inl UndefinedBehaviour | Some pid \<Rightarrow> Inr (uint pid))"

text \<open>
  \<open>new_prototype\<close> (\<open>utils/messaging.cpp\<close>) is a stub: it ignores the octets and returns the
  default header, and so do the three functions that parse through it.
\<close>

definition new_prototype :: "byte list \<Rightarrow> header" where
  "new_prototype marshalled_data = Header_default"

definition parse_as_message_header :: "byte list \<Rightarrow> header res" where
  "parse_as_message_header data =
     and_then (require (RANK_HEADER_LEN \<le> length data) AssertionFailed) (\<lambda>_.
       Inr (new_prototype (take RANK_HEADER_LEN data)))"

definition parse_as_message_type :: "byte list \<Rightarrow> MessageType res" where
  "parse_as_message_type data = and_then (parse_as_message_header data) (\<lambda>h. Inr (hdr_type h))"

definition parse_as_message_uuid :: "byte list \<Rightarrow> UUIDv4 res" where
  "parse_as_message_uuid data = and_then (parse_as_message_header data) (\<lambda>h. Inr (hdr_uuid h))"

section \<open>The loop of the process\<close>

text \<open>Does the message end here, and is it a request?\<close>

definition is_origin_of :: "ulid_lib \<Rightarrow> UUIDv4 \<Rightarrow> world \<Rightarrow> bool" where
  "is_origin_of L u w = list_ex (\<lambda>(originated, _). is_same_timestamp L originated u) (w_origins w)"

definition classify_message :: "node_config \<Rightarrow> Message \<Rightarrow> world \<Rightarrow> (bool \<times> bool) res" where
  "classify_message C message w =
     (if Message_type message = MessageType.EAR then
        (case message of
           EAR_msg m \<Rightarrow>
             and_then (EAR_listener m) (\<lambda>listener.
             and_then (vec_at listener 0) (\<lambda>b.
               Inr (cfg_simulated_is_me C b
                      \<and> store_contains_uuids_related_to (cfg_ulid C) (Message_uuid message) w,
                    req_payload_length m \<noteq> 0)))
         | _ \<Rightarrow> Inl NullDeref)
      else Inr (False, Message_type message = MessageType.MAR))"

text \<open>
  A bid for a waiting auction, by the kind of its source.  Copying from a source that is too
  short, or into the empty string of the DDS case, is undefined.
\<close>

definition bid_source :: "node \<Rightarrow> node res" where
  "bid_source source =
     (case snd source of
        Simulation \<Rightarrow> and_then (vec_at (fst source) 0) (\<lambda>b. Inr ([b], Simulation))
      | MAC \<Rightarrow> and_then (read_octets (fst source) MAC_ADDR_LEN) (\<lambda>bs. Inr (bs, MAC))
      | IPv4 \<Rightarrow> and_then (read_octets (fst source) IPV4_ADDR_LEN) (\<lambda>bs. Inr (bs, IPv4))
      | IPv6 \<Rightarrow> and_then (read_octets (fst source) IPV6_ADDR_LEN) (\<lambda>bs. Inr (bs, IPv6))
      | DDS \<Rightarrow> Inl UndefinedBehaviour)"

definition running_handler :: "haddr \<Rightarrow> Message \<Rightarrow> node \<Rightarrow> world \<Rightarrow> world res" where
  "running_handler a message source w =
     and_then (handler_ref a w) (\<lambda>h.
       if h_state h = AUCTION_WAITING \<and> Message_type message = MessageType.BID then
         (case message of
            BID_msg b \<Rightarrow>
              and_then (bid_source source) (\<lambda>n. change_handler a (new_bid (bid_value b) n) w)
          | _ \<Rightarrow> Inl NullDeref)
       else Inr w)"

definition discards :: "HandlerState \<Rightarrow> bool" where
  "discards st = (st = ASSESSING \<or> st = PRESENTING \<or> st = AUCTION_BIDDING \<or> st = CLOSED)"

text \<open>A known request: \<open>None\<close> when the message goes no further.\<close>

definition known_request ::
  "node_config \<Rightarrow> UUIDv4 \<Rightarrow> Message \<Rightarrow> node \<Rightarrow> world \<Rightarrow> (haddr option \<times> world) res" where
  "known_request C u message source w =
     and_then (map_at (w_store w) u) (\<lambda>a.
     and_then (handler_ref a w) (\<lambda>h.
     let uuid_state = h_state h in
     and_then (get_handler (cfg_ulid C) u False w) (\<lambda>(p, w).
     and_then (case p of None \<Rightarrow> Inl NullDeref | Some a \<Rightarrow> handler_ref a w) (\<lambda>h.
       if h_running h then
         and_then (get_handler (cfg_ulid C) u False w) (\<lambda>(p, w).
         and_then (case p of None \<Rightarrow> Inl NullDeref | Some a \<Rightarrow> running_handler a message source w) (\<lambda>w.
           Inr (None, w)))
       else if discards uuid_state then Inr (None, w)
       else and_then (resume_handler (cfg_ulid C) u w) (\<lambda>(a, w). Inr (Some a, w))))))"

definition new_request :: "UUIDv4 \<Rightarrow> world \<Rightarrow> (haddr \<times> world) res" where
  "new_request u w =
     (let (a, w) = create_handler u w;
          w = w \<lparr> w_store := map_assign u a (w_store w) \<rparr>
      in and_then (change_handler a Handler_execute w) (\<lambda>w. Inr (a, w)))"

text \<open>The message reaches the handler; a class that does not match the type arrives as null.\<close>

definition cast_message :: "Message \<Rightarrow> Message option" where
  "cast_message message =
     (case (Message_type message, message) of
        (MessageType.EAR, EAR_msg _) \<Rightarrow> Some message
      | (MessageType.MAR, MAR_msg _) \<Rightarrow> Some message
      | (MessageType.BID, BID_msg _) \<Rightarrow> Some message
      | (ACC, ACC_msg _) \<Rightarrow> Some message
      | (REF, REF_msg _) \<Rightarrow> Some message
      | (MessageType.REP, REP_msg _) \<Rightarrow> Some message
      | _ \<Rightarrow> None)"

definition hand_over :: "Message \<Rightarrow> node \<Rightarrow> handler \<Rightarrow> handler" where
  "hand_over message source h =
     (case Message_type message of
        ACC \<Rightarrow> (mark_source source (mark_accepting_node source h)) \<lparr> h_message := cast_message message \<rparr>
      | REF \<Rightarrow> h \<lparr> h_message := cast_message message \<rparr>
      | NOTYPE \<Rightarrow> h
      | Unlisted c \<Rightarrow> h
      | _ \<Rightarrow> (mark_source source h) \<lparr> h_message := cast_message message \<rparr>)"

text \<open>The condition for a known request; its last operand has the side effect on the store.\<close>

definition request_is_known :: "node_config \<Rightarrow> UUIDv4 \<Rightarrow> bool \<Rightarrow> bool \<Rightarrow> world \<Rightarrow> (bool \<times> world) res" where
  "request_is_known C u i_am_origin listener_of_message w =
     (if i_am_origin \<and> related_uuids (cfg_ulid C) u w \<noteq> [] \<or> listener_of_message then Inr (True, w)
      else Process_is_uuid_in_store (cfg_ulid C) u False w)"

definition select_handler ::
  "node_config \<Rightarrow> Message \<Rightarrow> node \<Rightarrow> bool \<Rightarrow> bool \<Rightarrow> world \<Rightarrow> (haddr option \<times> world) res" where
  "select_handler C message source i_am_origin listener_of_message w =
     (let u = Message_uuid message in
      and_then (request_is_known C u i_am_origin listener_of_message w) (\<lambda>(known, w).
        if known then
          if listener_of_message \<and> \<not> map_contains u (w_store w) then Inr (None, w)
          else
            known_request C
              (if i_am_origin then case map_of (w_translations w) u of Some v \<Rightarrow> v | None \<Rightarrow> u else u)
              message source w
        else and_then (new_request u w) (\<lambda>(a, w). Inr (Some a, w))))"

text \<open>A request for a known identifier is a duplicate and ignored.\<close>

definition dispatch :: "node_config \<Rightarrow> Message \<Rightarrow> node \<Rightarrow> world \<Rightarrow> world res" where
  "dispatch C message source w =
     (let u = Message_uuid message; i_am_origin = is_origin_of (cfg_ulid C) u w in
      and_then (classify_message C message w) (\<lambda>(listener_of_message, requesting_message).
        if related_uuids (cfg_ulid C) u w \<noteq> [] \<and> requesting_message then Inr w
        else
          and_then (select_handler C message source i_am_origin listener_of_message w) (\<lambda>(handler, w).
            case handler of
              None \<Rightarrow> Inr w
            | Some a \<Rightarrow> change_handler a (hand_over message source) w)))"

definition Process_round :: "node_config \<Rightarrow> world \<Rightarrow> world res" where
  "Process_round C w =
     (if receiving_queue_is_empty (w_dispatcher w) then Inr w
      else
        and_then (dequeue_item (w_dispatcher w)) (\<lambda>((message, source_address, type), d).
          dispatch C message (source_address, type) (w \<lparr> w_dispatcher := d \<rparr>)))"

end
