(* ===== verification/Node.thy ===== *)
theory Node
  imports Process
begin

text \<open>
  The node as a whole: the threads of the program (the process, the handlers, their timers, the
  sender, the receivers, the client interface, the refreshing of the metrics) as one step
  relation over the shared world, and the invariant every interleaving of their rounds keeps.
\<close>

section \<open>Rounds of the threads\<close>

definition run_handler :: "node_config \<Rightarrow> haddr \<Rightarrow> world \<Rightarrow> world res" where
  "run_handler C a w =
     and_then (handler_ref a w) (\<lambda>h.
     and_then (Handler_round C (h, w)) (\<lambda>(h, w). Inr (put_handler a h w)))"

definition fire_timeout :: "haddr \<Rightarrow> TimeoutType \<Rightarrow> world \<Rightarrow> world res" where
  "fire_timeout a t w =
     and_then (handler_ref a w) (\<lambda>h.
     and_then (on_timeout t (h, w \<lparr> w_timeouts := remove1 (a, t) (w_timeouts w) \<rparr>)) (\<lambda>(h, w).
       Inr (put_handler a h w)))"

definition poll_auction :: "haddr \<Rightarrow> world \<Rightarrow> world res" where
  "poll_auction a w = change_handler a (\<lambda>h. snd (AUCTTimeout_rounds 1 h)) w"

definition world_init :: world where
  "world_init =
     \<lparr> w_resources = Resources_init, w_dispatcher = \<lparr> received_messages = [], sending_messages = [] \<rparr>,
       w_translations = [], w_origins = [], w_store = [], w_handlers = Map.empty,
       w_next_handler = 0, w_timeouts = [], w_draws = 0 \<rparr>"

text \<open>What the system reports (cores, memory, clock, metrics) may differ from step to step.\<close>

inductive node_step :: "node_config \<Rightarrow> world \<Rightarrow> world \<Rightarrow> bool" for C :: node_config where
  receive: "node_step C w (w \<lparr> w_dispatcher := enqueue_item item (w_dispatcher w) \<rparr>)"
| deliver: "API_deliver_request M mark_origin u doc prio tgt own type (w_dispatcher w, w) = Inr (v, d, w')
    \<Longrightarrow> node_step C w (w' \<lparr> w_dispatcher := d \<rparr>)"
| ask_replenish: "API_replenish_request mark_origin junk u tgt own type (w_dispatcher w, w) = Inr (v, d, w')
    \<Longrightarrow> node_step C w (w' \<lparr> w_dispatcher := d \<rparr>)"
| process: "Process_round C w = Inr w' \<Longrightarrow> node_step C w w'"
| handler: "run_handler (C \<lparr> cfg_env := E \<rparr>) a w = Inr w' \<Longrightarrow> node_step C w w'"
| expire: "(a, t) \<in> set (w_timeouts w) \<Longrightarrow> fire_timeout a t w = Inr w' \<Longrightarrow> node_step C w w'"
| poll: "(a, AUCT) \<in> set (w_timeouts w) \<Longrightarrow> poll_auction a w = Inr w' \<Longrightarrow> node_step C w w'"
| send: "Sender_step (cfg_ulid C) link (w_dispatcher w) = Inr (t, d)
    \<Longrightarrow> node_step C w (w \<lparr> w_dispatcher := d \<rparr>)"
| refresh: "node_step C w (w \<lparr> w_resources := Resources_round E (w_resources w) \<rparr>)"

inductive_cases node_stepE: "node_step C w w'"

section \<open>Invariant\<close>

definition world_wf :: "world \<Rightarrow> bool" where
  "world_wf w \<longleftrightarrow>
     world_maps_wf w \<and> live_refs (\<lambda>a. w_handlers w a \<noteq> None) w
     \<and> (\<forall>a h. w_handlers w a = Some h \<longrightarrow> handler_ok a h \<and> a < w_next_handler w)"

lemma world_wf_init: "world_wf world_init"
  by (simp add: world_wf_def world_init_def world_maps_wf_def live_refs_def resources_wf_init)

lemma world_wf_handler: "world_wf w \<Longrightarrow> w_handlers w a = Some h \<Longrightarrow> handler_ok a h"
  by (simp add: world_wf_def)

lemma world_wf_dispatcher [simp]: "world_wf (w \<lparr> w_dispatcher := d \<rparr>) = world_wf w"
  by (simp add: world_wf_def world_maps_wf_def live_refs_def)

lemma handler_ref_Inr: "handler_ref a w = Inr h \<longleftrightarrow> w_handlers w a = Some h"
  by (simp add: handler_ref_def split: option.splits)

lemma world_wf_put:
  "world_wf w \<Longrightarrow> w_handlers w a = Some h \<Longrightarrow> handler_ok a h' \<Longrightarrow> world_wf (put_handler a h' w)"
  by (auto simp: world_wf_def put_handler_def world_maps_wf_def live_refs_def)

lemma world_wf_change:
  assumes "change_handler a f w = Inr w'" "world_wf w"
    and f: "\<And>h. handler_ok a h \<Longrightarrow> handler_ok a (f h)"
  shows "world_wf w'"
  using assms by (auto simp: change_handler_def handler_ref_Inr intro!: world_wf_put f world_wf_handler)

lemma world_wf_round_inv:
  "world_wf w \<Longrightarrow> w_handlers w a = Some h \<Longrightarrow> round_inv a (w_handlers w) (w_next_handler w) (h, w)"
  by (auto simp: world_wf_def round_inv_def session_inv_def handler_ok_def live_refs_def)

lemma round_inv_world_wf:
  assumes "round_inv a (w_handlers w) (w_next_handler w) (h', w')" "world_wf w" "w_handlers w a = Some h"
  shows "world_wf (put_handler a h' w')"
proof -
  have w': "w_handlers w' = w_handlers w" "w_next_handler w' = w_next_handler w" "world_maps_wf w'"
    "live_refs (\<lambda>b. b = a \<or> w_handlers w b \<noteq> None) w'" "handler_ok a h'"
    using assms(1) by (simp_all add: round_inv_def session_inv_def)
  with assms(3) have "live_refs (\<lambda>b. w_handlers w' b \<noteq> None) w'"
    by (auto simp: live_refs_def)
  with w' assms(2) have "world_wf w'"
    by (simp add: world_wf_def)
  with w' assms(3) show ?thesis
    by (intro world_wf_put [of w' a h]) simp_all
qed

lemma world_wf_run_handler:
  assumes "run_handler C a w = Inr w'" "world_wf w"
  shows "world_wf w'"
proof -
  obtain h h' w1 where h: "w_handlers w a = Some h" and r: "Handler_round C (h, w) = Inr (h', w1)"
    and w': "w' = put_handler a h' w1"
    using assms(1) by (auto simp: run_handler_def handler_ref_Inr)
  have "round_inv a (w_handlers w) (w_next_handler w) (h', w1)"
    using r world_wf_round_inv [OF assms(2) h] by (rule round_inv_round)
  then show ?thesis
    unfolding w' using assms(2) h by (rule round_inv_world_wf)
qed

lemma on_timeout_Inr:
  assumes "on_timeout t s = Inr s'" "handler_ok a (fst s)" "resources_wf (w_resources (snd s))"
  shows "handler_ok a (fst s') \<and> (\<exists>R. resources_wf R \<and> snd s' = (snd s) \<lparr> w_resources := R \<rparr>)"
proof -
  have "resources_wf R'" if "replenish_reservation p (w_resources (snd s)) = Inr R'" for p R'
    using assms(3) that by (rule wf_replenish_reservation)
  with assms show ?thesis
    by (cases t) (fastforce simp: on_ear_timeout_def on_mar_timeout_def on_bid_timeout_def on_rep_timeout_def
        on_auct_timeout_def all_bids_arrived_def notify_auction_def release_def handler_ok_def Let_def
        split: if_split_asm prod.split_asm)+
qed

lemma world_wf_fire_timeout:
  assumes "fire_timeout a t w = Inr w'" "world_wf w"
  shows "world_wf w'"
proof -
  let ?w = "w \<lparr> w_timeouts := remove1 (a, t) (w_timeouts w) \<rparr>"
  obtain h h' w1 where h: "w_handlers w a = Some h" and r: "on_timeout t (h, ?w) = Inr (h', w1)"
    and w': "w' = put_handler a h' w1"
    using assms(1) by (auto simp: fire_timeout_def handler_ref_Inr)
  have "resources_wf (w_resources ?w)"
    using assms(2) by (simp add: world_wf_def world_maps_wf_def)
  then obtain R where R: "resources_wf R" "w1 = ?w \<lparr> w_resources := R \<rparr>" and h': "handler_ok a h'"
    using on_timeout_Inr [OF r, of a] world_wf_handler [OF assms(2) h] by auto
  have "world_wf w1"
    using assms(2) R by (auto simp: world_wf_def world_maps_wf_def live_refs_def dest: notin_set_remove1)
  moreover have "w_handlers w1 a = Some h"
    using h R by simp
  ultimately show ?thesis
    unfolding w' using h' by (rule world_wf_put)
qed

lemma world_wf_store:
  assumes "world_wf w" "live_refs (\<lambda>a. w_handlers w a \<noteq> None) (w \<lparr> w_store := m \<rparr>)" "std_map_wf m"
  shows "world_wf (w \<lparr> w_store := m \<rparr>)"
  using assms by (simp add: world_wf_def world_maps_wf_def)

lemma live_refs_subset:
  "live_refs live w \<Longrightarrow> set m \<subseteq> set (w_store w) \<Longrightarrow> live_refs live (w \<lparr> w_store := m \<rparr>)"
  by (auto simp: live_refs_def)

lemma world_wf_store_live: "world_wf w \<Longrightarrow> (u, a) \<in> set (w_store w) \<Longrightarrow> \<exists>h. w_handlers w a = Some h"
  by (force simp: world_wf_def live_refs_def)

lemma world_wf_assign:
  assumes "world_wf w" "w_handlers w a \<noteq> None"
  shows "world_wf (w \<lparr> w_store := map_assign u a (w_store w) \<rparr>)"
proof (rule world_wf_store [OF assms(1)])
  show "live_refs (\<lambda>a. w_handlers w a \<noteq> None) (w \<lparr> w_store := map_assign u a (w_store w) \<rparr>)"
    unfolding map_assign_def using assms
    by (intro live_refs_insert set_map_erase) (simp_all add: world_wf_def)
  show "std_map_wf (map_assign u a (w_store w))"
    using assms(1) by (simp add: world_wf_def world_maps_wf_def)
qed

lemma world_wf_erase:
  assumes "world_wf w"
  shows "world_wf (w \<lparr> w_store := map_erase u (w_store w) \<rparr>)"
  using assms by (intro world_wf_store live_refs_subset set_map_erase)
    (simp_all add: world_wf_def world_maps_wf_def)

lemma handler_ok_setters [simp]:
  "handler_ok a (new_id u h) = handler_ok a h"
  "handler_ok a (new_bid v n h) = handler_ok a h"
  "handler_ok a h \<Longrightarrow> handler_ok a (Handler_execute h)"
  "handler_ok a (hand_over m n h) = handler_ok a h"
  "handler_ok a (Handler_new a u)"
  by (auto simp: handler_ok_def new_id_def new_bid_def Handler_execute_def hand_over_def mark_source_def
      mark_accepting_node_def Handler_new_def split: MessageType.splits)

lemma world_wf_in_store:
  assumes "Process_is_uuid_in_store L u t w = Inr (b, w')" "world_wf w"
  shows "world_wf w'"
proof -
  have "world_wf w''" if "change_handler a (new_id u) w = Inr w1" "map_at (w_store w) old = Inr a"
    "w'' = w1 \<lparr> w_store := map_erase old (map_assign u a (w_store w1)) \<rparr>" for a old w1 w''
  proof -
    have "world_wf w1"
      using that(1) assms(2) by (rule world_wf_change) simp
    moreover have "w_handlers w1 a \<noteq> None"
      using that(1) by (auto simp: change_handler_def put_handler_def)
    ultimately have "world_wf (w1 \<lparr> w_store := map_assign u a (w_store w1) \<rparr>)"
      by (rule world_wf_assign)
    from world_wf_erase [OF this, of old] that(3) show ?thesis
      by simp
  qed
  with assms show ?thesis
    by (auto simp: Process_is_uuid_in_store_def Let_def split: if_split_asm)
qed

lemma world_wf_get_handler: "get_handler L u t w = Inr (p, w') \<Longrightarrow> world_wf w \<Longrightarrow> world_wf w'"
  by (auto simp: get_handler_def split: if_split_asm elim: world_wf_in_store)

lemma world_wf_existing:
  assumes "existing_handler L u w = Inr (a, w')" "world_wf w"
  shows "world_wf w'"
proof -
  obtain p w1 where g: "get_handler L u False w = Inr (p, w1)"
    and p: "(case p of None \<Rightarrow> Inl StdException | Some a \<Rightarrow> Inr (a, w1)) = Inr (a, w')"
    using assms(1) by (auto simp: existing_handler_def)
  then show ?thesis
    using world_wf_get_handler [OF g assms(2)] by (cases p) auto
qed

lemma world_wf_resume:
  assumes "resume_handler L u w = Inr (a, w')" "world_wf w"
  shows "world_wf w'"
proof -
  obtain w1 where e: "existing_handler L u w = Inr (a, w1)" and c: "change_handler a Handler_execute w1 = Inr w'"
    using assms(1) by (auto simp: resume_handler_def)
  show ?thesis
    using c world_wf_existing [OF e assms(2)] by (rule world_wf_change) simp
qed

lemma world_wf_create:
  assumes "world_wf w"
  shows "world_wf (snd (create_handler u w))"
proof -
  let ?w = "w \<lparr> w_handlers := (w_handlers w)(w_next_handler w \<mapsto> Handler_new (w_next_handler w) u),
                w_next_handler := Suc (w_next_handler w) \<rparr>"
  have "world_wf ?w"
    using assms by (auto simp: world_wf_def world_maps_wf_def live_refs_def less_Suc_eq)
  from world_wf_assign [OF this, of "w_next_handler w" u] show ?thesis
    by (simp add: create_handler_def Let_def)
qed

lemma world_wf_new_request:
  assumes "new_request u w = Inr (a, w')" "world_wf w"
  shows "world_wf w'"
proof -
  obtain b w1 where c: "create_handler u w = (b, w1)"
    by fastforce
  then have "world_wf (w1 \<lparr> w_store := map_assign u b (w_store w1) \<rparr>)"
    using world_wf_create [OF assms(2), of u]
    by (intro world_wf_assign) (auto simp: create_handler_def Let_def)
  with assms(1) c show ?thesis
    by (auto simp: new_request_def Let_def elim!: world_wf_change)
qed

lemma world_wf_running:
  assumes "running_handler a m n w = Inr w'" "world_wf w"
  shows "world_wf w'"
proof -
  have "world_wf w'" if "change_handler a (new_bid v k) w = Inr w'" for v k
    using that assms(2) by (rule world_wf_change) simp
  with assms show ?thesis
    by (auto simp: running_handler_def split: if_split_asm Message.split_asm)
qed

lemma world_wf_known:
  assumes "known_request C u m n w = Inr (p, w')" "world_wf w"
  shows "world_wf w'"
proof -
  obtain q w1 where g: "get_handler (cfg_ulid C) u False w = Inr (q, w1)"
    using assms(1) by (auto simp: known_request_def Let_def)
  then have w1: "world_wf w1"
    using assms(2) by (rule world_wf_get_handler)
  have run: "world_wf w'" if "get_handler (cfg_ulid C) u False w1 = Inr (Some a, w2)"
    "running_handler a m n w2 = Inr w'" for a w2
    using that(2) world_wf_get_handler [OF that(1) w1] by (rule world_wf_running)
  show ?thesis
    using assms(1) g w1
    by (auto simp: known_request_def Let_def split: if_split_asm option.split_asm
        intro: run world_wf_resume)
qed

lemma world_wf_select:
  assumes "select_handler C m n og l w = Inr (p, w')" "world_wf w"
  shows "world_wf w'"
proof -
  let ?u = "Message_uuid m"
  obtain k w1 where k: "request_is_known C ?u og l w = Inr (k, w1)"
    using assms(1) by (auto simp: select_handler_def Let_def)
  with assms(2) have "world_wf w1"
    by (auto simp: request_is_known_def split: if_split_asm elim: world_wf_in_store)
  with assms(1) k show ?thesis
    by (auto simp: select_handler_def Let_def simp del: map_contains_iff split: if_split_asm
        elim: world_wf_known world_wf_new_request)
qed

lemma world_wf_dispatch: "dispatch C m n w = Inr w' \<Longrightarrow> world_wf w \<Longrightarrow> world_wf w'"
  by (auto simp: dispatch_def Let_def split: if_split_asm option.split_asm
      elim!: world_wf_change elim: world_wf_select)

lemma world_wf_process: "Process_round C w = Inr w' \<Longrightarrow> world_wf w \<Longrightarrow> world_wf w'"
  by (auto simp: Process_round_def split: if_split_asm elim: world_wf_dispatch)

lemma world_wf_mark_origin [simp]: "world_wf w \<Longrightarrow> world_wf (mark_origin u p w)"
  by (simp add: mark_origin_def world_wf_def world_maps_wf_def live_refs_def)

lemma world_wf_deliver:
  "API_deliver_request M mark_origin u doc prio tgt own type (d, w) = Inr (v, d', w') \<Longrightarrow> world_wf w \<Longrightarrow> world_wf w'"
  "API_replenish_request mark_origin junk u tgt own type (d, w) = Inr (v, d', w') \<Longrightarrow> world_wf w \<Longrightarrow> world_wf w'"
  by (auto simp: API_deliver_request_def API_replenish_request_def Let_def)

lemma world_wf_poll: "poll_auction a w = Inr w' \<Longrightarrow> world_wf w \<Longrightarrow> world_wf w'"
  unfolding poll_auction_def
  by (erule world_wf_change) (auto simp: handler_ok_def all_bids_arrived_def notify_auction_def)

lemma world_wf_refresh: "world_wf w \<Longrightarrow> world_wf (w \<lparr> w_resources := Resources_round E (w_resources w) \<rparr>)"
  by (auto simp: world_wf_def world_maps_wf_def live_refs_def wf_round)

lemma world_wf_step: "node_step C w w' \<Longrightarrow> world_wf w \<Longrightarrow> world_wf w'"
  by (induction rule: node_step.induct)
    (auto intro: world_wf_deliver world_wf_process world_wf_run_handler world_wf_fire_timeout
      world_wf_poll world_wf_refresh)

interpretation node: step_system "\<lambda>w. w = world_init" "node_step C" world_wf for C
  by unfold_locales (auto simp: world_wf_init intro: world_wf_step)

section \<open>How a session moves\<close>

named_theorems keeps_handler

lemma session_simps [simp]:
  "fst (set_resources R s) = fst s"
  "fst (start_timeout t s) = fst s"
  "h_state (fst (stop s)) = h_state (fst s)"
  "h_state (fst (set_state st s)) = st"
  "h_state (fst (set_reservation p s)) = h_state (fst s)"
  "\<not> h_running (fst (stop s))"
  "h_running (fst (set_state st s)) = h_running (fst s)"
  "h_running (fst (set_reservation p s)) = h_running (fst s)"
  "h_auction (fst (stop s)) = h_auction (fst s)"
  "h_auction (fst (set_state st s)) = h_auction (fst s)"
  "h_auction (fst (set_reservation p s)) = h_auction (fst s)"
  by (simp_all add: set_resources_def start_timeout_def stop_def set_state_def set_reservation_def
      Handler_stop_def)

lemma keeps_handler_steps [keeps_handler]:
  "send_message m t ty s = Inr s' \<Longrightarrow> fst s' = fst s"
  "change_reservation f s = Inr s' \<Longrightarrow> fst s' = fst s"
  "reply_on_connection C m s = Inr s' \<Longrightarrow> fst s' = fst s"
  "mark_reserved_here s = Inr s' \<Longrightarrow> fst s' = fst s"
  "available C p s = Inr (q, s') \<Longrightarrow> fst s' = fst s"
  by (auto simp: send_message_def change_reservation_def reply_on_connection_def mark_reserved_here_def
      available_def)

lemma fold_keeps_handler:
  "fold_res f xs s = Inr s' \<Longrightarrow> (\<And>x s s'. f x s = Inr s' \<Longrightarrow> fst s' = fst s) \<Longrightarrow> fst s' = fst s"
  using fold_res_inv [of xs "\<lambda>t. fst t = fst s" f s s'] by metis

lemma REP_towards_keeps_handler: "REP_towards C m d s = Inr s' \<Longrightarrow> fst s' = fst s"
  by (auto simp: REP_towards_def Let_def split: prod.split_asm dest: keeps_handler)

lemma EAR_forward_outcome:
  assumes "EAR_forward C m l s = Inr (c, s')"
  shows "\<not> h_running (fst s')" and "h_state (fst s') \<in> {CLOSED, PRE_RESERVED, AUCTION_WAITING}"
  using assms by (auto simp: EAR_forward_def Let_def split: if_split_asm dest!: keeps_handler)

lemma EAR_identify_closed: "EAR_identify C m l s = Inr (None, s') \<Longrightarrow> s' = stop (set_state CLOSED s)"
  by (auto simp: EAR_identify_def split: if_split_asm)

lemma EAR_branches_outcome:
  "EAR_as_listener C m s = Inr (c, s') \<Longrightarrow> \<not> h_running (fst s') \<and> h_state (fst s') \<in> {RESERVED, CLOSED}"
  "EAR_unknown_bid C m l s = Inr (c, s') \<Longrightarrow>
     \<not> h_running (fst s') \<and> h_state (fst s') \<in> {CLOSED, PRE_RESERVED, AUCTION_WAITING}"
  "EAR_known_bid C m l s = Inr (c, s') \<Longrightarrow>
     \<not> h_running (fst s') \<and> h_state (fst s') \<in> {CLOSED, PRE_RESERVED, AUCTION_WAITING}"
  subgoal by (auto simp: EAR_as_listener_def split: if_split_asm)
  subgoal by (auto simp: EAR_unknown_bid_def split: if_split_asm dest: EAR_forward_outcome)
  subgoal by (auto simp: EAR_known_bid_def dest: EAR_forward_outcome)
  done

lemma EAR_outcome:
  assumes "Handler_EAR C m s = Inr (c, s')"
  shows "\<not> h_running (fst s') \<and> h_state (fst s') \<in> {CLOSED, RESERVED, PRE_RESERVED, AUCTION_WAITING}"
proof -
  let ?s = "if h_state (fst s) \<noteq> PRE_RESERVED then set_state ASSESSING s else s"
  obtain l i s1 where i: "EAR_identify C m l ?s = Inr (i, s1)" and l: "EAR_listener m = Inr l"
    using assms by (auto simp: Handler_EAR_def Let_def)
  show ?thesis
  proof (cases i)
    case None
    with assms i l have "s' = stop (set_state CLOSED ?s)"
      by (auto simp: Handler_EAR_def Let_def dest: EAR_identify_closed)
    then show ?thesis
      by simp
  next
    case (Some b)
    then obtain s2 where
      "EAR_as_listener C m s2 = Inr (c, s') \<or> EAR_unknown_bid C m l s2 = Inr (c, s')
       \<or> EAR_known_bid C m l s2 = Inr (c, s')"
      using assms i l by (simp add: Handler_EAR_def Let_def split: if_split_asm) blast+
    then show ?thesis
      using EAR_branches_outcome by blast
  qed
qed

lemma mark_pre_reserved_state: "mark_pre_reserved_here s = Inr s' \<Longrightarrow> h_state (fst s') = h_state (fst s)"
  by (auto simp: mark_pre_reserved_here_def)

lemma MAR_bid_outcome: "MAR_bid C s = Inr (c, s') \<Longrightarrow> \<not> h_running (fst s') \<and> h_state (fst s') = PRE_RESERVED"
  by (auto simp: MAR_bid_def Let_def dest!: mark_pre_reserved_state keeps_handler)

lemma MAR_outcome:
  "Handler_MAR C m s = Inr (c, s') \<Longrightarrow> \<not> h_running (fst s') \<and> h_state (fst s') \<in> {CLOSED, PRE_RESERVED}"
  by (auto simp: Handler_MAR_def MAR_no_bid_def Let_def split: if_split_asm option.split_asm
      dest: MAR_bid_outcome)

lemma ACC_outcome:
  assumes "Handler_ACC C s = Inr (c, s')"
  shows "\<not> h_running (fst s') \<and> (h_state (fst s') = RESERVED \<or> h_state (fst s') = h_state (fst s))"
proof -
  have pass: "\<not> h_running (fst t') \<and> (h_state (fst t') = RESERVED \<or> h_state (fst t') = h_state (fst t))"
    if "ACC_pass_on C t = Inr (c, t')" for t t'
    using that by (auto simp: ACC_pass_on_def split: option.split_asm dest!: keeps_handler)
  show ?thesis
    using assms unfolding Handler_ACC_def Let_def
    by (auto split: if_split_asm dest!: pass keeps_handler simp: new_id_def)
qed

lemma REF_outcome:
  assumes "Handler_REF C s = Inr (c, s')"
  shows "\<not> h_running (fst s') \<and> (h_state (fst s') = CLOSED \<or> h_state (fst s') = h_state (fst s))"
proof -
  have pass: "\<not> h_running (fst t') \<and> (h_state (fst t') = CLOSED \<or> h_state (fst t') = h_state (fst t))"
    if "REF_pass_on C t = Inr (c, t')" for t t'
    using that by (auto simp: REF_pass_on_def split: option.split_asm dest!: keeps_handler)
  show ?thesis
    using assms unfolding Handler_REF_def Let_def
    by (auto split: if_split_asm dest!: pass simp: new_id_def)
qed

lemma REP_outcome:
  assumes "Handler_REP C m s = Inr (c, s')"
  shows "\<not> h_running (fst s') \<and> h_state (fst s') \<in> {CLOSED, REPLENISHING}"
  using assms unfolding Handler_REP_def Let_def
  by (auto split: if_split_asm dest!: keeps_handler fold_keeps_handler [OF _ REP_towards_keeps_handler])

text \<open>The states a message of each type may leave a session in.\<close>

fun leads_to :: "MessageType \<Rightarrow> HandlerState \<Rightarrow> HandlerState \<Rightarrow> bool" where
  "leads_to MessageType.EAR st st' = (st' \<in> {CLOSED, RESERVED, PRE_RESERVED, AUCTION_WAITING})"
| "leads_to MessageType.MAR st st' = (st' \<in> {CLOSED, PRE_RESERVED})"
| "leads_to MessageType.BID st st' = (if st = AUCTION_WAITING then st' = AUCTION_WAITING else st' = CLOSED)"
| "leads_to ACC st st' = (st' = RESERVED \<or> st' = st)"
| "leads_to REF st st' = (st' = CLOSED \<or> st' = st)"
| "leads_to MessageType.REP st st' = (st' \<in> {CLOSED, REPLENISHING})"
| "leads_to NOTYPE st st' = (st' = st)"
| "leads_to (Unlisted c) st st' = (st' = st)"

definition known_type :: "Message \<Rightarrow> bool" where
  "known_type m = (case Message_type m of NOTYPE \<Rightarrow> False | Unlisted c \<Rightarrow> False | _ \<Rightarrow> True)"

lemma switch_outcome:
  assumes "Handler_switch C m s = Inr (c, s')"
  shows "leads_to (Message_type m) (h_state (fst s)) (h_state (fst s'))
         \<and> (known_type m \<longrightarrow> (h_running (fst s') \<longleftrightarrow>
              h_running (fst s) \<and> Message_type m = MessageType.BID \<and> h_state (fst s) = AUCTION_WAITING))"
proof (cases "Message_type m")
  case EAR
  with assms show ?thesis
    by (auto simp: Handler_switch_def split: Message.split_asm dest: EAR_outcome)
next
  case MAR
  with assms show ?thesis
    by (auto simp: Handler_switch_def split: Message.split_asm dest: MAR_outcome)
next
  case BID
  with assms show ?thesis
    by (auto simp: Handler_switch_def Handler_BID_def new_bid_def Let_def
        split: Message.split_asm if_split_asm)
next
  case REP
  with assms show ?thesis
    by (auto simp: Handler_switch_def split: Message.split_asm dest: REP_outcome)
qed (use assms in \<open>auto simp: Handler_switch_def known_type_def dest: ACC_outcome REF_outcome\<close>)

lemma finish_simps [simp]:
  "h_state (fst (finish (c, s))) = h_state (fst s)"
  "h_running (fst (finish (c, s))) = h_running (fst s)"
  "snd (finish (c, s)) = snd s"
  by (cases c; simp add: finish_def)+

lemma preamble_state: "Handler_preamble C s = Inr s' \<Longrightarrow> h_state (fst s') = h_state (fst s)"
  by (auto simp: Handler_preamble_def Let_def split: if_split_asm)

end
