(* ===== verification/Sessions.thy ===== *)
theory Sessions
  imports Node
begin

text \<open>
  The protocol of a session: what handling a message does to the handler, the pool of
  reservations and the sending queue, on the branches of \<open>Handler::operator()\<close> and of
  \<open>Process::operator()\<close>, and what the timers do.
\<close>

section \<open>The state machine\<close>

text \<open>
  C9. The state machine of a session: handling a message of a given type takes the state of the
  handler to one of the states the type allows (an EAR ends closed,
  reserved, pre-reserved or waiting for bids, and so on), and the thread has stopped
  afterwards, except for the bid that opens the wait of an auction.
\<close>
theorem handler_transitions:
  assumes "Handler_round C (h, w) = Inr (h', w')"
    and "h_running h" "h_auction h = NotWaiting" "h_message h = Some m" "known_type m"
  shows "leads_to (Message_type m) (h_state h) (h_state h')
    \<and> (h_running h' \<longleftrightarrow> Message_type m = MessageType.BID \<and> h_state h = AUCTION_WAITING)"
proof -
  obtain s c t where s: "Handler_preamble C (h, w) = Inr s" "Handler_switch C m s = Inr (c, t)"
    and t: "(h', w') = finish (c, t)"
    using assms by (auto simp: Handler_round_def)
  then have "h_state (fst s) = h_state h" "h_running (fst s)"
    using assms(2) preamble_state [OF s(1)] preamble_running [OF s(1)] by simp_all
  moreover have "h_state h' = h_state (fst t)" "h_running h' = h_running (fst t)"
    using t by (metis finish_simps(1) fst_conv, metis finish_simps(2) fst_conv)
  ultimately show ?thesis
    using switch_outcome [OF s(2)] assms(5) by simp
qed

section \<open>A request that arrives for the first time\<close>

definition timestamp_free :: "ulid_lib \<Rightarrow> UUIDv4 \<Rightarrow> resources \<Rightarrow> bool" where
  "timestamp_free L u R =
     list_all (\<lambda>a. case heap R a of None \<Rightarrow> False | Some r \<Rightarrow> \<not> is_same_timestamp L (rsv_uuid r) u)
       (reservations R)"

lemma find_by_timestamp_free:
  "list_all (\<lambda>a. case heap R a of None \<Rightarrow> False | Some r \<Rightarrow> \<not> is_same_timestamp L (rsv_uuid r) u) as
   \<Longrightarrow> find_by_timestamp L u as R = Inr None"
  by (induction as) (auto split: option.splits)

lemma preamble_fresh:
  "timestamp_free (cfg_ulid C) (h_uuid h) (w_resources w)
   \<Longrightarrow> Handler_preamble C (h, w) = Inr (h \<lparr> h_reservation := None \<rparr>, w)"
  by (simp add: Handler_preamble_def get_reservation_for_def timestamp_free_def find_by_timestamp_free
      set_reservation_def set_resources_def)

lemma timestamp_free_uuid: "timestamp_free L u R \<Longrightarrow> uuid_free R u (reservations R)"
  by (fastforce simp: timestamp_free_def uuid_free_def list_all_iff split: option.splits)

text \<open>The reservation a simulated request gives rise to.\<close>

definition produced :: "requesting_capabilities \<Rightarrow> byte \<Rightarrow> byte \<Rightarrow> UUIDv4 \<Rightarrow> reservation" where
  "produced caps prio b u =
     (Reservation_new caps prio) \<lparr> rsv_listener := b # replicate 15 0, rsv_uuid := u \<rparr>"

definition with_produced :: "reservation \<Rightarrow> world \<Rightarrow> world" where
  "with_produced r w = w \<lparr> w_resources := snd (new_reservation r (w_resources w)) \<rparr>"

lemma produced_simps [simp]:
  "rsv_uuid (produced c p b u) = u" "rsv_state (produced c p b u) = ReservationState.CREATED"
  "rsv_capabilities (produced c p b u) = c" "rsv_priority (produced c p b u) = p"
  "rsv_listener (produced c p b u) = b # replicate 15 0" "rsv_listener_length (produced c p b u) = 0"
  "reservation_ok (produced c p b u)"
  by (simp_all add: produced_def Reservation_new_def reservation_ok_def)

lemma new_reservation_simps [simp]:
  "fst (new_reservation r R) = next_addr R"
  "heap (snd (new_reservation r R)) = (heap R)(next_addr R \<mapsto> r)"
  "reservations (snd (new_reservation r R)) = reservations R"
  "next_addr (snd (new_reservation r R)) = Suc (next_addr R)"
  "store_at (next_addr R) r' (snd (new_reservation r R)) = snd (new_reservation r' R)"
  by (simp_all add: new_reservation_def store_at_def)

lemma EAR_produced:
  assumes "req_listener_length m = LT_CODE_0" "req_listener m \<noteq> []"
    and "EAR_requirements (cfg_marshal C) m = Inr caps" "h_state h \<noteq> PRE_RESERVED"
  shows "Handler_EAR C m (h, w) =
     (let b = hd (req_listener m);
          s = (h \<lparr> h_state := ASSESSING, h_reservation := Some (next_addr (w_resources w)) \<rparr>,
               with_produced (produced caps (req_priority m) b (h_uuid h)) w)
      in if cfg_simulated_is_me C b then EAR_as_listener C m s
         else and_then (is_bid_in_store (hdr_uuid (req_header m)) s) (\<lambda>known.
                if \<not> known then EAR_unknown_bid C m [b] s else EAR_known_bid C m [b] s))"
proof -
  have l: "EAR_listener m = Inr [hd (req_listener m)]"
    using assms(1,2) by (cases "req_listener m") (simp_all add: EAR_listener_def)
  have "rsv_listener (Reservation_new caps p) = replicate 16 0" for p
    by (simp add: Reservation_new_def)
  then have "mark_listener [b] 1 (Reservation_new caps p) = Inr ((Reservation_new caps p) \<lparr> rsv_listener := b # replicate 15 0 \<rparr>)" for b p
    by (simp add: mark_listener_def eval_nat_numeral)
  then show ?thesis
    using assms l
    by (simp add: Handler_EAR_def EAR_identify_def EAR_produce_def produce_reservation_def Let_def
        split_def set_state_def set_reservation_def set_resources_def change_reservation_def
        reservation_of_def with_produced_def produced_def set_uuid_def)
qed

lemma produced_available:
  assumes "resources_wf R" "env_ok E" "items_typed (cap_ordered_items caps)"
    and "uuid_free R u (reservations R)"
    and r_def: "r = produced caps prio b u" and p_def: "p = next_addr R"
  shows "if admissible E (cap_ordered_items caps) prio
     then (\<exists>bid R'. 0 < bid
       \<and> available_for_performance E (Some p) prio (snd (new_reservation r R)) = Inr (Some (Suc p), R')
       \<and> reservations R' = reservations R @ [Suc p] \<and> uuid_free R' u (reservations R)
       \<and> heap R' p = Some (update_last_bid bid r) \<and> heap R' (Suc p) = Some (update_last_bid bid r)
       \<and> (\<forall>c. c \<noteq> p \<and> c \<noteq> Suc p \<longrightarrow> heap R' c = heap R c))
     else (\<exists>R'. available_for_performance E (Some p) prio (snd (new_reservation r R)) = Inr (None, R')
       \<and> reservations R' = reservations R)"
proof -
  let ?R = "snd (new_reservation r R)"
  have wf: "resources_wf ?R" "heap ?R p = Some r" and prio: "set_priority prio r = r"
    using assms(1) by (simp_all add: wf_new r_def p_def)
      (simp add: set_priority_def produced_def Reservation_new_def)
  have caps: "rsv_capabilities r = caps"
    by (simp add: r_def)
  note effect = available_effect [OF wf assms(2), of prio, unfolded caps prio, OF assms(3)]
  have fresh: "c \<noteq> p" "c \<noteq> Suc p" if "c \<in> set (reservations R)" for c
    using that assms(1) by (auto simp: resources_wf_def p_def)
  show ?thesis
  proof (cases "admissible E (cap_ordered_items caps) prio")
    case True
    with effect obtain bid ms where bid: "0 < bid"
      and av: "available_for_performance E (Some p) prio ?R = Inr (Some (next_addr ?R),
        snd (push_back (update_last_bid bid r) ((store_at p (update_last_bid bid r) ?R) \<lparr> proximity_metrics := ms \<rparr>)))"
      by auto
    define R' where "R' = snd (push_back (update_last_bid bid r)
      ((store_at p (update_last_bid bid r) ?R) \<lparr> proximity_metrics := ms \<rparr>))"
    have copy: "Reservation_copy (update_last_bid bid r) = update_last_bid bid r"
      by (simp add: Reservation_copy_def update_last_bid_def r_def produced_def Reservation_new_def)
    have R': "reservations R' = reservations R @ [Suc p]" "heap R' p = Some (update_last_bid bid r)"
      "heap R' (Suc p) = Some (update_last_bid bid r)" "\<And>c. c \<noteq> p \<Longrightarrow> c \<noteq> Suc p \<Longrightarrow> heap R' c = heap R c"
      by (simp_all add: R'_def push_back_simps copy) (simp_all add: p_def)
    moreover have "uuid_free R' u (reservations R)"
      using assms(4) uuid_free_cong [of "reservations R" R' R u] R'(4) fresh by auto
    moreover have "available_for_performance E (Some p) prio ?R = Inr (Some (Suc p), R')"
      using av unfolding R'_def by (simp add: p_def)
    ultimately show ?thesis
      using True bid by auto
  next
    case False
    with effect show ?thesis
      by auto
  qed
qed

text \<open>The first round of a session on a request for processor cores that reaches it intact.\<close>

definition first_request :: "node_config \<Rightarrow> handler \<Rightarrow> world \<Rightarrow> request \<Rightarrow> requesting_capabilities \<Rightarrow> bool" where
  "first_request C h w m caps \<longleftrightarrow>
     h_running h \<and> h_auction h = NotWaiting \<and> h_state h = READY \<and> h_message h = Some (EAR_msg m)
     \<and> hdr_type (req_header m) = MessageType.EAR \<and> hdr_uuid (req_header m) = h_uuid h
     \<and> req_listener_length m = LT_CODE_0 \<and> req_listener m \<noteq> []
     \<and> EAR_requirements (cfg_marshal C) m = Inr caps
     \<and> resources_wf (w_resources w) \<and> timestamp_free (cfg_ulid C) (h_uuid h) (w_resources w)
     \<and> env_ok (cfg_env C) \<and> items_typed (cap_ordered_items caps)"

lemma first_request_round:
  assumes "first_request C h w m caps"
  shows "Handler_round C (h, w) =
    and_then (Handler_EAR C m (h \<lparr> h_reservation := None \<rparr>, w)) (\<lambda>r. Inr (finish r))"
  using assms preamble_fresh [of C h w]
  by (simp add: first_request_def Handler_round_def Handler_switch_def Message_type_def)

lemma reply_on_connection_eq:
  assumes "fst (h_source (fst s)) = src # rest" "connections_to_target C src = c # cs" "fst c \<noteq> []"
  shows "reply_on_connection C m s = Inr (fst s, (snd s) \<lparr> w_dispatcher := (w_dispatcher (snd s))
     \<lparr> sending_messages := sending_messages (w_dispatcher (snd s)) @ [(m, fst c, snd (h_source (fst s)))] \<rparr> \<rparr>)"
  using assms by (cases c) (simp add: reply_on_connection_def front_def send_message_def Dispatcher_send_message_def)

lemma min_depth_filter_locator: "c \<in> set (min_depth_filter k cs) \<Longrightarrow> fst c \<noteq> []"
  by (induction k cs rule: min_depth_filter.induct) (auto simp: Let_def split: if_split_asm)

lemma connection_locator: "connections_to_target C src = c # cs \<Longrightarrow> fst c \<noteq> []"
  by (rule min_depth_filter_locator [of c 255 "get_connections_to C src"])
    (simp add: connections_to_target_def)

text \<open>
  C5. A request reaches its listener.  When the listener can perform it, one round of the fresh
  session reserves it: the pool gains exactly one reservation, in the state \<open>RESERVED\<close>, with the
  identifier, the requirements and the priority of the request and a positive bid; the
  acceptance is queued to the first connection to the source; the session is
  reserved and its thread stopped.
\<close>
theorem listener_accepts:
  assumes "first_request C h w m caps" "cfg_simulated_is_me C (hd (req_listener m))"
    and "admissible (cfg_env C) (cap_ordered_items caps) (req_priority m)"
    and "fst (h_source h) = src # rest" "connections_to_target C src = c # cs"
  shows "\<exists>h' w' a bid. Handler_round C (h, w) = Inr (h', w')
    \<and> h_state h' = RESERVED \<and> \<not> h_running h' \<and> h_message h' = None \<and> h_reservation h' = Some a
    \<and> a \<notin> set (reservations (w_resources w))
    \<and> reservations (w_resources w') = reservations (w_resources w) @ [a]
    \<and> heap (w_resources w') a = Some ((produced caps (req_priority m) (hd (req_listener m)) (h_uuid h))
        \<lparr> rsv_state := ReservationState.RESERVED, rsv_estimated_bid := bid \<rparr>) \<and> 0 < bid
    \<and> (\<forall>x \<in> set (reservations (w_resources w)). heap (w_resources w') x = heap (w_resources w) x)
    \<and> sending_messages (w_dispatcher w')
        = sending_messages (w_dispatcher w) @ [(ACC_new (h_uuid h), fst c, snd (h_source h))]
    \<and> w_store w' = w_store w \<and> w_timeouts w' = w_timeouts w"
proof -
  let ?R = "w_resources w" and ?p = "next_addr (w_resources w)"
  define r where "r = produced caps (req_priority m) (hd (req_listener m)) (h_uuid h)"
  have wf: "resources_wf ?R" and free: "uuid_free ?R (h_uuid h) (reservations ?R)"
    using assms(1) timestamp_free_uuid by (auto simp: first_request_def)
  obtain bid R' where bid: "0 < bid"
    and av: "available_for_performance (cfg_env C) (Some ?p) (req_priority m) (snd (new_reservation r ?R)) = Inr (Some (Suc ?p), R')"
    and R': "reservations R' = reservations ?R @ [Suc ?p]" "uuid_free R' (h_uuid h) (reservations ?R)"
      "heap R' (Suc ?p) = Some (update_last_bid bid r)" "\<And>c. c \<noteq> ?p \<Longrightarrow> c \<noteq> Suc ?p \<Longrightarrow> heap R' c = heap ?R c"
    using produced_available [OF wf _ _ free r_def refl, of "cfg_env C"] assms(1,3)
    by (auto simp: first_request_def)
  have r: "rsv_uuid (update_last_bid bid r) = h_uuid h" "rsv_state (update_last_bid bid r) = ReservationState.CREATED"
    by (simp_all add: r_def update_last_bid_def)
  have fresh: "?p \<notin> set (reservations ?R)" "Suc ?p \<notin> set (reservations ?R)"
    using wf by (auto simp: resources_wf_def)
  have keep: "heap R' x = heap ?R x" if "x \<in> set (reservations ?R)" for x
    using that fresh R'(4) by metis
  have mark: "mark_reservation (Some (Suc ?p)) R'
      = Inr (store_at (Suc ?p) ((update_last_bid bid r) \<lparr> rsv_state := ReservationState.RESERVED \<rparr>) R')"
    using R' r by (intro mark_reservation_last) simp_all
  have loc: "fst c \<noteq> []"
    using assms(5) by (rule connection_locator)
  have "Handler_EAR C m (h \<lparr> h_reservation := None \<rparr>, w) = EAR_as_listener C m
      (h \<lparr> h_state := ASSESSING, h_reservation := Some ?p \<rparr>, with_produced r w)"
    using EAR_produced [of m C caps "h \<lparr> h_reservation := None \<rparr>" w] assms(1,2)
    by (simp add: first_request_def r_def)
  moreover have "\<dots> = Inr (Break, stop (set_state RESERVED
      (h \<lparr> h_state := ASSESSING, h_reservation := Some (Suc ?p) \<rparr>,
       w \<lparr> w_resources := store_at (Suc ?p) ((update_last_bid bid r) \<lparr> rsv_state := ReservationState.RESERVED \<rparr>) R',
           w_dispatcher := (w_dispatcher w) \<lparr> sending_messages := sending_messages (w_dispatcher w)
             @ [(ACC_new (h_uuid h), fst c, snd (h_source h))] \<rparr> \<rparr>)))"
    using av mark loc reply_on_connection_eq [OF _ assms(5)] assms(4)
    by (simp add: EAR_as_listener_def available_def with_produced_def mark_reserved_here_def
        set_reservation_def set_resources_def)
  ultimately show ?thesis
    using first_request_round [OF assms(1)] R' bid fresh keep
    by (auto simp: finish_def stop_def set_state_def Handler_stop_def r_def update_last_bid_def
        intro!: exI [of _ bid])
qed

text \<open>
  A small network for the examples: node 3 among the neighbours 1 (port 0), 2 (port 1) and 4
  (port 2).  Node 9 is reached over two ports at the same depth, node 8 over one, nobody else
  is known.
\<close>

definition sample_config :: node_config where
  "sample_config = \<lparr> cfg_ulid = ulid_spec, cfg_EncodeTime = (\<lambda>t n. push_bit 80 (ucast t) OR take_bit 80 (word_of_nat (Suc n))),
     cfg_marshal = sample_marshal, cfg_env = sample_environment,
     cfg_connections = (\<lambda>t. if t = 1 then [(1, 0), (3, 2)] else if t = 2 then [(1, 1)] else if t = 4 then [(1, 2)]
       else if t = 8 then [(2, 1)] else if t = 9 then [(2, 1), (2, 2), (4, 0)] else []),
     cfg_simulated_is_me = (\<lambda>t. t = 3), cfg_is_me = (\<lambda>_. False), cfg_topology = [(1, 0), (2, 1), (4, 2)],
     cfg_to_float = (\<lambda>_. 0x3D000000), cfg_stack_word = 0, cfg_stack_byte = 0 \<rparr>"

definition sample_EAR :: "byte \<Rightarrow> request" where
  "sample_EAR b = \<lparr> req_header = Header RANK_HEADER_VERSION MessageType.EAR 77, req_priority = 5,
     req_listener_length = LT_CODE_0, req_reserved = 0, req_listener = b # replicate 15 0,
     req_payload_length = word_of_nat (length sample_payload), req_payload = sample_payload \<rparr>"

definition sample_handler :: "byte \<Rightarrow> handler" where
  "sample_handler b = hand_over (EAR_msg (sample_EAR b)) ([1], Simulation) (Handler_execute (Handler_new 0 77))"

lemma sample_requirements: "EAR_requirements sample_marshal (sample_EAR b) = Inr (cpu_requirements [4])"
  using unmarshal_cpu_document [of "[4]" sample_marshal] sample_marshal_ok
  by (simp add: EAR_requirements_def sample_EAR_def)

lemma sample_first_request:
  "first_request sample_config (sample_handler b) world_init (sample_EAR b) (cpu_requirements [4])"
  using sample_requirements [of b] sample_typed sample_env_ok resources_wf_init
  by (simp add: first_request_def sample_config_def sample_handler_def hand_over_def cast_message_def
      Message_type_def mark_source_def Handler_execute_def Handler_new_def sample_EAR_def Header_def
      world_init_def timestamp_free_def Resources_init_def)

lemma sample_config_simps [simp]:
  "cfg_env sample_config = sample_environment"
  "cfg_simulated_is_me sample_config b = (b = 3)"
  "connections_to_target sample_config 1 = [([0], Simulation)]"
  "connections_to_target sample_config 8 = [([1], Simulation)]"
  "connections_to_target sample_config 9 = [([1], Simulation), ([2], Simulation)]"
  "connections_to_target sample_config 7 = []"
  by (simp_all add: sample_config_def connections_to_target_def get_connections_to_def)

lemma sample_handler_simps [simp]:
  "h_source (sample_handler b) = ([1], Simulation)" "h_uuid (sample_handler b) = 77"
  "req_listener (sample_EAR b) = b # replicate 15 0" "req_priority (sample_EAR b) = 5"
  by (simp_all add: sample_handler_def hand_over_def Message_type_def mark_source_def sample_EAR_def
      Header_def Handler_execute_def Handler_new_def)

theorem listener_accepts_witness:
  "\<exists>h' w' a. Handler_round sample_config (sample_handler 3, world_init) = Inr (h', w')
     \<and> h_state h' = RESERVED \<and> reservations (w_resources w') = [a]
     \<and> sending_messages (w_dispatcher w') = [(ACC_new 77, [0], Simulation)]"
  using listener_accepts [OF sample_first_request [of 3]] sample_admissible
  by (fastforce simp: world_init_def Resources_init_def)

lemma own_session_no_bid:
  assumes "map_of (w_store w) u = Some (h_this h)" "h_state h = ASSESSING"
  shows "is_bid_in_store u (h, w) = Inr False"
  using assms by (auto simp: is_bid_in_store_def is_uuid_in_store_def map_at_def handler_at_def)

lemma first_request_EAR:
  assumes "first_request C h w m caps" "map_of (w_store w) (h_uuid h) = Some (h_this h)"
  shows "Handler_EAR C m (h \<lparr> h_reservation := None \<rparr>, w) =
    (let s = (h \<lparr> h_state := ASSESSING, h_reservation := Some (next_addr (w_resources w)) \<rparr>,
              with_produced (produced caps (req_priority m) (hd (req_listener m)) (h_uuid h)) w)
     in if cfg_simulated_is_me C (hd (req_listener m)) then EAR_as_listener C m s
        else EAR_unknown_bid C m [hd (req_listener m)] s)"
  using EAR_produced [of m C caps "h \<lparr> h_reservation := None \<rparr>" w] assms
  by (simp add: first_request_def Let_def own_session_no_bid with_produced_def)

text \<open>
  C25. A request the node cannot perform is refused, at the listener and on the way: the refusal is
  queued to the first connection to the source, the session is closed, and the
  pool is as it was: the list is the same, and every reservation in it, like every other one
  there is, keeps its contents; only the address where the request's own reservation was made is
  written, and that address is not in the list.  The store, the timers, the translations and the
  origins are untouched.
\<close>
theorem inadmissible_refused:
  assumes "first_request C h w m caps" "map_of (w_store w) (h_uuid h) = Some (h_this h)"
    and "\<not> admissible (cfg_env C) (cap_ordered_items caps) (req_priority m)"
    and "fst (h_source h) = src # rest" "connections_to_target C src = c # cs"
  shows "\<exists>h' w'. Handler_round C (h, w) = Inr (h', w') \<and> h_state h' = CLOSED \<and> \<not> h_running h'
    \<and> reservations (w_resources w') = reservations (w_resources w)
    \<and> next_addr (w_resources w) \<notin> set (reservations (w_resources w))
    \<and> (\<forall>x. x \<noteq> next_addr (w_resources w) \<longrightarrow> heap (w_resources w') x = heap (w_resources w) x)
    \<and> sending_messages (w_dispatcher w')
        = sending_messages (w_dispatcher w) @ [(REF_new (h_uuid h), fst c, snd (h_source h))]
    \<and> w_store w' = w_store w \<and> w_timeouts w' = w_timeouts w
    \<and> w_translations w' = w_translations w \<and> w_origins w' = w_origins w"
proof -
  let ?R = "w_resources w" and ?p = "next_addr (w_resources w)"
  define r where "r = produced caps (req_priority m) (hd (req_listener m)) (h_uuid h)"
  have wf: "resources_wf ?R" "uuid_free ?R (h_uuid h) (reservations ?R)"
    using assms(1) timestamp_free_uuid by (auto simp: first_request_def)
  then obtain R' where av: "available_for_performance (cfg_env C) (Some ?p) (req_priority m)
      (snd (new_reservation r ?R)) = Inr (None, R')" and "reservations R' = reservations ?R"
    using produced_available [of ?R "cfg_env C" caps "h_uuid h" r "req_priority m" "hd (req_listener m)"]
      assms(1,3) by (auto simp: first_request_def r_def)
  moreover have "heap R' x = heap ?R x" if "x \<noteq> ?p" for x
    using available_refused_frame [OF av that] that by simp
  ultimately show ?thesis
    using first_request_round [OF assms(1)] first_request_EAR [OF assms(1,2)] assms(4) wf_fresh [OF wf(1)]
      reply_on_connection_eq [OF _ assms(5) connection_locator [OF assms(5)]]
    by (simp add: EAR_as_listener_def EAR_unknown_bid_def available_def with_produced_def r_def [symmetric]
        set_reservation_def set_resources_def stop_def set_state_def Handler_stop_def finish_def Let_def)
qed

definition sample_world :: world where
  "sample_world = snd (create_handler 77 world_init)"

lemma sample_world_simps [simp]:
  "w_resources sample_world = Resources_init" "map_of (w_store sample_world) 77 = Some 0"
  "w_dispatcher sample_world = \<lparr> received_messages = [], sending_messages = [] \<rparr>"
  "w_timeouts sample_world = []" "h_this (sample_handler b) = 0"
  by (simp_all add: sample_world_def create_handler_def world_init_def Let_def map_assign_def map_erase_def
      sample_handler_def hand_over_def Message_type_def mark_source_def Handler_execute_def Handler_new_def
      sample_EAR_def Header_def)

lemma first_request_cong:
  "w_resources w' = w_resources w \<Longrightarrow> first_request C h w' m caps = first_request C h w m caps"
  by (simp add: first_request_def)

definition busy_config :: node_config where
  "busy_config = sample_config \<lparr> cfg_env := sample_environment \<lparr> env_cpu_cores := 2 \<rparr> \<rparr>"

lemma busy_first_request:
  "first_request busy_config (sample_handler b) sample_world (sample_EAR b) (cpu_requirements [4])"
  "\<not> admissible (cfg_env busy_config) (cap_ordered_items (cpu_requirements [4])) 5"
  using sample_first_request [of b]
  by (simp_all add: busy_config_def first_request_def world_init_def env_ok_def sample_environment_def
      sample_config_def cpu_requirements_items admissible_def item_fits_def bare_metal_cpu_cores_def)

theorem inadmissible_refused_witness:
  "\<exists>h' w'. Handler_round busy_config (sample_handler 8, sample_world) = Inr (h', w')
     \<and> h_state h' = CLOSED \<and> reservations (w_resources w') = []
     \<and> sending_messages (w_dispatcher w') = [(REF_new 77, [0], Simulation)]"
proof -
  have "connections_to_target busy_config 1 = connections_to_target sample_config 1"
    by (simp add: busy_config_def connections_to_target_def get_connections_to_def)
  then show ?thesis
    using inadmissible_refused [OF busy_first_request(1) [of 8] _ _ _, of 1 "[]" "([0], Simulation)" "[]"]
      busy_first_request(2)
    by (auto simp: Resources_init_def)
qed

section \<open>On the way to the listener\<close>

text \<open>The forwarded request.\<close>

definition forwarded_by :: "(UUIDv4 \<Rightarrow> byte \<Rightarrow> byte \<Rightarrow> byte list \<Rightarrow> uint16 \<Rightarrow> byte list \<Rightarrow> Message)
    \<Rightarrow> UUIDv4 \<Rightarrow> byte \<Rightarrow> byte \<Rightarrow> byte list \<Rightarrow> Message" where
  "forwarded_by mk u prio b payload =
     mk u prio 0 (b # replicate 15 0) (word_of_nat (length payload)) payload"

lemma transit_pre_reserves:
  assumes "first_request C h w m caps" "map_of (w_store w) (h_uuid h) = Some (h_this h)"
    and "\<not> cfg_simulated_is_me C (hd (req_listener m))"
    and "admissible (cfg_env C) (cap_ordered_items caps) (req_priority m)"
  obtains bid a R where "0 < bid" "a \<notin> set (reservations (w_resources w))"
    "reservations R = reservations (w_resources w) @ [a]"
    "heap R a = Some ((produced caps (req_priority m) (hd (req_listener m)) (h_uuid h))
        \<lparr> rsv_state := ReservationState.PRE_RESERVED, rsv_estimated_bid := bid \<rparr>)"
    "\<And>x. x \<in> set (reservations (w_resources w)) \<Longrightarrow> heap R x = heap (w_resources w) x"
    "Handler_EAR C m (h \<lparr> h_reservation := None \<rparr>, w) = EAR_forward C m [hd (req_listener m)]
       (h \<lparr> h_state := ASSESSING, h_reservation := Some a \<rparr>, w \<lparr> w_resources := R \<rparr>)"
proof -
  let ?R = "w_resources w" and ?p = "next_addr (w_resources w)"
  define r where "r = produced caps (req_priority m) (hd (req_listener m)) (h_uuid h)"
  have wf: "resources_wf ?R" and free: "uuid_free ?R (h_uuid h) (reservations ?R)"
    using assms(1) timestamp_free_uuid by (auto simp: first_request_def)
  obtain bid R' where bid: "0 < bid"
    and av: "available_for_performance (cfg_env C) (Some ?p) (req_priority m) (snd (new_reservation r ?R)) = Inr (Some (Suc ?p), R')"
    and R': "reservations R' = reservations ?R @ [Suc ?p]" "uuid_free R' (h_uuid h) (reservations ?R)"
      "heap R' ?p = Some (update_last_bid bid r)" "heap R' (Suc ?p) = Some (update_last_bid bid r)"
      "\<And>c. c \<noteq> ?p \<Longrightarrow> c \<noteq> Suc ?p \<Longrightarrow> heap R' c = heap ?R c"
    using produced_available [OF wf _ _ free r_def refl, of "cfg_env C"] assms(1,4)
    by (auto simp: first_request_def)
  have r: "rsv_uuid (update_last_bid bid r) = h_uuid h" "rsv_state (update_last_bid bid r) = ReservationState.CREATED"
    by (simp_all add: r_def update_last_bid_def)
  have fresh: "?p \<notin> set (reservations ?R)" "Suc ?p \<notin> set (reservations ?R)"
    using wf by (auto simp: resources_wf_def)
  have keep: "heap R' x = heap ?R x" if "x \<in> set (reservations ?R)" for x
    using that fresh R'(5) by metis
  define s where "s = (update_last_bid bid r) \<lparr> rsv_state := ReservationState.PRE_RESERVED \<rparr>"
  have mark: "mark_pre_reservation (Some ?p) R' = Inr (Some (Suc ?p), store_at (Suc ?p) s R')"
    unfolding s_def using R' r mark_pre_last [of R' "reservations ?R" "Suc ?p" "update_last_bid bid r" ?p
      "update_last_bid bid r"] by simp
  have "Handler_EAR C m (h \<lparr> h_reservation := None \<rparr>, w) = EAR_forward C m [hd (req_listener m)]
       (h \<lparr> h_state := ASSESSING, h_reservation := Some (Suc ?p) \<rparr>, w \<lparr> w_resources := store_at (Suc ?p) s R' \<rparr>)"
    using first_request_EAR [OF assms(1,2)] assms(3) av mark
    by (simp add: Let_def EAR_unknown_bid_def available_def with_produced_def mark_pre_reserved_here_def
        set_reservation_def set_resources_def r_def [symmetric])
  then show thesis
    by (intro that [of bid "Suc ?p" "store_at (Suc ?p) s R'"])
      (use bid fresh R' keep in \<open>auto simp: s_def r_def update_last_bid_def\<close>)
qed

text \<open>Sending one request per connection.\<close>

lemma forward_EAR_eq:
  assumes "heap (w_resources (snd s)) a = Some r" "h_reservation (fst s) = Some a" "fst c \<noteq> []"
    and "payload_of (cfg_marshal C) (rsv_capabilities r) = Inr pl"
    and "rsv_listener r = b # bs" "rsv_listener_length r = 0"
  shows "forward_EAR C c s = Inr (fst s, (snd s) \<lparr> w_dispatcher := (w_dispatcher (snd s))
     \<lparr> sending_messages := sending_messages (w_dispatcher (snd s))
        @ [(forwarded_by EAR_new (h_uuid (fst s)) (rsv_priority r) b pl, fst c, snd c)] \<rparr> \<rparr>)"
  using assms by (simp add: forward_EAR_def reservation_of_def forwarded_listener_def EAR_of_requirements_def
      send_message_def Dispatcher_send_message_def forwarded_by_def)

lemma forward_MAR_eq:
  assumes "heap (w_resources (snd s)) a = Some r" "h_reservation (fst s) = Some a" "fst c \<noteq> []"
    and "payload_of (cfg_marshal C) (rsv_capabilities r) = Inr pl"
    and "rsv_listener r = b # bs" "rsv_listener_length r = 0"
  shows "forward_MAR C c s = Inr (fst s, (snd s) \<lparr> w_dispatcher := (w_dispatcher (snd s))
     \<lparr> sending_messages := sending_messages (w_dispatcher (snd s))
        @ [(forwarded_by MAR_new (h_uuid (fst s)) (rsv_priority r) b pl, fst c, snd c)] \<rparr> \<rparr>)"
  using assms by (simp add: forward_MAR_def reservation_of_def forwarded_listener_def MAR_of_requirements_def
      send_message_def Dispatcher_send_message_def forwarded_by_def)

lemma forward_MARs_eq:
  assumes "heap (w_resources (snd s)) a = Some r" "h_reservation (fst s) = Some a" "\<forall>c \<in> set cs. fst c \<noteq> []"
    and "payload_of (cfg_marshal C) (rsv_capabilities r) = Inr pl"
    and "rsv_listener r = b # bs" "rsv_listener_length r = 0"
  shows "fold_res (forward_MAR C) cs s = Inr (fst s, (snd s) \<lparr> w_dispatcher := (w_dispatcher (snd s))
     \<lparr> sending_messages := sending_messages (w_dispatcher (snd s))
        @ map (\<lambda>c. (forwarded_by MAR_new (h_uuid (fst s)) (rsv_priority r) b pl, fst c, snd c)) cs \<rparr> \<rparr>)"
  using assms(1,2,3)
proof (induction cs arbitrary: s)
  case Nil
  then show ?case by simp
next
  case (Cons c cs)
  then show ?case
    using forward_MAR_eq [OF Cons.prems(1,2) _ assms(4,5,6), of c] by simp
qed

lemma change_reservation_eq:
  "h_reservation (fst s) = Some a \<Longrightarrow> heap (w_resources (snd s)) a = Some r \<Longrightarrow>
   change_reservation f s = Inr (fst s, (snd s) \<lparr> w_resources := store_at a (f r) (w_resources (snd s)) \<rparr>)"
  by (simp add: change_reservation_def reservation_of_def set_resources_def)

text \<open>The reservation a node on the way keeps for a request.\<close>

definition pre_reserved :: "requesting_capabilities \<Rightarrow> request \<Rightarrow> UUIDv4 \<Rightarrow> real \<Rightarrow> node \<Rightarrow> reservation" where
  "pre_reserved caps m u bid source =
     (produced caps (req_priority m) (hd (req_listener m)) u)
       \<lparr> rsv_state := ReservationState.PRE_RESERVED, rsv_estimated_bid := bid, rsv_past_node := source \<rparr>"

text \<open>
  C7. A single way leads to the listener.  The node pre-reserves what the request needs, remembers
  where the request came from, and forwards the request over that connection under the same
  identifier, with the same priority, listener and requirements; the session is pre-reserved and
  a timer for the answer runs.
\<close>
theorem transit_forwards:
  assumes "first_request C h w m caps" "map_of (w_store w) (h_uuid h) = Some (h_this h)"
    and "\<not> cfg_simulated_is_me C (hd (req_listener m))"
    and "admissible (cfg_env C) (cap_ordered_items caps) (req_priority m)"
    and "connections_to_target C (hd (req_listener m)) = [c]"
    and "payload_of (cfg_marshal C) caps = Inr pl"
  shows "\<exists>h' w' a bid. Handler_round C (h, w) = Inr (h', w')
    \<and> h_state h' = PRE_RESERVED \<and> \<not> h_running h' \<and> h_message h' = None \<and> h_reservation h' = Some a
    \<and> a \<notin> set (reservations (w_resources w))
    \<and> reservations (w_resources w') = reservations (w_resources w) @ [a]
    \<and> heap (w_resources w') a = Some (pre_reserved caps m (h_uuid h) bid (h_source h)) \<and> 0 < bid
    \<and> sending_messages (w_dispatcher w') = sending_messages (w_dispatcher w)
        @ [(forwarded_by EAR_new (h_uuid h) (req_priority m) (hd (req_listener m)) pl, fst c, snd c)]
    \<and> w_timeouts w' = w_timeouts w @ [(h_this h, EAR)]"
proof -
  obtain bid a R where "0 < bid" and a: "a \<notin> set (reservations (w_resources w))"
    "reservations R = reservations (w_resources w) @ [a]"
    and r: "heap R a = Some ((produced caps (req_priority m) (hd (req_listener m)) (h_uuid h))
        \<lparr> rsv_state := ReservationState.PRE_RESERVED, rsv_estimated_bid := bid \<rparr>)"
    and e: "Handler_EAR C m (h \<lparr> h_reservation := None \<rparr>, w) = EAR_forward C m [hd (req_listener m)]
       (h \<lparr> h_state := ASSESSING, h_reservation := Some a \<rparr>, w \<lparr> w_resources := R \<rparr>)"
    using transit_pre_reserves [OF assms(1-4)] by metis
  have "req_listener_length m = 0"
    using assms(1) by (simp add: first_request_def)
  then have "EAR_forward C m [hd (req_listener m)]
       (h \<lparr> h_state := ASSESSING, h_reservation := Some a \<rparr>, w \<lparr> w_resources := R \<rparr>)
    = Inr (Break, stop (h \<lparr> h_reservation := Some a, h_state := PRE_RESERVED \<rparr>,
        w \<lparr> w_dispatcher := (w_dispatcher w) \<lparr> sending_messages := sending_messages (w_dispatcher w)
              @ [(forwarded_by EAR_new (h_uuid h) (req_priority m) (hd (req_listener m)) pl, fst c, snd c)] \<rparr>,
            w_resources := store_at a (pre_reserved caps m (h_uuid h) bid (h_source h)) R,
            w_timeouts := w_timeouts w @ [(h_this h, EAR)] \<rparr>))"
    using assms(5,6) r connection_locator [OF assms(5)]
    by (simp add: EAR_forward_def address_octets_def read_octets_def connections_cardinal_def front_def Let_def
        forward_EAR_eq change_reservation_eq set_state_def start_timeout_def initiate_timeout_def
        set_past_node_def pre_reserved_def)
  then show ?thesis
    using first_request_round [OF assms(1)] e a \<open>0 < bid\<close>
    by (auto simp: finish_def stop_def Handler_stop_def intro!: exI [of _ bid])
qed

lemma sample_transit:
  assumes "b \<noteq> 3"
  shows "first_request sample_config (sample_handler b) sample_world (sample_EAR b) (cpu_requirements [4])"
    "map_of (w_store sample_world) (h_uuid (sample_handler b)) = Some (h_this (sample_handler b))"
    "\<not> cfg_simulated_is_me sample_config (hd (req_listener (sample_EAR b)))"
    "admissible (cfg_env sample_config) (cap_ordered_items (cpu_requirements [4])) (req_priority (sample_EAR b))"
    "payload_of (cfg_marshal sample_config) (cpu_requirements [4]) = Inr sample_payload"
  using assms sample_first_request [of b] sample_admissible
  by (simp_all add: first_request_def world_init_def payload_of_def transform_cpu_requirements
      sample_marshal_ok) (simp add: sample_config_def sample_marshal_ok)

theorem transit_forwards_witness:
  "\<exists>h' w' a. Handler_round sample_config (sample_handler 8, sample_world) = Inr (h', w')
     \<and> h_state h' = PRE_RESERVED \<and> reservations (w_resources w') = [a]
     \<and> sending_messages (w_dispatcher w') = [(forwarded_by EAR_new 77 5 8 sample_payload, [1], Simulation)]
     \<and> w_timeouts w' = [(0, EAR)]"
proof -
  have "(8 :: byte) \<noteq> 3" by simp
  note t = sample_transit [OF this]
  from transit_forwards [OF t(1-4) _ t(5), of "([1], Simulation)"] show ?thesis
    by (auto simp: Resources_init_def)
qed

text \<open>
  C8. Several ways lead to the listener: the node pre-reserves, sends one MAR
  per connection the depth filter leaves, all under the same identifier and with the same priority, listener and
  requirements, and waits for as many bids (counted modulo 256), with a timer running.
\<close>
theorem transit_opens_auction:
  assumes "first_request C h w m caps" "map_of (w_store w) (h_uuid h) = Some (h_this h)"
    and "\<not> cfg_simulated_is_me C (hd (req_listener m))"
    and "admissible (cfg_env C) (cap_ordered_items caps) (req_priority m)"
    and "connections_to_target C (hd (req_listener m)) = cs" "2 \<le> length cs"
    and "payload_of (cfg_marshal C) caps = Inr pl"
  shows "\<exists>h' w' a bid. Handler_round C (h, w) = Inr (h', w')
    \<and> h_state h' = AUCTION_WAITING \<and> \<not> h_running h' \<and> h_message h' = None \<and> h_reservation h' = Some a
    \<and> unat (h_waiting_bids h') = length cs mod 256 \<and> h_arriving_bids h' = 0
    \<and> reservations (w_resources w') = reservations (w_resources w) @ [a]
    \<and> heap (w_resources w') a = Some (pre_reserved caps m (h_uuid h) bid (h_source h)) \<and> 0 < bid
    \<and> sending_messages (w_dispatcher w') = sending_messages (w_dispatcher w)
        @ map (\<lambda>c. (forwarded_by MAR_new (h_uuid h) (req_priority m) (hd (req_listener m)) pl, fst c, snd c)) cs
    \<and> w_timeouts w' = w_timeouts w @ [(h_this h, MAR)]"
proof -
  obtain bid a R where "0 < bid" and a: "reservations R = reservations (w_resources w) @ [a]"
    and r: "heap R a = Some ((produced caps (req_priority m) (hd (req_listener m)) (h_uuid h))
        \<lparr> rsv_state := ReservationState.PRE_RESERVED, rsv_estimated_bid := bid \<rparr>)"
    and e: "Handler_EAR C m (h \<lparr> h_reservation := None \<rparr>, w) = EAR_forward C m [hd (req_listener m)]
       (h \<lparr> h_state := ASSESSING, h_reservation := Some a \<rparr>, w \<lparr> w_resources := R \<rparr>)"
    using transit_pre_reserves [OF assms(1-4)] by metis
  have "cs \<noteq> []"
    using assms(6) by auto
  have loc: "\<forall>c \<in> set cs. fst c \<noteq> []"
    using min_depth_filter_locator assms(5) by (auto simp: connections_to_target_def)
  have "req_listener_length m = 0"
    using assms(1) by (simp add: first_request_def)
  then have "EAR_forward C m [hd (req_listener m)]
       (h \<lparr> h_state := ASSESSING, h_reservation := Some a \<rparr>, w \<lparr> w_resources := R \<rparr>)
    = Inr (Break, stop (h \<lparr> h_reservation := Some a, h_waiting_bids := word_of_nat (length cs),
          h_arriving_bids := 0, h_state := AUCTION_WAITING \<rparr>,
        w \<lparr> w_dispatcher := (w_dispatcher w) \<lparr> sending_messages := sending_messages (w_dispatcher w)
              @ map (\<lambda>c. (forwarded_by MAR_new (h_uuid h) (req_priority m) (hd (req_listener m)) pl, fst c, snd c)) cs \<rparr>,
            w_resources := store_at a (pre_reserved caps m (h_uuid h) bid (h_source h)) R,
            w_timeouts := w_timeouts w @ [(h_this h, MAR)] \<rparr>))"
    using assms(5,6,7) r loc \<open>cs \<noteq> []\<close>
    by (simp add: EAR_forward_def address_octets_def read_octets_def connections_cardinal_def Let_def
        forward_MARs_eq change_reservation_eq set_state_def start_timeout_def initiate_timeout_def
        set_past_node_def pre_reserved_def open_auction_def)
  then show ?thesis
    using first_request_round [OF assms(1)] e a \<open>0 < bid\<close>
    by (auto simp: finish_def stop_def Handler_stop_def unat_of_nat intro!: exI [of _ bid])
qed

theorem transit_opens_auction_witness:
  "\<exists>h' w' a. Handler_round sample_config (sample_handler 9, sample_world) = Inr (h', w')
     \<and> h_state h' = AUCTION_WAITING \<and> h_waiting_bids h' = 2 \<and> reservations (w_resources w') = [a]
     \<and> map (fst \<circ> snd) (sending_messages (w_dispatcher w')) = [[1], [2]]"
proof -
  have "(9 :: byte) \<noteq> 3" by simp
  note t = sample_transit [OF this]
  have "unat x = 2 \<Longrightarrow> x = 2" for x :: byte
    by (simp add: word_unat_eq_iff)
  with transit_opens_auction [OF t(1-4) _ _ t(5), of "[([1], Simulation), ([2], Simulation)]"] show ?thesis
    by (auto simp: Resources_init_def)
qed

text \<open>
  C32. No way leads to the listener: the refusal goes to the source, addressed by its identifier
  instead of a port, and the session is closed, but what was pre-reserved stays in the pool, and
  no timer is running that could release it.
\<close>
theorem dead_end_keeps_pre_reservation:
  assumes "first_request C h w m caps" "map_of (w_store w) (h_uuid h) = Some (h_this h)"
    and "\<not> cfg_simulated_is_me C (hd (req_listener m))"
    and "admissible (cfg_env C) (cap_ordered_items caps) (req_priority m)"
    and "connections_to_target C (hd (req_listener m)) = []" "fst (h_source h) \<noteq> []"
  shows "\<exists>h' w' a r. Handler_round C (h, w) = Inr (h', w') \<and> h_state h' = CLOSED
    \<and> sending_messages (w_dispatcher w') = sending_messages (w_dispatcher w)
        @ [(REF_new (h_uuid h), fst (h_source h), snd (h_source h))]
    \<and> reservations (w_resources w') = reservations (w_resources w) @ [a]
    \<and> heap (w_resources w') a = Some r \<and> rsv_state r = ReservationState.PRE_RESERVED
    \<and> w_timeouts w' = w_timeouts w"
proof -
  obtain bid a R where a: "reservations R = reservations (w_resources w) @ [a]"
    and r: "heap R a = Some ((produced caps (req_priority m) (hd (req_listener m)) (h_uuid h))
        \<lparr> rsv_state := ReservationState.PRE_RESERVED, rsv_estimated_bid := bid \<rparr>)"
    and e: "Handler_EAR C m (h \<lparr> h_reservation := None \<rparr>, w) = EAR_forward C m [hd (req_listener m)]
       (h \<lparr> h_state := ASSESSING, h_reservation := Some a \<rparr>, w \<lparr> w_resources := R \<rparr>)"
    using transit_pre_reserves [OF assms(1-4)] by metis
  then show ?thesis
    using first_request_round [OF assms(1)] assms(1,5,6)
    by (simp add: first_request_def EAR_forward_def address_octets_def read_octets_def connections_cardinal_def
        Let_def send_message_def Dispatcher_send_message_def finish_def stop_def Handler_stop_def set_state_def)
qed

theorem dead_end_keeps_pre_reservation_witness:
  "\<exists>h' w' a r. Handler_round sample_config (sample_handler 7, sample_world) = Inr (h', w')
     \<and> h_state h' = CLOSED \<and> sending_messages (w_dispatcher w') = [(REF_new 77, [1], Simulation)]
     \<and> reservations (w_resources w') = [a] \<and> heap (w_resources w') a = Some r
     \<and> rsv_state r = ReservationState.PRE_RESERVED \<and> w_timeouts w' = []"
proof -
  have "(7 :: byte) \<noteq> 3" by simp
  note t = sample_transit [OF this]
  from dead_end_keeps_pre_reservation [OF t(1-4)] show ?thesis
    by (simp add: Resources_init_def)
qed

text \<open>
  A request whose listener is an IPv4, MAC or IPv6 address is never handled: the accessor hands
  out fewer octets than the address has, and reading the address runs past them.
\<close>
lemma addressed_listener_is_undefined:
  assumes "req_listener_length m \<in> {LT_IP4, LT_MAC, LT_IP6}" "length (req_listener m) = 16"
  shows "Handler_EAR C m s = Inl UndefinedBehaviour"
proof -
  have "EAR_listener m = Inr (take (unat (req_listener_length m)) (req_listener m))"
    using assms by (auto simp: EAR_listener_def read_loop_in)
  then show ?thesis
    using assms by (auto simp: Handler_EAR_def EAR_identify_def address_octets_def read_octets_def Let_def)
qed

section \<open>Answers\<close>

text \<open>
  C34. A refusal for a request the node has pre-reserved is undefined: the loop that drops the
  entry of the request from the store erases the element it stands on.
\<close>
theorem refusal_of_pre_reservation_is_undefined:
  assumes "h_running h" "h_auction h = NotWaiting" "h_message h = Some (REF_msg hd0)"
    and "hdr_type hd0 = REF"
    and "get_reservation_for (cfg_ulid C) (h_uuid h) (w_resources w) = Inr (Some a, R)"
    and "heap R a = Some r" "rsv_state r = ReservationState.PRE_RESERVED" "rsv_listener_length r = 0"
    and "map_of (w_store w) (h_uuid h) = Some (h_this h)"
  shows "Handler_round C (h, w) = Inl UndefinedBehaviour"
proof -
  let ?s = "(h \<lparr> h_reservation := Some a \<rparr>, w \<lparr> w_resources := R \<rparr>)"
  have loop: "map_of es (h_uuid h) = Some (h_this h) \<Longrightarrow> REF_store_loop ?s es = Inl UndefinedBehaviour" for es
    using assms(6,7) by (induction es) (auto simp: handler_at_def)
  have "Handler_preamble C (h, w) = Inr ?s"
    using assms(5,6,8) by (simp add: Handler_preamble_def set_reservation_def set_resources_def reservation_of_def)
  then show ?thesis
    using assms(1-4,9) loop [of "w_store w"]
    by (simp add: Handler_round_def Handler_switch_def Message_type_def Handler_REF_def)
qed

definition sample_entry :: reservation where
  "sample_entry = pre_reserved (cpu_requirements [4]) (sample_EAR 8) 77 1 ([1], Simulation)"

definition sample_entry_pool :: resources where
  "sample_entry_pool = Resources_init \<lparr> heap := [0 \<mapsto> sample_entry], next_addr := 1, reservations := [0] \<rparr>"

definition sample_answered :: "Message \<Rightarrow> handler" where
  "sample_answered m = (hand_over m ([2], Simulation) (Handler_execute (Handler_new 0 77)))
     \<lparr> h_state := PRE_RESERVED \<rparr>"

lemma sample_entry_simps [simp]:
  "rsv_uuid sample_entry = 77" "rsv_state sample_entry = ReservationState.PRE_RESERVED"
  "rsv_listener_length sample_entry = 0" "rsv_past_node sample_entry = ([1], Simulation)"
  "rsv_next_nodes sample_entry = []"
  "heap sample_entry_pool = [0 \<mapsto> sample_entry]" "reservations sample_entry_pool = [0]"
  by (simp_all add: sample_entry_def pre_reserved_def produced_def Reservation_new_def sample_entry_pool_def)

lemma sample_entry_found: "get_reservation_for L 77 sample_entry_pool = Inr (Some 0, sample_entry_pool)"
  by (simp add: get_reservation_for_def)

theorem refusal_of_pre_reservation_is_undefined_witness:
  "Handler_round sample_config (sample_answered (REF_new 77), sample_world \<lparr> w_resources := sample_entry_pool \<rparr>)
     = Inl UndefinedBehaviour"
  by (rule refusal_of_pre_reservation_is_undefined
        [where a = 0 and R = sample_entry_pool and r = sample_entry and ?hd0.0 = "Header RANK_HEADER_VERSION REF 77"])
    (simp_all add: sample_answered_def hand_over_def REF_new_def Message_type_def Header_def cast_message_def
      Handler_execute_def Handler_new_def sample_entry_found)

lemma store_at_twice [simp]: "store_at a r (store_at a r' R) = store_at a r R"
  by (simp add: store_at_def)

lemma mark_reservation_at:
  assumes "reservations R = as @ a # bs" "uuid_free R (rsv_uuid r) (as @ bs)" "a \<notin> set bs"
    and "heap R a = Some r" "rsv_state r = ReservationState.PRE_RESERVED"
  shows "mark_reservation (Some a) R = Inr (store_at a (r \<lparr> rsv_state := ReservationState.RESERVED \<rparr>) R)"
proof -
  let ?r = "r \<lparr> rsv_state := ReservationState.RESERVED \<rparr>"
  let ?R = "store_at a ?r R"
  have as: "uuid_free R (rsv_uuid r) as" and bs: "uuid_free R (rsv_uuid r) bs"
    using assms(2) by (simp_all add: uuid_free_def)
  have "uuid_free ?R (rsv_uuid ?r) bs"
    using bs assms(3) by (auto simp: uuid_free_def list_all_iff)
  then have "mark_reservation_loop (Some a) bs True ?R = Inr (True, ?R)"
    using mark_loop_skip [of ?R ?r bs a "[]" True] by simp
  moreover have "mark_reservation_loop (Some a) (a # bs) False R = mark_reservation_loop (Some a) bs True ?R"
    using assms(4,5) by (simp add: state_changers)
  ultimately have "mark_reservation_loop (Some a) (as @ a # bs) False R = Inr (True, ?R)"
    using mark_loop_skip [OF as assms(4), of "a # bs" False] by metis
  then show ?thesis
    using assms(1) by (simp add: mark_reservation_def)
qed

lemma topology_port:
  assumes "length tp \<le> 255" "index_of x (map fst tp) = Some i"
  shows "and_then (get_topology tp) (\<lambda>t. Inr (index_of x t)) = Inr (Some i)"
proof -
  have "index_of x ys = Some i \<Longrightarrow> index_of x (ys @ zs) = Some i" for ys zs i
    by (induction ys arbitrary: i) auto
  then show ?thesis
    using assms by (simp add: get_topology_def)
qed

text \<open>
  C15. The acceptance of a request that was pre-reserved here, not translated and not of local
  origin: the reservation becomes reserved, in place and touching no other; the node that
  accepted becomes its next node; an acceptance under the same identifier goes back to the port
  of the node the request came from; the session is reserved and its thread stopped.
\<close>
theorem acceptance_passed_on:
  assumes "h_running h" "h_auction h = NotWaiting" "h_message h = Some (ACC_msg hd0)" "hdr_type hd0 = ACC"
    and "h_state h \<noteq> RESERVED"
    and "get_reservation_for (cfg_ulid C) (h_uuid h) (w_resources w) = Inr (Some a, R)"
    and "reservations R = as @ a # bs" "a \<notin> set bs" "uuid_free R (rsv_uuid r) (as @ bs)"
    and "heap R a = Some r" "rsv_state r = ReservationState.PRE_RESERVED" "rsv_listener_length r = 0"
    and "map_of (w_translations w) (h_uuid h) = None" "map_of (w_origins w) (h_uuid h) = None"
    and "rsv_past_node r = ([x], Simulation)"
    and "length (cfg_topology C) \<le> 255" "index_of x (map fst (cfg_topology C)) = Some i"
  shows "\<exists>h' w'. Handler_round C (h, w) = Inr (h', w')
    \<and> h_state h' = RESERVED \<and> \<not> h_running h' \<and> h_message h' = None
    \<and> w_resources w' = store_at a (r \<lparr> rsv_state := ReservationState.RESERVED,
          rsv_next_nodes := rsv_next_nodes r @ [h_source h] \<rparr>) R
    \<and> sending_messages (w_dispatcher w') = sending_messages (w_dispatcher w)
        @ [(ACC_new (h_uuid h), [word_of_nat i], Simulation)]
    \<and> w_store w' = w_store w"
proof -
  let ?s = "(h \<lparr> h_reservation := Some a \<rparr>, w \<lparr> w_resources := R \<rparr>)"
  have pre: "Handler_preamble C (h, w) = Inr ?s"
    using assms(6,10,12) by (simp add: Handler_preamble_def set_reservation_def set_resources_def reservation_of_def)
  note mark = mark_reservation_at [OF assms(7,9,8,10,11)]
  have "topology_target C ([x], Simulation) = Inr (Some ([word_of_nat i], Simulation))"
    using topology_port [OF assms(16,17)] by (auto simp: topology_target_def)
  then have "Handler_ACC C ?s = Inr (Break, stop (set_state RESERVED (h \<lparr> h_reservation := Some a \<rparr>,
      w \<lparr> w_dispatcher := (w_dispatcher w) \<lparr> sending_messages := sending_messages (w_dispatcher w)
            @ [(ACC_new (h_uuid h), [word_of_nat i], Simulation)] \<rparr>,
          w_resources := store_at a (r \<lparr> rsv_state := ReservationState.RESERVED,
            rsv_next_nodes := rsv_next_nodes r @ [h_source h] \<rparr>) R \<rparr>)))"
    using assms(5,10,13,14,15) mark
    by (simp add: Let_def domIff Handler_ACC_def mark_reserved_here_def is_translation_table_empty_for_def am_i_origin_for_def
        ACC_pass_on_def reservation_of_def set_resources_def send_message_def Dispatcher_send_message_def
        change_reservation_def set_state_def add_next_node_def)
  then show ?thesis
    using assms(1-4) pre
    by (simp add: Handler_round_def Handler_switch_def Message_type_def finish_def stop_def Handler_stop_def
        set_state_def)
qed

theorem acceptance_passed_on_witness:
  "\<exists>h' w'. Handler_round sample_config (sample_answered (ACC_new 77), sample_world \<lparr> w_resources := sample_entry_pool \<rparr>)
       = Inr (h', w')
     \<and> h_state h' = RESERVED \<and> sending_messages (w_dispatcher w') = [(ACC_new 77, [0], Simulation)]
     \<and> map_option rsv_next_nodes (heap (w_resources w') 0) = Some [([2], Simulation)]"
proof -
  have "h_source (sample_answered (ACC_new 77)) = ([2], Simulation)" "h_uuid (sample_answered (ACC_new 77)) = 77"
    by (simp_all add: sample_answered_def hand_over_def ACC_new_def Message_type_def Header_def mark_source_def
        mark_accepting_node_def Handler_execute_def Handler_new_def)
  then show ?thesis
    using acceptance_passed_on [where C = sample_config and h = "sample_answered (ACC_new 77)" and a = 0
        and R = sample_entry_pool and as = "[]" and bs = "[]" and r = sample_entry and x = 1 and i = 0
        and w = "sample_world \<lparr> w_resources := sample_entry_pool \<rparr>"
        and ?hd0.0 = "Header RANK_HEADER_VERSION ACC 77"] sample_entry_found
    by (auto simp: sample_answered_def hand_over_def ACC_new_def Message_type_def Header_def cast_message_def
        mark_source_def mark_accepting_node_def
        Handler_execute_def Handler_new_def uuid_free_def sample_world_def create_handler_def world_init_def Let_def
        sample_config_def)
qed

section \<open>Auctions\<close>

text \<open>The request sent to a winner: no payload, the port the simulator lists first.\<close>

definition award_item :: "node_config \<Rightarrow> reservation \<Rightarrow> UUIDv4 \<Rightarrow> node \<Rightarrow> queue_item" where
  "award_item C r u n =
     (EAR_new u (rsv_priority r) (rsv_listener_length r) (hd (rsv_listener r) # replicate 15 0) 0 [],
      [snd (hd (cfg_connections C (hd (fst n))))], snd n)"

definition contactable :: "node_config \<Rightarrow> node \<Rightarrow> bool" where
  "contactable C n \<longleftrightarrow> fst n \<noteq> [] \<and> cfg_connections C (hd (fst n)) \<noteq> []"

definition queue_item_added :: "queue_item \<Rightarrow> world \<Rightarrow> world" where
  "queue_item_added item w =
     w \<lparr> w_dispatcher := (w_dispatcher w) \<lparr> sending_messages := sending_messages (w_dispatcher w) @ [item] \<rparr> \<rparr>"

lemma award_eq:
  assumes "heap (w_resources w) a = Some r" "h_reservation h = Some a" "rsv_listener r \<noteq> []"
    and "fst (h_source h) \<noteq> []" "contactable C n"
  shows "award C u n (h, w) = Inr (h \<lparr> h_state := PRE_RESERVED \<rparr>,
     initiate_timeout (h_this h) EAR (queue_item_added (award_item C r u n) w))"
proof -
  obtain b bs where b: "fst n = b # bs" and "cfg_connections C b \<noteq> []"
    using assms(5) by (cases "fst n") (auto simp: contactable_def)
  then obtain d p cs where "cfg_connections C b = (d, p) # cs"
    by (cases "cfg_connections C b") auto
  moreover obtain l ls where "rsv_listener r = l # ls"
    using assms(3) by (cases "rsv_listener r") auto
  moreover obtain x xs where "fst (h_source h) = x # xs"
    using assms(4) by (cases "fst (h_source h)") auto
  ultimately show ?thesis
    using assms(1,2) b
    by (simp add: award_def reservation_of_def forwarded_listener_def get_connections_to_def Let_def
        send_message_def Dispatcher_send_message_def award_item_def queue_item_added_def start_timeout_def
        set_state_def make_payload_def make_payload_length_def)
qed

lemma max_bids_nonempty_set: "bs \<noteq> [] \<Longrightarrow> \<exists>ns. max_bids bs = Inr ns"
  by (simp add: max_bids_def Let_def)

text \<open>
  C13. The auction has a single highest bidder: the bidder, and nobody else, is sent an EAR
  under the identifier of the request, the session becomes pre-reserved with
  a timer for the answer, and the pool is unchanged.
\<close>
theorem auction_awards_highest_bidder:
  assumes "h_running h" "h_auction h = Notified" "h_bids h \<noteq> []"
    and "max_bids (h_bids h) = Inr [n]" "contactable C n" "fst (h_source h) \<noteq> []"
    and "h_reservation h = Some a" "heap (w_resources w) a = Some r" "rsv_listener r \<noteq> []"
  shows "\<exists>h' w'. Handler_round C (h, w) = Inr (h', w')
    \<and> h_state h' = PRE_RESERVED \<and> \<not> h_running h' \<and> h_auction h' = NotWaiting \<and> h_message h' = None
    \<and> sending_messages (w_dispatcher w')
        = sending_messages (w_dispatcher w) @ [award_item C r (h_uuid h) n]
    \<and> w_timeouts w' = w_timeouts w @ [(h_this h, EAR)]
    \<and> w_resources w' = w_resources w \<and> w_translations w' = w_translations w"
  using assms award_eq [OF assms(8), of "h \<lparr> h_auction := NotWaiting \<rparr>" C n]
  by (simp add: Handler_round_def auction_close_def cardinal_bids_def is_max_bid_unique_def front_def
      finish_def stop_def Handler_stop_def initiate_timeout_def queue_item_added_def)

definition sample_auction :: "BidSet \<Rightarrow> handler" where
  "sample_auction bids = (sample_answered (BID_new 77 0x3D000000))
     \<lparr> h_state := AUCTION_WAITING, h_auction := Notified, h_bids := bids, h_reservation := Some 0 \<rparr>"

lemma sample_auction_simps [simp]:
  "h_running (sample_auction bs)" "h_auction (sample_auction bs) = Notified" "h_bids (sample_auction bs) = bs"
  "h_source (sample_auction bs) = ([2], Simulation)" "h_reservation (sample_auction bs) = Some 0"
  "h_uuid (sample_auction bs) = 77" "h_this (sample_auction bs) = 0"
  "contactable sample_config ([2], Simulation)" "contactable sample_config ([4], Simulation)"
  "rsv_listener sample_entry \<noteq> []"
  by (simp_all add: sample_auction_def sample_answered_def hand_over_def BID_new_def Message_type_def Header_def
      mark_source_def Handler_execute_def Handler_new_def contactable_def sample_config_def sample_entry_def
      pre_reserved_def)

theorem auction_awards_highest_bidder_witness:
  "\<exists>h' w'. Handler_round sample_config
        (sample_auction [(0x3D000000, ([2], Simulation)), (0x3E000000, ([4], Simulation))],
         sample_world \<lparr> w_resources := sample_entry_pool \<rparr>) = Inr (h', w')
     \<and> h_state h' = PRE_RESERVED
     \<and> map (fst \<circ> snd) (sending_messages (w_dispatcher w')) = [[2]]"
proof -
  let ?bids = "[(0x3D000000, ([2], Simulation)), (0x3E000000, ([4], Simulation))] :: BidSet"
  have "max_bids ?bids = Inr [([4], Simulation)]"
    by (simp add: max_bids_def float_eq_def float_nan_def float_key_def Let_def)
  from auction_awards_highest_bidder [of "sample_auction ?bids" _ sample_config 0 "sample_world \<lparr> w_resources := sample_entry_pool \<rparr>" sample_entry, OF _ _ _ _]
  show ?thesis
    using \<open>max_bids ?bids = _\<close>
    by (fastforce simp: award_item_def sample_config_def [THEN arg_cong, of cfg_connections])
qed

text \<open>The identifiers a tie draws, one per winner.\<close>

definition drawn_uuids :: "node_config \<Rightarrow> UUIDv4 \<Rightarrow> nat \<Rightarrow> nat \<Rightarrow> UUIDv4 list" where
  "drawn_uuids C u k n = map (\<lambda>i. cfg_EncodeTime C (translation_timestamp C u) (k + i)) [0..<n]"

lemma drawn_uuids_Suc:
  "drawn_uuids C u k (Suc n) = cfg_EncodeTime C (translation_timestamp C u) k # drawn_uuids C u (Suc k) n"
  by (simp add: drawn_uuids_def upt_conv_Cons map_Suc_upt [symmetric] del: upt_Suc)

lemma length_drawn_uuids [simp]: "length (drawn_uuids C u k n) = n"
  by (simp add: drawn_uuids_def)

lemma awards_eq:
  assumes "heap (w_resources w) a = Some r" "h_reservation h = Some a" "rsv_listener r \<noteq> []"
    and "fst (h_source h) \<noteq> []" "\<forall>n \<in> set ns. contactable C n"
  shows "\<exists>h' w'. fold_res (award_translated C) ns (h, w) = Inr (h', w')
     \<and> (ns \<noteq> [] \<longrightarrow> h_state h' = PRE_RESERVED) \<and> h_auction h' = h_auction h
     \<and> w_resources w' = w_resources w
     \<and> w_translations w' = fold (\<lambda>u. map_insert u (h_uuid h)) (drawn_uuids C (h_uuid h) (w_draws w) (length ns))
         (w_translations w)
     \<and> sending_messages (w_dispatcher w') = sending_messages (w_dispatcher w)
         @ map2 (award_item C r) (drawn_uuids C (h_uuid h) (w_draws w) (length ns)) ns"
  using assms
proof (induction ns arbitrary: h w)
  case Nil
  then show ?case by (simp add: drawn_uuids_def)
next
  case (Cons n ns)
  let ?u = "cfg_EncodeTime C (translation_timestamp C (h_uuid h)) (w_draws w)"
  let ?w = "w \<lparr> w_draws := Suc (w_draws w), w_translations := map_insert ?u (h_uuid h) (w_translations w) \<rparr>"
  let ?w' = "initiate_timeout (h_this h) EAR (queue_item_added (award_item C r ?u n) ?w)"
  let ?h' = "h \<lparr> h_state := PRE_RESERVED \<rparr>"
  have "award_translated C n (h, w) = award C ?u n (h, ?w)"
    by (simp add: award_translated_def create_translation_def generate_new_uuid_with_def)
  also have "\<dots> = Inr (?h', ?w')"
    using Cons.prems by (intro award_eq) simp_all
  finally have "fold_res (award_translated C) (n # ns) (h, w) = fold_res (award_translated C) ns (?h', ?w')"
    by simp
  moreover have "w_draws ?w' = Suc (w_draws w)" "w_resources ?w' = w_resources w"
    "w_translations ?w' = map_insert ?u (h_uuid h) (w_translations w)"
    "sending_messages (w_dispatcher ?w') = sending_messages (w_dispatcher w) @ [award_item C r ?u n]"
    by (simp_all add: initiate_timeout_def queue_item_added_def)
  moreover obtain h2 w2 where "fold_res (award_translated C) ns (?h', ?w') = Inr (h2, w2)"
    "ns \<noteq> [] \<longrightarrow> h_state h2 = PRE_RESERVED" "h_auction h2 = h_auction h"
    "w_resources w2 = w_resources ?w'"
    "w_translations w2 = fold (\<lambda>u. map_insert u (h_uuid h)) (drawn_uuids C (h_uuid h) (w_draws ?w') (length ns))
         (w_translations ?w')"
    "sending_messages (w_dispatcher w2) = sending_messages (w_dispatcher ?w')
         @ map2 (award_item C r) (drawn_uuids C (h_uuid h) (w_draws ?w') (length ns)) ns"
    using Cons.IH [of ?w' ?h'] Cons.prems by (auto simp: initiate_timeout_def queue_item_added_def)
  moreover have "ns = [] \<Longrightarrow> h_state h2 = PRE_RESERVED"
    using \<open>fold_res (award_translated C) ns (?h', ?w') = Inr (h2, w2)\<close> by auto
  ultimately show ?case
    by (auto simp: drawn_uuids_Suc simp del: fold_res.simps)
qed

lemma fold_insert_lookup:
  assumes "std_map_wf m" "u \<in> set us" "map_of m u = None"
  shows "map_of (fold (\<lambda>u. map_insert u v) us m) u = Some v"
proof -
  have keep: "std_map_wf m \<Longrightarrow> map_of m u = Some v
    \<Longrightarrow> map_of (fold (\<lambda>u. map_insert u v) us m) u = Some v" for us m
  proof (induction us arbitrary: m)
    case (Cons x us)
    then have "map_of (map_insert x v m) u = Some v"
      by auto
    then show ?case
      using Cons.IH Cons.prems(1) by simp
  qed simp
  show ?thesis
    using assms
  proof (induction us arbitrary: m)
    case (Cons x us)
    then show ?case
      by (cases "x = u") (auto intro!: keep)
  qed simp
qed

text \<open>
  C16. The auction ends in a tie: each of the highest bidders is sent the request under an
  identifier of its own, and the translation table leads from every such identifier, unless it
  was in use before, back to the identifier of the request.
\<close>
theorem auction_tie_translates:
  assumes "h_running h" "h_auction h = Notified" "h_bids h \<noteq> []"
    and "max_bids (h_bids h) = Inr ns" "2 \<le> length ns" "\<forall>n \<in> set ns. contactable C n"
    and "fst (h_source h) \<noteq> []"
    and "h_reservation h = Some a" "heap (w_resources w) a = Some r" "rsv_listener r \<noteq> []"
    and "std_map_wf (w_translations w)"
  shows "\<exists>h' w'. Handler_round C (h, w) = Inr (h', w')
    \<and> h_state h' = PRE_RESERVED \<and> \<not> h_running h' \<and> h_auction h' = NotWaiting
    \<and> sending_messages (w_dispatcher w') = sending_messages (w_dispatcher w)
        @ map2 (award_item C r) (drawn_uuids C (h_uuid h) (w_draws w) (length ns)) ns
    \<and> (\<forall>u \<in> set (drawn_uuids C (h_uuid h) (w_draws w) (length ns)).
         map_of (w_translations w) u = None \<longrightarrow> locate_original_of u w' = Inr (h_uuid h))"
proof -
  let ?h = "h \<lparr> h_auction := NotWaiting \<rparr>"
  obtain h' w' where f: "fold_res (award_translated C) ns (?h, w) = Inr (h', w')"
    and h': "ns \<noteq> [] \<longrightarrow> h_state h' = PRE_RESERVED" "h_auction h' = NotWaiting"
    and t: "w_translations w' = fold (\<lambda>u. map_insert u (h_uuid h))
         (drawn_uuids C (h_uuid h) (w_draws w) (length ns)) (w_translations w)"
    and q: "sending_messages (w_dispatcher w') = sending_messages (w_dispatcher w)
         @ map2 (award_item C r) (drawn_uuids C (h_uuid h) (w_draws w) (length ns)) ns"
    using awards_eq [OF assms(9), of ?h ns C] assms by auto
  have "Handler_round C (h, w) = Inr (finish (Break, stop (h', w')))"
    using assms f by (simp add: Handler_round_def auction_close_def cardinal_bids_def is_max_bid_unique_def)
  moreover have "locate_original_of u w' = Inr (h_uuid h)"
    if "u \<in> set (drawn_uuids C (h_uuid h) (w_draws w) (length ns))" "map_of (w_translations w) u = None" for u
    using fold_insert_lookup [OF assms(11) that, of "h_uuid h"] t
    by (auto simp: locate_original_of_def is_translation_table_empty_for_def map_at_def)
  moreover have "ns \<noteq> []"
    using assms(5) by auto
  ultimately show ?thesis
    using h' q by (auto simp: finish_def stop_def Handler_stop_def)
qed

theorem auction_tie_translates_witness:
  "\<exists>h' w' u v. Handler_round sample_config
        (sample_auction [(0x3E000000, ([2], Simulation)), (0x3E000000, ([4], Simulation))],
         sample_world \<lparr> w_resources := sample_entry_pool \<rparr>) = Inr (h', w')
     \<and> u \<noteq> v \<and> locate_original_of u w' = Inr 77 \<and> locate_original_of v w' = Inr 77
     \<and> map (fst \<circ> snd) (sending_messages (w_dispatcher w')) = [[1], [2]]"
proof -
  let ?bids = "[(0x3E000000, ([2], Simulation)), (0x3E000000, ([4], Simulation))] :: BidSet"
  let ?w = "sample_world \<lparr> w_resources := sample_entry_pool \<rparr>"
  have m: "max_bids ?bids = Inr [([2], Simulation), ([4], Simulation)]"
    by (simp add: max_bids_def float_eq_def float_nan_def float_key_def node_less_def Let_def)
  have w: "w_draws ?w = 0" "w_translations ?w = []"
    by (simp_all add: sample_world_def create_handler_def world_init_def Let_def)
  have "bit (push_bit 80 y OR 1) 0" "\<not> bit (push_bit 80 y OR 2) 0" for y :: UUIDv4
    by (simp_all add: bit_simps)
  then have ne: "push_bit 80 y OR 1 \<noteq> push_bit 80 y OR 2" for y :: UUIDv4
    by metis
  obtain u v where uv: "drawn_uuids sample_config 77 0 2 = [u, v]" "u \<noteq> v"
    using ne by (simp add: drawn_uuids_def sample_config_def upt_conv_Cons)
  obtain h' w' where r: "Handler_round sample_config (sample_auction ?bids, ?w) = Inr (h', w')"
    and q: "sending_messages (w_dispatcher w') = sending_messages (w_dispatcher ?w)
        @ map2 (award_item sample_config sample_entry) (drawn_uuids sample_config 77 0 2) [([2], Simulation), ([4], Simulation)]"
    and l: "\<forall>x \<in> set (drawn_uuids sample_config 77 0 2). map_of (w_translations ?w) x = None
        \<longrightarrow> locate_original_of x w' = Inr 77"
    using auction_tie_translates [of "sample_auction ?bids" "[([2], Simulation), ([4], Simulation)]"
        sample_config 0 ?w sample_entry] m w by (auto simp: numeral_2_eq_2)
  have "map (fst \<circ> snd) (sending_messages (w_dispatcher w')) = [[1], [2]]"
    using q uv(1) by (simp add: award_item_def) (simp add: sample_config_def)
  moreover have "locate_original_of u w' = Inr 77" "locate_original_of v w' = Inr 77"
    using l w(2) uv(1) by simp_all
  ultimately show ?thesis
    using r uv(2) by (intro exI [of _ h'] exI [of _ w'] exI [of _ u] exI [of _ v]) simp
qed

section \<open>Bidding\<close>

definition invited :: "node_config \<Rightarrow> handler \<Rightarrow> world \<Rightarrow> request \<Rightarrow> requesting_capabilities \<Rightarrow> bool" where
  "invited C h w m caps \<longleftrightarrow>
     h_running h \<and> h_auction h = NotWaiting \<and> h_message h = Some (MAR_msg m)
     \<and> hdr_type (req_header m) = MessageType.MAR
     \<and> req_listener_length m = LT_CODE_0 \<and> req_listener m \<noteq> []
     \<and> MAR_requirements (cfg_marshal C) m = Inr caps
     \<and> resources_wf (w_resources w) \<and> timestamp_free (cfg_ulid C) (h_uuid h) (w_resources w)
     \<and> env_ok (cfg_env C) \<and> items_typed (cap_ordered_items caps)"

lemma MAR_produced:
  assumes "invited C h w m caps"
  shows "Handler_round C (h, w) =
    and_then (and_then (available C (req_priority m)
        (h \<lparr> h_state := AUCTION_BIDDING, h_reservation := Some (next_addr (w_resources w)) \<rparr>,
         with_produced (produced caps (req_priority m) (hd (req_listener m)) (h_uuid h)) w)) (\<lambda>(position, s).
      if position \<noteq> None then MAR_bid C (set_reservation position s) else MAR_no_bid C s)) (\<lambda>r. Inr (finish r))"
proof -
  have l: "MAR_listener m = Inr [hd (req_listener m)]"
    using assms by (cases "req_listener m") (simp_all add: MAR_listener_def invited_def)
  have "rsv_listener (Reservation_new caps p) = replicate 16 0" for p
    by (simp add: Reservation_new_def)
  then have "mark_listener [b] 1 (Reservation_new caps p) = Inr ((Reservation_new caps p) \<lparr> rsv_listener := b # replicate 15 0 \<rparr>)" for b p
    by (simp add: mark_listener_def eval_nat_numeral)
  then show ?thesis
    using assms l preamble_fresh [of C h w]
    by (simp add: invited_def Handler_round_def Handler_switch_def Message_type_def Handler_MAR_def MAR_assess_def
        MAR_produce_def produce_reservation_def Let_def
        split_def set_state_def set_reservation_def set_resources_def change_reservation_def
        reservation_of_def with_produced_def produced_def set_uuid_def)
qed

text \<open>
  C17. An invitation to an auction that the node can perform is answered with a bid.  The bid is what
  \<open>estimate_bid\<close> gives for the request on the metrics the manager has; it is positive, it is
  sent, narrowed to single precision, over the first connection to the source, and stored with the
  reservation that the pool now has, pre-reserved, under the identifier of the request.  The
  metrics become those the estimate leaves, every other entry of the pool keeps its contents, the
  session is pre-reserved and a timer for the outcome runs.
\<close>
theorem invitation_answered_with_bid:
  assumes "invited C h w m caps" "admissible (cfg_env C) (cap_ordered_items caps) (req_priority m)"
    and "fst (h_source h) = src # rest" "cfg_connections C src = (d, port) # cs"
  shows "\<exists>h' w' a bid. Handler_round C (h, w) = Inr (h', w') \<and> 0 < bid
    \<and> estimate_bid (cfg_env C) (produced caps (req_priority m) (hd (req_listener m)) (h_uuid h))
        (proximity_metrics (w_resources w)) = Inr (bid, proximity_metrics (w_resources w'))
    \<and> map (heap (w_resources w')) (reservations (w_resources w)) = map (heap (w_resources w)) (reservations (w_resources w))
    \<and> h_state h' = PRE_RESERVED \<and> \<not> h_running h' \<and> h_message h' = None \<and> h_reservation h' = Some a
    \<and> a \<notin> set (reservations (w_resources w))
    \<and> reservations (w_resources w') = reservations (w_resources w) @ [a]
    \<and> heap (w_resources w') a = Some ((produced caps (req_priority m) (hd (req_listener m)) (h_uuid h))
        \<lparr> rsv_estimated_bid := float_value (cfg_to_float C bid), rsv_state := ReservationState.PRE_RESERVED \<rparr>)
    \<and> sending_messages (w_dispatcher w') = sending_messages (w_dispatcher w)
        @ [(BID_new (h_uuid h) (cfg_to_float C bid), [port], snd (h_source h))]
    \<and> w_timeouts w' = w_timeouts w @ [(h_this h, BID)]"
proof -
  let ?R = "w_resources w" and ?p = "next_addr (w_resources w)"
  define r where "r = produced caps (req_priority m) (hd (req_listener m)) (h_uuid h)"
  have wf: "resources_wf ?R" and free: "uuid_free ?R (h_uuid h) (reservations ?R)"
    using assms(1) timestamp_free_uuid by (auto simp: invited_def)
  obtain bid R' where bid: "0 < bid"
    and av: "available_for_performance (cfg_env C) (Some ?p) (req_priority m) (snd (new_reservation r ?R)) = Inr (Some (Suc ?p), R')"
    and R': "reservations R' = reservations ?R @ [Suc ?p]" "uuid_free R' (h_uuid h) (reservations ?R)"
      "heap R' (Suc ?p) = Some (update_last_bid bid r)"
      "\<And>c. c \<noteq> ?p \<Longrightarrow> c \<noteq> Suc ?p \<Longrightarrow> heap R' c = heap ?R c"
    using produced_available [OF wf _ _ free r_def refl, of "cfg_env C"] assms(1,2)
    by (auto simp: invited_def)
  have same: "set_priority (req_priority m) r = r" "Reservation_copy (update_last_bid b r) = update_last_bid b r" for b
    by (simp_all add: r_def produced_def set_priority_def Reservation_copy_def update_last_bid_def Reservation_new_def)
  have est: "estimate_bid (cfg_env C) r (proximity_metrics ?R) = Inr (bid, proximity_metrics R')"
    using available_estimate [OF av, of r] R'(3)
    by (auto simp: same(1) new_reservation_def Reservation_copy_def update_last_bid_def dest!: arg_cong [of _ _ rsv_estimated_bid])
  have "c \<noteq> ?p \<and> c \<noteq> Suc ?p" if "c \<in> set (reservations ?R)" for c
    using that wf by (auto simp: resources_wf_def)
  then have keep: "map (heap R') (reservations ?R) = map (heap ?R) (reservations ?R)"
    using R'(4) by simp
  let ?f = "cfg_to_float C bid" and ?a = "Suc ?p"
  define r1 where "r1 = r \<lparr> rsv_estimated_bid := float_value ?f \<rparr>"
  define R1 where "R1 = store_at ?a r1 R'"
  have fresh: "?a \<notin> set (reservations ?R)"
    using wf by (auto simp: resources_wf_def)
  have "uuid_free R1 (rsv_uuid r1) (reservations ?R)" and r1: "rsv_state r1 = ReservationState.CREATED"
    using R'(2) fresh by (auto simp: R1_def r1_def r_def uuid_free_def list_all_iff)
  then have mark: "mark_pre_reservation (Some ?a) R1
      = Inr (Some ?a, store_at ?a (r1 \<lparr> rsv_state := ReservationState.PRE_RESERVED \<rparr>) R')"
    using mark_pre_last [of R1 "reservations ?R" ?a r1 ?a r1] R'(1) by (simp add: R1_def)
  have "Handler_round C (h, w) = Inr (finish (Break, stop (h \<lparr> h_state := PRE_RESERVED, h_reservation := Some ?a \<rparr>,
      w \<lparr> w_dispatcher := (w_dispatcher w) \<lparr> sending_messages := sending_messages (w_dispatcher w)
            @ [(BID_new (h_uuid h) ?f, [port], snd (h_source h))] \<rparr>,
          w_resources := store_at ?a (r1 \<lparr> rsv_state := ReservationState.PRE_RESERVED \<rparr>) R',
          w_timeouts := w_timeouts w @ [(h_this h, BID)] \<rparr>)))"
    using MAR_produced [OF assms(1)] av mark R'(3) assms(3,4)
    by (simp add: available_def with_produced_def r_def [symmetric] MAR_bid_def set_reservation_def set_resources_def
        reservation_of_def update_last_bid_def first_port_def get_connections_to_def Let_def send_message_def
        Dispatcher_send_message_def change_reservation_def set_state_def mark_pre_reserved_here_def R1_def r1_def
        start_timeout_def initiate_timeout_def)
  then show ?thesis
    using bid fresh R'(1) est keep
    by (auto simp: finish_def stop_def Handler_stop_def r1_def r_def intro!: exI [of _ bid])
qed

definition sample_MAR :: request where
  "sample_MAR = (sample_EAR 8) \<lparr> req_header := Header RANK_HEADER_VERSION MessageType.MAR 77 \<rparr>"

definition sample_invited :: handler where
  "sample_invited = hand_over (MAR_msg sample_MAR) ([1], Simulation) (Handler_execute (Handler_new 0 77))"

theorem invitation_answered_with_bid_witness:
  "\<exists>h' w' a. Handler_round sample_config (sample_invited, world_init) = Inr (h', w')
     \<and> h_state h' = PRE_RESERVED \<and> reservations (w_resources w') = [a]
     \<and> sending_messages (w_dispatcher w') = [(BID_new 77 0x3D000000, [0], Simulation)]
     \<and> w_timeouts w' = [(0, BID)]"
proof -
  have inv: "invited sample_config sample_invited world_init sample_MAR (cpu_requirements [4])"
    using sample_first_request [of 8]
    by (simp add: invited_def first_request_def sample_invited_def hand_over_def cast_message_def Message_type_def
        mark_source_def Handler_execute_def Handler_new_def sample_MAR_def Header_def MAR_requirements_def
        EAR_requirements_def)
  have h: "h_source sample_invited = ([1], Simulation)" "h_uuid sample_invited = 77" "h_this sample_invited = 0"
    "req_priority sample_MAR = 5" "cfg_connections sample_config 1 = (1, 0) # [(3, 2)]"
    "cfg_to_float sample_config x = 0x3D000000" for x
    by (simp_all add: sample_invited_def hand_over_def Message_type_def mark_source_def sample_MAR_def Header_def
        Handler_execute_def Handler_new_def) (simp_all add: sample_config_def)
  from invitation_answered_with_bid [OF inv _ _ h(5), of "[]"] show ?thesis
    using h(1-4,6) sample_admissible by (auto simp: world_init_def Resources_init_def)
qed

theorem handler_transitions_witness:
  "\<exists>h' w'. Handler_round sample_config ((sample_answered (ACC_new 77)) \<lparr> h_state := RESERVED \<rparr>, world_init) = Inr (h', w')
     \<and> leads_to ACC RESERVED (h_state h') \<and> \<not> h_running h'"
proof -
  let ?h = "(sample_answered (ACC_new 77)) \<lparr> h_state := RESERVED \<rparr>"
  have h: "h_running ?h" "h_auction ?h = NotWaiting" "h_message ?h = Some (ACC_new 77)" "h_state ?h = RESERVED"
    "Message_type (ACC_new 77) = ACC" "known_type (ACC_new 77)"
    by (simp_all add: sample_answered_def hand_over_def ACC_new_def Message_type_def Header_def cast_message_def
        mark_source_def mark_accepting_node_def Handler_execute_def Handler_new_def known_type_def)
  have "Handler_preamble sample_config (?h, world_init) = Inr (?h \<lparr> h_reservation := None \<rparr>, world_init)"
    by (rule preamble_fresh) (simp add: timestamp_free_def world_init_def Resources_init_def)
  then have "\<exists>h' w'. Handler_round sample_config (?h, world_init) = Inr (h', w')"
    using h(1-5) by (simp add: Handler_round_def Handler_switch_def Handler_ACC_def finish_def stop_def)
  then obtain h' w' where r: "Handler_round sample_config (?h, world_init) = Inr (h', w')"
    by blast
  from handler_transitions [OF r h(1-3,6)] show ?thesis
    using r h(4,5) by auto
qed

end
