(* ===== verification/Dispatching.thy ===== *)
theory Dispatching
  imports Sessions
begin

text \<open>
  What the process decides about a message (\<open>Process::operator()\<close>), what the timers undo, which
  connections a session uses, and the invariant of the whole node.
\<close>

section \<open>Timers\<close>

lemma replenish_at:
  assumes "reservations R = as @ a # bs" "uuid_free R (rsv_uuid r) as" "a \<notin> set as"
    and "heap R a = Some r" "rsv_state r \<in> {ReservationState.RESERVED, ReservationState.PRE_RESERVED}"
  shows "replenish_reservation (Some a) R = Inr (R \<lparr> heap := (heap R)(a := None), reservations := as @ bs \<rparr>)"
  using assms find_skip [OF assms(2), of "a # bs"]
  by (auto simp: replenish_reservation_def replenish_def store_at_def remove1_append)

text \<open>
  C26. A timer for an answer rolls a pre-reservation back: when it expires and the session is still
  pre-reserved, the reservation leaves the pool and its memory is freed, no other reservation is
  touched, the bids are forgotten and the session is closed.
\<close>
theorem timeout_rolls_back:
  assumes "t \<in> {EAR, MAR, BID}" "w_handlers w i = Some h" "h_state h = PRE_RESERVED" "h_reservation h = Some a"
    and "reservations (w_resources w) = as @ a # bs" "a \<notin> set as"
    and "uuid_free (w_resources w) (rsv_uuid r) as"
    and "heap (w_resources w) a = Some r" "rsv_state r = ReservationState.PRE_RESERVED"
  shows "\<exists>w' h'. fire_timeout i t w = Inr w' \<and> w_handlers w' i = Some h' \<and> h_state h' = CLOSED \<and> h_bids h' = []
    \<and> reservations (w_resources w') = as @ bs
    \<and> heap (w_resources w') = (heap (w_resources w))(a := None)
    \<and> w_timeouts w' = remove1 (i, t) (w_timeouts w)"
  using assms replenish_at [OF assms(5,7,6,8)]
  by (auto simp: fire_timeout_def handler_ref_def on_ear_timeout_def on_mar_timeout_def on_bid_timeout_def
      rollback_due_def release_def put_handler_def)

definition sample_timed :: world where
  "sample_timed = world_init \<lparr> w_resources := sample_entry_pool, w_timeouts := [(0, EAR)],
     w_handlers := [0 \<mapsto> (sample_answered (ACC_new 77)) \<lparr> h_reservation := Some 0 \<rparr>] \<rparr>"

theorem timeout_rolls_back_witness:
  "\<exists>w' h'. fire_timeout 0 EAR sample_timed = Inr w' \<and> w_handlers w' 0 = Some h' \<and> h_state h' = CLOSED
     \<and> reservations (w_resources w') = [] \<and> w_timeouts w' = []"
  using timeout_rolls_back [of EAR sample_timed 0 "(sample_answered (ACC_new 77)) \<lparr> h_reservation := Some 0 \<rparr>" 0 "[]" "[]" sample_entry]
  by (auto simp: sample_timed_def sample_answered_def uuid_free_def)

text \<open>
  A timer that expires after the session was reserved or closed changes nothing but the list of
  running timers: a confirmed reservation is never taken back by the timers of the request.
\<close>
lemma timeout_spares_reserved:
  assumes "t \<in> {EAR, MAR, BID}" "w_handlers w i = Some h" "h_state h \<in> {RESERVED, CLOSED}"
  shows "fire_timeout i t w = Inr (w \<lparr> w_timeouts := remove1 (i, t) (w_timeouts w) \<rparr>)"
proof -
  have "(w_handlers w)(i \<mapsto> h) = w_handlers w"
    using assms(2) by auto
  then show ?thesis
    using assms
    by (auto simp: fire_timeout_def handler_ref_def on_ear_timeout_def on_mar_timeout_def on_bid_timeout_def
        rollback_due_def put_handler_def)
qed

text \<open>
  What the two notifications of an auction do to a session that is already waiting.  The code
  takes a mutex before it waits and unlocks it from the thread that notifies, which does not own
  it; the condition variable has no predicate, so that a notification before the wait is lost.
  The lemma is about the counters alone: the timer and the poll after the last expected bid
  notify whoever waits by then.
\<close>
lemma notified_when_waiting:
  assumes "h_auction h = Waiting"
    and "h_arriving_bids h + word_of_nat (length bids) = h_waiting_bids h"
  shows "h_auction (on_auct_timeout h) = Notified
    \<and> (let h' = fold (\<lambda>(v, n). new_bid v n) bids h in
       fst (AUCTTimeout_rounds (Suc k) h') \<and> h_auction (snd (AUCTTimeout_rounds (Suc k) h')) = Notified
       \<and> h_state h' = h_state h)"
proof -
  let ?h = "fold (\<lambda>(v, n). new_bid v n) bids h"
  have f: "h_arriving_bids (fold (\<lambda>(v, n). new_bid v n) bids h) = h_arriving_bids h + word_of_nat (length bids)
     \<and> h_waiting_bids (fold (\<lambda>(v, n). new_bid v n) bids h) = h_waiting_bids h
     \<and> h_auction (fold (\<lambda>(v, n). new_bid v n) bids h) = h_auction h
     \<and> h_state (fold (\<lambda>(v, n). new_bid v n) bids h) = h_state h" for h bids
    by (induction bids arbitrary: h) (auto simp: new_bid_def)
  have "all_bids_arrived ?h = (True, ?h \<lparr> h_auction := Notified \<rparr>)"
    using f assms by (simp add: all_bids_arrived_def notify_auction_def)
  moreover have "h_auction (on_auct_timeout h) = Notified"
    using assms(1) by (simp add: on_auct_timeout_def all_bids_arrived_def notify_auction_def)
  ultimately show ?thesis
    using f by (simp add: Let_def)
qed

section \<open>Connections\<close>

lemma min_depth_filter_eq:
  "min_depth_filter k cs = map (\<lambda>i. ([snd (cs ! i)], Simulation))
     (filter (\<lambda>i. fst (cs ! i) \<le> k \<and> (\<forall>j < i. fst (cs ! i) \<le> fst (cs ! j))) [0..<length cs])"
proof (induction k cs rule: min_depth_filter.induct)
  case (2 k d l cs)
  let ?k = "if d < k then d else k" and ?cs = "(d, l) # cs"
  define P where "P i \<longleftrightarrow> fst (?cs ! i) \<le> k \<and> (\<forall>j < i. fst (?cs ! i) \<le> fst (?cs ! j))" for i
  have P0: "P 0 \<longleftrightarrow> d = ?k"
    by (auto simp: P_def)
  have PS: "P (Suc i) \<longleftrightarrow> fst (cs ! i) \<le> ?k \<and> (\<forall>j < i. fst (cs ! i) \<le> fst (cs ! j))" for i
    by (auto simp: P_def less_Suc_eq_0_disj)
  have "filter P [0..<Suc n] = (if P 0 then [0] else []) @ map Suc (filter (\<lambda>i. P (Suc i)) [0..<n])" for n
    by (simp add: upt_conv_Cons map_Suc_upt [symmetric] filter_map comp_def del: upt_Suc)
  then have "map (\<lambda>i. ([snd (?cs ! i)], Simulation)) (filter P [0..<length ?cs]) = min_depth_filter k ?cs"
    using 2 by (simp add: P0 PS comp_def Let_def del: upt_Suc)
  then show ?case
    unfolding P_def by simp
qed simp

lemma byte_le_255: "(x :: byte) \<le> 255"
proof -
  have "(255 :: byte) = - 1" by simp
  then show ?thesis by (metis word_order.extremum)
qed

text \<open>
  Which connections a session considers: those that are no deeper than any listed before them,
  in the order of the list.  The search for the least depth keeps what it collected before it
  found a smaller depth.
\<close>
lemma connections_are_running_minima:
  "connections_to_target C tgt = map (\<lambda>i. ([snd (cfg_connections C tgt ! i)], Simulation))
     (filter (\<lambda>i. list_all (\<lambda>j. fst (cfg_connections C tgt ! i) \<le> fst (cfg_connections C tgt ! j)) [0..<i])
       [0..<length (cfg_connections C tgt)])"
  by (simp add: connections_to_target_def get_connections_to_def min_depth_filter_eq byte_le_255
      list_all_iff Ball_def)

text \<open>
  The connection replies are sent over is the first the simulator lists, however deep it is:
  a node with a direct connection listed second answers over the first.
\<close>
lemma first_connection_always_kept:
  assumes "cfg_connections C tgt = (d, l) # cs"
  shows "\<exists>rest. connections_to_target C tgt = ([l], Simulation) # rest"
proof -
  have "(if d < 255 then d else 255) = d"
    using byte_le_255 [of d] by (cases "d < 255") auto
  then show ?thesis
    using assms by (simp add: connections_to_target_def get_connections_to_def Let_def)
qed

section \<open>Decisions of the process\<close>

lemma related_uuids_Nil:
  "related_uuids L u w = [] \<longleftrightarrow> \<not> store_contains_uuids_related_to L u w"
  by (auto simp: related_uuids_def store_contains_uuids_related_to_def filter_empty_conv list_ex_iff)

lemma dispatch_unknown:
  assumes "related_uuids (cfg_ulid C) (Message_uuid m) w = []"
    and "case m of EAR_msg r \<Rightarrow> hdr_type (req_header r) = MessageType.EAR
           \<and> req_listener_length r = LT_CODE_0 \<and> req_listener r \<noteq> []
         | MAR_msg r \<Rightarrow> hdr_type (req_header r) = MessageType.MAR | _ \<Rightarrow> False"
  shows "dispatch C m src w = Inr (w \<lparr>
      w_handlers := (w_handlers w)(w_next_handler w \<mapsto> (Handler_new (w_next_handler w) (Message_uuid m))
        \<lparr> h_running := True, h_source := src, h_message := Some m \<rparr>),
      w_next_handler := Suc (w_next_handler w),
      w_store := map_assign (Message_uuid m) (w_next_handler w)
        (map_assign (Message_uuid m) (w_next_handler w) (w_store w)) \<rparr>)"
proof -
  have "classify_message C m w = Inr (False, req_payload_length (case m of EAR_msg r \<Rightarrow> r) \<noteq> 0 \<or> Message_type m = MessageType.MAR)
    \<or> classify_message C m w = Inr (False, True)"
    using assms by (cases m) (auto simp: classify_message_def Message_type_def EAR_listener_def related_uuids_Nil
        vec_at_def)
  then obtain rq where "classify_message C m w = Inr (False, rq)"
    by blast
  moreover have "hand_over m src h = (mark_source src h) \<lparr> h_message := Some m \<rparr>" for h
    using assms(2) by (cases m) (auto simp: hand_over_def cast_message_def Message_type_def)
  ultimately show ?thesis
    using assms(1)
    by (simp add: dispatch_def select_handler_def request_is_known_def Process_is_uuid_in_store_def new_request_def
        create_handler_def change_handler_def handler_ref_def put_handler_def mark_source_def Handler_execute_def
        Handler_new_def Let_def)
qed

text \<open>
  C27. In a node that satisfies the invariant of the reachable ones, a request whose timestamp the
  store does not know starts a session.  The handler gets an address no handler has; it is in the
  state \<open>READY\<close>, has no reservation and no bids, runs, and has the source and the message of the
  request.  The store leads from the identifier of the request to it and is otherwise
  unchanged, the next address follows, and everything else of the node is what it was: the pool,
  the queues, the timers, the translations, the origins, the drawn identifiers.
\<close>
theorem unknown_request_starts_session:
  assumes "world_wf w" "related_uuids (cfg_ulid C) (Message_uuid m) w = []"
    and "case m of EAR_msg r \<Rightarrow> hdr_type (req_header r) = MessageType.EAR
           \<and> req_listener_length r = LT_CODE_0 \<and> req_listener r \<noteq> []
         | MAR_msg r \<Rightarrow> hdr_type (req_header r) = MessageType.MAR | _ \<Rightarrow> False"
  shows "\<exists>w' h. dispatch C m src w = Inr w'
    \<and> w_handlers w (w_next_handler w) = None \<and> w_next_handler w' = Suc (w_next_handler w)
    \<and> w_handlers w' = (w_handlers w)(w_next_handler w \<mapsto> h)
    \<and> map_of (w_store w') = (map_of (w_store w))(Message_uuid m \<mapsto> w_next_handler w)
    \<and> h_this h = w_next_handler w \<and> h_uuid h = Message_uuid m \<and> h_state h = READY \<and> h_running h
    \<and> h_message h = Some m \<and> h_source h = src \<and> h_reservation h = None \<and> h_bids h = []
    \<and> w_resources w' = w_resources w \<and> w_dispatcher w' = w_dispatcher w \<and> w_timeouts w' = w_timeouts w
    \<and> w_translations w' = w_translations w \<and> w_origins w' = w_origins w \<and> w_draws w' = w_draws w"
proof -
  have "w_handlers w (w_next_handler w) = None"
    using assms(1) by (cases "w_handlers w (w_next_handler w)") (auto simp: world_wf_def)
  moreover have "std_map_wf (w_store w)"
    using assms(1) by (simp add: world_wf_def world_maps_wf_def)
  ultimately show ?thesis
    by (simp add: dispatch_unknown [OF assms(2,3)] Handler_new_def) (rule exI, rule conjI, rule refl, simp)
qed

theorem unknown_request_starts_session_witness:
  "\<exists>w' h. dispatch sample_config (EAR_msg (sample_EAR 8)) ([1], Simulation) world_init = Inr w'
     \<and> w_handlers w' = [0 \<mapsto> h] \<and> h_state h = READY \<and> h_running h \<and> map_of (w_store w') = [77 \<mapsto> 0]
     \<and> w_next_handler w' = 1"
proof -
  have "related_uuids (cfg_ulid sample_config) (Message_uuid (EAR_msg (sample_EAR 8))) world_init = []"
    by (simp add: related_uuids_def world_init_def)
  from unknown_request_starts_session [OF world_wf_init this, of "([1], Simulation)"] show ?thesis
    by (auto simp: world_init_def sample_EAR_def Header_def Message_uuid_def)
qed

text \<open>
  C28. A request for an identifier whose timestamp is already in the store is a duplicate: an EAR with
  a payload and a MAR are dropped and leave the node as it was.
\<close>
theorem duplicate_request_ignored:
  assumes "related_uuids (cfg_ulid C) (Message_uuid m) w \<noteq> []"
    and "case m of EAR_msg r \<Rightarrow> hdr_type (req_header r) = MessageType.EAR \<and> req_payload_length r \<noteq> 0
           \<and> req_listener_length r = LT_CODE_0 \<and> req_listener r \<noteq> []
         | MAR_msg r \<Rightarrow> hdr_type (req_header r) = MessageType.MAR | _ \<Rightarrow> False"
  shows "dispatch C m src w = Inr w"
proof -
  obtain l where "classify_message C m w = Inr (l, True)"
    using assms(2) by (cases m) (auto simp: classify_message_def Message_type_def EAR_listener_def vec_at_def)
  then show ?thesis
    using assms(1) by (simp add: dispatch_def Let_def)
qed

theorem duplicate_request_ignored_witness:
  "dispatch sample_config (EAR_msg (sample_EAR 8)) ([2], Simulation) sample_world = Inr sample_world"
proof (rule duplicate_request_ignored)
  show "related_uuids (cfg_ulid sample_config) (Message_uuid (EAR_msg (sample_EAR 8))) sample_world \<noteq> []"
    by (simp add: related_uuids_def sample_world_def create_handler_def world_init_def Let_def map_assign_def
        map_erase_def sample_EAR_def Header_def Message_uuid_def)
qed (simp add: sample_EAR_def Header_def sample_payload_def cbor_text_def requirements_key_def)

text \<open>
  A closed session stays closed: whatever message that is not a request arrives for the
  identifier, the process drops it and the node is unchanged (the identifier being the only one
  of its timestamp in the store and not of local origin).
\<close>
lemma closed_session_discards:
  assumes "related_uuids (cfg_ulid C) (Message_uuid m) w = [Message_uuid m]"
    and "map_of (w_store w) (Message_uuid m) = Some a" "w_handlers w a = Some h"
    and "h_state h = CLOSED" "\<not> h_running h"
    and "\<not> is_origin_of (cfg_ulid C) (Message_uuid m) w"
    and "Message_type m \<in> {MessageType.BID, ACC, REF, MessageType.REP}"
  shows "dispatch C m src w = Inr w"
proof -
  have "classify_message C m w = Inr (False, False)"
    using assms(7) by (auto simp: classify_message_def)
  then show ?thesis
    using assms
    by (simp add: dispatch_def select_handler_def request_is_known_def Process_is_uuid_in_store_def Let_def
        known_request_def map_at_def handler_ref_def get_handler_def discards_def)
qed

text \<open>
  The origin of a request: once marked, and until removed, the node is the origin of the
  identifier, but the process identifier of the client comes back modulo 256.
\<close>
lemma origin_keeps_pid_modulo_256:
  assumes "std_map_wf (w_origins w)" "\<not> am_i_origin_for u w"
  shows "am_i_origin_for u (mark_origin u pid w) \<and> get_pid_on_origin u (mark_origin u pid w) = Inr (uint pid mod 256)
    \<and> (let (removed, w') = remove_as_origin u (mark_origin u pid w) in removed \<and> \<not> am_i_origin_for u w')"
proof -
  have "uint (ucast pid :: byte) = uint pid mod 256"
    by (simp add: unsigned_ucast_eq take_bit_eq_mod)
  moreover have "map_of (w_origins w) u = None"
    using assms(2) by (auto simp: am_i_origin_for_def)
  ultimately show ?thesis
    using assms(1) by (auto simp: am_i_origin_for_def mark_origin_def get_pid_on_origin_def remove_as_origin_def)
qed

section \<open>Translated identifiers\<close>

text \<open>What the ULID library documents of encoding a time: its 48 low bits come first.\<close>

definition encode_time_ok :: "node_config \<Rightarrow> bool" where
  "encode_time_ok C \<longleftrightarrow>
     (\<forall>t k. take 6 (MarshalBinary (cfg_ulid C) (cfg_EncodeTime C t k)) = be_bytes 6 t)"

lemma be_bytes_push:
  "n < 8 \<Longrightarrow> be_bytes (Suc n) (push_bit 8 t OR ucast (b :: byte) :: size_t) = be_bytes n t @ [b]"
proof (induction n)
  case 0
  have "ucast (push_bit 8 t OR ucast b :: size_t) = b"
    by (rule bit_word_eqI) (auto simp: bit_simps simp del: push_bit_numeral)
  then show ?case
    by (simp del: push_bit_numeral)
next
  case (Suc n)
  have "ucast (drop_bit (8 * Suc n) (push_bit 8 t OR ucast b :: size_t)) = (ucast (drop_bit (8 * n) t) :: byte)"
    using Suc.prems by (intro bit_word_eqI) (auto simp: bit_simps ac_simps dest: bit_imp_le_length)
  with Suc show ?case
    by simp
qed

lemma be_bytes_shift:
  "length bs \<le> 8 \<Longrightarrow> be_bytes (length bs) (fold (\<lambda>b t. push_bit 8 t OR ucast b) bs (x :: size_t)) = bs"
  by (induction bs rule: rev_induct) (simp_all add: be_bytes_push del: be_bytes.simps(2))

lemma create_translation_timestamp:
  assumes "ulid_ok (cfg_ulid C)" "encode_time_ok C"
  shows "is_same_timestamp (cfg_ulid C) (fst (create_translation C u w)) u"
proof -
  have "length (take 6 (marshall_into_vector (cfg_ulid C) u)) = 6"
    using assms(1) by simp
  then show ?thesis
    using assms(2) be_bytes_shift [of "take 6 (marshall_into_vector (cfg_ulid C) u)"]
    by (simp add: is_same_timestamp_def create_translation_def generate_new_uuid_with_def marshall_into_vector_def
        encode_time_ok_def translation_timestamp_def)
qed

text \<open>
  An identifier drawn for a tie keeps the timestamp of the identifier it stands for, whatever
  the uninitialised variable contained: store and pool, which search by timestamp, find the
  session and the reservation of the original under it.
\<close>
lemma translation_keeps_timestamp:
  assumes "ulid_ok (cfg_ulid C)" "encode_time_ok C"
  shows "is_same_timestamp (cfg_ulid C) (fst (create_translation C u w)) u"
  using assms by (rule create_translation_timestamp)

lemma sample_encode_time_ok: "encode_time_ok sample_config"
proof -
  have "ucast (drop_bit (80 + 8 * n) (push_bit 80 (ucast t) OR take_bit 80 x :: UUIDv4)) = (ucast (drop_bit (8 * n) t) :: byte)"
    if "n < 6" for n x and t :: size_t
    using that by (intro bit_word_eqI) (auto simp: bit_simps ac_simps dest: bit_imp_le_length)
  from this [of 0] this [of 1] this [of 2] this [of 3] this [of 4] this [of 5] show ?thesis
    by (simp add: encode_time_ok_def sample_config_def ulid_spec_def eval_nat_numeral del: push_bit_numeral)
qed

section \<open>The node\<close>

text \<open>
  C1. Whatever the threads of a node do, in whatever order (messages received, requests of the
  client, rounds of the process, of the handlers, of the sender and of the metrics, timers that
  expire or poll), from the start of the node on: the store and the pending timers name existing
  handlers only, the pool is well-formed, the tables are maps, and a session that waits for
  bids is marked as running, so that the process adds arriving bids to it.
\<close>
theorem node_invariant:
  assumes "(node_step C)\<^sup>*\<^sup>* world_init w"
  shows "list_all (\<lambda>(u, a). \<exists>h. w_handlers w a = Some h \<and> h_this h = a) (w_store w)
    \<and> list_all (\<lambda>(a, t). w_handlers w a \<noteq> None) (w_timeouts w)
    \<and> resources_wf (w_resources w) \<and> std_map_wf (w_store w) \<and> std_map_wf (w_translations w)
    \<and> std_map_wf (w_origins w)
    \<and> (w_handlers w a = Some h \<longrightarrow> a < w_next_handler w \<and> (h_auction h \<noteq> NotWaiting \<longrightarrow> h_running h))"
proof -
  have wf: "world_wf w"
    using node.run_safe [OF assms world_wf_init] .
  then have "list_all (\<lambda>(u, a). \<exists>h. w_handlers w a = Some h \<and> h_this h = a) (w_store w)"
    by (auto simp: list_all_iff dest: world_wf_store_live world_wf_handler simp: handler_ok_def)
      (metis handler_ok_def world_wf_handler world_wf_store_live)
  with wf show ?thesis
    by (auto simp: world_wf_def world_maps_wf_def live_refs_def handler_ok_def list_all_iff)
qed

theorem node_invariant_witness:
  "let w = world_init \<lparr> w_dispatcher := enqueue_item (EAR_msg (sample_EAR 8), [1], Simulation) (w_dispatcher world_init) \<rparr>
   in \<exists>w'. (node_step sample_config)\<^sup>*\<^sup>* world_init w' \<and> map_of (w_store w') 77 = Some 0
        \<and> (\<exists>h. w_handlers w' 0 = Some h \<and> h_this h = 0)"
proof -
  let ?w = "world_init \<lparr> w_dispatcher := enqueue_item (EAR_msg (sample_EAR 8), [1], Simulation) (w_dispatcher world_init) \<rparr>"
  let ?m = "EAR_msg (sample_EAR 8)"
  have d: "Process_round sample_config ?w = dispatch sample_config ?m ([1], Simulation) world_init"
    by (simp add: Process_round_def receiving_queue_is_empty_def dequeue_item_def enqueue_item_def world_init_def)
  have u: "Message_uuid ?m = 77"
    by (simp add: sample_EAR_def Header_def Message_uuid_def)
  obtain w' where w': "dispatch sample_config ?m ([1], Simulation) world_init = Inr w'"
    "map_of (w_store w') = [77 \<mapsto> 0]"
    using dispatch_unknown [of sample_config ?m world_init "([1], Simulation)"] u
    by (auto simp: related_uuids_def world_init_def sample_EAR_def Header_def map_assign_def map_erase_def)
  have "node_step sample_config world_init ?w"
    by (rule node_step.receive)
  moreover have "node_step sample_config ?w w'"
    using d w'(1) by (intro node_step.process) simp
  ultimately have "(node_step sample_config)\<^sup>*\<^sup>* world_init w'"
    by (rule rtranclp.rtrancl_into_rtrancl [OF r_into_rtranclp])
  moreover from node_invariant [OF this, where a = 0 and h = "Handler_new 0 77"]
  have "\<exists>h. w_handlers w' 0 = Some h \<and> h_this h = 0"
    using map_of_SomeD [of "w_store w'" 77 0] w'(2) by (fastforce simp: list_all_iff)
  ultimately show ?thesis
    using w'(2) by auto
qed

end
