(* ===== verification/Session_Spec.thy ===== *)
theory Session_Spec
  imports Dispatching
begin

text \<open>
  What a session looks like from outside, as an abstract machine, and the proof that every
  interleaving of the threads of a node refines it.  The refinement rests on an invariant of
  the tables: the store has at most one session per timestamp, so that the session the main
  loop looked up and the session it resumes are the same.
\<close>

section \<open>One session per request\<close>

definition timestamp :: "ulid_lib \<Rightarrow> UUIDv4 \<Rightarrow> byte list" where
  "timestamp L u = take 6 (marshall_into_vector L u)"

lemma same_timestamp: "is_same_timestamp L u v \<longleftrightarrow> timestamp L u = timestamp L v"
  by (simp add: is_same_timestamp_def timestamp_def)

definition store_keys :: "world \<Rightarrow> UUIDv4 set" where
  "store_keys w = fst ` set (w_store w)"

definition tables_ok :: "ulid_lib \<Rightarrow> world \<Rightarrow> bool" where
  "tables_ok L w \<longleftrightarrow>
     inj_on (timestamp L) (store_keys w)
     \<and> (\<forall>(v, u) \<in> set (w_translations w). timestamp L v = timestamp L u)"

definition tables :: "session \<Rightarrow> (UUIDv4, haddr) std_map \<times> (UUIDv4, UUIDv4) std_map" where
  "tables s = (w_store (snd s), w_translations (snd s))"

lemma tables_ok_keep: "tables s' = tables s \<Longrightarrow> tables_ok L (snd s) \<Longrightarrow> tables_ok L (snd s')"
  by (simp add: tables_ok_def tables_def store_keys_def)

lemma inj_on_replace:
  assumes "inj_on f K" "u \<in> K" "f v = f u" "K' \<subseteq> insert v (K - {u})"
  shows "inj_on f K'"
proof (rule inj_on_subset [OF _ assms(4)])
  have "f v \<notin> f ` (K - {u})"
    using assms(1-3) by (auto dest: inj_onD)
  then show "inj_on f (insert v (K - {u}))"
    using assms(1) by (auto intro: inj_on_subset [OF assms(1)])
qed

named_theorems keeps_tables

lemma snd_simps [simp]:
  "snd (set_state st s) = snd s" "snd (set_reservation p s) = snd s" "snd (stop s) = snd s"
  by (simp_all add: set_state_def set_reservation_def stop_def)

lemma tables_simps [simp]:
  "tables (set_state st s) = tables s"
  "tables (set_reservation p s) = tables s"
  "tables (set_resources R s) = tables s"
  "tables (stop s) = tables s"
  "tables (start_timeout t s) = tables s"
  "tables (open_auction k s) = tables s"
  "tables (h, snd s) = tables s"
  by (simp_all add: tables_def set_state_def set_reservation_def set_resources_def stop_def
      start_timeout_def initiate_timeout_def open_auction_def)

lemma keeps_tables_steps [keeps_tables]:
  "send_message m t ty s = Inr s' \<Longrightarrow> tables s' = tables s"
  "change_reservation f s = Inr s' \<Longrightarrow> tables s' = tables s"
  "mark_reserved_here s = Inr s' \<Longrightarrow> tables s' = tables s"
  "mark_pre_reserved_here s = Inr s' \<Longrightarrow> tables s' = tables s"
  "available C p s = Inr (q, s') \<Longrightarrow> tables s' = tables s"
  "produce_reservation c p l s = Inr s' \<Longrightarrow> tables s' = tables s"
  "Handler_preamble C s = Inr s' \<Longrightarrow> tables s' = tables s"
  by (auto simp: send_message_def change_reservation_def mark_reserved_here_def mark_pre_reserved_here_def
      available_def produce_reservation_def Handler_preamble_def Let_def new_reservation_def
      split: if_split_asm) (simp add: tables_def)

lemma fold_keeps_tables:
  "fold_res f xs s = Inr s' \<Longrightarrow> (\<And>x s s'. f x s = Inr s' \<Longrightarrow> tables s' = tables s) \<Longrightarrow> tables s' = tables s"
  using fold_res_inv [of xs "\<lambda>t. tables t = tables s" f s s'] by metis

lemma keeps_tables_messages [keeps_tables]:
  "reply_on_connection C m s = Inr s' \<Longrightarrow> tables s' = tables s"
  "forward_EAR C c s = Inr s' \<Longrightarrow> tables s' = tables s"
  "forward_MAR C c s = Inr s' \<Longrightarrow> tables s' = tables s"
  "REP_towards C m d s = Inr s' \<Longrightarrow> tables s' = tables s"
  "award C u x s = Inr s' \<Longrightarrow> tables s' = tables s"
  by (auto simp: reply_on_connection_def forward_EAR_def forward_MAR_def REP_towards_def award_def Let_def
      split: prod.split_asm dest!: keeps_tables_steps)

lemma keeps_tables_folds [keeps_tables]:
  "fold_res (forward_MAR C) cs s = Inr s' \<Longrightarrow> tables s' = tables s"
  "fold_res (REP_towards C m) ns s = Inr s' \<Longrightarrow> tables s' = tables s"
  by (erule fold_keeps_tables, erule keeps_tables_messages)+

lemma keeps_tables_produce:
  "EAR_produce C m l s = Inr s' \<Longrightarrow> tables s' = tables s"
  "MAR_produce C m l s = Inr s' \<Longrightarrow> tables s' = tables s"
  by (auto simp: EAR_produce_def MAR_produce_def split: if_split_asm dest!: keeps_tables)

lemma keeps_tables_identify [keeps_tables]:
  "EAR_identify C m l s = Inr (r, s') \<Longrightarrow> tables s' = tables s"
  "MAR_assess C m l s = Inr (Some s') \<Longrightarrow> tables s' = tables s"
  by (auto simp: EAR_identify_def MAR_assess_def split: if_split_asm dest!: keeps_tables_produce)

lemma keeps_tables_EAR_forward [keeps_tables]: "EAR_forward C m l s = Inr (c, s') \<Longrightarrow> tables s' = tables s"
  by (auto simp: EAR_forward_def Let_def split: if_split_asm
      dest!: keeps_tables)

lemma keeps_tables_handlers [keeps_tables]:
  "Handler_EAR C m s = Inr (c, s') \<Longrightarrow> tables s' = tables s"
  "Handler_MAR C r s = Inr (c, s') \<Longrightarrow> tables s' = tables s"
  "Handler_BID b s = Inr (c, s') \<Longrightarrow> tables s' = tables s"
  "Handler_REP C q s = Inr (c, s') \<Longrightarrow> tables s' = tables s"
  "ACC_pass_on C s = Inr (c, s') \<Longrightarrow> tables s' = tables s"
  "REF_pass_on C s = Inr (c, s') \<Longrightarrow> tables s' = tables s"
  subgoal
    by (auto simp: Handler_EAR_def EAR_as_listener_def EAR_unknown_bid_def EAR_known_bid_def Let_def
        split: if_split_asm option.split_asm dest!: keeps_tables)
  subgoal
    by (auto simp: Handler_MAR_def MAR_bid_def MAR_no_bid_def Let_def split: if_split_asm option.split_asm
        dest!: keeps_tables)
  subgoal
    by (auto simp: Handler_BID_def Let_def start_timeout_def initiate_timeout_def tables_def
        split: if_split_asm)
  subgoal
    by (auto simp: Handler_REP_def Let_def split: if_split_asm
        dest!: keeps_tables)
  subgoal
    by (auto simp: ACC_pass_on_def split: option.split_asm dest!: keeps_tables)
  subgoal
    by (auto simp: REF_pass_on_def split: option.split_asm dest!: keeps_tables)
  done

text \<open>What the libraries promise, as far as the tables depend on it.\<close>

definition libs_ok :: "node_config \<Rightarrow> bool" where
  "libs_ok C \<longleftrightarrow> ulid_ok (cfg_ulid C) \<and> encode_time_ok C"

lemma timestamp_translation:
  "libs_ok C \<Longrightarrow> timestamp (cfg_ulid C) (fst (create_translation C u w)) = timestamp (cfg_ulid C) u"
  using create_translation_timestamp by (simp add: libs_ok_def same_timestamp)

lemma tables_ok_create_translation:
  assumes "libs_ok C" "tables_ok (cfg_ulid C) w"
  shows "tables_ok (cfg_ulid C) (snd (create_translation C u w))"
proof -
  let ?v = "fst (create_translation C u w)" and ?w = "snd (create_translation C u w)"
  have "set (w_translations ?w) \<subseteq> insert (?v, u) (set (w_translations w))"
    using set_map_insert_subset [of ?v u "w_translations w"]
    by (auto simp: create_translation_def generate_new_uuid_with_def)
  moreover have "w_store ?w = w_store w"
    by (simp add: create_translation_def generate_new_uuid_with_def)
  moreover have "timestamp (cfg_ulid C) ?v = timestamp (cfg_ulid C) u"
    using assms(1) by (rule timestamp_translation)
  ultimately show ?thesis
    using assms(2) by (auto simp: tables_ok_def store_keys_def)
qed

lemma tables_ok_award_translated:
  assumes "award_translated C x s = Inr s'" "libs_ok C" "tables_ok (cfg_ulid C) (snd s)"
  shows "tables_ok (cfg_ulid C) (snd s')"
proof -
  obtain v w where c: "create_translation C (h_uuid (fst s)) (snd s) = (v, w)"
    and a: "award C v x (fst s, w) = Inr s'"
    using assms(1) by (auto simp: award_translated_def split: prod.split_asm)
  then have "tables_ok (cfg_ulid C) w"
    using tables_ok_create_translation [OF assms(2,3), of "h_uuid (fst s)"] by simp
  then show ?thesis
    using tables_ok_keep [OF keeps_tables_messages(5) [OF a]] by simp
qed

lemma tables_ok_rekey:
  assumes "rekey_store u v w = Inr w'" "timestamp L v = timestamp L u" "tables_ok L w"
  shows "tables_ok L w'"
proof -
  obtain b where b: "(u, b) \<in> set (w_store w)"
    and w': "w' = w \<lparr> w_store := map_insert v b (map_erase u (w_store w)) \<rparr>"
    using assms(1) by (auto simp: rekey_store_def split: option.split_asm dest: map_of_SomeD)
  have "store_keys w' \<subseteq> insert v (store_keys w - {u})"
    using set_map_insert_subset [of v b "map_erase u (w_store w)"]
    unfolding w' store_keys_def by (auto simp: map_erase_def)
  moreover have "u \<in> store_keys w"
    using b by (force simp: store_keys_def)
  ultimately have "inj_on (timestamp L) (store_keys w')"
    using assms(2,3) by (auto simp: tables_ok_def intro: inj_on_replace)
  with assms(3) w' show ?thesis
    by (simp add: tables_ok_def)
qed

lemma original_timestamp:
  assumes "tables_ok L w" "\<not> is_translation_table_empty_for u w" "locate_original_of u w = Inr v"
  shows "timestamp L v = timestamp L u"
proof -
  have "(u, v) \<in> set (w_translations w)"
    using assms(2,3) by (auto simp: locate_original_of_def map_at_def split: option.split_asm dest: map_of_SomeD)
  with assms(1) show ?thesis
    by (auto simp: tables_ok_def)
qed

lemma tables_ok_ACC:
  assumes "Handler_ACC C s = Inr (c, s')" "tables_ok L (snd s)"
  shows "tables_ok L (snd s')"
proof -
  let ?u = "h_uuid (fst s)"
  have pass: "tables_ok L (snd s')" if "ACC_pass_on C t = Inr (c, s')" "tables_ok L (snd t)" for t
    using keeps_tables_handlers(5) [OF that(1)] that(2) by (rule tables_ok_keep)
  have keep: "tables_ok L (snd s')" if "tables s' = tables s"
    using that assms(2) by (rule tables_ok_keep)
  show ?thesis
  proof (cases "h_state (fst s) = RESERVED")
    case False
    then obtain t where t: "mark_reserved_here s = Inr t"
      using assms(1) by (auto simp: Handler_ACC_def)
    then have ok: "tables_ok L (snd t)" "fst t = fst s" "tables t = tables s"
      using tables_ok_keep [OF keeps_tables_steps(3) assms(2)] keeps_handler_steps(4) keeps_tables_steps(3)
      by blast+
    show ?thesis
    proof (cases "is_translation_table_empty_for ?u (snd t)")
      case True
      with assms(1) t ok False show ?thesis
        by (auto simp: Handler_ACC_def Let_def split: if_split_asm intro!: keep
            dest!: keeps_tables_steps(2) keeps_tables_handlers(5))
    next
      case tt: False
      then obtain v w where v: "locate_original_of ?u (snd t) = Inr v"
        and w: "rekey_store ?u v (snd t) = Inr w" and p: "ACC_pass_on C (new_id v (fst t), w) = Inr (c, s')"
        using assms(1) t ok False by (auto simp: Handler_ACC_def Let_def)
      have "tables_ok L w"
        using w original_timestamp [OF ok(1) tt v] ok(1) by (rule tables_ok_rekey)
      with p show ?thesis
        by (auto intro: pass)
    qed
  qed (use assms in \<open>auto simp: Handler_ACC_def intro: keep\<close>)
qed

lemma tables_ok_REF:
  assumes "Handler_REF C s = Inr (c, s')" "tables_ok L (snd s)"
  shows "tables_ok L (snd s')"
proof -
  have pass: "tables_ok L (snd s')" if "REF_pass_on C t = Inr (c, s')" "tables_ok L (snd t)" for t
    using keeps_tables_handlers(6) [OF that(1)] that(2) by (rule tables_ok_keep)
  have erase: "tables_ok L ((snd s) \<lparr> w_translations := map_erase u (w_translations (snd s)) \<rparr>)" for u
    using assms(2) set_map_erase [of u] by (fastforce simp: tables_ok_def store_keys_def)
  have "tables_ok L (snd (remove_as_origin u (snd s)))" for u
    using assms(2) by (simp add: remove_as_origin_def tables_ok_def store_keys_def)
  with assms erase show ?thesis
    by (auto simp: Handler_REF_def Let_def split: if_split_asm intro: pass)
qed

lemma tables_ok_auction_close:
  assumes "auction_close C s = Inr (c, s')" "libs_ok C" "tables_ok (cfg_ulid C) (snd s)"
  shows "tables_ok (cfg_ulid C) (snd s')"
proof -
  let ?ok = "\<lambda>s. tables_ok (cfg_ulid C) (snd s)"
  have start: "?ok ((fst s) \<lparr> h_auction := NotWaiting \<rparr>, snd s)"
    using assms(3) by simp
  have send: "send_message m x ty t = Inr t' \<Longrightarrow> ?ok t \<Longrightarrow> ?ok t'" for m x ty t t'
    by (rule tables_ok_keep [OF keeps_tables_steps(1)])
  have award: "award C u n t = Inr t' \<Longrightarrow> ?ok t \<Longrightarrow> ?ok t'" for u n t t'
    by (rule tables_ok_keep [OF keeps_tables_messages(5)])
  have fold: "fold_res (award_translated C) ns t = Inr t' \<Longrightarrow> ?ok t \<Longrightarrow> ?ok t'" for ns t t'
    by (rule fold_res_inv [of ns ?ok "award_translated C"]) (auto intro: tables_ok_award_translated [OF _ assms(2)])
  show ?thesis
    using assms(1) start unfolding auction_close_def Let_def
    by (auto split: if_split_asm dest!: send award fold)
qed

lemma tables_ok_switch:
  assumes "Handler_switch C m s = Inr (c, s')" "tables_ok L (snd s)"
  shows "tables_ok L (snd s')"
proof -
  have keep: "tables s' = tables s \<Longrightarrow> tables_ok L (snd s')"
    using assms(2) by (rule tables_ok_keep [rotated])
  show ?thesis
    using assms unfolding Handler_switch_def
    by (auto split: MessageType.split_asm Message.split_asm if_split_asm intro: keep keeps_tables_handlers(1-4)
        elim: tables_ok_ACC tables_ok_REF)
qed

lemma tables_ok_round:
  assumes "Handler_round C s = Inr s'" "libs_ok C" "tables_ok (cfg_ulid C) (snd s)"
  shows "tables_ok (cfg_ulid C) (snd s')"
proof -
  have pre: "Handler_preamble C s = Inr t \<Longrightarrow> tables_ok (cfg_ulid C) (snd t)" for t
    using tables_ok_keep [OF keeps_tables_steps(7) assms(3)] .
  show ?thesis
    using assms unfolding Handler_round_def
    by (auto split: if_split_asm auction_position.split_asm option.split_asm
        dest: tables_ok_auction_close dest!: pre tables_ok_switch)
qed

section \<open>The main loop under the invariant\<close>

lemma tables_ok_handlers [simp]:
  "tables_ok L (put_handler a h w) = tables_ok L w"
  "tables_ok L (w \<lparr> w_dispatcher := d \<rparr>) = tables_ok L w"
  "tables_ok L (w \<lparr> w_resources := R \<rparr>) = tables_ok L w"
  "tables_ok L (w \<lparr> w_timeouts := t \<rparr>) = tables_ok L w"
  "tables_ok L (mark_origin u p w) = tables_ok L w"
  by (simp_all add: tables_ok_def store_keys_def put_handler_def mark_origin_def)

lemma tables_ok_change: "change_handler a f w = Inr w' \<Longrightarrow> tables_ok L w \<Longrightarrow> tables_ok L w'"
  by (auto simp: change_handler_def)

lemma store_keys_iff: "u \<in> store_keys w \<longleftrightarrow> (\<exists>a. map_of (w_store w) u = Some a)"
  using dom_map_of_conv_image_fst [of "w_store w"] by (auto simp: store_keys_def)

text \<open>The entry of an identifier that is in the store is the only one of its timestamp.\<close>

lemma related_uuids_known:
  assumes "tables_ok L w" "map_of (w_store w) u = Some a" "uuid \<in> set (related_uuids L u w)"
  shows "uuid = u"
proof -
  have "uuid \<in> store_keys w" "u \<in> store_keys w" "timestamp L uuid = timestamp L u"
    using assms(2,3) by (force simp: related_uuids_def store_keys_def same_timestamp dest: map_of_SomeD)+
  with assms(1) show ?thesis
    by (auto simp: tables_ok_def dest: inj_onD)
qed

lemma get_handler_known:
  assumes "tables_ok L w" "map_of (w_store w) u = Some a"
  shows "get_handler L u t w = Inr (Some a, w)"
proof -
  have "u \<in> set (related_uuids L u w)"
    using assms(2) by (force simp: related_uuids_def dest: map_of_SomeD)
  moreover have "filter (\<lambda>uuid. uuid \<noteq> u) (related_uuids L u w) = []"
    using related_uuids_known [OF assms] by (auto simp: filter_empty_conv)
  ultimately show ?thesis
    using assms(2) by (auto simp: get_handler_def Process_is_uuid_in_store_def map_at_def Let_def)
qed

lemma known_request_eq:
  assumes "tables_ok (cfg_ulid C) w"
  shows "known_request C u m src w =
     and_then (map_at (w_store w) u) (\<lambda>a.
     and_then (handler_ref a w) (\<lambda>h.
       if h_running h then and_then (running_handler a m src w) (\<lambda>w. Inr (None, w))
       else if discards (h_state h) then Inr (None, w)
       else and_then (change_handler a Handler_execute w) (\<lambda>w. Inr (Some a, w))))"
proof (cases "map_of (w_store w) u")
  case (Some a)
  then have "get_handler (cfg_ulid C) u False w = Inr (Some a, w)"
    using assms by (rule get_handler_known [rotated])
  with Some show ?thesis
    by (cases "handler_ref a w"; cases "change_handler a Handler_execute w")
      (auto simp: known_request_def map_at_def Let_def resume_handler_def existing_handler_def)
qed (simp add: known_request_def map_at_def)

section \<open>Sessions seen from outside\<close>

text \<open>What is visible of a session: its state, and whether its thread runs.\<close>

type_synonym phase = "HandlerState \<times> bool"

definition session_view :: "world \<Rightarrow> haddr \<Rightarrow> phase option" where
  "session_view w a = map_option (\<lambda>h. (h_state h, h_running h)) (w_handlers w a)"

text \<open>
  The abstract machine.  A stopped session is resumed unless its state discards messages; a
  running one handles a message, after which it is in a state the type of the message allows
  and has stopped, unless it entered the wait of an auction; the end of an auction stops it;
  and a timer may close it whenever it is not closed.
\<close>

inductive session_spec :: "phase \<Rightarrow> phase \<Rightarrow> bool" where
  resume: "\<not> discards st \<Longrightarrow> session_spec (st, False) (st, True)"
| handle: "leads_to type st st' \<Longrightarrow> type \<noteq> NOTYPE \<Longrightarrow> (\<And>c. type \<noteq> Unlisted c)
    \<Longrightarrow> session_spec (st, True) (st', type = MessageType.BID \<and> st = AUCTION_WAITING)"
| award: "st' \<in> {st, PRE_RESERVED, CLOSED} \<Longrightarrow> session_spec (st, True) (st', False)"
| expire: "st \<noteq> CLOSED \<Longrightarrow> session_spec (st, running) (CLOSED, running)"

inductive_cases session_spec_closedE: "session_spec (CLOSED, False) p"

text \<open>A step of the machine, or none, from one view of a session to the next.\<close>

definition follows :: "(haddr \<Rightarrow> phase option) \<Rightarrow> (haddr \<Rightarrow> phase option) \<Rightarrow> bool" where
  "follows v v' \<longleftrightarrow>
     (\<forall>a p. v a = Some p \<longrightarrow> (\<exists>p'. v' a = Some p' \<and> session_spec\<^sup>=\<^sup>= p p'))
     \<and> (\<forall>a p. v a = None \<longrightarrow> v' a = Some p \<longrightarrow> p = (READY, True))"

lemma follows_refl [simp]: "follows v v"
  by (simp add: follows_def)

lemma follows_update: "v a = Some p \<Longrightarrow> session_spec\<^sup>=\<^sup>= p p' \<Longrightarrow> follows v (v(a \<mapsto> p'))"
  by (cases p') (auto simp: follows_def)

lemma follows_birth: "v a = None \<Longrightarrow> follows v (v(a \<mapsto> (READY, True)))"
  by (auto simp: follows_def)

lemma view_simps [simp]:
  "session_view (w \<lparr> w_store := m \<rparr>) = session_view w"
  "session_view (w \<lparr> w_dispatcher := d \<rparr>) = session_view w"
  "session_view (w \<lparr> w_resources := R \<rparr>) = session_view w"
  "session_view (w \<lparr> w_timeouts := t \<rparr>) = session_view w"
  "session_view (mark_origin u pid w) = session_view w"
  "session_view (put_handler a h w) = (session_view w)(a \<mapsto> (h_state h, h_running h))"
  by (auto simp: session_view_def mark_origin_def put_handler_def)

lemma view_change:
  assumes "change_handler a f w = Inr w'"
    and "\<And>h. h_state (f h) = h_state h \<and> h_running (f h) = h_running h"
  shows "session_view w' = session_view w"
  using assms by (auto simp: change_handler_def handler_ref_Inr session_view_def put_handler_def)

lemma in_store_cases:
  assumes "Process_is_uuid_in_store L u t w = Inr (b, w')"
  obtains "w' = w"
  | a old w1 where "change_handler a (new_id u) w = Inr w1" "old \<in> set (related_uuids L u w)"
      "w' = w1 \<lparr> w_store := map_erase old (map_assign u a (w_store w1)) \<rparr>"
proof -
  let ?uuids = "related_uuids L u w"
  consider "w' = w" | old rest a w1 where "filter (\<lambda>uuid. uuid \<noteq> u) ?uuids = old # rest"
    "change_handler a (new_id u) w = Inr w1"
    "w' = w1 \<lparr> w_store := map_erase old (map_assign u a (w_store w1)) \<rparr>"
    using assms by (cases "filter (\<lambda>uuid. uuid \<noteq> u) ?uuids")
      (auto simp: Process_is_uuid_in_store_def Let_def split: if_split_asm)
  then show ?thesis
  proof cases
    case (2 old rest a w1)
    then have "old \<in> set ?uuids"
      using filter_is_subset [of "\<lambda>uuid. uuid \<noteq> u" ?uuids] by simp
    with 2 show ?thesis
      by (intro that(2))
  qed (rule that(1))
qed

lemma view_in_store:
  assumes "Process_is_uuid_in_store L u t w = Inr (b, w')"
  shows "session_view w' = session_view w"
  using assms
proof (cases rule: in_store_cases)
  case (2 a old w1)
  then show ?thesis
    using view_change [OF 2(1)] by (simp add: new_id_def)
qed simp

lemma tables_ok_in_store:
  assumes "Process_is_uuid_in_store L u t w = Inr (b, w')" "tables_ok L w"
  shows "tables_ok L w'"
  using assms(1)
proof (cases rule: in_store_cases)
  case (2 a old w1)
  have w1: "w_store w1 = w_store w" "w_translations w1 = w_translations w"
    using 2(1) by (auto simp: change_handler_def put_handler_def)
  have "store_keys w' \<subseteq> insert u (store_keys w - {old})"
    using set_map_insert_subset [of u a "map_erase u (w_store w)"]
    by (auto simp: 2(3) map_erase_def map_assign_def w1 store_keys_def)
  moreover have "old \<in> store_keys w" "timestamp L u = timestamp L old"
    using 2(2) by (auto simp: related_uuids_def store_keys_def same_timestamp)
  ultimately have "inj_on (timestamp L) (store_keys w')"
    using assms(2) by (auto simp: tables_ok_def intro: inj_on_replace)
  with assms(2) w1 2(3) show ?thesis
    by (simp add: tables_ok_def)
qed (simp add: assms(2))

lemma view_running: "running_handler a m n w = Inr w' \<Longrightarrow> session_view w' = session_view w"
  by (auto simp: running_handler_def new_bid_def split: if_split_asm Message.split_asm elim!: view_change)

lemma tables_ok_running: "running_handler a m n w = Inr w' \<Longrightarrow> tables_ok L w \<Longrightarrow> tables_ok L w'"
  by (auto simp: running_handler_def split: if_split_asm Message.split_asm elim: tables_ok_change)

lemma known_request_follows:
  assumes "known_request C u m n w = Inr (p, w')" "tables_ok (cfg_ulid C) w"
  shows "tables_ok (cfg_ulid C) w' \<and> follows (session_view w) (session_view w')"
proof -
  have resume: "follows (session_view w) (session_view w')"
    if "w_handlers w a = Some h" "\<not> h_running h" "\<not> discards (h_state h)"
      "change_handler a Handler_execute w = Inr w'" for a h
  proof -
    have "session_view w' = (session_view w)(a \<mapsto> (h_state h, True))"
      using that by (auto simp: change_handler_def handler_ref_Inr Handler_execute_def)
    then show ?thesis
      using that session_spec.resume [OF that(3)] by (auto simp: session_view_def intro!: follows_update)
  qed
  show ?thesis
    using assms by (auto simp: known_request_eq handler_ref_Inr split: if_split_asm
        intro: resume tables_ok_change tables_ok_running dest: view_running)
qed

lemma new_request_view:
  assumes "new_request u w = Inr (a, w')"
  shows "session_view w' = (session_view w)(w_next_handler w \<mapsto> (READY, True))"
    and "w_store w' = map_assign u a (map_assign u a (w_store w))" and "w_translations w' = w_translations w"
  using assms by (auto simp: new_request_def create_handler_def change_handler_def handler_ref_def
      put_handler_def Let_def session_view_def Handler_execute_def Handler_new_def fun_eq_iff)

lemma fst_map_assign: "fst ` set (map_assign u a m) \<subseteq> insert u (fst ` set m)"
  using set_map_insert_subset [of u a "map_erase u m"] by (auto simp: map_assign_def map_erase_def)

lemma new_request_follows:
  assumes "new_request u w = Inr (a, w')" "world_wf w" "tables_ok L w" "related_uuids L u w = []"
  shows "tables_ok L w' \<and> follows (session_view w) (session_view w')"
proof -
  have "session_view w (w_next_handler w) = None"
    using assms(2) by (cases "w_handlers w (w_next_handler w)") (auto simp: world_wf_def session_view_def)
  then have "follows (session_view w) (session_view w')"
    using new_request_view(1) [OF assms(1)] by (simp add: follows_birth)
  moreover have "store_keys w' \<subseteq> insert u (store_keys w)"
    using fst_map_assign [of u a "map_assign u a (w_store w)"] fst_map_assign [of u a "w_store w"]
    unfolding store_keys_def new_request_view(2) [OF assms(1)] by blast
  moreover have "timestamp L u \<notin> timestamp L ` store_keys w"
    using assms(4) by (auto simp: related_uuids_def store_keys_def same_timestamp filter_empty_conv)
  then have "inj_on (timestamp L) (insert u (store_keys w))"
    using assms(3) by (auto simp: tables_ok_def)
  ultimately show ?thesis
    using assms(3) new_request_view(3) [OF assms(1)] by (auto simp: tables_ok_def intro: inj_on_subset)
qed

lemma request_is_known_keeps:
  assumes "request_is_known C u og l w = Inr (k, w')" "world_wf w" "tables_ok (cfg_ulid C) w"
  shows "world_wf w'" "tables_ok (cfg_ulid C) w'" "session_view w' = session_view w"
    and "\<not> k \<Longrightarrow> related_uuids (cfg_ulid C) u w' = []"
  using assms by (auto simp: request_is_known_def split: if_split_asm
      intro: world_wf_in_store tables_ok_in_store dest: view_in_store)
    (auto simp: Process_is_uuid_in_store_def Let_def split: if_split_asm)

lemma select_handler_follows:
  assumes "select_handler C m n og l w = Inr (p, w')" "world_wf w" "tables_ok (cfg_ulid C) w"
  shows "tables_ok (cfg_ulid C) w' \<and> follows (session_view w) (session_view w')"
proof -
  let ?u = "Message_uuid m"
  obtain k w1 where k: "request_is_known C ?u og l w = Inr (k, w1)"
    using assms(1) by (auto simp: select_handler_def Let_def)
  note w1 = request_is_known_keeps [OF k assms(2,3)]
  show ?thesis
  proof (cases k)
    case True
    with assms(1) k w1 show ?thesis
      by (auto simp: select_handler_def Let_def simp del: map_contains_iff split: if_split_asm
          dest: known_request_follows)
  next
    case False
    then obtain a where "new_request ?u w1 = Inr (a, w')"
      using assms(1) k by (auto simp: select_handler_def Let_def)
    from new_request_follows [OF this w1(1,2,4)] w1(3) False show ?thesis
      by simp
  qed
qed

lemma dispatch_follows:
  assumes "dispatch C m n w = Inr w'" "world_wf w" "tables_ok (cfg_ulid C) w"
  shows "tables_ok (cfg_ulid C) w' \<and> follows (session_view w) (session_view w')"
proof -
  have over: "tables_ok L w' = tables_ok L w1 \<and> session_view w' = session_view w1"
    if "change_handler a (hand_over m n) w1 = Inr w'" for a w1 L
    using that view_change [OF that]
    by (auto simp: change_handler_def hand_over_def mark_source_def mark_accepting_node_def
        split: MessageType.split)
  let ?og = "is_origin_of (cfg_ulid C) (Message_uuid m) w"
  consider "w' = w" | l p w1 where "select_handler C m n ?og l w = Inr (p, w1)"
    "(case p of None \<Rightarrow> Inr w1 | Some a \<Rightarrow> change_handler a (hand_over m n) w1) = Inr w'"
    using assms(1) by (auto simp: dispatch_def Let_def split: if_split_asm)
  then show ?thesis
  proof cases
    case (2 l p w1)
    then show ?thesis
      using select_handler_follows [OF 2(1) assms(2,3)] over by (cases p) auto
  qed (simp add: assms(3))
qed

section \<open>The other threads\<close>

lemma auction_close_outcome:
  assumes "auction_close C s = Inr (c, s')"
  shows "\<not> h_running (fst s') \<and> h_state (fst s') \<in> {h_state (fst s), PRE_RESERVED, CLOSED}"
proof -
  have award: "h_state (fst t') = PRE_RESERVED" if "award C u n t = Inr t'" for u n t t'
    using that by (auto simp: award_def Let_def split: prod.split_asm)
  then have translated: "h_state (fst t') = PRE_RESERVED" if "award_translated C n t = Inr t'" for n t t'
    using that by (auto simp: award_translated_def split: prod.split_asm)
  have fold: "h_state (fst t') \<in> {h_state (fst t), PRE_RESERVED}"
    if "fold_res (award_translated C) ns t = Inr t'" for ns t t'
    by (rule fold_res_inv [of ns "\<lambda>x. h_state (fst x) \<in> {h_state (fst t), PRE_RESERVED}" "award_translated C"])
      (use translated that in auto)
  show ?thesis
    using assms by (auto simp: auction_close_def Let_def split: if_split_asm dest!: award fold)
qed

lemma round_spec:
  assumes "Handler_round C (h, w) = Inr (h', w')"
  shows "session_spec\<^sup>=\<^sup>= (h_state h, h_running h) (h_state h', h_running h')"
proof (cases "h_running h")
  case True
  show ?thesis
  proof (cases "h_auction h")
    case NotWaiting
    show ?thesis
    proof (cases "h_message h")
      case (Some m)
      then obtain s c s' where p: "Handler_preamble C (h, w) = Inr s" and r: "Handler_switch C m s = Inr (c, s')"
        and f: "(h', w') = finish (c, s')"
        using assms NotWaiting True by (auto simp: Handler_round_def)
      have s: "h_state (fst s) = h_state h" "h_running (fst s)"
        using preamble_state [OF p] preamble_running [OF p] True by simp_all
      have h': "h_state h' = h_state (fst s')" "h_running h' = h_running (fst s')"
        using finish_simps(1,2) [of c s'] f by (metis fst_conv)+
      show ?thesis
      proof (cases "known_type m")
        case known: True
        then have "session_spec (h_state h, True) (h_state h', h_running h')"
          using switch_outcome [OF r] s h' session_spec.handle [of "Message_type m" "h_state h" "h_state h'"]
          by (auto simp: known_type_def split: MessageType.split_asm)
        with True show ?thesis
          by simp
      next
        case False
        then have "Handler_switch C m s = Inr (Break, s)"
          by (auto simp: known_type_def Handler_switch_def split: MessageType.split_asm)
        with r s h' True show ?thesis
          by auto
      qed
    qed (use assms NotWaiting True in \<open>simp add: Handler_round_def\<close>)
  next
    case Notified
    then obtain c s' where a: "auction_close C (h, w) = Inr (c, s')" and f: "(h', w') = finish (c, s')"
      using assms True by (auto simp: Handler_round_def)
    have "h_state h' = h_state (fst s')" "h_running h' = h_running (fst s')"
      using finish_simps(1,2) [of c s'] f by (metis fst_conv)+
    then have "session_spec (h_state h, True) (h_state h', False)" "\<not> h_running h'"
      using auction_close_outcome [OF a] session_spec.award by simp_all
    with True show ?thesis
      by simp
  qed (use assms True in \<open>simp add: Handler_round_def\<close>)
qed (use assms in \<open>simp add: Handler_round_def\<close>)

lemma on_timeout_spec:
  assumes "on_timeout t s = Inr s'"
  shows "session_spec\<^sup>=\<^sup>= (h_state (fst s), h_running (fst s)) (h_state (fst s'), h_running (fst s'))"
proof -
  have rel: "h_state (fst s') = CLOSED \<and> h_running (fst s') = h_running h" if "release (h, w) = Inr s'" for h w
    using that by (auto simp: release_def)
  have keep: "session_spec\<^sup>=\<^sup>= (h_state h, h_running h) (h_state h, h_running h)" for h
    by simp
  show ?thesis
    using assms session_spec.expire [of "h_state (fst s)" "h_running (fst s)"]
    by (cases t; cases s)
      (auto simp: on_ear_timeout_def on_mar_timeout_def on_bid_timeout_def on_rep_timeout_def rollback_due_def
        on_auct_timeout_def all_bids_arrived_def notify_auction_def Let_def split: if_split_asm dest!: rel)
qed

section \<open>Refinement\<close>

definition node_safe :: "node_config \<Rightarrow> world \<Rightarrow> bool" where
  "node_safe C w \<longleftrightarrow> libs_ok C \<and> world_wf w \<and> tables_ok (cfg_ulid C) w"

lemma libs_ok_env [simp]: "libs_ok (C \<lparr> cfg_env := E \<rparr>) = libs_ok C"
  by (simp add: libs_ok_def encode_time_ok_def)

lemma run_handler_follows:
  assumes "run_handler (C \<lparr> cfg_env := E \<rparr>) a w = Inr w'" "node_safe C w"
  shows "tables_ok (cfg_ulid C) w' \<and> follows (session_view w) (session_view w')"
proof -
  let ?C = "C \<lparr> cfg_env := E \<rparr>"
  obtain h h' w1 where h: "w_handlers w a = Some h" and r: "Handler_round ?C (h, w) = Inr (h', w1)"
    and w': "w' = put_handler a h' w1"
    using assms(1) by (auto simp: run_handler_def handler_ref_Inr)
  have "world_wf w"
    using assms(2) by (simp add: node_safe_def)
  from round_inv_round [OF r world_wf_round_inv [OF this h]]
  have "round_inv a (w_handlers w) (w_next_handler w) (h', w1)" .
  then have "session_view w1 = session_view w"
    by (simp add: round_inv_def session_inv_def session_view_def fun_eq_iff)
  moreover have "session_view w a = Some (h_state h, h_running h)"
    using h by (simp add: session_view_def)
  moreover have "tables_ok (cfg_ulid C) w1"
    using tables_ok_round [OF r] assms(2) by (simp add: node_safe_def)
  ultimately show ?thesis
    unfolding w' using round_spec [OF r] by (auto intro!: follows_update)
qed

lemma fire_timeout_follows:
  assumes "fire_timeout a t w = Inr w'" "node_safe C w"
  shows "tables_ok (cfg_ulid C) w' \<and> follows (session_view w) (session_view w')"
proof -
  let ?w = "w \<lparr> w_timeouts := remove1 (a, t) (w_timeouts w) \<rparr>"
  obtain h h' w1 where h: "w_handlers w a = Some h" and r: "on_timeout t (h, ?w) = Inr (h', w1)"
    and w': "w' = put_handler a h' w1"
    using assms(1) by (auto simp: fire_timeout_def handler_ref_Inr)
  have "resources_wf (w_resources ?w)" "handler_ok a h"
    using assms(2) h by (auto simp: node_safe_def world_wf_def world_maps_wf_def)
  then obtain R where "w1 = ?w \<lparr> w_resources := R \<rparr>"
    using on_timeout_Inr [OF r, of a] by auto
  then have "session_view w1 = session_view w" "tables_ok (cfg_ulid C) w1"
    using assms(2) by (simp_all add: node_safe_def)
  moreover have "session_view w a = Some (h_state h, h_running h)"
    using h by (simp add: session_view_def)
  ultimately show ?thesis
    unfolding w' using on_timeout_spec [OF r] by (auto intro!: follows_update)
qed

lemma node_step_follows:
  assumes "node_step C w w'" "node_safe C w"
  shows "tables_ok (cfg_ulid C) w' \<and> follows (session_view w) (session_view w')"
  using assms
proof (induction rule: node_step.induct)
  case (process w w')
  then show ?case
    using dispatch_follows [of C _ _ "w \<lparr> w_dispatcher := _ \<rparr>" w']
    by (auto simp: Process_round_def node_safe_def split: if_split_asm)
next
  case (handler E a w w')
  then show ?case
    by (rule run_handler_follows)
next
  case (expire a t w w')
  then show ?case
    by (intro fire_timeout_follows)
next
  case (poll a w w')
  then have "session_view w' = session_view w"
    unfolding poll_auction_def
    by (elim view_change) (auto simp: all_bids_arrived_def notify_auction_def split: prod.split if_split)
  with poll show ?case
    by (auto simp: poll_auction_def node_safe_def intro: tables_ok_change)
qed (auto simp: API_deliver_request_def API_replenish_request_def node_safe_def Let_def)

interpretation sessions: component_simulation
  "\<lambda>w. w = world_init \<and> libs_ok C" "node_step C" "node_safe C" session_view session_spec "\<lambda>p. p = (READY, True)" for C
proof unfold_locales
  show "node_safe C w" if "w = world_init \<and> libs_ok C" for w
    using that world_wf_init by (simp add: node_safe_def tables_ok_def store_keys_def world_init_def)
  show "session_view w a = None" if "w = world_init \<and> libs_ok C" for w a
    using that by (simp add: session_view_def world_init_def)
  fix w w' a p
  assume safe: "node_safe C w" and step: "node_step C w w'"
  then show "node_safe C w'"
    using node_step_follows [OF step safe] world_wf_step [OF step] by (simp add: node_safe_def)
  show "\<exists>p'. session_view w' a = Some p' \<and> session_spec\<^sup>=\<^sup>= p p'" if "session_view w a = Some p"
    using that node_step_follows [OF step safe] unfolding follows_def by blast
  show "p = (READY, True)" if "session_view w a = None" "session_view w' a = Some p"
    using that node_step_follows [OF step safe] unfolding follows_def by blast
qed

lemma node_reaches_safe:
  assumes "ulid_ok (cfg_ulid C)" "encode_time_ok C" "(node_step C)\<^sup>*\<^sup>* world_init w"
  shows "node_safe C w"
proof -
  have "world_init = world_init \<and> libs_ok C"
    using assms(1,2) by (simp add: libs_ok_def)
  from sessions.run_safe [OF assms(3) sessions.safe_init [OF this]] show ?thesis .
qed

text \<open>
  C2. The node refines the abstract session machine.  Whatever its threads do, in whatever order:
  a session that exists has come to its state and running flag by moves of the machine from a
  running session in the state \<open>READY\<close>, and in every further step of the node it stays and makes
  at most one move of the machine.
\<close>
theorem node_refines_session_spec:
  assumes "ulid_ok (cfg_ulid C)" "encode_time_ok C"
    and "(node_step C)\<^sup>*\<^sup>* world_init w" "session_view w a = Some p" "node_step C w w'"
  shows "session_spec\<^sup>*\<^sup>* (READY, True) p \<and> (\<exists>p'. session_view w' a = Some p' \<and> session_spec\<^sup>=\<^sup>= p p')"
proof -
  have init: "world_init = world_init \<and> libs_ok C"
    using assms(1,2) by (simp add: libs_ok_def)
  have "node_safe C w"
    using assms(1-3) by (rule node_reaches_safe)
  then have "\<exists>p'. session_view w' a = Some p' \<and> session_spec\<^sup>=\<^sup>= p p'"
    using assms(5,4) by (rule sessions.simulates)
  moreover have "session_spec\<^sup>*\<^sup>* (READY, True) p"
    using sessions.run_from_birth [OF assms(3) init assms(4)] by simp
  ultimately show ?thesis
    by blast
qed

text \<open>
  C4. A closed session is final: once it is closed and its thread has stopped, no message, timer
  or client request ever changes its state or starts its thread again.
\<close>
theorem closed_session_is_final:
  assumes "ulid_ok (cfg_ulid C)" "encode_time_ok C"
    and "(node_step C)\<^sup>*\<^sup>* world_init w" "session_view w a = Some (CLOSED, False)" "(node_step C)\<^sup>*\<^sup>* w w'"
  shows "session_view w' a = Some (CLOSED, False)"
proof -
  have "node_safe C w"
    using assms(1-3) by (rule node_reaches_safe)
  then obtain p where p: "session_view w' a = Some p" "session_spec\<^sup>*\<^sup>* (CLOSED, False) p"
    using sessions.run_simulates [OF assms(5) _ assms(4)] by blast
  from p(2) have "p = (CLOSED, False)"
    by (induction rule: rtranclp_induct) (auto elim: session_spec_closedE simp: discards_def)
  with p(1) show ?thesis
    by simp
qed

text \<open>
  C3. One session per request: two entries of the store whose identifiers have the same timestamp
  are the same entry, in every state a node reaches, although the identifiers of sessions are
  replaced while requests are translated and answers come back.
\<close>
theorem one_session_per_timestamp:
  assumes "ulid_ok (cfg_ulid C)" "encode_time_ok C"
    and "(node_step C)\<^sup>*\<^sup>* world_init w"
    and "(u, a) \<in> set (w_store w)" "(v, b) \<in> set (w_store w)" "is_same_timestamp (cfg_ulid C) u v"
  shows "u = v \<and> a = b"
proof -
  have "node_safe C w"
    using assms(1-3) by (rule node_reaches_safe)
  then have inj: "inj_on (timestamp (cfg_ulid C)) (store_keys w)" and wf: "std_map_wf (w_store w)"
    by (simp_all add: node_safe_def tables_ok_def world_wf_def world_maps_wf_def)
  have "u \<in> store_keys w" "v \<in> store_keys w"
    using assms(4,5) by (force simp: store_keys_def)+
  with inj assms(6) have "u = v"
    by (auto simp: same_timestamp dest: inj_onD)
  moreover have "distinct (map fst (w_store w))"
    using wf by (rule std_map_distinct)
  ultimately show ?thesis
    using assms(4,5) by (auto dest: eq_key_imp_eq_value)
qed

text \<open>A run of three steps: a bid for an unknown request arrives, starts a session and closes it.\<close>

definition sample_run :: "world list" where
  "sample_run =
     (let w1 = world_init \<lparr> w_dispatcher := enqueue_item (BID_new 77 0, [1], Simulation) (w_dispatcher world_init) \<rparr>;
          h = hand_over (BID_new 77 0) ([1], Simulation) (Handler_execute (Handler_new 0 77));
          w2 = world_init \<lparr> w_handlers := [0 \<mapsto> h], w_next_handler := 1, w_store := [(77, 0)] \<rparr>;
          w3 = w2 \<lparr> w_handlers := [0 \<mapsto> h \<lparr> h_state := CLOSED, h_running := False \<rparr>] \<rparr>
      in [w1, w2, w3])"

lemma sample_bid: "Message_type (BID_new 77 0) = MessageType.BID" "Message_uuid (BID_new 77 0) = 77"
  by (simp_all add: BID_new_def Message_type_def Message_uuid_def Header_def)

lemma sample_run_steps:
  "node_step sample_config world_init (sample_run ! 0)"
  "node_step sample_config (sample_run ! 0) (sample_run ! 1)"
  "node_step sample_config (sample_run ! 1) (sample_run ! 2)"
proof -
  note m = sample_bid
  obtain b where bid: "BID_new 77 0 = BID_msg b"
    by (simp add: BID_new_def)
  note m' = m [unfolded bid]
  show "node_step sample_config world_init (sample_run ! 0)"
    unfolding sample_run_def Let_def by (simp add: node_step.receive)
  have "Process_round sample_config (sample_run ! 0) = Inr (sample_run ! 1)"
    by (simp add: sample_run_def Process_round_def Let_def receiving_queue_is_empty_def dequeue_item_def
        enqueue_item_def world_init_def dispatch_def classify_message_def m is_origin_of_def related_uuids_def
        select_handler_def request_is_known_def Process_is_uuid_in_store_def new_request_def create_handler_def
        change_handler_def handler_ref_def put_handler_def map_assign_def map_erase_def)
  then show "node_step sample_config (sample_run ! 0) (sample_run ! 1)"
    by (rule node_step.process)
  have "run_handler sample_config 0 (sample_run ! 1) = Inr (sample_run ! 2)"
    by (simp add: sample_run_def run_handler_def Let_def handler_ref_def hand_over_def m cast_message_def
        Handler_execute_def Handler_new_def mark_source_def Handler_round_def world_init_def Handler_preamble_def
        get_reservation_for_def Resources_init_def set_resources_def set_reservation_def Handler_switch_def
        Handler_BID_def stop_def Handler_stop_def set_state_def finish_def put_handler_def bid m')
  then show "node_step sample_config (sample_run ! 1) (sample_run ! 2)"
    by (intro node_step.handler [where E = "cfg_env sample_config" and a = 0]) (simp add: sample_config_def)
qed

lemma sample_config_libs: "ulid_ok (cfg_ulid sample_config)" "encode_time_ok sample_config"
  by (simp_all add: sample_config_def [THEN arg_cong [of _ _ cfg_ulid]] sample_encode_time_ok)

lemma sample_run_reached:
  "(node_step sample_config)\<^sup>*\<^sup>* world_init (sample_run ! 1)"
  "(node_step sample_config)\<^sup>*\<^sup>* world_init (sample_run ! 2)"
  using sample_run_steps by (meson rtranclp.rtrancl_into_rtrancl rtranclp.rtrancl_refl)+

lemma sample_run_views:
  "session_view (sample_run ! 1) 0 = Some (READY, True)"
  "session_view (sample_run ! 2) 0 = Some (CLOSED, False)"
  "w_store (sample_run ! 2) = [(77, 0)]"
  by (simp_all add: sample_run_def Let_def session_view_def hand_over_def Handler_execute_def Handler_new_def
      sample_bid mark_source_def)

theorem node_refines_session_spec_witness:
  "session_spec\<^sup>*\<^sup>* (READY, True) (READY, True)
   \<and> (\<exists>p'. session_view (sample_run ! 2) 0 = Some p' \<and> session_spec\<^sup>=\<^sup>= (READY, True) p')"
  using node_refines_session_spec [OF sample_config_libs sample_run_reached(1) sample_run_views(1) sample_run_steps(3)] .

theorem closed_session_is_final_witness:
  "session_view ((sample_run ! 2) \<lparr> w_dispatcher := enqueue_item (BID_new 77 0, [1], Simulation)
     (w_dispatcher (sample_run ! 2)) \<rparr>) 0 = Some (CLOSED, False)"
  using closed_session_is_final [OF sample_config_libs sample_run_reached(2) sample_run_views(2)]
    node_step.receive by blast

theorem one_session_per_timestamp_witness:
  "(77, 0) \<in> set (w_store (sample_run ! 2)) \<and> (77 :: UUIDv4) = 77 \<and> (0 :: nat) = 0"
  using one_session_per_timestamp [OF sample_config_libs sample_run_reached(2), of 77 0 77 0]
  by (simp add: sample_run_views is_same_timestamp_def)

end
