(* ===== verification/Loops.thy ===== *)
theory Loops
  imports Rank_Prelude
begin

text \<open>
  Loops that the sources write over raw buffers and streams, where nothing in the text of the
  loop bounds it.  A \<open>run\<close> is a computation that may also never return, which is the value
  \<open>None\<close>.  \<open>iterate\<close> runs a round until it stops or fails.  The locale \<open>bounded_loop\<close> gives
  termination, an invariant rule and the faults that can come out, for every round that makes
  progress.
\<close>

type_synonym 'a run = "'a res option"

definition run_then :: "'a run \<Rightarrow> ('a \<Rightarrow> 'b run) \<Rightarrow> 'b run" where
  "run_then m f = Option.bind m (\<lambda>r. case r of Inl e \<Rightarrow> Some (Inl e) | Inr x \<Rightarrow> f x)"

lemma run_then_simps [simp]:
  "run_then None f = None"
  "run_then (Some (Inl e)) f = Some (Inl e)"
  "run_then (Some (Inr x)) f = f x"
  by (simp_all add: run_then_def)

lemma run_then_returns [simp]:
  "run_then m f = Some (Inr y) \<longleftrightarrow> (\<exists>x. m = Some (Inr x) \<and> f x = Some (Inr y))"
  by (cases m) (auto simp: run_then_def split: sum.splits)

lemma run_then_faults [simp]:
  "run_then m f = Some (Inl e) \<longleftrightarrow> m = Some (Inl e) \<or> (\<exists>x. m = Some (Inr x) \<and> f x = Some (Inl e))"
  by (cases m) (auto simp: run_then_def split: sum.splits)

lemma run_then_diverges [simp]:
  "run_then m f = None \<longleftrightarrow> m = None \<or> (\<exists>x. m = Some (Inr x) \<and> f x = None)"
  by (cases m) (auto simp: run_then_def split: sum.splits)

lemma run_then_ends [simp]:
  "(\<exists>y. run_then m f = Some y) \<longleftrightarrow> m \<noteq> None \<and> (\<forall>x. m = Some (Inr x) \<longrightarrow> f x \<noteq> None)"
  using run_then_diverges [of m f] by (metis option.exhaust option.distinct(1))

lemma run_then_assoc: "run_then (run_then m f) g = run_then m (\<lambda>x. run_then (f x) g)"
  by (cases m) (auto simp: run_then_def split: sum.splits)

partial_function (option) iterate :: "('s \<Rightarrow> 's option run) \<Rightarrow> 's \<Rightarrow> 's run" where
  [code]: "iterate round s =
     Option.bind (round s) (\<lambda>r.
       case r of
         Inl e \<Rightarrow> Some (Inl e)
       | Inr None \<Rightarrow> Some (Inr s)
       | Inr (Some s') \<Rightarrow> iterate round s')"

lemma iterate_simps [simp]:
  "round s = None \<Longrightarrow> iterate round s = None"
  "round s = Some (Inl e) \<Longrightarrow> iterate round s = Some (Inl e)"
  "round s = Some (Inr None) \<Longrightarrow> iterate round s = Some (Inr s)"
  "round s = Some (Inr (Some s')) \<Longrightarrow> iterate round s = iterate round s'"
  by (simp_all add: iterate.simps)

lemma round_cases:
  obtains (diverges) "round s = None" | (fails) e where "round s = Some (Inl e)"
  | (stops) "round s = Some (Inr None)" | (next_round) s' where "round s = Some (Inr (Some s'))"
  by (metis option.exhaust sum.exhaust)

text \<open>
  A round that returns and makes progress: wherever the loop goes on, a natural number has become
  smaller.  \<open>inv\<close> is what the loop keeps.
\<close>

locale bounded_loop =
  fixes round :: "'s \<Rightarrow> 's option run"
    and inv :: "'s \<Rightarrow> bool"
    and left :: "'s \<Rightarrow> nat"
  assumes round_returns: "inv s \<Longrightarrow> round s \<noteq> None"
    and progress: "inv s \<Longrightarrow> round s = Some (Inr (Some s')) \<Longrightarrow> left s' < left s"
    and keeps: "inv s \<Longrightarrow> round s = Some (Inr (Some s')) \<Longrightarrow> inv s'"
begin

lemma loop_induct [consumes 1, case_names loop]:
  assumes "inv s" and "\<And>s. inv s \<Longrightarrow> (\<And>s'. round s = Some (Inr (Some s')) \<Longrightarrow> P s') \<Longrightarrow> P s"
  shows "P s"
  using assms(1)
proof (induction s rule: measure_induct_rule [where f = left])
  case (less s)
  show ?case
  proof (rule assms(2) [OF less.prems])
    fix s'
    assume "round s = Some (Inr (Some s'))"
    then show "P s'"
      using less.IH progress [OF less.prems] keeps [OF less.prems] by blast
  qed
qed

lemma terminates: "inv s \<Longrightarrow> iterate round s \<noteq> None"
proof (induction rule: loop_induct)
  case (loop s)
  show ?case
    by (cases round s rule: round_cases) (use loop round_returns [OF loop(1)] in simp_all)
qed

lemma returns: "inv s \<Longrightarrow> iterate round s = Some (Inr s') \<Longrightarrow> inv s' \<and> round s' = Some (Inr None)"
proof (induction rule: loop_induct)
  case (loop s)
  show ?case
    by (cases round s rule: round_cases) (use loop in simp_all)
qed

lemma faults: "inv s \<Longrightarrow> iterate round s = Some (Inl e) \<Longrightarrow> \<exists>t. inv t \<and> round t = Some (Inl e)"
proof (induction rule: loop_induct)
  case (loop s)
  show ?case
    by (cases round s rule: round_cases) (use loop in auto)
qed

end

text \<open>A loop that has a next round from every state of a set it never leaves does not return.\<close>

lemma iterate_diverges:
  assumes "stays s" and step: "\<And>s. stays s \<Longrightarrow> \<exists>s'. round s = Some (Inr (Some s')) \<and> stays s'"
  shows "iterate round s = None"
proof -
  have "round = rnd \<longrightarrow> \<not> stays t" if "iterate rnd t = Some r" for rnd t r
    using _ that
  proof (rule iterate.raw_induct [where P = "\<lambda>rnd t r. round = rnd \<longrightarrow> \<not> stays t"])
    fix it rnd t r
    assume IH: "\<And>rnd t r. it rnd t = Some r \<Longrightarrow> round = rnd \<longrightarrow> \<not> stays t"
      and unfold: "Option.bind (rnd t) (\<lambda>r. case r of Inl e \<Rightarrow> Some (Inl e) | Inr None \<Rightarrow> Some (Inr t)
        | Inr (Some t') \<Rightarrow> it rnd t') = Some r"
    show "round = rnd \<longrightarrow> \<not> stays t"
      using step [of t] IH unfold by fastforce
  qed
  then show ?thesis
    using assms(1) by (cases "iterate round s") auto
qed

text \<open>A partial counterpart of the rule for bounded loops: what every round keeps, a loop that returns has kept.\<close>

lemma iterate_keeps:
  assumes "iterate round s = Some (Inr s')" and "stays s"
    and "\<And>s s'. stays s \<Longrightarrow> round s = Some (Inr (Some s')) \<Longrightarrow> stays s'"
  shows "stays s'"
proof -
  have "rnd = round \<longrightarrow> stays t \<longrightarrow> (\<forall>t'. r = Inr t' \<longrightarrow> stays t')" if "iterate rnd t = Some r" for rnd t r
    using _ that
  proof (rule iterate.raw_induct [where P = "\<lambda>rnd t r. rnd = round \<longrightarrow> stays t \<longrightarrow> (\<forall>t'. r = Inr t' \<longrightarrow> stays t')"])
    fix it rnd t r
    assume IH: "\<And>rnd t r. it rnd t = Some r \<Longrightarrow> rnd = round \<longrightarrow> stays t \<longrightarrow> (\<forall>t'. r = Inr t' \<longrightarrow> stays t')"
      and unfold: "Option.bind (rnd t) (\<lambda>r. case r of Inl e \<Rightarrow> Some (Inl e) | Inr None \<Rightarrow> Some (Inr t)
        | Inr (Some t') \<Rightarrow> it rnd t') = Some r"
    show "rnd = round \<longrightarrow> stays t \<longrightarrow> (\<forall>t'. r = Inr t' \<longrightarrow> stays t')"
      using assms(3) [of t] IH [of rnd _ r] unfold
      by (cases "rnd t") (auto split: sum.splits option.splits)
  qed
  then show ?thesis
    using assms(1,2) by blast
qed

end
