(* ===== verification/Neighbouring.thy ===== *)
theory Neighbouring
  imports Reservations Loops
begin

text \<open>
  The search for connections over the netlink interface of Linux (\<open>utils/neighboring.cpp\<close>) and
  the question whether an address is one of the host (\<open>utils/identity/network.cpp\<close>).

  The kernel is an argument: what its calls return for a request, and the octets of the response
  buffer, whose tail behind the received octets is arbitrary.  A pointer into the buffer is an
  offset; a read outside the buffer is undefined behaviour.  The layout of the netlink structures
  and the macros that walk over them are those of the Linux interface on a little-endian machine
  (rtnetlink(3), netlink(3)); \<open>RTA_MAX\<close>, which depends on the version of its headers, is an
  argument.
\<close>

section \<open>Netlink structures\<close>

definition load :: "byte list \<Rightarrow> nat \<Rightarrow> byte res" where
  "load buffer p = (if p < length buffer then Inr (buffer ! p) else Inl UndefinedBehaviour)"

definition load16 :: "byte list \<Rightarrow> nat \<Rightarrow> nat res" where
  "load16 buffer p =
     and_then (load buffer p) (\<lambda>a.
     and_then (load buffer (p + 1)) (\<lambda>b. Inr (unat a + 256 * unat b)))"

definition load32 :: "byte list \<Rightarrow> nat \<Rightarrow> nat res" where
  "load32 buffer p =
     and_then (load16 buffer p) (\<lambda>a.
     and_then (load16 buffer (p + 2)) (\<lambda>b. Inr (a + 65536 * b)))"

fun load_octets :: "byte list \<Rightarrow> nat \<Rightarrow> nat \<Rightarrow> byte list res" where
  "load_octets buffer p 0 = Inr []"
| "load_octets buffer p (Suc n) =
     and_then (load buffer p) (\<lambda>b. and_then (load_octets buffer (Suc p) n) (\<lambda>bs. Inr (b # bs)))"

text \<open>\<open>RTA_ALIGN\<close> and \<open>NLMSG_ALIGN\<close>, the sizes of the headers, and the conditions of the walks.\<close>

definition align4 :: "nat \<Rightarrow> nat" where
  "align4 n = (n + 3) div 4 * 4"

abbreviation (input) "sizeof_rtattr \<equiv> 4 :: nat"
abbreviation (input) "sizeof_nlmsghdr \<equiv> 16 :: nat"
abbreviation (input) "sizeof_rtmsg \<equiv> 12 :: nat"

definition RTA_OK :: "byte list \<Rightarrow> nat \<Rightarrow> int \<Rightarrow> bool res" where
  "RTA_OK buffer rta len =
     (if len < int sizeof_rtattr then Inr False
      else and_then (load16 buffer rta) (\<lambda>rta_len. Inr (sizeof_rtattr \<le> rta_len \<and> int rta_len \<le> len)))"

definition NLMSG_OK :: "byte list \<Rightarrow> nat \<Rightarrow> int \<Rightarrow> bool res" where
  "NLMSG_OK buffer nlh len =
     (if len < int sizeof_nlmsghdr then Inr False
      else and_then (load32 buffer nlh) (\<lambda>nlmsg_len. Inr (sizeof_nlmsghdr \<le> nlmsg_len \<and> int nlmsg_len \<le> len)))"

abbreviation (input) "RTA_DST \<equiv> 1 :: nat"
abbreviation (input) "RTA_GATEWAY \<equiv> 5 :: nat"
abbreviation (input) "RTA_TABLE \<equiv> 15 :: nat"
abbreviation (input) "NDA_DST \<equiv> 1 :: nat"
abbreviation (input) "NDA_LLADDR \<equiv> 2 :: nat"
abbreviation (input) "AF_INET \<equiv> 2 :: nat"
abbreviation (input) "AF_BRIDGE \<equiv> 7 :: nat"
abbreviation (input) "AF_INET6 \<equiv> 10 :: nat"
abbreviation (input) "NUD_REACHABLE \<equiv> 2 :: nat"
abbreviation (input) "NUD_STALE \<equiv> 4 :: nat"

section \<open>Attributes\<close>

text \<open>The table of \<open>highest + 1\<close> pointers; the first attribute of a type stays.\<close>

definition parse_rtattr_round ::
  "byte list \<Rightarrow> nat \<Rightarrow> nat \<times> int \<times> nat option list \<Rightarrow> (nat \<times> int \<times> nat option list) option res" where
  "parse_rtattr_round buffer highest s =
     (case s of (rta, len, tb) \<Rightarrow>
        and_then (RTA_OK buffer rta len) (\<lambda>ok.
          if \<not> ok then Inr None
          else
            and_then (load16 buffer (rta + 2)) (\<lambda>type.
            and_then (load16 buffer rta) (\<lambda>rta_len.
              Inr (Some (rta + align4 rta_len, len - int (align4 rta_len),
                if type \<le> highest \<and> tb ! type = None then tb[type := Some rta] else tb))))))"

definition parse_rtattr :: "byte list \<Rightarrow> nat \<Rightarrow> nat \<Rightarrow> int \<Rightarrow> nat option list run" where
  "parse_rtattr buffer highest rta len =
     run_then (iterate (\<lambda>s. Some (parse_rtattr_round buffer highest s)) (rta, len, replicate (highest + 1) None))
       (\<lambda>(rta, len, tb). Some (if len \<noteq> 0 then Inl StdException else Inr tb))"

text \<open>\<open>struct rtmsg\<close>: family, prefix length of the destination, ..., table at offset 4.\<close>

definition rtm_get_table :: "byte list \<Rightarrow> nat \<Rightarrow> nat option list \<Rightarrow> nat res" where
  "rtm_get_table buffer r tb =
     and_then (load buffer (r + 4)) (\<lambda>table.
       case tb ! RTA_TABLE of
         None \<Rightarrow> Inr (unat table)
       | Some rta \<Rightarrow> load32 buffer (rta + sizeof_rtattr))"

section \<open>Routes\<close>

definition address_bits :: "byte list \<Rightarrow> 128 word" where
  "address_bits a = foldl (\<lambda>w i. or w (push_bit (8 * (length a - i - 1)) (ucast (a ! i)))) 0 [0..<length a]"

definition is_within_range :: "byte list \<Rightarrow> byte list \<Rightarrow> byte \<Rightarrow> bool res" where
  "is_within_range tester tested number_of_equal_bits =
     and_then (require (length tester = 4 \<or> length tester = 16) AssertionFailed) (\<lambda>_.
     and_then (require (length tested = 4 \<or> length tester = 16) AssertionFailed) (\<lambda>_.
     and_then (require (length tester = length tested) AssertionFailed) (\<lambda>_.
     and_then (require (length tester = 4 \<and> number_of_equal_bits \<le> 32) AssertionFailed) (\<lambda>_.
     and_then (require (length tester = 16 \<and> number_of_equal_bits \<le> 128) AssertionFailed) (\<lambda>_.
       Inr (list_all (\<lambda>i. bit (address_bits tester) i = bit (address_bits tested) i)
              [0..<unat number_of_equal_bits]))))))"

definition route_connection :: "byte list \<Rightarrow> nat \<Rightarrow> nat \<Rightarrow> nat option list \<Rightarrow> node list \<Rightarrow> node list res" where
  "route_connection buffer target_length content table addresses =
     (case table ! RTA_GATEWAY of
        None \<Rightarrow> Inr addresses
      | Some gateway \<Rightarrow>
          and_then (load_octets buffer (gateway + sizeof_rtattr) target_length) (\<lambda>possible_destination.
          case table ! RTA_DST of
            None \<Rightarrow> Inr addresses
          | Some dst \<Rightarrow>
              and_then (load_octets buffer (dst + sizeof_rtattr) target_length) (\<lambda>route_address.
              and_then (load buffer (content + 1)) (\<lambda>mask.
              and_then (is_within_range possible_destination route_address mask) (\<lambda>inside.
                Inr (if inside then addresses @ [(possible_destination, if target_length = 4 then IPv4 else IPv6)]
                     else addresses))))))"

type_synonym dump_state = "nat \<times> int \<times> node list"

definition route_round :: "nat \<Rightarrow> byte list \<Rightarrow> nat \<Rightarrow> dump_state \<Rightarrow> dump_state option run" where
  "route_round RTA_MAX buffer target_length s =
     (case s of (response, received_bytes, addresses) \<Rightarrow>
        run_then (Some (NLMSG_OK buffer response received_bytes)) (\<lambda>ok.
          if \<not> ok then Some (Inr None)
          else
            run_then (Some (load32 buffer response)) (\<lambda>nlmsg_len.
            let content = response + sizeof_nlmsghdr;
                content_length = int nlmsg_len - int (sizeof_nlmsghdr + sizeof_rtmsg) in
            if content_length < 0 then Some (Inl StdException)
            else
              run_then (parse_rtattr buffer RTA_MAX (content + sizeof_rtmsg) content_length) (\<lambda>table.
              run_then (Some (rtm_get_table buffer content table)) (\<lambda>table_item.
              run_then (Some (route_connection buffer target_length content table addresses)) (\<lambda>addresses.
                Some (Inr (Some (response + align4 nlmsg_len, received_bytes - int (align4 nlmsg_len), addresses)))))))))"

section \<open>Neighbours\<close>

text \<open>The octets of an attribute that is a destination address.\<close>

definition neighbour_destination :: "byte list \<Rightarrow> nat \<Rightarrow> nat \<Rightarrow> byte list res" where
  "neighbour_destination buffer ndm_family attribute =
     and_then
       (if ndm_family = AF_BRIDGE then
          and_then (load16 buffer attribute) (\<lambda>rta_len.
            Inr (if int rta_len - int sizeof_rtattr = 16 then AF_INET6 else AF_INET))
        else Inr ndm_family) (\<lambda>family.
       if family = AF_INET then load_octets buffer (attribute + sizeof_rtattr) 4
       else if family = AF_INET6 then load_octets buffer (attribute + sizeof_rtattr) 16
       else Inr [])"

type_synonym attribute_state = "nat \<times> int \<times> byte list \<times> byte list"

text \<open>One round over the attributes: offset, remaining length, destination and hardware address.\<close>

definition neighbour_attribute ::
  "byte list \<Rightarrow> byte list \<Rightarrow> nat \<Rightarrow> attribute_state \<Rightarrow> attribute_state option res" where
  "neighbour_attribute buffer target ndm_family s =
     (case s of (attribute, attribute_length, possible_destination, possible_mac_address) \<Rightarrow>
        and_then (RTA_OK buffer attribute attribute_length) (\<lambda>ok.
          if \<not> (ok \<and> possible_mac_address = [] \<and> possible_destination = []) then Inr None
          else
            and_then (load16 buffer (attribute + 2)) (\<lambda>rta_type.
            and_then
              (if rta_type = NDA_DST then
                 and_then (neighbour_destination buffer ndm_family attribute) (\<lambda>d. Inr (d, possible_mac_address))
               else if rta_type = NDA_LLADDR then
                 and_then (load_octets buffer (attribute + sizeof_rtattr) 6) (\<lambda>mac.
                   Inr (if target \<noteq> mac then ([], []) else (possible_destination, mac)))
               else Inr (possible_destination, possible_mac_address))
              (\<lambda>(possible_destination, possible_mac_address).
            and_then (load16 buffer attribute) (\<lambda>rta_len.
              Inr (Some (attribute + align4 rta_len, attribute_length - int (align4 rta_len),
                possible_destination, possible_mac_address)))))))"

text \<open>
  \<open>struct ndmsg\<close>: family at offset 0, state at offset 8.  The flag of the state says that the
  loop was left by \<open>break\<close>.
\<close>

definition neighbour_entry :: "byte list \<Rightarrow> nat \<Rightarrow> bool res" where
  "neighbour_entry buffer nd_message =
     and_then (load buffer nd_message) (\<lambda>ndm_family.
       if unat ndm_family = AF_INET then
         and_then (load16 buffer (nd_message + 8)) (\<lambda>ndm_state.
           Inr (ndm_state = NUD_REACHABLE \<or> ndm_state = NUD_STALE))
       else Inr False)"

definition neighbour_message :: "byte list \<Rightarrow> byte list \<Rightarrow> nat \<Rightarrow> nat \<Rightarrow> (byte list \<times> byte list) run" where
  "neighbour_message buffer target response nlmsg_len =
     run_then (Some (load buffer (response + sizeof_nlmsghdr))) (\<lambda>ndm_family.
     run_then (iterate (\<lambda>s. Some (neighbour_attribute buffer target (unat ndm_family) s))
                (response + sizeof_nlmsghdr + sizeof_rtmsg, int nlmsg_len, [], []))
       (\<lambda>(_, _, possible_destination, possible_mac_address).
          Some (Inr (possible_destination, possible_mac_address))))"

definition neighbour_round ::
  "byte list \<Rightarrow> byte list \<Rightarrow> dump_state \<times> bool \<Rightarrow> (dump_state \<times> bool) option run" where
  "neighbour_round buffer target s =
     (case s of ((response, received_bytes, addresses), left_loop) \<Rightarrow>
        if left_loop then Some (Inr None)
        else
          run_then (Some (NLMSG_OK buffer response received_bytes)) (\<lambda>ok.
            if \<not> ok then Some (Inr None)
            else
              run_then (Some (load32 buffer response)) (\<lambda>nlmsg_len.
              let onward = (response + align4 nlmsg_len, received_bytes - int (align4 nlmsg_len), addresses) in
              run_then (Some (neighbour_entry buffer (response + sizeof_nlmsghdr))) (\<lambda>relevant.
                if \<not> relevant then Some (Inr (Some (onward, False)))
                else
                  run_then (neighbour_message buffer target response nlmsg_len)
                    (\<lambda>(possible_destination, possible_mac_address).
                      if possible_mac_address \<noteq> [] \<and> possible_destination \<noteq> [] then
                        Some (Inr (Some ((response, received_bytes, addresses @ [(possible_destination, MAC)]), True)))
                      else Some (Inr (Some (onward, False))))))))"

section \<open>Connections to a target\<close>

text \<open>
  What is asked of the kernel, and what its calls return.  The family of a request for neighbours
  is left uninitialised.
\<close>

record netlink_request =
  rq_type :: nat
  rq_flags :: nat
  rq_len :: nat
  rq_family :: "nat option"

record netlink_answer =
  nl_socket :: int
  nl_bind :: int
  nl_send :: int
  nl_recv :: int
  nl_buffer :: "byte list"

definition netlink_dump :: "(netlink_request \<Rightarrow> netlink_answer) \<Rightarrow> nat \<Rightarrow> nat option \<Rightarrow> (byte list \<times> int) res" where
  "netlink_dump linux type family =
     (let answer = linux \<lparr> rq_type = type, rq_flags = 0x301, rq_len = sizeof_nlmsghdr + sizeof_rtmsg, rq_family = family \<rparr> in
      and_then (require (0 \<le> nl_socket answer) StdException) (\<lambda>_.
      and_then (require (0 \<le> nl_bind answer) StdException) (\<lambda>_.
      and_then (require (0 \<le> nl_send answer) StdException) (\<lambda>_.
      and_then (require (0 \<le> nl_recv answer) StdException) (\<lambda>_.
        Inr (nl_buffer answer, nl_recv answer))))))"

definition netlink_connections_to :: "(netlink_request \<Rightarrow> netlink_answer) \<Rightarrow> nat \<Rightarrow> byte list \<Rightarrow> bool \<Rightarrow> node list run" where
  "netlink_connections_to linux RTA_MAX target is_dds =
     (if length target = 4 \<or> length target = 16 then
        if is_dds then Some (Inr [])
        else
          run_then (Some (netlink_dump linux 26 (Some (if length target = 4 then AF_INET else AF_INET6))))
            (\<lambda>(buffer, received_bytes).
          run_then (iterate (route_round RTA_MAX buffer (length target)) (0, received_bytes, []))
            (\<lambda>(_, _, addresses). Some (Inr addresses)))
      else if length target = 6 then
        run_then (Some (netlink_dump linux 30 None)) (\<lambda>(buffer, received_bytes).
        run_then (iterate (neighbour_round buffer target) ((0, received_bytes, []), False))
          (\<lambda>((_, _, addresses), _). Some (Inr addresses)))
      else Some (Inr []))"

section \<open>Addresses of the host\<close>

text \<open>
  The list of \<open>getifaddrs\<close>: an entry has a name and, unless the pointer is null, a socket address,
  of which the family and for IPv6 the address are used.  The answers of the two \<open>ioctl\<close> requests
  for a name are arguments: the IPv4 address as the 32-bit word in memory and the six octets of the
  hardware address.
\<close>

record interface_address =
  ifa_name :: string
  ifa_family :: "nat option"
  ifa_in6 :: "byte list"

abbreviation (input) "AF_PACKET \<equiv> 17 :: nat"
abbreviation (input) "AF_PPPOX \<equiv> 24 :: nat"

definition ipv4_octets :: "uint32 \<Rightarrow> byte list" where
  "ipv4_octets raw_ip =
     [ucast (and raw_ip 0xFF), ucast (and (drop_bit 8 raw_ip) 0xFF),
      ucast (and (drop_bit 16 raw_ip) 0xFF), ucast (and (drop_bit 24 raw_ip) 0xFF)]"

definition is_me_ipv4 :: "interface_address list \<Rightarrow> (string \<Rightarrow> uint32) \<Rightarrow> byte list \<Rightarrow> bool" where
  "is_me_ipv4 addresses SIOCGIFADDR ipv4_address =
     list_ex (\<lambda>address.
       (ifa_family address = Some AF_PACKET \<or> ifa_family address = Some AF_PPPOX)
       \<and> ipv4_octets (SIOCGIFADDR (ifa_name address)) = ipv4_address) addresses"

definition is_me_mac :: "interface_address list \<Rightarrow> (string \<Rightarrow> byte list) \<Rightarrow> byte list \<Rightarrow> bool" where
  "is_me_mac addresses SIOCGIFHWADDR mac_address =
     list_ex (\<lambda>address.
       ifa_family address = Some AF_PACKET \<and> take 6 (SIOCGIFHWADDR (ifa_name address)) = mac_address) addresses"

definition is_me_ipv6 :: "interface_address list \<Rightarrow> byte list \<Rightarrow> bool" where
  "is_me_ipv6 addresses ipv6_address =
     list_ex (\<lambda>address. ifa_family address = Some AF_INET6 \<and> ifa_in6 address = ipv6_address) addresses"

text \<open>No octet of an IPv4 address is lost on the way out of the word.\<close>

lemma ipv4_octets_inj: "ipv4_octets v = ipv4_octets w \<Longrightarrow> v = w"
proof (rule bit_word_eqI)
  fix n
  assume eq: "ipv4_octets v = ipv4_octets w" and "n < LENGTH(32)"
  then have "n < 32"
    by simp
  have mask: "(0xFF :: uint32) = mask 8"
    by (simp add: mask_eq_exp_minus_1)
  have octet: "bit x (8 * j + k) = bit (ipv4_octets x ! j) k" if "j < 4" "k < 8" for x j k
  proof -
    from that(1) consider "j = 0" | "j = 1" | "j = 2" | "j = 3"
      by linarith
    then show ?thesis
      unfolding ipv4_octets_def mask using that(2) by cases (auto simp: bit_simps add.commute)
  qed
  have "n div 8 < 4" "n mod 8 < 8" "n = 8 * (n div 8) + n mod 8"
    using \<open>n < 32\<close> by auto
  with octet [of "n div 8" "n mod 8"] eq show "bit v n = bit w n"
    by metis
qed

section \<open>Every walk ends\<close>

lemma align4_ge [simp]: "n \<le> align4 n"
  unfolding align4_def by presburger

lemma align4_pos [simp]: "0 < align4 n \<longleftrightarrow> 0 < n"
  unfolding align4_def by presburger

lemma RTA_OK_True: "RTA_OK b p len = Inr True \<longleftrightarrow> (\<exists>n. load16 b p = Inr n \<and> 4 \<le> n \<and> int n \<le> len)"
  by (auto simp: RTA_OK_def)

lemma NLMSG_OK_True: "NLMSG_OK b p len = Inr True \<longleftrightarrow> (\<exists>n. load32 b p = Inr n \<and> 16 \<le> n \<and> int n \<le> len)"
  by (auto simp: NLMSG_OK_def)

lemma walk_advances: "4 \<le> n \<Longrightarrow> int n \<le> len \<Longrightarrow> nat (len - int (align4 n)) < nat len"
  using align4_ge [of n] by linarith

interpretation attributes: bounded_loop
  "\<lambda>s. Some (parse_rtattr_round b h s)" "\<lambda>_. True" "\<lambda>(rta, len, tb). nat len" for b h
  by unfold_locales (auto simp: parse_rtattr_round_def RTA_OK_True walk_advances split: if_split_asm)

interpretation neighbour_attributes: bounded_loop
  "\<lambda>s. Some (neighbour_attribute b target family s)" "\<lambda>(_, _, d, m). d = [] \<or> m = []" "\<lambda>(a, len, d, m). nat len"
  for b target family
  by unfold_locales (auto simp: neighbour_attribute_def RTA_OK_True walk_advances split: if_split_asm)

lemma parse_rtattr_terminates: "parse_rtattr b h rta len \<noteq> None"
  using attributes.terminates [of b h "(rta, len, replicate (h + 1) None)"]
  by (auto simp: parse_rtattr_def)

lemma is_within_range_fails: "is_within_range a b n = Inl AssertionFailed"
  by (auto simp: is_within_range_def)

lemma route_connection_keeps: "route_connection b n c t as = Inr as' \<Longrightarrow> as' = as"
  by (auto simp: route_connection_def is_within_range_fails split: option.split_asm)

interpretation routes: bounded_loop
  "route_round h b n" "\<lambda>(_, _, addresses). addresses = []" "\<lambda>(_, received, _). nat received" for h b n
  by unfold_locales
    (auto simp: route_round_def Let_def NLMSG_OK_True walk_advances parse_rtattr_terminates
      split: if_split_asm dest: route_connection_keeps)

lemma neighbour_message_one:
  "neighbour_message b t r n = Some (Inr (d, m)) \<Longrightarrow> d = [] \<or> m = []"
  by (auto simp: neighbour_message_def dest: neighbour_attributes.returns [rotated])

lemma neighbour_message_terminates: "neighbour_message b t r n \<noteq> None"
  using neighbour_attributes.terminates [of "(_, _, [], [])"]
  by (auto simp: neighbour_message_def)

interpretation neighbours: bounded_loop
  "neighbour_round b t" "\<lambda>((_, _, addresses), done). addresses = [] \<and> \<not> done"
  "\<lambda>((_, received, _), _). nat received" for b t
  by unfold_locales
    (auto simp: neighbour_round_def Let_def NLMSG_OK_True walk_advances neighbour_message_terminates
      split: if_split_asm dest: neighbour_message_one)

text \<open>
  C21. The search for connections returns, whatever the kernel answers: the walks over netlink
  messages, over the attributes of a message and over the attributes of a neighbour all end,
  also for lengths that are corrupt, that do not fit the buffer or that overlap.
\<close>

theorem connection_search_terminates: "netlink_connections_to linux RTA_MAX target is_dds \<noteq> None"
  using routes.terminates [of "(0, _, [])"] neighbours.terminates [of "((0, _, []), False)"]
  by (auto simp: netlink_connections_to_def)

text \<open>
  C33. The search for connections never finds one.  A route with a gateway and a destination fails
  an assertion, since \<open>is_within_range\<close> demands addresses of four octets and of sixteen octets at
  once; the search among neighbours stops at the first attribute it keeps, so that it never has
  both the hardware address and the destination.  Whatever is returned is the empty list.
\<close>

theorem connection_search_finds_nothing:
  assumes "netlink_connections_to linux RTA_MAX target is_dds = Some (Inr connections)"
  shows "connections = []"
proof -
  have "addresses = []" if "iterate (route_round RTA_MAX b n) (0, r, []) = Some (Inr (p, l, addresses))" for b n r p l addresses
    using routes.returns [OF _ that] by simp
  moreover have "addresses = []" if "iterate (neighbour_round b target) ((0, r, []), False) = Some (Inr ((p, l, addresses), e))"
    for b r p l addresses e
    using neighbours.returns [OF _ that] by simp
  ultimately show ?thesis
    using assms unfolding netlink_connections_to_def by (auto split: if_split_asm)
qed

section \<open>The table of attributes\<close>

lemma load_in [simp]: "p < length b \<Longrightarrow> load b p = Inr (b ! p)"
  by (simp add: load_def)

lemma load16_in: "p + 2 \<le> length b \<Longrightarrow> load16 b p = Inr (unat (b ! p) + 256 * unat (b ! Suc p))"
  by (simp add: load16_def)

text \<open>
  What the walk keeps: offset and remaining length stay within the buffer, and every pointer of
  the table is the offset of an attribute header of its type within the walked range.
\<close>

definition attribute_header :: "byte list \<Rightarrow> nat \<Rightarrow> int \<Rightarrow> nat \<Rightarrow> nat \<Rightarrow> bool" where
  "attribute_header b first behind t p \<longleftrightarrow>
     first \<le> p \<and> load16 b (p + 2) = Inr t \<and> (\<exists>n. load16 b p = Inr n \<and> 4 \<le> n \<and> int (p + n) \<le> behind)"

definition table_ok :: "byte list \<Rightarrow> nat \<Rightarrow> int \<Rightarrow> nat \<Rightarrow> nat option list \<Rightarrow> bool" where
  "table_ok b first behind h tb \<longleftrightarrow>
     length tb = h + 1 \<and> (\<forall>t p. t \<le> h \<longrightarrow> tb ! t = Some p \<longrightarrow> attribute_header b first behind t p)"

interpretation attribute_memory: bounded_loop
  "\<lambda>s. Some (parse_rtattr_round b h s)"
  "\<lambda>(rta, len, tb). first \<le> rta \<and> int rta + len = behind \<and> behind \<le> int (length b) \<and> table_ok b first behind h tb"
  "\<lambda>(rta, len, tb). nat len" for b h first behind
proof unfold_locales
  fix s s'
  assume inv: "case s of (rta, len, tb) \<Rightarrow>
      first \<le> rta \<and> int rta + len = behind \<and> behind \<le> int (length b) \<and> table_ok b first behind h tb"
    and step: "Some (parse_rtattr_round b h s) = Some (Inr (Some s'))"
  then show "(case s' of (rta, len, tb) \<Rightarrow> nat len) < (case s of (rta, len, tb) \<Rightarrow> nat len)"
    using attributes.progress by simp
  from inv step show "case s' of (rta, len, tb) \<Rightarrow>
      first \<le> rta \<and> int rta + len = behind \<and> behind \<le> int (length b) \<and> table_ok b first behind h tb"
    by (auto simp: parse_rtattr_round_def RTA_OK_True table_ok_def attribute_header_def nth_list_update
        split: if_split_asm)
qed auto

lemma parse_rtattr_round_safe:
  "int rta + len \<le> int (length b) \<Longrightarrow> parse_rtattr_round b h (rta, len, tb) \<noteq> Inl e"
  by (auto simp: parse_rtattr_round_def RTA_OK_def load16_in)

text \<open>
  Reading the attributes of a message stays inside it: for a range that lies in the buffer
  \<open>parse_rtattr\<close> either throws \<open>std::exception\<close>, when octets are left over, or returns a table
  each entry of which points to an attribute of its type that lies completely in the range.
\<close>

lemma parse_rtattr_in_bounds:
  assumes "0 \<le> len" "int rta + len \<le> int (length b)"
  shows "parse_rtattr b h rta len = Some (Inl StdException)
         \<or> (\<exists>tb. parse_rtattr b h rta len = Some (Inr tb) \<and> table_ok b rta (int rta + len) h tb)"
proof -
  let ?s = "(rta, len, replicate (h + 1) None)"
  let ?inv = "\<lambda>(r, l, tb). rta \<le> r \<and> int r + l = int rta + len \<and> int rta + len \<le> int (length b)
      \<and> table_ok b rta (int rta + len) h tb"
  have inv: "?inv ?s"
    using assms by (simp add: table_ok_def nth_append del: replicate.simps)
  obtain r where r: "iterate (\<lambda>s. Some (parse_rtattr_round b h s)) ?s = Some r"
    using attribute_memory.terminates [OF inv] by blast
  show ?thesis
  proof (cases r)
    case (Inl e)
    with r attribute_memory.faults [OF inv, of e] show ?thesis
      using parse_rtattr_round_safe by fastforce
  next
    case (Inr s')
    then show ?thesis
      using r attribute_memory.returns [OF inv, of s'] by (cases s') (auto simp: parse_rtattr_def)
  qed
qed

text \<open>The octets of a sequence of attributes, each padded to a multiple of four.\<close>

definition le16 :: "nat \<Rightarrow> byte list" where
  "le16 n = [word_of_nat n, word_of_nat (n div 256)]"

definition rtattr_octets :: "nat \<times> byte list \<Rightarrow> byte list" where
  "rtattr_octets a =
     (let n = 4 + length (snd a) in le16 n @ le16 (fst a) @ snd a @ replicate (align4 n - n) 0)"

definition rtattr_fits :: "nat \<times> byte list \<Rightarrow> bool" where
  "rtattr_fits a \<longleftrightarrow> fst a < 2 ^ 16 \<and> 4 + length (snd a) < 2 ^ 16"

fun attribute_offset :: "nat \<Rightarrow> (nat \<times> byte list) list \<Rightarrow> nat \<Rightarrow> nat option" where
  "attribute_offset p [] t = None"
| "attribute_offset p (a # as) t =
     (if fst a = t then Some p else attribute_offset (p + length (rtattr_octets a)) as t)"

lemma le16_length [simp]: "length (le16 n) = 2"
  by (simp add: le16_def)

lemma rtattr_octets_length [simp]: "length (rtattr_octets a) = align4 (4 + length (snd a))"
  using align4_ge [of "4 + length (snd a)"]
  unfolding rtattr_octets_def Let_def length_append le16_length length_replicate by linarith

lemma load16_le16: "n < 2 ^ 16 \<Longrightarrow> load16 (pre @ le16 n @ post) (length pre) = Inr n"
  by (simp add: load16_in le16_def nth_append unat_of_nat)

lemma load_octets_app: "load_octets (pre @ d @ post) (length pre) (length d) = Inr d"
proof (induction d arbitrary: pre)
  case (Cons x d)
  then show ?case
    using Cons.IH [of "pre @ [x]"] by (simp add: nth_append)
qed simp

lemma load_attribute:
  assumes "rtattr_fits a" "b = pre @ rtattr_octets a @ post"
  shows "load16 b (length pre) = Inr (4 + length (snd a))"
    and "load16 b (length pre + 2) = Inr (fst a)"
    and "load_octets b (length pre + 4) (length (snd a)) = Inr (snd a)"
proof -
  let ?n = "4 + length (snd a)"
  let ?pad = "replicate (align4 ?n - ?n) 0"
  show "load16 b (length pre) = Inr ?n"
    using assms load16_le16 [of ?n pre "le16 (fst a) @ snd a @ ?pad @ post"]
    by (simp add: rtattr_fits_def rtattr_octets_def Let_def)
  show "load16 b (length pre + 2) = Inr (fst a)"
    using assms load16_le16 [of "fst a" "pre @ le16 ?n" "snd a @ ?pad @ post"]
    by (simp add: rtattr_fits_def rtattr_octets_def Let_def)
  show "load_octets b (length pre + 4) (length (snd a)) = Inr (snd a)"
    using assms load_octets_app [of "pre @ le16 ?n @ le16 (fst a)" "snd a" "?pad @ post"]
    by (simp add: rtattr_octets_def Let_def)
qed

text \<open>
  The walk that fills a table, with a function \<open>m\<close> on the types, such as one that clears flags;
  \<open>parse_rtattr\<close> takes the types as they are.
\<close>

definition table_round ::
  "byte list \<Rightarrow> nat \<Rightarrow> (nat \<Rightarrow> nat) \<Rightarrow> nat \<times> int \<times> nat option list \<Rightarrow> (nat \<times> int \<times> nat option list) option res" where
  "table_round b h m s =
     (case s of (rta, len, tb) \<Rightarrow>
        and_then (RTA_OK b rta len) (\<lambda>ok.
          if \<not> ok then Inr None
          else
            and_then (load16 b (rta + 2)) (\<lambda>t.
            and_then (load16 b rta) (\<lambda>n.
              Inr (Some (rta + align4 n, len - int (align4 n),
                if m t \<le> h \<and> tb ! m t = None then tb[m t := Some rta] else tb))))))"

lemma parse_rtattr_round_table: "parse_rtattr_round b h = table_round b h id"
  by (rule ext) (simp add: parse_rtattr_round_def table_round_def cong: and_then_cong if_cong split: prod.split)

interpretation table: bounded_loop
  "\<lambda>s. Some (table_round b h m s)" "\<lambda>_. True" "\<lambda>(rta, len, tb). nat len" for b h m
  by unfold_locales (auto simp: table_round_def RTA_OK_True walk_advances split: if_split_asm)

abbreviation (input) typed_by :: "(nat \<Rightarrow> nat) \<Rightarrow> (nat \<times> byte list) list \<Rightarrow> (nat \<times> byte list) list" where
  "typed_by m as \<equiv> map (\<lambda>a. (m (fst a), snd a)) as"

lemma attribute_offset_data:
  assumes "list_all rtattr_fits as" "b = pre @ concat (map rtattr_octets as) @ post"
  shows "case map_of (typed_by m as) t of
           None \<Rightarrow> attribute_offset (length pre) (typed_by m as) t = None
         | Some d \<Rightarrow> \<exists>p. attribute_offset (length pre) (typed_by m as) t = Some p
             \<and> load16 b p = Inr (4 + length d) \<and> load_octets b (p + 4) (length d) = Inr d
             \<and> p + align4 (4 + length d) \<le> length b"
  using assms
proof (induction as arbitrary: pre)
  case (Cons a as)
  show ?case
  proof (cases "m (fst a) = t")
    case True
    moreover have "length pre + align4 (4 + length (snd a)) \<le> length b"
      using Cons.prems(2) by simp
    ultimately show ?thesis
      using load_attribute(1,3) [of a b pre "concat (map rtattr_octets as) @ post"] Cons.prems(1) Cons.prems(2)
      by (cases a) auto
  next
    case False
    then show ?thesis
      using Cons.IH [of "pre @ rtattr_octets a"] Cons.prems by (cases a) (auto split: option.splits)
  qed
qed simp

lemma table_walk:
  assumes "list_all rtattr_fits as" "b = pre @ concat (map rtattr_octets as) @ post" "length tb = h + 1"
  shows "\<exists>p tb'. iterate (\<lambda>s. Some (table_round b h m s))
            (length pre, int (length (concat (map rtattr_octets as))), tb) = Some (Inr (p, 0, tb'))
          \<and> length tb' = h + 1
          \<and> (\<forall>t \<le> h. tb' ! t =
                (case tb ! t of None \<Rightarrow> attribute_offset (length pre) (typed_by m as) t | Some p \<Rightarrow> Some p))"
  using assms
proof (induction as arbitrary: pre tb)
  case Nil
  then show ?case
    by (simp add: table_round_def RTA_OK_def split: option.split)
next
  case (Cons a as)
  let ?n = "4 + length (snd a)" and ?t = "m (fst a)"
  let ?len = "int (length (concat (map rtattr_octets (a # as))))"
  let ?tb = "if ?t \<le> h \<and> tb ! ?t = None then tb[?t := Some (length pre)] else tb"
  have len: "int ?n \<le> ?len"
    using align4_ge [of ?n] by (simp add: trans_le_add1 flip: of_nat_add)
  have "table_round b h m (length pre, ?len, tb)
      = Inr (Some (length (pre @ rtattr_octets a), int (length (concat (map rtattr_octets as))), ?tb))"
    using load_attribute(1,2) [of a b pre "concat (map rtattr_octets as) @ post"] Cons.prems len
    by (simp add: table_round_def RTA_OK_def)
  moreover have "\<forall>t \<le> h. (case ?tb ! t of
        None \<Rightarrow> attribute_offset (length (pre @ rtattr_octets a)) (typed_by m as) t | Some p \<Rightarrow> Some p)
      = (case tb ! t of None \<Rightarrow> attribute_offset (length pre) (typed_by m (a # as)) t | Some p \<Rightarrow> Some p)"
    using Cons.prems(3) by (auto simp: nth_list_update split: option.split)
  ultimately show ?case
    using Cons.IH [of "pre @ rtattr_octets a" ?tb] Cons.prems by simp
qed

text \<open>The table of a sequence of attributes, each of which lies in the buffer with its padding.\<close>

definition attribute_table :: "byte list \<Rightarrow> nat \<Rightarrow> (nat \<times> byte list) list \<Rightarrow> nat option list \<Rightarrow> bool" where
  "attribute_table b h as tb \<longleftrightarrow>
     length tb = h + 1
     \<and> (\<forall>t \<le> h. case map_of as t of
           None \<Rightarrow> tb ! t = None
         | Some d \<Rightarrow> \<exists>p. tb ! t = Some p \<and> load16 b p = Inr (4 + length d) \<and> load_octets b (p + 4) (length d) = Inr d
             \<and> p + align4 (4 + length d) \<le> length b)"

lemma table_of_attributes:
  assumes "list_all rtattr_fits as" "b = pre @ concat (map rtattr_octets as) @ post"
  shows "\<exists>p tb. iterate (\<lambda>s. Some (table_round b h m s))
            (length pre, int (length (concat (map rtattr_octets as))), replicate (h + 1) None) = Some (Inr (p, 0, tb))
          \<and> attribute_table b h (typed_by m as) tb"
proof -
  obtain p tb where run: "iterate (\<lambda>s. Some (table_round b h m s))
      (length pre, int (length (concat (map rtattr_octets as))), replicate (h + 1) None) = Some (Inr (p, 0, tb))"
    and tb: "length tb = h + 1" "\<forall>t \<le> h. tb ! t = attribute_offset (length pre) (typed_by m as) t"
    using table_walk [OF assms, of "replicate (h + 1) None" h m] by (auto simp del: replicate.simps)
  have "case map_of (typed_by m as) t of None \<Rightarrow> tb ! t = None
      | Some d \<Rightarrow> \<exists>p. tb ! t = Some p \<and> load16 b p = Inr (4 + length d) \<and> load_octets b (p + 4) (length d) = Inr d
          \<and> p + align4 (4 + length d) \<le> length b"
    if "t \<le> h" for t
    using attribute_offset_data [OF assms, of m t] tb(2) that by (auto split: option.split)
  with run tb(1) show ?thesis
    by (auto simp: attribute_table_def)
qed

lemma parse_rtattr_lookup:
  assumes "list_all rtattr_fits as" "b = pre @ concat (map rtattr_octets as) @ post"
  shows "\<exists>tb. parse_rtattr b h (length pre) (int (length (concat (map rtattr_octets as)))) = Some (Inr tb)
          \<and> length tb = h + 1
          \<and> (\<forall>t \<le> h. case map_of as t of
                None \<Rightarrow> tb ! t = None
              | Some d \<Rightarrow> \<exists>p. tb ! t = Some p \<and> load_octets b (p + 4) (length d) = Inr d)"
proof -
  obtain p tb where "iterate (\<lambda>s. Some (parse_rtattr_round b h s))
      (length pre, int (length (concat (map rtattr_octets as))), replicate (h + 1) None) = Some (Inr (p, 0, tb))"
    and "attribute_table b h as tb"
    using table_of_attributes [OF assms, of h id] by (auto simp: parse_rtattr_round_table)
  moreover from this(2) have "\<forall>t \<le> h. case map_of as t of None \<Rightarrow> tb ! t = None
      | Some d \<Rightarrow> \<exists>p. tb ! t = Some p \<and> load_octets b (p + 4) (length d) = Inr d"
    unfolding attribute_table_def by (fastforce split: option.split)
  ultimately show ?thesis
    by (simp add: parse_rtattr_def attribute_table_def)
qed

text \<open>
  C20. On attributes as the kernel writes them the table is a lookup: for every type up to the
  bound the entry is null when no attribute has the type, and otherwise points to the first such
  attribute, behind whose header its data are.
\<close>

theorem parse_rtattr_is_lookup:
  assumes "list_all rtattr_fits as" "b = pre @ concat (map rtattr_octets as) @ post"
  shows "\<exists>tb. parse_rtattr b h (length pre) (int (length (concat (map rtattr_octets as)))) = Some (Inr tb)
          \<and> length tb = h + 1
          \<and> (\<forall>t \<le> h. case map_of as t of
                None \<Rightarrow> tb ! t = None
              | Some d \<Rightarrow> \<exists>p. tb ! t = Some p \<and> load_octets b (p + 4) (length d) = Inr d)"
  using assms by (rule parse_rtattr_lookup)

text \<open>
  A dump of the neighbour table with one reachable entry: its IPv4 address and its hardware
  address.
\<close>

definition sample_neighbour :: "byte list" where
  "sample_neighbour =
     [48, 0, 0, 0, 28, 0, 2, 0, 0, 0, 0, 0, 0, 0, 0, 0] @ [2, 0, 0, 0, 3, 0, 0, 0, 2, 0, 0, 1]
     @ concat (map rtattr_octets [(1, [192, 168, 0, 7]), (2, [2, 0, 0, 0, 0, 9])])"

definition sample_kernel :: "netlink_request \<Rightarrow> netlink_answer" where
  "sample_kernel request =
     \<lparr> nl_socket = 3, nl_bind = 0, nl_send = 28, nl_recv = 48, nl_buffer = sample_neighbour @ replicate 60 0 \<rparr>"

lemma load_octets_in: "p + n \<le> length b \<Longrightarrow> load_octets b p n = Inr (take n (drop p b))"
proof (induction n arbitrary: p)
  case (Suc n)
  then show ?case
    by (simp flip: Cons_nth_drop_Suc [of p b])
qed simp

lemma sample_search:
  "\<exists>xs. netlink_connections_to sample_kernel 30 [2, 0, 0, 0, 0, 9] False = Some (Inr xs)"
proof -
  let ?b = "sample_neighbour @ replicate 60 0" and ?t = "[2, 0, 0, 0, 0, 9] :: byte list"
  note loads = load_def load16_def load32_def sample_neighbour_def rtattr_octets_def le16_def align4_def Let_def
  have ok: "NLMSG_OK ?b 0 48 = Inr True" "load32 ?b 0 = Inr 48" "neighbour_entry ?b 16 = Inr True" "load ?b 16 = Inr 2"
    by (simp_all add: NLMSG_OK_def neighbour_entry_def loads)
  have first: "neighbour_attribute ?b ?t 2 (28, 48, [], []) = Inr (Some (36, 40, [192, 168, 0, 7], []))"
    by (simp add: neighbour_attribute_def RTA_OK_def neighbour_destination_def load_octets_in loads)
  have second: "neighbour_attribute ?b ?t 2 (36, 40, [192, 168, 0, 7], []) = Inr None"
    by (simp add: neighbour_attribute_def RTA_OK_def loads)
  have "neighbour_message ?b ?t 0 48 = Some (Inr ([192, 168, 0, 7], []))"
    by (simp add: neighbour_message_def ok first second)
  then have "neighbour_round ?b ?t ((0, 48, []), False) = Some (Inr (Some ((48, 0, []), False)))"
    by (simp add: neighbour_round_def ok align4_def)
  moreover have "neighbour_round ?b ?t ((48, 0, []), False) = Some (Inr None)"
    by (simp add: neighbour_round_def NLMSG_OK_def)
  ultimately show ?thesis
    by (simp add: netlink_connections_to_def netlink_dump_def sample_kernel_def)
qed

theorem connection_search_finds_nothing_witness:
  "netlink_connections_to sample_kernel 30 [2, 0, 0, 0, 0, 9] False = Some (Inr [])"
  using connection_search_finds_nothing [of sample_kernel 30 "[2, 0, 0, 0, 0, 9]" False] sample_search by auto

theorem parse_rtattr_is_lookup_witness:
  "\<exists>tb p. parse_rtattr (concat (map rtattr_octets [(1, [192, 168, 0, 7]), (1, [10])])) 2 0 16 = Some (Inr tb)
     \<and> tb ! 1 = Some p
     \<and> load_octets (concat (map rtattr_octets [(1, [192, 168, 0, 7]), (1, [10])])) (p + 4) 4 = Inr [192, 168, 0, 7]"
proof -
  let ?as = "[(1, [192, 168, 0, 7]), (1, [10])] :: (nat \<times> byte list) list"
  have len: "length (concat (map rtattr_octets ?as)) = 16"
    by (simp add: align4_def)
  obtain tb where "parse_rtattr (concat (map rtattr_octets ?as)) 2 0 16 = Some (Inr tb)"
    and lookup: "\<forall>t \<le> 2. case map_of ?as t of None \<Rightarrow> tb ! t = None
        | Some d \<Rightarrow> \<exists>p. tb ! t = Some p \<and> load_octets (concat (map rtattr_octets ?as)) (p + 4) (length d) = Inr d"
    using parse_rtattr_is_lookup [of ?as "concat (map rtattr_octets ?as)" "[]" "[]" 2, unfolded len]
    by (auto simp: rtattr_fits_def)
  then show ?thesis
    using lookup [rule_format, of 1] by (auto simp: eval_nat_numeral)
qed

end
