(* ===== verification/Cpu_Info.thy ===== *)
theory Cpu_Info
  imports Marshalling Loops Complex_Main "HOL-Library.Char_ord" "HOL-Library.List_Lexorder"
begin

text \<open>
  The processor of the host as the computing engine reads it from \<open>/proc/cpuinfo\<close>
  (\<open>src/internal/rankd-comp\<close>: \<open>data-sources/cpu.cpp\<close> and \<open>utils/strings.cpp\<close>); its number of cores
  is the capacity the admission of a request compares with.

  A text stream is the characters still to be read with its end and failure flags.  The content
  of the file is an argument (\<open>None\<close> when it cannot be opened), as are the counters of
  \<open>/proc/stat\<close>, the conversion \<open>std::stod\<close> from text to the bits of a double and the rounding of a
  real number to a double.  The two statistics computed in floating point are real numbers.
\<close>

section \<open>Streams\<close>

record istream =
  is_text :: string
  is_eof :: bool
  is_fail :: bool

definition good :: "istream \<Rightarrow> bool" where
  "good s = (\<not> is_eof s \<and> \<not> is_fail s)"

text \<open>\<open>std::getline\<close>: a string that cannot be read stays as it was.\<close>

definition getline :: "char \<Rightarrow> string \<Rightarrow> istream \<Rightarrow> string \<times> istream" where
  "getline delim str s =
     (if \<not> good s then (str, s \<lparr> is_fail := True \<rparr>)
      else
        let line = takeWhile (\<lambda>c. c \<noteq> delim) (is_text s) in
        case dropWhile (\<lambda>c. c \<noteq> delim) (is_text s) of
          [] \<Rightarrow> (line, s \<lparr> is_text := [], is_eof := True, is_fail := (line = []) \<rparr>)
        | _ # rest \<Rightarrow> (line, s \<lparr> is_text := rest \<rparr>))"

definition get :: "istream \<Rightarrow> istream" where
  "get s =
     (if \<not> good s then s \<lparr> is_fail := True \<rparr>
      else case is_text s of
        [] \<Rightarrow> s \<lparr> is_eof := True, is_fail := True \<rparr>
      | _ # rest \<Rightarrow> s \<lparr> is_text := rest \<rparr>)"

definition isspace :: "char \<Rightarrow> bool" where
  "isspace c = (c \<in> {CHR 0x20, CHR 0x09, CHR 0x0A, CHR 0x0B, CHR 0x0C, CHR 0x0D})"

text \<open>\<open>stream >> item\<close> for a string that was empty before.\<close>

definition extract_word :: "istream \<Rightarrow> string \<times> istream" where
  "extract_word s =
     (if \<not> good s then ([], s \<lparr> is_fail := True \<rparr>)
      else
        let text = dropWhile isspace (is_text s) in
        if text = [] then ([], s \<lparr> is_text := [], is_eof := True, is_fail := True \<rparr>)
        else
          let rest = dropWhile (\<lambda>c. \<not> isspace c) text in
          (takeWhile (\<lambda>c. \<not> isspace c) text, s \<lparr> is_text := rest, is_eof := (rest = []) \<rparr>))"

section \<open>Trimming\<close>

text \<open>The loop that moves the end back; for an empty string it would leave the string.\<close>

primrec trim_back :: "string \<Rightarrow> nat \<Rightarrow> nat \<Rightarrow> nat" where
  "trim_back s start 0 = 0"
| "trim_back s start (Suc e) = (if start < e \<and> isspace (s ! e) then trim_back s start e else e)"

definition trim :: "string \<Rightarrow> string res" where
  "trim s =
     (if s = [] then Inl UndefinedBehaviour
      else
        let start = length (takeWhile isspace s);
            stop = trim_back s start (length s) in
        Inr (take (stop + 1 - start) (drop start s)))"

section \<open>The blocks of the file\<close>

type_synonym properties = "(string, string) std_map"

record cpuinfo_state =
  ci_stream :: istream
  ci_line :: string
  ci_unit :: int
  ci_unit_tree :: properties
  ci_tree :: "(int, properties) std_map"
  ci_left :: bool

text \<open>What a key does to the trees, before its value is read.\<close>

definition cpuinfo_key :: "string \<Rightarrow> cpuinfo_state \<Rightarrow> cpuinfo_state" where
  "cpuinfo_key key s =
     (let s = (if key = ''processor'' \<and> ci_unit s \<noteq> - 1
               then s \<lparr> ci_tree := map_assign (ci_unit s) (ci_unit_tree s) (ci_tree s),
                        ci_unit := ci_unit s + 1, ci_unit_tree := [] \<rparr>
               else s);
          s = (if ci_unit s = - 1 then s \<lparr> ci_unit := 0 \<rparr> else s)
      in s \<lparr> ci_unit_tree := map_assign key '''' (ci_unit_tree s) \<rparr>)"

definition cpuinfo_round :: "cpuinfo_state \<Rightarrow> cpuinfo_state option run" where
  "cpuinfo_round s =
     (if ci_left s then Some (Inr None)
      else
        let (line, stream) = getline (CHR '':'') (ci_line s) (ci_stream s) in
        if is_eof stream then Some (Inr (Some (s \<lparr> ci_stream := stream, ci_line := line, ci_left := True \<rparr>)))
        else
          run_then (Some (trim line)) (\<lambda>key.
            let s = cpuinfo_key key (s \<lparr> ci_line := line \<rparr>);
                (value, stream) = getline (CHR 0x0A) '''' (get stream) in
            Some (Inr (Some (s \<lparr> ci_stream := stream,
              ci_unit_tree := map_assign key value (ci_unit_tree s) \<rparr>)))))"

definition cpuinfo_block :: "cpuinfo_state \<Rightarrow> cpuinfo_state option run" where
  "cpuinfo_block s =
     (if \<not> good (ci_stream s) then Some (Inr None)
      else
        run_then (iterate cpuinfo_round (s \<lparr> ci_line := '''', ci_unit := - 1, ci_left := False \<rparr>)) (\<lambda>s.
          Some (Inr (Some (s \<lparr> ci_tree := map_assign (ci_unit s) (ci_unit_tree s) (ci_tree s) \<rparr>)))))"

text \<open>A file that could not be opened leaves the failure flag of the stream set.\<close>

definition cpuinfo_open :: "string option \<Rightarrow> cpuinfo_state" where
  "cpuinfo_open file =
     \<lparr> ci_stream = (case file of None \<Rightarrow> \<lparr> is_text = [], is_eof = False, is_fail = True \<rparr>
                    | Some text \<Rightarrow> \<lparr> is_text = text, is_eof = False, is_fail = False \<rparr>),
       ci_line = '''', ci_unit = - 1, ci_unit_tree = [], ci_tree = [], ci_left = False \<rparr>"

definition cpuinfo_parse :: "string option \<Rightarrow> (properties \<times> (int, properties) std_map) run" where
  "cpuinfo_parse file =
     run_then (iterate cpuinfo_block (cpuinfo_open file)) (\<lambda>s. Some (Inr (ci_unit_tree s, ci_tree s)))"

section \<open>The processor\<close>

type_synonym string_set = "(string, unit) std_map"

text \<open>\<open>while (!stream.eof()) { stream >> item; set.insert(item); }\<close>\<close>

definition words_round :: "istream \<times> string_set \<Rightarrow> (istream \<times> string_set) option res" where
  "words_round p =
     (case p of (stream, items) \<Rightarrow>
        if is_eof stream then Inr None
        else let (item, stream) = extract_word stream in Inr (Some (stream, map_insert item () items)))"

definition words :: "string \<Rightarrow> string_set run" where
  "words text =
     run_then (iterate (\<lambda>p. Some (words_round p)) (\<lparr> is_text = text, is_eof = False, is_fail = False \<rparr>, []))
       (\<lambda>(stream, items). Some (Inr items))"

record CPUCore =
  core_identifier :: byte
  core_frequency :: "64 word option"
  core_cache_size :: "string option"
  core_has_fpu :: "bool option"

datatype ByteOrder = LITTLE | BIG

record proc_stat =
  ps_system :: size_t
  ps_user :: size_t
  ps_nice :: size_t
  ps_irq :: size_t
  ps_softirq :: size_t
  ps_iowait :: size_t
  ps_idle :: size_t
  ps_steal :: size_t

record CPUStats = proc_stat +
  stats_in_use :: real
  stats_total :: real

record CPU =
  cpu_identifier :: byte
  cpu_byte_order :: ByteOrder
  cpu_vendor_id :: "string option"
  cpu_family :: "string option"
  cpu_model :: "string option"
  cpu_model_name :: "string option"
  cpu_stepping :: "string option"
  cpu_microcode :: "string option"
  cpu_flags :: string_set
  cpu_bugs :: string_set
  cpu_bogomips :: "64 word"
  cpu_cores :: "(int, CPUCore) std_map"
  cpu_snapshot :: CPUStats

text \<open>
  The sums are of unsigned 64-bit counters and wrap around; with a total of zero the quotient is
  not a number, for which the model has the value 0.
\<close>

definition CPU_snap :: "proc_stat \<Rightarrow> CPUStats" where
  "CPU_snap stat =
     (let busy = ps_system stat + ps_user stat + ps_nice stat + ps_irq stat + ps_softirq stat + ps_iowait stat;
          total = real (unat (busy + ps_idle stat + ps_steal stat))
      in \<lparr> ps_system = ps_system stat, ps_user = ps_user stat, ps_nice = ps_nice stat, ps_irq = ps_irq stat,
           ps_softirq = ps_softirq stat, ps_iowait = ps_iowait stat, ps_idle = ps_idle stat, ps_steal = ps_steal stat,
           stats_in_use = real (unat (busy + ps_steal stat)) / total, stats_total = total \<rparr>)"

definition cpu_core :: "(string \<Rightarrow> 64 word res) \<Rightarrow> int \<times> properties \<Rightarrow> (int, CPUCore) std_map \<Rightarrow> (int, CPUCore) std_map res" where
  "cpu_core stod p cores =
     (case p of (identifier, core) \<Rightarrow>
        and_then (case map_of core ''cpu MHz'' of None \<Rightarrow> Inr None
                  | Some v \<Rightarrow> and_then (stod v) (\<lambda>d. Inr (Some d))) (\<lambda>frequency.
          Inr (map_assign identifier
            \<lparr> core_identifier = word_of_int identifier, core_frequency = frequency,
              core_cache_size = map_of core ''cache size'',
              core_has_fpu = map_option (\<lambda>v. v = ''yes'') (map_of core ''fpu'') \<rparr> cores)))"

text \<open>The keys are looked for in the last block and read from the first one.\<close>

definition parse_flags :: "properties \<Rightarrow> properties \<Rightarrow> string_set run" where
  "parse_flags unit_tree first =
     (if map_contains ''flags'' unit_tree then run_then (Some (map_at first ''flags'')) words
      else if map_contains ''Features'' unit_tree then run_then (Some (map_at first ''Features'')) words
      else words '''')"

definition parse_bugs :: "properties \<Rightarrow> properties \<Rightarrow> string_set run" where
  "parse_bugs unit_tree first =
     (if map_contains ''bugs'' unit_tree then run_then (Some (map_at first ''bugs'')) words else Some (Inr []))"

definition parse_bogomips :: "(string \<Rightarrow> 64 word res) \<Rightarrow> properties \<Rightarrow> 64 word res" where
  "parse_bogomips stod unit_tree =
     and_then (if map_contains ''bogomips'' unit_tree then map_at unit_tree ''bogomips''
               else map_at unit_tree ''BogoMIPS'') stod"

definition CPU_new :: "(string \<Rightarrow> 64 word res) \<Rightarrow> string option \<Rightarrow> proc_stat \<Rightarrow> CPU run" where
  "CPU_new stod file stat =
     run_then (cpuinfo_parse file) (\<lambda>(unit_tree, tree).
     let tree = map_insert 0 [] tree;
         first = (case map_of tree 0 of None \<Rightarrow> [] | Some p \<Rightarrow> p) in
     run_then (parse_flags unit_tree first) (\<lambda>flags.
     run_then (parse_bugs unit_tree first) (\<lambda>bugs.
     run_then (Some (parse_bogomips stod unit_tree)) (\<lambda>bogomips.
     run_then (Some (fold_res (cpu_core stod) tree [])) (\<lambda>cores.
       Some (Inr \<lparr> cpu_identifier = 0, cpu_byte_order = LITTLE,
         cpu_vendor_id = map_of first ''vendor_id'', cpu_family = map_of first ''cpu family'',
         cpu_model = map_of first ''model name'', cpu_model_name = map_of first ''model'',
         cpu_stepping = map_of first ''stepping'', cpu_microcode = map_of first ''microcode'',
         cpu_flags = flags, cpu_bugs = bugs, cpu_bogomips = bogomips, cpu_cores = cores,
         cpu_snapshot = CPU_snap stat \<rparr>))))))"

section \<open>As a document\<close>

text \<open>The items of a set, each followed by a space, without the last character.\<close>

definition joined :: "string_set \<Rightarrow> string res" where
  "joined items =
     (let text = concat (map (\<lambda>(item, _). item @ '' '') items) in
      if text = [] then Inl UndefinedBehaviour else Inr (butlast text))"

text \<open>\<open>value->c_str()\<close> for an optional string: the value of an empty one is undefined.\<close>

definition optional_c_str :: "string option \<Rightarrow> json res" where
  "optional_c_str v =
     (case v of None \<Rightarrow> Inl UndefinedBehaviour | Some s \<Rightarrow> Inr (JString (takeWhile (\<lambda>c. c \<noteq> CHR 0x00) s)))"

definition core_json :: "CPUCore \<Rightarrow> json" where
  "core_json core =
     JObject [(''frequency'', JDouble (case core_frequency core of None \<Rightarrow> 0x7FF8000000000000 | Some d \<Rightarrow> d)),
              (''cache-size'', JString (case core_cache_size core of None \<Rightarrow> '''' | Some s \<Rightarrow> s)),
              (''has-fpu'', JBool (core_has_fpu core = Some True))]"

definition stats_json :: "(real \<Rightarrow> 64 word) \<Rightarrow> CPUStats \<Rightarrow> json" where
  "stats_json double stats =
     JObject [(''system'', JInt (uint (ps_system stats))), (''user'', JInt (uint (ps_user stats))),
              (''nice'', JInt (uint (ps_nice stats))), (''irqs'', JInt (uint (ps_irq stats))),
              (''softirqs'', JInt (uint (ps_softirq stats))), (''iowait'', JInt (uint (ps_iowait stats))),
              (''idle'', JInt (uint (ps_idle stats))), (''steal'', JInt (uint (ps_steal stats))),
              (''in-use'', JDouble (double (stats_in_use stats))), (''total'', JDouble (double (stats_total stats)))]"

definition CPU_json :: "(real \<Rightarrow> 64 word) \<Rightarrow> CPU \<Rightarrow> json res" where
  "CPU_json double cpu =
     and_then (optional_c_str (cpu_vendor_id cpu)) (\<lambda>vendor.
     and_then (optional_c_str (cpu_family cpu)) (\<lambda>family.
     and_then (optional_c_str (cpu_model cpu)) (\<lambda>model.
     and_then (optional_c_str (cpu_model_name cpu)) (\<lambda>model_name.
     and_then (optional_c_str (cpu_stepping cpu)) (\<lambda>stepping.
     and_then (optional_c_str (cpu_microcode cpu)) (\<lambda>microcode.
     and_then (joined (cpu_flags cpu)) (\<lambda>flags.
     and_then (joined (cpu_bugs cpu)) (\<lambda>bugs.
       Inr (JObject
         [(''id'', JInt (uint (cpu_identifier cpu))),
          (''endianness'', JString (if cpu_byte_order cpu = LITTLE then ''little endian'' else ''big endian'')),
          (''vendor'', vendor), (''family'', family), (''model'', model), (''model-name'', model_name),
          (''stepping'', stepping), (''microcode'', microcode), (''flags'', JString flags), (''bugs'', JString bugs),
          (''bogomips'', JDouble (cpu_bogomips cpu)),
          (''cores'', JObject (map (\<lambda>(identifier, core). (to_string identifier, core_json core)) (cpu_cores cpu))),
          (''stats'', stats_json double (cpu_snapshot cpu))])))))))))"

section \<open>Reading ends\<close>

text \<open>A stream that has failed has met its end: then no loop waits for an end that never comes.\<close>

definition failed_at_end :: "istream \<Rightarrow> bool" where
  "failed_at_end s = (is_fail s \<longrightarrow> is_eof s)"

definition unread :: "istream \<Rightarrow> nat" where
  "unread s = (if is_eof s then 0 else Suc (length (is_text s)))"

lemma dropWhile_shorter: "length (dropWhile P xs) \<le> length xs"
  by (induction xs) auto

lemma getline_at_end: "failed_at_end s \<Longrightarrow> failed_at_end (snd (getline d str s))"
  by (auto simp: getline_def failed_at_end_def good_def Let_def split: list.split)

lemma get_at_end: "failed_at_end s \<Longrightarrow> failed_at_end (get s)"
  by (auto simp: get_def failed_at_end_def good_def split: list.split)

lemma extract_at_end: "failed_at_end s \<Longrightarrow> failed_at_end (snd (extract_word s))"
  by (auto simp: extract_word_def failed_at_end_def good_def Let_def)

lemma unread_getline: "unread (snd (getline d str s)) \<le> unread s"
  using dropWhile_shorter [of "\<lambda>c. c \<noteq> d" "is_text s"]
  by (auto simp: getline_def unread_def Let_def split: list.split)

lemma unread_get: "unread (get s) \<le> unread s"
  by (auto simp: get_def unread_def split: list.split)

lemma getline_reads:
  "failed_at_end s \<Longrightarrow> \<not> is_eof (snd (getline d str s)) \<Longrightarrow> unread (snd (getline d str s)) < unread s"
  using dropWhile_shorter [of "\<lambda>c. c \<noteq> d" "is_text s"]
  by (auto simp: getline_def unread_def failed_at_end_def good_def Let_def split: list.split if_split_asm)

lemma extract_reads: "failed_at_end s \<Longrightarrow> \<not> is_eof s \<Longrightarrow> unread (snd (extract_word s)) < unread s"
  using dropWhile_shorter [of isspace "is_text s"]
    dropWhile_shorter [of "\<lambda>c. \<not> isspace c" "tl (dropWhile isspace (is_text s))"]
    hd_dropWhile [of isspace "is_text s"]
  by (cases "dropWhile isspace (is_text s)")
    (auto simp: extract_word_def unread_def failed_at_end_def good_def Let_def)

interpretation word_list: bounded_loop
  "\<lambda>p. Some (words_round p)" "\<lambda>(stream, items). failed_at_end stream \<and> (\<not> is_eof stream \<or> items \<noteq> [])"
  "\<lambda>(stream, items). unread stream"
proof unfold_locales
  fix p p'
  assume inv: "case p of (stream, items) \<Rightarrow> failed_at_end stream \<and> (\<not> is_eof stream \<or> items \<noteq> [])"
    and step: "Some (words_round p) = Some (Inr (Some p'))"
  obtain stream items where p: "p = (stream, items)"
    by (cases p)
  from step have p': "p' = (snd (extract_word stream), map_insert (fst (extract_word stream)) () items)" "\<not> is_eof stream"
    by (auto simp: p words_round_def split: prod.split_asm if_split_asm)
  show "(case p' of (stream, items) \<Rightarrow> unread stream) < (case p of (stream, items) \<Rightarrow> unread stream)"
    using inv p' by (simp add: p extract_reads)
  have "map_insert k v m \<noteq> []" for k :: string and v :: unit and m
    by (cases m) (auto split: if_split_asm)
  with inv p' show "case p' of (stream, items) \<Rightarrow> failed_at_end stream \<and> (\<not> is_eof stream \<or> items \<noteq> [])"
    by (simp add: p extract_at_end)
qed simp

lemma words_terminate: "words text \<noteq> None"
  using word_list.terminates [of "(\<lparr> is_text = text, is_eof = False, is_fail = False \<rparr>, [])"]
  by (auto simp: words_def failed_at_end_def)

lemma words_nonempty:
  assumes "words text = Some (Inr items)"
  shows "items \<noteq> []"
proof -
  let ?start = "(\<lparr> is_text = text, is_eof = False, is_fail = False \<rparr>, [])"
  obtain stream where run: "iterate (\<lambda>p. Some (words_round p)) ?start = Some (Inr (stream, items))"
    using assms by (auto simp: words_def)
  then have "\<not> is_eof stream \<or> items \<noteq> []" "words_round (stream, items) = Inr None"
    using word_list.returns [OF _ run] by (simp_all add: failed_at_end_def)
  then show ?thesis
    by (auto simp: words_round_def split: if_split_asm prod.split_asm)
qed

interpretation file_lines: bounded_loop
  cpuinfo_round "\<lambda>s. failed_at_end (ci_stream s) \<and> (ci_left s \<longrightarrow> is_eof (ci_stream s))"
  "\<lambda>s. if ci_left s then 0 else Suc (unread (ci_stream s))"
proof unfold_locales
  fix s s' :: cpuinfo_state
  assume inv: "failed_at_end (ci_stream s) \<and> (ci_left s \<longrightarrow> is_eof (ci_stream s))"
  show "cpuinfo_round s \<noteq> None"
    by (auto simp: cpuinfo_round_def Let_def split: prod.split)
  assume step: "cpuinfo_round s = Some (Inr (Some s'))"
  let ?after = "snd (getline (CHR '':'') (ci_line s) (ci_stream s))"
  let ?onward = "snd (getline (CHR 0x0A) '''' (get ?after))"
  have left: "\<not> ci_left s"
    using step by (auto simp: cpuinfo_round_def)
  have key: "ci_left (cpuinfo_key k t) = ci_left t" for k t
    by (simp add: cpuinfo_key_def Let_def)
  have cases: "is_eof ?after \<and> ci_stream s' = ?after \<and> ci_left s'
      \<or> \<not> is_eof ?after \<and> ci_stream s' = ?onward \<and> \<not> ci_left s'"
    using step left by (auto simp: cpuinfo_round_def Let_def key split_beta split: if_split_asm)
  have "unread ?onward < unread (ci_stream s)" if "\<not> is_eof ?after"
    using getline_reads [OF conjunct1 [OF inv] that] unread_get [of ?after] unread_getline [of "CHR 0x0A" "''''" "get ?after"]
    by linarith
  with cases left show "(if ci_left s' then 0 else Suc (unread (ci_stream s')))
      < (if ci_left s then 0 else Suc (unread (ci_stream s)))"
    by auto
  from cases inv show "failed_at_end (ci_stream s') \<and> (ci_left s' \<longrightarrow> is_eof (ci_stream s'))"
    by (auto intro!: getline_at_end get_at_end)
qed

interpretation file_blocks: bounded_loop
  cpuinfo_block "\<lambda>_. True" "\<lambda>s. if good (ci_stream s) then 1 else 0"
proof unfold_locales
  fix s s' :: cpuinfo_state
  let ?start = "s \<lparr> ci_line := '''', ci_unit := - 1, ci_left := False \<rparr>"
  have inv: "failed_at_end (ci_stream ?start) \<and> (ci_left ?start \<longrightarrow> is_eof (ci_stream ?start))"
    if "good (ci_stream s)"
    using that by (simp add: failed_at_end_def good_def)
  show "cpuinfo_block s \<noteq> None"
    using file_lines.terminates [OF inv] by (auto simp: cpuinfo_block_def)
  assume step: "cpuinfo_block s = Some (Inr (Some s'))"
  then obtain t where good: "good (ci_stream s)" and run: "iterate cpuinfo_round ?start = Some (Inr t)"
    and s': "ci_stream s' = ci_stream t"
    by (auto simp: cpuinfo_block_def split: if_split_asm)
  have "is_eof (ci_stream t)"
    using file_lines.returns [OF inv [OF good] run]
    by (auto simp: cpuinfo_round_def Let_def split_beta split: if_split_asm)
  with good s' show "(if good (ci_stream s') then 1 else 0) < (if good (ci_stream s) then 1 else 0 :: nat)"
    by (simp add: good_def)
qed simp

lemma cpuinfo_parse_terminates: "cpuinfo_parse file \<noteq> None"
  using file_blocks.terminates [of "cpuinfo_open file"] by (auto simp: cpuinfo_parse_def)

text \<open>
  Reading the description of the processor returns for every content of the file, also for
  one that is empty, is cut off or cannot be opened: with a processor or with a fault.
\<close>

lemma cpu_reading_terminates: "CPU_new stod file stat \<noteq> None"
  using cpuinfo_parse_terminates words_terminate
  by (auto simp: CPU_new_def Let_def parse_flags_def parse_bugs_def)

section \<open>Trimming and its reference\<close>

lemma trim_back_rev:
  assumes "start < e" "e \<le> length s" "\<not> isspace (s ! start)"
  shows "take (trim_back s start e + 1 - start) (drop start s)
    = rev (dropWhile isspace (rev (take (e - start) (drop start s))))"
  using assms
proof (induction e)
  case (Suc e)
  have split: "take (Suc e - start) (drop start s) = take (e - start) (drop start s) @ [s ! e]"
    using Suc.prems by (simp add: Suc_diff_le take_Suc_conv_app_nth)
  show ?case
  proof (cases "start < e \<and> isspace (s ! e)")
    case True
    then show ?thesis
      using Suc split by simp
  next
    case False
    moreover have "\<not> isspace (s ! e)"
      using False Suc.prems by (cases "start = e") auto
    ultimately show ?thesis
      using Suc.prems split by (simp add: Suc_diff_le)
  qed
qed simp

lemma trim_reference:
  assumes "s \<noteq> []"
  shows "trim s = Inr (rev (dropWhile isspace (rev (dropWhile isspace s))))"
proof -
  let ?start = "length (takeWhile isspace s)"
  have drop: "drop ?start s = dropWhile isspace s"
    by (metis dropWhile_eq_drop)
  show ?thesis
  proof (cases "?start < length s")
    case True
    then have "\<not> isspace (s ! ?start)"
      by (rule nth_length_takeWhile)
    from trim_back_rev [OF True order_refl this] show ?thesis
      using assms drop by (simp add: trim_def Let_def flip: length_drop)
  next
    case False
    then have all: "dropWhile isspace s = []"
      using drop by simp
    show ?thesis
      unfolding trim_def Let_def drop all using assms by simp
  qed
qed

section \<open>A file as the kernel writes it\<close>

text \<open>
  A line: blanks and empty lines, a key, blanks, the colon, a separating character, the value.
\<close>

record info_line =
  il_lead :: string
  il_key :: string
  il_pad :: string
  il_sep :: char
  il_value :: string

definition line_text :: "info_line \<Rightarrow> string" where
  "line_text l = il_lead l @ il_key l @ il_pad l @ '':'' @ il_sep l # il_value l @ [CHR 0x0A]"

definition line_ok :: "info_line \<Rightarrow> bool" where
  "line_ok l \<longleftrightarrow>
     list_all isspace (il_lead l) \<and> list_all isspace (il_pad l)
     \<and> il_key l \<noteq> [] \<and> \<not> isspace (hd (il_key l)) \<and> \<not> isspace (last (il_key l))
     \<and> CHR '':'' \<notin> set (il_key l) \<and> CHR 0x0A \<notin> set (il_value l)"

text \<open>The effect of one key and its value on the trees.\<close>

definition cpuinfo_entry :: "string \<times> string \<Rightarrow> cpuinfo_state \<Rightarrow> cpuinfo_state" where
  "cpuinfo_entry p s =
     (let s = cpuinfo_key (fst p) s in s \<lparr> ci_unit_tree := map_assign (fst p) (snd p) (ci_unit_tree s) \<rparr>)"

definition entry :: "info_line \<Rightarrow> string \<times> string" where
  "entry l = (il_key l, il_value l)"

lemma space_not_colon: "isspace c \<Longrightarrow> c \<noteq> CHR '':''"
  by (auto simp: isspace_def)

lemma trim_line:
  assumes "line_ok l"
  shows "trim (il_lead l @ il_key l @ il_pad l) = Inr (il_key l)"
proof -
  let ?k = "il_key l"
  have key: "?k \<noteq> []" "\<not> isspace (hd ?k)" "\<not> isspace (hd (rev ?k))" "rev ?k \<noteq> []"
    and blanks: "\<forall>c \<in> set (il_lead l). isspace c" "\<forall>c \<in> set (rev (il_pad l)). isspace c"
    using assms by (auto simp: line_ok_def list_all_iff hd_rev)
  have "dropWhile isspace (il_lead l @ ?k @ il_pad l) = ?k @ il_pad l"
    using key blanks by (simp add: dropWhile_append3 dropWhile_append2) (metis append_is_Nil_conv dropWhile_eq_self_iff hd_append2)
  moreover have "dropWhile isspace (rev (il_pad l) @ rev ?k) = rev ?k"
    using key(3) blanks(2) dropWhile_append2 [of "rev (il_pad l)" isspace "rev ?k"] by (simp add: dropWhile_eq_self_iff)
  ultimately show ?thesis
    using key(1) by (simp add: trim_reference)
qed

lemma getline_upto:
  "good s \<Longrightarrow> is_text s = line @ d # rest \<Longrightarrow> d \<notin> set line \<Longrightarrow> getline d str s = (line, s \<lparr> is_text := rest \<rparr>)"
  by (auto simp: getline_def Let_def takeWhile_append dropWhile_append split: list.split)

lemma cpuinfo_key_stream:
  "cpuinfo_key k (s \<lparr> ci_stream := x \<rparr>) = (cpuinfo_key k s) \<lparr> ci_stream := x \<rparr>"
  "cpuinfo_key k (s \<lparr> ci_line := y \<rparr>) = (cpuinfo_key k s) \<lparr> ci_line := y \<rparr>"
  by (simp_all add: cpuinfo_key_def Let_def)

lemma cpuinfo_round_line:
  assumes "line_ok l" "good (ci_stream s)" "\<not> ci_left s" "is_text (ci_stream s) = line_text l @ rest"
  shows "\<exists>line. cpuinfo_round s = Some (Inr (Some (cpuinfo_entry (entry l)
           (s \<lparr> ci_stream := (ci_stream s) \<lparr> is_text := rest \<rparr>, ci_line := line \<rparr>))))"
proof -
  let ?line = "il_lead l @ il_key l @ il_pad l"
  let ?after = "(ci_stream s) \<lparr> is_text := il_sep l # il_value l @ CHR 0x0A # rest \<rparr>"
  have "CHR '':'' \<notin> set ?line"
    using assms(1) space_not_colon by (auto simp: line_ok_def list_all_iff)
  then have key: "getline (CHR '':'') (ci_line s) (ci_stream s) = (?line, ?after)"
    using getline_upto [of "ci_stream s" ?line "CHR '':''"] assms by (simp add: line_text_def)
  have "getline (CHR 0x0A) '''' (get ?after) = (il_value l, (ci_stream s) \<lparr> is_text := rest \<rparr>)"
    using getline_upto [of "get ?after" "il_value l" "CHR 0x0A" rest] assms
    by (simp add: get_def good_def line_ok_def)
  with key show ?thesis
    using assms trim_line [OF assms(1)]
    by (intro exI [of _ ?line]) (simp add: cpuinfo_round_def Let_def good_def cpuinfo_entry_def entry_def cpuinfo_key_stream)
qed

definition trees :: "cpuinfo_state \<Rightarrow> int \<times> properties \<times> (int, properties) std_map" where
  "trees s = (ci_unit s, ci_unit_tree s, ci_tree s)"

lemma entry_keeps [simp]: "ci_stream (cpuinfo_entry p s) = ci_stream s" "ci_left (cpuinfo_entry p s) = ci_left s"
  by (simp_all add: cpuinfo_entry_def cpuinfo_key_def Let_def)

lemma trees_entry: "trees s = trees t \<Longrightarrow> trees (cpuinfo_entry p s) = trees (cpuinfo_entry p t)"
  by (simp add: trees_def cpuinfo_entry_def cpuinfo_key_def Let_def)

lemma trees_entries: "trees s = trees t \<Longrightarrow> trees (fold cpuinfo_entry ps s) = trees (fold cpuinfo_entry ps t)"
proof (induction ps arbitrary: s t)
  case (Cons p ps)
  from Cons.IH [OF trees_entry [OF Cons.prems]] show ?case
    by simp
qed simp

lemma getline_last: "good s \<Longrightarrow> d \<notin> set (is_text s) \<Longrightarrow> is_eof (snd (getline d str s))"
proof -
  assume "good s" and none: "d \<notin> set (is_text s)"
  moreover have "dropWhile (\<lambda>c. c \<noteq> d) (is_text s) = []"
    using none by auto
  ultimately show ?thesis
    by (simp add: getline_def Let_def del: dropWhile_eq_Nil_conv)
qed

lemma cpuinfo_lines:
  assumes "list_all line_ok ls" "good (ci_stream s)" "\<not> ci_left s"
    and "is_text (ci_stream s) = concat (map line_text ls) @ rest" "CHR '':'' \<notin> set rest"
  shows "\<exists>t. iterate cpuinfo_round s = Some (Inr t) \<and> is_eof (ci_stream t)
    \<and> trees t = trees (fold cpuinfo_entry (map entry ls) s)"
  using assms
proof (induction ls arbitrary: s)
  case Nil
  then have "is_eof (snd (getline (CHR '':'') (ci_line s) (ci_stream s)))"
    by (simp add: getline_last)
  with Nil have "\<exists>line stream. is_eof stream
      \<and> cpuinfo_round s = Some (Inr (Some (s \<lparr> ci_stream := stream, ci_line := line, ci_left := True \<rparr>)))"
    by (auto simp: cpuinfo_round_def split_beta)
  then show ?case
    by (auto simp: trees_def cpuinfo_round_def)
next
  case (Cons l ls)
  then obtain line where "cpuinfo_round s = Some (Inr (Some (cpuinfo_entry (entry l)
      (s \<lparr> ci_stream := (ci_stream s) \<lparr> is_text := concat (map line_text ls) @ rest \<rparr>, ci_line := line \<rparr>))))"
    (is "_ = Some (Inr (Some (cpuinfo_entry _ ?s)))")
    using cpuinfo_round_line [of l s "concat (map line_text ls) @ rest"] by auto
  moreover obtain t where "iterate cpuinfo_round (cpuinfo_entry (entry l) ?s) = Some (Inr t)" "is_eof (ci_stream t)"
    "trees t = trees (fold cpuinfo_entry (map entry ls) (cpuinfo_entry (entry l) ?s))"
    using Cons.IH [of "cpuinfo_entry (entry l) ?s"] Cons.prems by (auto simp: good_def)
  moreover have "trees (fold cpuinfo_entry (map entry ls) (cpuinfo_entry (entry l) ?s))
      = trees (fold cpuinfo_entry (map entry (l # ls)) s)"
    by (simp, intro trees_entries trees_entry) (simp add: trees_def)
  ultimately show ?case
    by auto
qed

text \<open>The keys and values of one processor, later ones overwriting earlier ones.\<close>

definition properties_of :: "(string \<times> string) list \<Rightarrow> properties" where
  "properties_of ps = fold (\<lambda>p. map_assign (fst p) (snd p)) ps []"

definition indexed :: "'a list \<Rightarrow> (int \<times> 'a) list" where
  "indexed xs = zip (map int [0..<length xs]) xs"

definition block_ok :: "(string \<times> string) list \<Rightarrow> bool" where
  "block_ok b \<longleftrightarrow> b \<noteq> [] \<and> fst (hd b) = ''processor'' \<and> list_all (\<lambda>p. fst p \<noteq> ''processor'') (tl b)"

lemma map_erase_insert: "map_of m k = None \<Longrightarrow> map_erase k (map_insert k v m) = map_erase k m"
  by (induction k v m rule: map_insert.induct) (auto simp: map_erase_def split: if_split_asm)

lemma map_assign_twice: "map_assign k v (map_assign k w m) = map_assign k v m"
proof -
  have "map_erase k (map_erase k m) = map_erase k m"
    by (simp add: map_erase_def)
  then show ?thesis
    by (simp add: map_assign_def map_erase_insert)
qed

lemma map_assign_last: "(\<And>q. q \<in> set m \<Longrightarrow> fst q < k) \<Longrightarrow> map_assign k v m = m @ [(k, v)]"
proof -
  assume below: "\<And>q. q \<in> set m \<Longrightarrow> fst q < k"
  then have "map_erase k m = m"
    by (force simp: map_erase_def filter_id_conv)
  with below show ?thesis
    by (simp add: map_assign_def map_insert_last)
qed

lemma indexed_snoc: "map_assign (int (length xs)) x (indexed xs) = indexed (xs @ [x])"
proof -
  have "map_assign (int (length xs)) x (indexed xs) = indexed xs @ [(int (length xs), x)]"
    by (rule map_assign_last) (auto simp: indexed_def dest!: set_zip_leftD)
  then show ?thesis
    by (simp add: indexed_def)
qed

lemma indexed_last:
  "xs \<noteq> [] \<Longrightarrow> map_assign (int (length xs) - 1) (f (last xs)) (indexed (map f (butlast xs))) = indexed (map f xs)"
proof (cases xs rule: rev_exhaust)
  case (snoc ys y)
  then show ?thesis
    using indexed_snoc [of "map f ys" "f y"] by simp
qed simp

lemma entry_inside:
  "fst p \<noteq> ''processor'' \<Longrightarrow> 0 \<le> ci_unit s
   \<Longrightarrow> trees (cpuinfo_entry p s) = (ci_unit s, map_assign (fst p) (snd p) (ci_unit_tree s), ci_tree s)"
  by (simp add: trees_def cpuinfo_entry_def cpuinfo_key_def Let_def map_assign_twice)

lemma entries_inside:
  assumes "list_all (\<lambda>p. fst p \<noteq> ''processor'') ps" "0 \<le> ci_unit s"
  shows "trees (fold cpuinfo_entry ps s) = (ci_unit s, fold (\<lambda>p. map_assign (fst p) (snd p)) ps (ci_unit_tree s), ci_tree s)"
  using assms
proof (induction ps arbitrary: s)
  case (Cons p ps)
  then have "trees (cpuinfo_entry p s) = (ci_unit s, map_assign (fst p) (snd p) (ci_unit_tree s), ci_tree s)"
    by (simp add: entry_inside)
  with Cons show ?case
    by (simp add: trees_def)
qed (simp add: trees_def)

lemma block_entries:
  assumes "block_ok b" "ci_unit s = - 1 \<and> ci_unit_tree s = [] \<or> 0 \<le> ci_unit s"
  shows "trees (fold cpuinfo_entry b s) =
    (if ci_unit s = - 1 then (0, properties_of b, ci_tree s)
     else (ci_unit s + 1, properties_of b, map_assign (ci_unit s) (ci_unit_tree s) (ci_tree s)))"
proof -
  obtain v es where b: "b = (''processor'', v) # es" and es: "list_all (\<lambda>p. fst p \<noteq> ''processor'') es"
    using assms(1) by (cases b) (auto simp: block_ok_def)
  let ?t = "cpuinfo_entry (''processor'', v) s"
  have t: "trees ?t = (if ci_unit s = - 1 then (0, map_assign ''processor'' v [], ci_tree s)
      else (ci_unit s + 1, map_assign ''processor'' v [], map_assign (ci_unit s) (ci_unit_tree s) (ci_tree s)))"
    using assms(2) by (auto simp: trees_def cpuinfo_entry_def cpuinfo_key_def Let_def map_assign_twice)
  then have "0 \<le> ci_unit ?t"
    using assms(2) by (auto simp: trees_def split: if_split_asm)
  from entries_inside [OF es this] t show ?thesis
    by (auto simp: b properties_of_def trees_def split: if_split_asm)
qed

lemma blocks_entries:
  assumes "list_all block_ok bs" "bs \<noteq> []" "trees s = (- 1, [], [])"
  shows "trees (fold cpuinfo_entry (concat bs) s)
    = (int (length bs) - 1, properties_of (last bs), indexed (map properties_of (butlast bs)))"
  using assms(1,2)
proof (induction bs rule: rev_induct)
  case (snoc b bs)
  show ?case
  proof (cases "bs = []")
    case True
    then show ?thesis
      using snoc.prems assms(3) block_entries [of b s] by (simp add: trees_def indexed_def)
  next
    case False
    let ?t = "fold cpuinfo_entry (concat bs) s"
    have t: "trees ?t = (int (length bs) - 1, properties_of (last bs), indexed (map properties_of (butlast bs)))"
      using snoc False by simp
    with indexed_last [OF False, of properties_of] show ?thesis
      using snoc.prems False block_entries [of b ?t] by (auto simp: trees_def Suc_le_eq)
  qed
qed simp

text \<open>The whole file: one block of lines for each processor, and blanks at the end.\<close>

definition cpuinfo_text :: "info_line list list \<Rightarrow> string \<Rightarrow> string" where
  "cpuinfo_text bs end_of_file = concat (map line_text (concat bs)) @ end_of_file"

lemma cpuinfo_parse_blocks:
  assumes "bs \<noteq> []" "list_all (list_all line_ok) bs" "list_all block_ok (map (map entry) bs)" "CHR '':'' \<notin> set rest"
  shows "cpuinfo_parse (Some (cpuinfo_text bs rest))
    = Some (Inr (properties_of (map entry (last bs)), indexed (map (properties_of \<circ> map entry) bs)))"
proof -
  let ?bs = "map (map entry) bs"
  let ?s = "cpuinfo_open (Some (cpuinfo_text bs rest))"
  have start: "?s \<lparr> ci_line := '''', ci_unit := - 1, ci_left := False \<rparr> = ?s"
    by (simp add: cpuinfo_open_def)
  have ok: "list_all line_ok (concat bs)"
    using assms(2) by (auto simp: list_all_iff)
  obtain t where run: "iterate cpuinfo_round ?s = Some (Inr t)" "is_eof (ci_stream t)"
    and "trees t = trees (fold cpuinfo_entry (map entry (concat bs)) ?s)"
    using cpuinfo_lines [OF ok, of ?s rest] assms(4)
    by (auto simp: cpuinfo_open_def good_def cpuinfo_text_def)
  then have t: "trees t = (int (length bs) - 1, properties_of (last ?bs), indexed (map properties_of (butlast ?bs)))"
    using blocks_entries [OF assms(3), of ?s] assms(1) by (simp add: map_concat trees_def cpuinfo_open_def)
  have "map_assign (int (length bs) - 1) (properties_of (last ?bs)) (indexed (map properties_of (butlast ?bs)))
      = indexed (map properties_of ?bs)"
    using assms(1) indexed_last [of ?bs properties_of] by simp
  then obtain u where "cpuinfo_block ?s = Some (Inr (Some u))" "is_eof (ci_stream u)"
    "ci_unit_tree u = properties_of (last ?bs)" "ci_tree u = indexed (map properties_of ?bs)"
    using t run by (auto simp: cpuinfo_block_def start trees_def cpuinfo_open_def good_def)
  then show ?thesis
    using assms(1) by (simp add: cpuinfo_parse_def cpuinfo_block_def good_def last_map)
qed

lemma properties_of_wf: "std_map_wf (properties_of ps)"
  by (induction ps rule: rev_induct) (simp_all add: properties_of_def std_map_wf_def [of "[]"])

lemma properties_of_lookup: "map_of (properties_of ps) = map_of (rev ps)"
proof (induction ps rule: rev_induct)
  case (snoc p ps)
  then show ?case
    using properties_of_wf [of ps] by (simp add: properties_of_def)
qed (simp add: properties_of_def)

lemma indexed_wf: "std_map_wf (indexed xs)"
  by (simp add: std_map_wf_def indexed_def sorted_wrt_map)

lemma indexed_first: "xs \<noteq> [] \<Longrightarrow> map_of (indexed xs) 0 = Some (hd xs)"
  by (cases xs) (simp_all add: indexed_def upt_rec)

lemma fold_res_snoc: "fold_res f (xs @ [x]) s = and_then (fold_res f xs s) (f x)"
proof (induction xs arbitrary: s)
  case Nil
  then show ?case
    by (cases "f x s") simp_all
next
  case (Cons a xs)
  then show ?case
    by (cases "f a s") simp_all
qed

text \<open>The core of a processor whose frequency can be read.\<close>

definition core_of :: "(string \<Rightarrow> 64 word res) \<Rightarrow> int \<Rightarrow> properties \<Rightarrow> CPUCore" where
  "core_of stod i p =
     \<lparr> core_identifier = word_of_int i,
       core_frequency = (case map_of p ''cpu MHz'' of None \<Rightarrow> None
                         | Some v \<Rightarrow> case stod v of Inl e \<Rightarrow> None | Inr d \<Rightarrow> Some d),
       core_cache_size = map_of p ''cache size'',
       core_has_fpu = map_option (\<lambda>v. v = ''yes'') (map_of p ''fpu'') \<rparr>"

lemma cores_loop:
  assumes "list_all (\<lambda>p. case map_of p ''cpu MHz'' of None \<Rightarrow> True | Some v \<Rightarrow> stod v \<in> range Inr) ps"
  shows "fold_res (cpu_core stod) (indexed ps) [] = Inr (map (\<lambda>(i, p). (i, core_of stod i p)) (indexed ps))"
  using assms
proof (induction ps rule: rev_induct)
  case (snoc p ps)
  let ?i = "int (length ps)"
  let ?cores = "map (\<lambda>(i, p). (i, core_of stod i p)) (indexed ps)"
  have ix: "indexed (ps @ [p]) = indexed ps @ [(?i, p)]"
    by (simp add: indexed_def)
  have "map_assign ?i c ?cores = ?cores @ [(?i, c)]" for c
  proof -
    have "fst q < ?i" if "q \<in> set ?cores" for q
      using that by (auto simp: indexed_def dest!: set_zip_leftD)
    then show ?thesis
      by (rule map_assign_last)
  qed
  then have "cpu_core stod (?i, p) ?cores = Inr (?cores @ [(?i, core_of stod ?i p)])"
    using snoc.prems by (auto simp: cpu_core_def core_of_def split: option.split option.split_asm)
  then show ?case
    using snoc by (simp add: ix fold_res_snoc)
qed (simp add: indexed_def)

lemma core_columns:
  "map fst (map (\<lambda>(i, p). (i, core_of stod i p)) (indexed ps)) = map int [0..<length ps]"
  "map (core_cache_size \<circ> snd) (map (\<lambda>(i, p). (i, core_of stod i p)) (indexed ps)) = map (\<lambda>p. map_of p ''cache size'') ps"
  unfolding list_eq_iff_nth_eq by (simp_all add: indexed_def core_of_def)

text \<open>
  A file the constructor can work with: every processor has the same keys, among them one for the
  BogoMIPS, and the numbers of the file can be converted.
\<close>

definition cpuinfo_ok :: "(string \<Rightarrow> 64 word res) \<Rightarrow> info_line list list \<Rightarrow> bool" where
  "cpuinfo_ok stod bs \<longleftrightarrow>
     bs \<noteq> [] \<and> list_all (list_all line_ok) bs \<and> list_all block_ok (map (map entry) bs)
     \<and> list_all (\<lambda>b. map il_key b = map il_key (hd bs)) bs
     \<and> (''bogomips'' \<in> set (map il_key (hd bs)) \<or> ''BogoMIPS'' \<in> set (map il_key (hd bs)))
     \<and> list_all (list_all (\<lambda>l. il_key l \<in> {''bogomips'', ''BogoMIPS'', ''cpu MHz''} \<longrightarrow> stod (il_value l) \<in> range Inr)) bs"

lemma key_known: "map_of (properties_of (map entry b)) k = None \<longleftrightarrow> k \<notin> set (map il_key b)"
  by (simp add: properties_of_lookup map_of_eq_None_iff entry_def image_image)

lemma value_read:
  assumes "list_all (\<lambda>l. il_key l \<in> K \<longrightarrow> f (il_value l) \<in> range Inr) b" "k \<in> K"
    and "map_of (properties_of (map entry b)) k = Some v"
  shows "f v \<in> range Inr"
proof -
  have "(k, v) \<in> set (map entry b)"
    using map_of_SomeD [OF assms(3) [unfolded properties_of_lookup]] by simp
  with assms(1,2) show ?thesis
    by (auto simp: list_all_iff entry_def)
qed

lemma words_return: "\<exists>items. words text = Some (Inr items)"
proof -
  have "words text \<noteq> Some (Inl e)" for e
    using word_list.faults [of "(\<lparr> is_text = text, is_eof = False, is_fail = False \<rparr>, [])" e]
    by (auto simp: words_def words_round_def failed_at_end_def Let_def split_beta split: if_split_asm)
  then show ?thesis
    using words_terminate [of "text"] by (metis not_None_eq sum.exhaust)
qed

lemma list_all_last: "list_all P xs \<Longrightarrow> xs \<noteq> [] \<Longrightarrow> P (last xs)"
  by (simp add: list_all_iff)

lemma cpuinfo_ok_keys: "cpuinfo_ok stod bs \<Longrightarrow> map il_key (last bs) = map il_key (hd bs)"
  unfolding cpuinfo_ok_def using list_all_last [of "\<lambda>b. map il_key b = map il_key (hd bs)" bs] by blast

lemma bogomips_read:
  assumes "cpuinfo_ok stod bs"
  shows "\<exists>d. parse_bogomips stod (properties_of (map entry (last bs))) = Inr d"
proof -
  let ?last = "properties_of (map entry (last bs))"
  have keys: "map il_key (last bs) = map il_key (hd bs)"
    using assms by (rule cpuinfo_ok_keys)
  have numbers: "list_all (\<lambda>l. il_key l \<in> {''bogomips'', ''BogoMIPS'', ''cpu MHz''} \<longrightarrow> stod (il_value l) \<in> range Inr) (last bs)"
    using assms list_all_last unfolding cpuinfo_ok_def by blast
  have read: "\<exists>d. stod v = Inr d" if "map_of ?last k = Some v" "k = ''bogomips'' \<or> k = ''BogoMIPS''" for k v
    using value_read [OF numbers _ that(1)] that(2) by blast
  have "map_of ?last ''bogomips'' \<noteq> None \<or> map_of ?last ''BogoMIPS'' \<noteq> None"
    unfolding key_known keys using assms by (simp add: cpuinfo_ok_def)
  then show ?thesis
    using read [of "''bogomips''"] read [of "''BogoMIPS''"]
    by (cases "map_of ?last ''bogomips''") (auto simp: parse_bogomips_def map_at_def dom_def)
qed

text \<open>
  A file with one block per processor, in the form the kernel writes it and with keys and
  numbers the constructor can use, is read completely: the constructor returns, there is one core
  for each block, numbered from 0 in the order of the file, with the cache size its block states,
  and the description of the processor is that of the first block.
\<close>

lemma cpu_read_blocks:
  assumes "cpuinfo_ok stod bs" "CHR '':'' \<notin> set rest"
  shows "\<exists>cpu. CPU_new stod (Some (cpuinfo_text bs rest)) stat = Some (Inr cpu)
    \<and> map fst (cpu_cores cpu) = map int [0..<length bs]
    \<and> map (core_cache_size \<circ> snd) (cpu_cores cpu) = map (\<lambda>b. map_of (rev (map entry b)) ''cache size'') bs
    \<and> cpu_model cpu = map_of (rev (map entry (hd bs))) ''model name''
    \<and> cpu_vendor_id cpu = map_of (rev (map entry (hd bs))) ''vendor_id''"
proof -
  let ?ps = "map (properties_of \<circ> map entry) bs"
  let ?last = "properties_of (map entry (last bs))" and ?first = "properties_of (map entry (hd bs))"
  have bs: "bs \<noteq> []"
    using assms(1) by (simp add: cpuinfo_ok_def)
  then have tree: "cpuinfo_parse (Some (cpuinfo_text bs rest)) = Some (Inr (?last, indexed ?ps))"
    using assms by (intro cpuinfo_parse_blocks) (simp_all add: cpuinfo_ok_def)
  have first: "map_of (indexed ?ps) 0 = Some ?first" "map_insert 0 [] (indexed ?ps) = indexed ?ps"
    using bs indexed_first [of ?ps] map_insert_present [OF indexed_wf, of ?ps 0] by (simp_all add: hd_map)
  have mhz: "list_all (\<lambda>p. case map_of p ''cpu MHz'' of None \<Rightarrow> True | Some v \<Rightarrow> stod v \<in> range Inr) ?ps"
    using assms(1) by (auto simp: cpuinfo_ok_def list_all_iff split: option.split
        intro!: value_read [where f = stod and K = "{''bogomips'', ''BogoMIPS'', ''cpu MHz''}"])
  have "map il_key (last bs) = map il_key (hd bs)"
    using assms(1) by (rule cpuinfo_ok_keys)
  then have same: "map_of ?last k = None \<longleftrightarrow> map_of ?first k = None" for k
    unfolding key_known by simp
  have read: "\<exists>items. (if map_contains k ?last then run_then (Some (map_at ?first k)) words else r) = Some (Inr items)"
    if "\<exists>items. r = Some (Inr items)" for k r
    using that same [of k] words_return by (auto simp: map_at_def split: option.split)
  obtain flags bugs where flags: "parse_flags ?last ?first = Some (Inr flags)"
    and bugs: "parse_bugs ?last ?first = Some (Inr bugs)"
    using read [OF read [OF words_return]] read [of "Some (Inr [])"] unfolding parse_flags_def parse_bugs_def by blast
  obtain d where mips: "parse_bogomips stod ?last = Inr d"
    using bogomips_read [OF assms(1)] by blast
  have "\<exists>cpu. CPU_new stod (Some (cpuinfo_text bs rest)) stat = Some (Inr cpu)
      \<and> cpu_cores cpu = map (\<lambda>(i, p). (i, core_of stod i p)) (indexed ?ps)
      \<and> cpu_model cpu = map_of ?first ''model name'' \<and> cpu_vendor_id cpu = map_of ?first ''vendor_id''"
    unfolding CPU_new_def tree run_then_simps prod.case Let_def first option.case flags bugs mips cores_loop [OF mhz]
    by simp
  then obtain cpu where "CPU_new stod (Some (cpuinfo_text bs rest)) stat = Some (Inr cpu)"
    "cpu_cores cpu = map (\<lambda>(i, p). (i, core_of stod i p)) (indexed ?ps)"
    "cpu_model cpu = map_of ?first ''model name'' \<and> cpu_vendor_id cpu = map_of ?first ''vendor_id''"
    by blast
  then show ?thesis
    using core_columns [of stod ?ps] by (intro exI [of _ cpu]) (simp add: properties_of_lookup)
qed

text \<open>Two processors.\<close>

definition info :: "string \<Rightarrow> string \<Rightarrow> info_line" where
  "info key val = \<lparr> il_lead = '''', il_key = key, il_pad = [CHR 0x09], il_sep = CHR 0x20, il_value = val \<rparr>"

definition sample_cpuinfo :: "info_line list list" where
  "sample_cpuinfo =
     [[info ''processor'' ''0'', info ''vendor_id'' ''GenuineIntel'', info ''bogomips'' ''5000.00''],
      [(info ''processor'' ''1'') \<lparr> il_lead := [CHR 0x0A] \<rparr>, info ''vendor_id'' ''GenuineIntel'', info ''bogomips'' ''5000.00'']]"

definition sample_stod :: "string \<Rightarrow> 64 word res" where
  "sample_stod s = (if s = ''5000.00'' then Inr 0x40B3880000000000 else Inl InvalidArgument)"

lemma sample_cpuinfo_ok: "cpuinfo_ok sample_stod sample_cpuinfo"
  by (simp add: cpuinfo_ok_def sample_cpuinfo_def info_def line_ok_def block_ok_def entry_def isspace_def sample_stod_def)

definition sample_stat :: proc_stat where
  "sample_stat = \<lparr> ps_system = 20, ps_user = 30, ps_nice = 0, ps_irq = 0, ps_softirq = 5, ps_iowait = 5, ps_idle = 40, ps_steal = 0 \<rparr>"

text \<open>
  A key with an empty value takes the line below it for its value: when the list of processor
  bugs is empty, the line of the BogoMIPS behind it is lost, and the constructor throws
  \<open>std::out_of_range\<close> for a file that is otherwise as the kernel writes it, whatever the numbers are.
\<close>

lemma empty_value_swallows_next_line:
  assumes "list_all line_ok b" "block_ok (map entry b)" "''bogomips'' \<notin> set (map il_key b)" "''BogoMIPS'' \<notin> set (map il_key b)"
    and "CHR 0x0A \<notin> set v"
  shows "CPU_new stod (Some (concat (map line_text b) @ ''bugs'' @ CHR 0x09 # '':'' @ CHR 0x0A # ''bogomips'' @ CHR 0x09 # '': '' @ v @ [CHR 0x0A]))
    stat = Some (Inl OutOfRange)"
proof -
  let ?bugs = "\<lparr> il_lead = '''', il_key = ''bugs'', il_pad = [CHR 0x09], il_sep = CHR 0x0A,
      il_value = ''bogomips'' @ CHR 0x09 # '': '' @ v \<rparr>"
  let ?b = "b @ [?bugs]"
  have "line_ok ?bugs"
    using assms(5) by (simp add: line_ok_def isspace_def)
  then have ok: "list_all (list_all line_ok) [?b]" "list_all block_ok (map (map entry) [?b])"
    using assms(1,2) by (auto simp: block_ok_def entry_def)
  let ?p = "properties_of (map entry ?b)"
  have "cpuinfo_text [?b] '''' = concat (map line_text b) @ ''bugs'' @ CHR 0x09 # '':'' @ CHR 0x0A # ''bogomips'' @ CHR 0x09 # '': '' @ v @ [CHR 0x0A]"
    by (simp add: cpuinfo_text_def line_text_def)
  moreover have "cpuinfo_parse (Some (cpuinfo_text [?b] '''')) = Some (Inr (?p, indexed [?p]))"
    using cpuinfo_parse_blocks [OF _ ok, of "''''"] by simp
  moreover have "map_of ?p ''bogomips'' = None" "map_of ?p ''BogoMIPS'' = None"
    unfolding key_known using assms(3,4) by auto
  moreover have "map_of ?p ''bugs'' \<noteq> None"
    unfolding key_known by simp
  moreover have "indexed [?p] = [(0, ?p)]"
    by (simp add: indexed_def)
  moreover obtain bugs where "words (the (map_of ?p ''bugs'')) = Some (Inr bugs)"
    using words_return by blast
  ultimately show ?thesis
    using words_return
    by (auto simp: CPU_new_def Let_def parse_flags_def parse_bugs_def parse_bogomips_def map_at_def split: option.split)
qed

section \<open>The document of a processor\<close>

lemma joined_defined: "joined items = Inl UndefinedBehaviour \<longleftrightarrow> items = []"
  by (cases items) (simp_all add: joined_def Let_def split_beta)

lemma joined_fault: "joined items \<noteq> Inl e \<or> e = UndefinedBehaviour"
  by (simp add: joined_def Let_def)

lemma parse_flags_nonempty: "parse_flags t f = Some (Inr flags) \<Longrightarrow> flags \<noteq> []"
  using words_nonempty by (auto simp: parse_flags_def split: if_split_asm)

lemma CPU_new_flags: "CPU_new stod file stat = Some (Inr cpu) \<Longrightarrow> cpu_flags cpu \<noteq> []"
  by (auto simp: CPU_new_def Let_def dest: parse_flags_nonempty)

text \<open>
  The document of a processor that was read can be built exactly when the file has all six of
  the optional descriptions and a list of bugs; otherwise an empty optional is dereferenced or a
  character is removed from an empty string, which is undefined behaviour.
\<close>

lemma cpu_document_undefined:
  assumes "CPU_new stod file stat = Some (Inr cpu)"
  shows "if cpu_vendor_id cpu = None \<or> cpu_family cpu = None \<or> cpu_model cpu = None \<or> cpu_model_name cpu = None
        \<or> cpu_stepping cpu = None \<or> cpu_microcode cpu = None \<or> cpu_bugs cpu = []
    then CPU_json double cpu = Inl UndefinedBehaviour
    else \<exists>members. CPU_json double cpu = Inr (JObject members)"
proof -
  have "joined (cpu_flags cpu) \<noteq> Inl e" for e
    using CPU_new_flags [OF assms] joined_defined joined_fault by metis
  then obtain flags where flags: "joined (cpu_flags cpu) = Inr flags"
    by (cases "joined (cpu_flags cpu)") auto
  show ?thesis
  proof (cases "cpu_bugs cpu = []")
    case True
    then have "joined (cpu_bugs cpu) = Inl UndefinedBehaviour"
      by (simp add: joined_defined)
    with True show ?thesis
      by (auto simp: CPU_json_def flags optional_c_str_def split: option.split)
  next
    case False
    then obtain bugs where "joined (cpu_bugs cpu) = Inr bugs"
      using joined_defined joined_fault by (metis sum.exhaust)
    with False show ?thesis
      by (auto simp: CPU_json_def flags optional_c_str_def split: option.split)
  qed
qed

text \<open>The share of time in use is a share, as long as the counters do not wrap around.\<close>

lemma snap_in_use_bounds:
  assumes "unat (ps_system s) + unat (ps_user s) + unat (ps_nice s) + unat (ps_irq s) + unat (ps_softirq s)
      + unat (ps_iowait s) + unat (ps_idle s) + unat (ps_steal s) < 2 ^ 64"
  shows "0 \<le> stats_in_use (CPU_snap s) \<and> stats_in_use (CPU_snap s) \<le> 1"
proof -
  have sum: "unat (a + b) = unat a + unat b" if "unat a + unat b < 2 ^ 64" for a b :: size_t
    using that by (simp add: unat_word_ariths)
  let ?busy = "ps_system s + ps_user s + ps_nice s + ps_irq s + ps_softirq s + ps_iowait s"
  have busy: "unat ?busy = unat (ps_system s) + unat (ps_user s) + unat (ps_nice s) + unat (ps_irq s) + unat (ps_softirq s) + unat (ps_iowait s)"
    using assms by (simp add: sum)
  have "unat (?busy + ps_steal s) \<le> unat (?busy + ps_idle s + ps_steal s)"
    using assms busy by (simp add: sum)
  moreover have "0 \<le> real m / real n \<and> real m / real n \<le> 1" if "m \<le> n" for m n :: nat
    using that by (cases "n = 0") simp_all
  ultimately show ?thesis
    unfolding CPU_snap_def Let_def CPUStats.select_convs by blast
qed

end
