(* ===== verification/Memory_Info.thy ===== *)
theory Memory_Info
  imports Cpu_Info
begin

text \<open>
  The memory of the host as the computing engine reads it
  (\<open>src/internal/rankd-comp/data-sources/memory.cpp\<close>): the counters of \<open>/proc/meminfo\<close>, which the
  procfs library returns as a map, and the number of invocations of the killer of processes, which
  the engine reads from \<open>/proc/vmstat\<close> itself.  The map and the content of the file are arguments,
  as is what the variable of the loop contains before it is assigned.
\<close>

section \<open>Counters\<close>

text \<open>The members of the class with the key of \<open>/proc/meminfo\<close> and the name in the document.\<close>

definition memory_table :: "(string \<times> string \<times> string) list" where
  "memory_table =
     [(''total'', ''MemTotal'', ''total''), (''free'', ''MemFree'', ''free''),
      (''available'', ''MemAvailable'', ''available''), (''buffers'', ''Buffers'', ''buffers''),
      (''cached'', ''Cached'', ''cached''), (''swap_cached'', ''SwapCached'', ''swap-cached''),
      (''active'', ''Active'', ''active''), (''inactive'', ''Inactive'', ''inactive''),
      (''active_anonymous'', ''Active(anon)'', ''active-anonymous''),
      (''inactive_anonymous'', ''Inactive(anon)'', ''inactive-anonymous''),
      (''active_file'', ''Active(file)'', ''active-file''),
      (''inactive_file'', ''Inactive(file)'', ''inactive-file''),
      (''unevictable'', ''Unevictable'', ''unevictable''), (''locked'', ''Mlocked'', ''locked''),
      (''swap_total'', ''SwapTotal'', ''swap-total''), (''swap_free'', ''SwapFree'', ''swap-free''),
      (''dirty'', ''Dirty'', ''dirty''), (''writeback'', ''Writeback'', ''writeback''),
      (''anonymous_pages'', ''AnonPages'', ''anonymous-pages''), (''mapped'', ''Mapped'', ''mapped''),
      (''shared_memory'', ''Shmem'', ''shared-memory''),
      (''kernel_reclaimable'', ''KReclaimable'', ''kernel-reclaimable''), (''slab'', ''Slab'', ''slab''),
      (''slab_reclaimable'', ''SReclaimable'', ''slab-reclaimable''),
      (''slab_unreclaim'', ''SUnreclaim'', ''slab-unreclaim''),
      (''kernel_stack'', ''KernelStack'', ''kernel-stack''),
      (''page_tables'', ''PageTables'', ''page-tables''),
      (''NFS_unstable'', ''NFS_Unstable'', ''NFS-unstable''), (''bounce'', ''Bounce'', ''bounce''),
      (''writeback_tmp'', ''WritebackTmp'', ''writeback-tmp''),
      (''commit_limit'', ''CommitLimit'', ''commit-limit''),
      (''committed_AS'', ''Committed_AS'', ''committed-AS''),
      (''vmalloc_total'', ''VmallocTotal'', ''vmalloc-total''),
      (''vmalloc_used'', ''VmallocUsed'', ''vmalloc-used''),
      (''vmalloc_chunk'', ''VmallocChunk'', ''vmalloc-chunk''), (''percpu'', ''Percpu'', ''percpu''),
      (''hardware_corrupted'', ''HardwareCorrupted'', ''hardware-corrupted''),
      (''anon_huge_pages'', ''AnonHugePages'', ''anon-huge-pages''),
      (''shared_memory_huge_pages'', ''ShmemHugePages'', ''shared-memory-huge-pages''),
      (''shared_memory_pmd_mapped'', ''ShmemPmdMapped'', ''shared-memory-pmd-mapped''),
      (''file_huge_pages'', ''FileHugePages'', ''file-huge-pages''),
      (''file_pmd_mapped'', ''FilePmdMapped'', ''file-pmd-mapped''),
      (''huge_pages_total'', ''HugePages_Total'', ''huge-pages-total''),
      (''huge_pages_free'', ''HugePages_Free'', ''huge-pages-free''),
      (''huge_pages_rsvd'', ''HugePages_Rsvd'', ''huge-pages-rsvd''),
      (''huge_pages_surp'', ''HugePages_Surp'', ''huge-pages-surp''),
      (''huge_page_size'', ''Hugepagesize'', ''huge-page-size''),
      (''huge_tlb'', ''Hugetlb'', ''huge-tlb'')]"

record Memory =
  mem_values :: "(string \<times> size_t option) list"
  mem_oom_killer_invocations :: "int option"

definition memory_counters :: "(string \<rightharpoonup> size_t) \<Rightarrow> (string \<times> size_t option) list" where
  "memory_counters meminfo = map (\<lambda>(field, key, name). (field, meminfo key)) memory_table"

text \<open>\<open>value()\<close> of an optional throws when it is empty.\<close>

definition Memory_get :: "string \<Rightarrow> Memory \<Rightarrow> size_t res" where
  "Memory_get field m =
     (case map_of (mem_values m) field of
        Some (Some v) \<Rightarrow> Inr v
      | _ \<Rightarrow> Inl StdException)"

definition Memory_oom_killer_invocations :: "Memory \<Rightarrow> int res" where
  "Memory_oom_killer_invocations m =
     (case mem_oom_killer_invocations m of None \<Rightarrow> Inl StdException | Some n \<Rightarrow> Inr n)"

definition Memory_json :: "Memory \<Rightarrow> json" where
  "Memory_json m =
     JObject
       (map (\<lambda>(field, key, name).
          (name, JInt (case map_of (mem_values m) field of Some (Some v) \<Rightarrow> sint v | _ \<Rightarrow> - 1))) memory_table
        @ [(''oom-killer-invocations'', JInt (case mem_oom_killer_invocations m of None \<Rightarrow> - 1 | Some n \<Rightarrow> n))])"

section \<open>The file of the virtual memory\<close>

definition isdigit :: "char \<Rightarrow> bool" where
  "isdigit c = (48 \<le> (of_char c :: nat) \<and> (of_char c :: nat) \<le> 57)"

definition digits_value :: "string \<Rightarrow> nat" where
  "digits_value ds = foldl (\<lambda>n c. 10 * n + (of_char c - 48)) 0 ds"

text \<open>
  \<open>stream >> value\<close> for a \<open>long\<close>: a stream that is not good and an end while blanks are skipped leave the
  variable alone, a text that is no number makes it 0, a number out of range makes it the nearest
  bound, and in all these cases the stream has failed.
\<close>

definition read_long :: "int \<Rightarrow> istream \<Rightarrow> int \<times> istream" where
  "read_long old s =
     (if \<not> good s then (old, s \<lparr> is_fail := True \<rparr>)
      else
        let text = dropWhile isspace (is_text s) in
        if text = [] then (old, s \<lparr> is_text := [], is_eof := True, is_fail := True \<rparr>)
        else
          let negative = (hd text = CHR ''-'');
              body = (if hd text = CHR ''-'' \<or> hd text = CHR ''+'' then tl text else text);
              ds = takeWhile isdigit body;
              rest = dropWhile isdigit body;
              v = (if negative then - int (digits_value ds) else int (digits_value ds));
              s = s \<lparr> is_text := rest, is_eof := (rest = []) \<rparr>
          in if ds = [] then (0, s \<lparr> is_fail := True \<rparr>)
             else if v < - (2 ^ 63) then (- (2 ^ 63), s \<lparr> is_fail := True \<rparr>)
             else if 2 ^ 63 \<le> v then (2 ^ 63 - 1, s \<lparr> is_fail := True \<rparr>)
             else (v, s))"

definition vmstat_round :: "int \<Rightarrow> istream \<times> (string, int) std_map \<Rightarrow> (istream \<times> (string, int) std_map) option res" where
  "vmstat_round uninitialised p =
     (case p of (vmstat, vmstat_map) \<Rightarrow>
        if is_eof vmstat then Inr None
        else
          let (key, vmstat) = extract_word vmstat;
              (val, vmstat) = read_long uninitialised vmstat in
          Inr (Some (vmstat, map_assign key val vmstat_map)))"

text \<open>A file that cannot be opened leaves a stream that has failed without an end.\<close>

definition open_file :: "string option \<Rightarrow> istream" where
  "open_file file =
     (case file of
        None \<Rightarrow> \<lparr> is_text = [], is_eof = False, is_fail = True \<rparr>
      | Some text \<Rightarrow> \<lparr> is_text = text, is_eof = False, is_fail = False \<rparr>)"

definition Memory_snap :: "int \<Rightarrow> (string \<rightharpoonup> size_t) \<Rightarrow> string option \<Rightarrow> Memory run" where
  "Memory_snap uninitialised meminfo file =
     run_then (iterate (\<lambda>p. Some (vmstat_round uninitialised p)) (open_file file, [])) (\<lambda>(_, vmstat_map).
       Some (Inr \<lparr> mem_values = memory_counters meminfo,
         mem_oom_killer_invocations =
           Some (case map_of vmstat_map ''oom_kill'' of None \<Rightarrow> 0 | Some v \<Rightarrow> signed_take_bit 31 v) \<rparr>))"

section \<open>A loop without an end\<close>

lemma vmstat_stuck:
  assumes "is_fail s" "\<not> is_eof s"
  shows "iterate (\<lambda>p. Some (vmstat_round u p)) (s, m) = None"
proof (rule iterate_diverges [where stays = "\<lambda>(s, m). is_fail s \<and> \<not> is_eof s"])
  show "\<exists>p'. Some (vmstat_round u p) = Some (Inr (Some p')) \<and> (case p' of (s, m) \<Rightarrow> is_fail s \<and> \<not> is_eof s)"
    if "case p of (s, m) \<Rightarrow> is_fail s \<and> \<not> is_eof s" for p
    using that by (auto simp: vmstat_round_def extract_word_def read_long_def good_def)
qed (use assms in simp)

section \<open>A file as the kernel writes it\<close>

definition vmstat_line :: "string \<times> nat \<Rightarrow> string" where
  "vmstat_line p = fst p @ CHR 0x20 # decimal (snd p) @ [CHR 0x0A]"

definition vmstat_ok :: "string \<times> nat \<Rightarrow> bool" where
  "vmstat_ok p \<longleftrightarrow> fst p \<noteq> [] \<and> list_all (\<lambda>c. \<not> isspace c) (fst p) \<and> snd p < 2 ^ 63"

lemma digit_char: "n < 10 \<Longrightarrow> isdigit (char_of (48 + n))" "n < 10 \<Longrightarrow> (of_char (char_of (48 + n)) :: nat) = 48 + n"
  by (simp_all add: isdigit_def)

lemma digits_value_snoc: "digits_value (ds @ [c]) = 10 * digits_value ds + (of_char c - 48)"
  by (simp add: digits_value_def)

lemma decimal_digits: "list_all isdigit (decimal n) \<and> decimal n \<noteq> [] \<and> digits_value (decimal n) = n"
proof (induction n rule: decimal.induct)
  case (1 n)
  show ?case
  proof (cases "n < 10")
    case True
    then show ?thesis
      by (simp add: digit_char digits_value_def)
  next
    case False
    with 1 have IH: "list_all isdigit (decimal (n div 10))" "digits_value (decimal (n div 10)) = n div 10"
      by simp_all
    have "decimal n = decimal (n div 10) @ [char_of (48 + n mod 10)]"
      using False by (subst decimal.simps) simp
    then show ?thesis
      using IH digit_char [of "n mod 10"] by (simp add: digits_value_snoc del: decimal.simps)
  qed
qed

lemma digit_no_sign: "isdigit c \<Longrightarrow> c \<noteq> CHR ''-'' \<and> c \<noteq> CHR ''+'' \<and> \<not> isspace c"
  by (auto simp: isdigit_def isspace_def)

lemma takeWhile_stop: "list_all P xs \<Longrightarrow> \<not> P y \<Longrightarrow> takeWhile P (xs @ y # ys) = xs \<and> dropWhile P (xs @ y # ys) = y # ys"
  by (induction xs) auto

lemma extract_key:
  assumes "good s" "is_text s = blank @ key @ CHR 0x20 # rest" "list_all isspace blank"
    and "key \<noteq> []" "list_all (\<lambda>c. \<not> isspace c) key"
  shows "extract_word s = (key, s \<lparr> is_text := CHR 0x20 # rest, is_eof := False \<rparr>)"
proof -
  obtain c cs where key: "key = c # cs" "\<not> isspace c"
    using assms(4,5) by (cases key) auto
  then have skip: "dropWhile isspace (is_text s) = key @ CHR 0x20 # rest"
    using takeWhile_stop [OF assms(3), of c "cs @ CHR 0x20 # rest"] assms(2) by simp
  have "isspace (CHR 0x20)"
    by (simp add: isspace_def)
  then show ?thesis
    using takeWhile_stop [OF assms(5), of "CHR 0x20" rest] assms(1) key(1) by (simp add: extract_word_def skip good_def)
qed

lemma read_decimal:
  assumes "good s" "is_text s = CHR 0x20 # decimal n @ CHR 0x0A # rest" "n < 2 ^ 63"
  shows "read_long old s = (int n, s \<lparr> is_text := CHR 0x0A # rest, is_eof := False \<rparr>)"
proof -
  obtain c cs where dec: "decimal n = c # cs" "isdigit c"
    using decimal_digits [of n] by (cases "decimal n") (auto simp del: decimal.simps)
  have blanks: "isspace (CHR 0x20)" "\<not> isdigit (CHR 0x0A)"
    by (simp_all add: isspace_def isdigit_def)
  have skip: "dropWhile isspace (is_text s) = decimal n @ CHR 0x0A # rest"
    using digit_no_sign [OF dec(2)] blanks(1) by (simp add: assms(2) dec(1) del: decimal.simps)
  have split: "takeWhile isdigit (decimal n @ CHR 0x0A # rest) = decimal n"
    "dropWhile isdigit (decimal n @ CHR 0x0A # rest) = CHR 0x0A # rest"
    using takeWhile_stop [of isdigit "decimal n" "CHR 0x0A" rest] decimal_digits [of n] blanks(2) by (simp_all del: decimal.simps)
  have "hd (decimal n @ CHR 0x0A # rest) = c"
    by (simp add: dec(1) del: decimal.simps)
  then show ?thesis
    using assms(1,3) digit_no_sign [OF dec(2)] decimal_digits [of n] dec(1) split
    by (simp add: read_long_def skip Let_def good_def del: decimal.simps)
qed

lemma vmstat_round_line:
  assumes "vmstat_ok p" "good s" "is_text s = blank @ vmstat_line p @ rest" "list_all isspace blank"
  shows "vmstat_round u (s, m)
    = Inr (Some (s \<lparr> is_text := CHR 0x0A # rest \<rparr>, map_assign (fst p) (int (snd p)) m))"
proof -
  let ?t = "s \<lparr> is_text := CHR 0x20 # decimal (snd p) @ CHR 0x0A # rest, is_eof := False \<rparr>"
  have "extract_word s = (fst p, ?t)"
    using assms by (intro extract_key [of _ blank]) (simp_all add: vmstat_line_def vmstat_ok_def del: decimal.simps)
  moreover have "read_long u ?t = (int (snd p), ?t \<lparr> is_text := CHR 0x0A # rest, is_eof := False \<rparr>)"
    using assms by (intro read_decimal) (simp_all add: good_def vmstat_ok_def)
  ultimately show ?thesis
    using assms(2) by (simp add: vmstat_round_def good_def)
qed

text \<open>After the last line one more round reads no key and enters what the variable contained.\<close>

lemma vmstat_loop:
  assumes "list_all vmstat_ok ps" "good s" "is_text s = blank @ concat (map vmstat_line ps)" "list_all isspace blank"
  shows "\<exists>t. iterate (\<lambda>p. Some (vmstat_round u p)) (s, m)
    = Some (Inr (t, map_assign '''' u (fold (\<lambda>p. map_assign (fst p) (int (snd p))) ps m)))"
  using assms
proof (induction ps arbitrary: s m blank)
  case Nil
  then have "dropWhile isspace (is_text s) = []"
    by (auto simp: list_all_iff)
  with Nil have "vmstat_round u (s, m)
      = Inr (Some (s \<lparr> is_text := [], is_eof := True, is_fail := True \<rparr>, map_assign '''' u m))"
    unfolding vmstat_round_def extract_word_def read_long_def by (simp add: good_def)
  then show ?case
    by (simp add: vmstat_round_def)
next
  case (Cons p ps)
  have blank: "list_all isspace [CHR 0x0A]"
    by (simp add: isspace_def)
  have "vmstat_round u (s, m) = Inr (Some (s \<lparr> is_text := [CHR 0x0A] @ concat (map vmstat_line ps) \<rparr>,
      map_assign (fst p) (int (snd p)) m))"
    using vmstat_round_line [of p s blank] Cons.prems by simp
  then show ?case
    using Cons.IH [of "s \<lparr> is_text := [CHR 0x0A] @ concat (map vmstat_line ps) \<rparr>" "[CHR 0x0A]"] Cons.prems blank
    by (simp add: good_def)
qed

lemma fold_assign_lookup:
  "std_map_wf m \<Longrightarrow> std_map_wf (fold (\<lambda>p. map_assign (fst p) (f (snd p))) ps m)
   \<and> map_of (fold (\<lambda>p. map_assign (fst p) (f (snd p))) ps m) = map_of m ++ (map_option f \<circ> map_of (rev ps))"
  by (induction ps arbitrary: m) (auto simp: map_add_def fun_eq_iff split: option.split)

lemma memory_fields_distinct: "distinct (map fst memory_table)"
  by (simp add: memory_table_def)

lemma memory_counter: "(field, key, name) \<in> set memory_table \<Longrightarrow> map_of (memory_counters meminfo) field = Some (meminfo key)"
proof (rule map_of_is_SomeI)
  show "distinct (map fst (memory_counters meminfo))"
    using memory_fields_distinct by (simp add: memory_counters_def split_beta comp_def)
  show "(field, meminfo key) \<in> set (memory_counters meminfo)" if "(field, key, name) \<in> set memory_table"
    using that by (force simp: memory_counters_def)
qed

text \<open>
  C22. Taking a snapshot of the memory returns for a file \<open>/proc/vmstat\<close> as the kernel writes it,
  with every counter of \<open>/proc/meminfo\<close> under its member, empty where the kernel does not report it,
  and with the last number of invocations of the killer of processes (0 without one).  For a file
  that cannot be opened it never returns: the loop waits for the end of a stream that has failed.
\<close>

theorem memory_snapshot:
  "Memory_snap u meminfo None = None
   \<and> (list_all vmstat_ok ps \<longrightarrow>
      (\<exists>m. Memory_snap u meminfo (Some (concat (map vmstat_line ps))) = Some (Inr m)
        \<and> list_all (\<lambda>(field, key, name). Memory_get field m = (case meminfo key of None \<Rightarrow> Inl StdException | Some v \<Rightarrow> Inr v)) memory_table
        \<and> Memory_oom_killer_invocations m
            = Inr (case map_of (rev ps) ''oom_kill'' of None \<Rightarrow> 0 | Some n \<Rightarrow> signed_take_bit 31 (int n))))"
proof (intro conjI impI)
  show "Memory_snap u meminfo None = None"
    by (simp add: Memory_snap_def open_file_def vmstat_stuck)
  assume ok: "list_all vmstat_ok ps"
  let ?m = "map_assign '''' u (fold (\<lambda>p. map_assign (fst p) (int (snd p))) ps [])"
  obtain t where "iterate (\<lambda>p. Some (vmstat_round u p)) (open_file (Some (concat (map vmstat_line ps))), []) = Some (Inr (t, ?m))"
    using vmstat_loop [OF ok, of "open_file (Some (concat (map vmstat_line ps)))" "[]" u "[]"]
    by (auto simp: open_file_def good_def)
  moreover have "map_of ?m ''oom_kill'' = map_option int (map_of (rev ps) ''oom_kill'')"
    using fold_assign_lookup [of "[]" int ps] by (simp add: map_add_def split: option.split)
  ultimately show "\<exists>m. Memory_snap u meminfo (Some (concat (map vmstat_line ps))) = Some (Inr m)
        \<and> list_all (\<lambda>(field, key, name). Memory_get field m = (case meminfo key of None \<Rightarrow> Inl StdException | Some v \<Rightarrow> Inr v)) memory_table
        \<and> Memory_oom_killer_invocations m
            = Inr (case map_of (rev ps) ''oom_kill'' of None \<Rightarrow> 0 | Some n \<Rightarrow> signed_take_bit 31 (int n))"
    by (auto simp: Memory_snap_def Memory_get_def Memory_oom_killer_invocations_def list_all_iff memory_counter
        split: option.split)
qed

theorem memory_snapshot_witness:
  "\<exists>m. Memory_snap 0 [''MemTotal'' \<mapsto> 1000] (Some (''oom_kill 3'' @ [CHR 0x0A])) = Some (Inr m)
     \<and> Memory_get ''total'' m = Inr 1000 \<and> Memory_oom_killer_invocations m = Inr 3"
proof -
  have line: "concat (map vmstat_line [(''oom_kill'', 3)]) = ''oom_kill 3'' @ [CHR 0x0A]"
    by (simp add: vmstat_line_def) code_simp
  have "list_all vmstat_ok [(''oom_kill'', 3)]"
    by (simp add: vmstat_ok_def isspace_def)
  then obtain m where "Memory_snap 0 [''MemTotal'' \<mapsto> 1000] (Some (''oom_kill 3'' @ [CHR 0x0A])) = Some (Inr m)"
    "list_all (\<lambda>(field, key, name). Memory_get field m = (case [''MemTotal'' \<mapsto> 1000] key of None \<Rightarrow> Inl StdException | Some v \<Rightarrow> Inr v)) memory_table"
    "Memory_oom_killer_invocations m = Inr 3"
    using memory_snapshot [of 0 "[''MemTotal'' \<mapsto> 1000]" "[(''oom_kill'', 3)]", unfolded line]
    by (auto simp: signed_take_bit_eq_if_positive bit_simps)
  then show ?thesis
    by (intro exI [of _ m]) (simp add: memory_table_def)
qed

end
