(* ===== verification/Threads.thy ===== *)
theory Threads
  imports Dispatcher
begin

text \<open>
  The threads of the dispatching units (\<open>execute\<close>, \<open>stop\<close> and \<open>is_running\<close> of the classes in
  \<open>structs/dispatchers/\<close>) and how the \<open>Dispatcher\<close> starts and stops them.  A unit is its flag
  and whether its \<open>std::thread\<close> is joinable.  Assigning to a joinable thread calls
  \<open>std::terminate\<close>; joining a thread that is not joinable, or joining oneself, throws
  \<open>std::system_error\<close>.  \<open>thread_join\<close> is the effect of a join that comes back; whether it comes
  back is the subject of the section on stopping the sender.
\<close>

section \<open>Units with a thread\<close>

record worker =
  is_running :: bool
  thread_joinable :: bool

definition idle_worker :: worker where
  "idle_worker = \<lparr> is_running = False, thread_joinable = False \<rparr>"

definition thread_start :: "worker \<Rightarrow> worker res" where
  "thread_start w = (if thread_joinable w then Inl Terminated else Inr (w \<lparr> thread_joinable := True \<rparr>))"

text \<open>\<open>own\<close>: the caller is the thread itself.\<close>

definition thread_join :: "bool \<Rightarrow> worker \<Rightarrow> worker res" where
  "thread_join own w =
     (if own \<or> \<not> thread_joinable w then Inl SystemError else Inr (w \<lparr> thread_joinable := False \<rparr>))"

text \<open>The body that all the \<open>execute\<close> share, and the two forms of \<open>stop\<close>.\<close>

definition worker_execute :: "worker \<Rightarrow> worker res" where
  "worker_execute w = (if is_running w then Inr w else thread_start (w \<lparr> is_running := True \<rparr>))"

definition worker_stop :: "bool \<Rightarrow> worker \<Rightarrow> worker res" where
  "worker_stop own w = (if \<not> is_running w then Inr w else thread_join own (w \<lparr> is_running := False \<rparr>))"

definition worker_stop_guarded :: "bool \<Rightarrow> worker \<Rightarrow> worker res" where
  "worker_stop_guarded own w =
     (if \<not> is_running w then Inr w
      else
        let w = w \<lparr> is_running := False \<rparr> in
        if own then Inr w else thread_join own w)"

definition RawReceiverSimulation_execute :: "worker \<Rightarrow> worker res" where
  "RawReceiverSimulation_execute = worker_execute"

definition RawReceiverSimulation_stop :: "bool \<Rightarrow> worker \<Rightarrow> worker res" where
  "RawReceiverSimulation_stop = worker_stop"

definition ReceiverSimulation_execute :: "worker \<Rightarrow> worker res" where
  "ReceiverSimulation_execute = worker_execute"

definition ReceiverSimulation_stop :: "bool \<Rightarrow> worker \<Rightarrow> worker res" where
  "ReceiverSimulation_stop = worker_stop_guarded"

definition RawReceiverL2_execute :: "worker \<Rightarrow> worker res" where
  "RawReceiverL2_execute = worker_execute"

definition RawReceiverL2_stop :: "bool \<Rightarrow> worker \<Rightarrow> worker res" where
  "RawReceiverL2_stop = worker_stop"

definition ReceiverL2_execute :: "worker \<Rightarrow> worker res" where
  "ReceiverL2_execute = worker_execute"

definition ReceiverL2_stop :: "bool \<Rightarrow> worker \<Rightarrow> worker res" where
  "ReceiverL2_stop = worker_stop"

definition ReceiverL3_execute :: "worker \<Rightarrow> worker res" where
  "ReceiverL3_execute = worker_execute"

definition ReceiverL3_stop :: "bool \<Rightarrow> worker \<Rightarrow> worker res" where
  "ReceiverL3_stop = worker_stop"

definition ReceiverDDS_execute :: "worker \<Rightarrow> worker res" where
  "ReceiverDDS_execute = worker_execute"

definition ReceiverDDS_stop :: "bool \<Rightarrow> worker \<Rightarrow> worker res" where
  "ReceiverDDS_stop = worker_stop"

definition Sender_execute :: "worker \<Rightarrow> worker res" where
  "Sender_execute = worker_execute"

definition Sender_stop :: "bool \<Rightarrow> worker \<Rightarrow> worker res" where
  "Sender_stop = worker_stop_guarded"

definition API_execute :: "worker \<Rightarrow> worker res" where
  "API_execute = worker_execute"

definition API_stop :: "bool \<Rightarrow> worker \<Rightarrow> worker res" where
  "API_stop = worker_stop"

lemmas unit_defs =
  RawReceiverSimulation_execute_def RawReceiverSimulation_stop_def
  ReceiverSimulation_execute_def ReceiverSimulation_stop_def
  RawReceiverL2_execute_def RawReceiverL2_stop_def ReceiverL2_execute_def ReceiverL2_stop_def
  ReceiverL3_execute_def ReceiverL3_stop_def ReceiverDDS_execute_def ReceiverDDS_stop_def
  Sender_execute_def Sender_stop_def API_execute_def API_stop_def

lemmas worker_defs =
  worker_execute_def worker_stop_def worker_stop_guarded_def thread_start_def thread_join_def

section \<open>The contract of a unit\<close>

text \<open>
  What a client that is not the thread of the unit relies on.  \<open>ok\<close> is the invariant of the
  unit, \<open>up\<close> whether it runs.
\<close>

locale service =
  fixes execute :: "'w \<Rightarrow> 'w res"
    and halt :: "'w \<Rightarrow> 'w res"
    and up :: "'w \<Rightarrow> bool"
    and ok :: "'w \<Rightarrow> bool"
  assumes execute_starts: "ok w \<Longrightarrow> \<exists>w'. execute w = Inr w' \<and> ok w' \<and> up w'"
    and execute_again: "up w \<Longrightarrow> execute w = Inr w"
    and halt_stops: "ok w \<Longrightarrow> \<exists>w'. halt w = Inr w' \<and> ok w' \<and> \<not> up w'"
    and halt_again: "\<not> up w \<Longrightarrow> halt w = Inr w"
begin

text \<open>A sequence of calls: \<open>True\<close> is \<open>execute\<close>.\<close>

definition control :: "bool list \<Rightarrow> 'w \<Rightarrow> 'w res" where
  "control = fold_res (\<lambda>start. if start then execute else halt)"

lemma control_total: "ok w \<Longrightarrow> \<exists>w'. control cs w = Inr w' \<and> ok w' \<and> up w' = last (up w # cs)"
  unfolding control_def
proof (induction cs arbitrary: w)
  case (Cons c cs)
  obtain w1 where w1: "(if c then execute w else halt w) = Inr w1" "ok w1" "up w1 = c"
    using execute_starts [OF Cons.prems] halt_stops [OF Cons.prems] by (cases c) auto
  then show ?case
    using Cons.IH [OF w1(2)] by (cases cs) (auto simp: if_distribR)
qed simp

lemma repeated_calls:
  assumes "ok w"
  shows "control (replicate (Suc n) c) w = control [c] w"
proof -
  obtain w1 where w1: "(if c then execute w else halt w) = Inr w1" "up w1 = c"
    using execute_starts [OF assms] halt_stops [OF assms] by (cases c) auto
  have "fold_res (\<lambda>start. if start then execute else halt) (replicate n c) w1 = Inr w1"
    using w1(2) execute_again halt_again by (induction n) auto
  with w1(1) show ?thesis
    by (simp add: control_def if_distribR)
qed

end

definition worker_ok :: "worker \<Rightarrow> bool" where
  "worker_ok w \<longleftrightarrow> is_running w = thread_joinable w"

lemma idle_worker_ok [simp]: "worker_ok idle_worker"
  by (simp add: worker_ok_def idle_worker_def)

interpretation plain_unit: service worker_execute "worker_stop False" is_running worker_ok
  by unfold_locales (auto simp: worker_defs worker_ok_def)

interpretation guarded_unit: service worker_execute "worker_stop_guarded False" is_running worker_ok
  by unfold_locales (auto simp: worker_defs worker_ok_def Let_def)

text \<open>The thread itself cannot stop a unit that joins without asking who calls.\<close>

lemma own_stop: "is_running w \<Longrightarrow> worker_stop True w = Inl SystemError"
  by (simp add: worker_defs)

lemma own_stop_guarded:
  "worker_stop_guarded True w = Inr (w \<lparr> is_running := False \<rparr>) \<or> worker_stop_guarded True w = Inr w"
  by (simp add: worker_stop_guarded_def Let_def)

text \<open>A guarded stop from the own thread leaves a unit that cannot be started again.\<close>

lemma own_stop_guarded_is_final:
  "worker_ok w \<Longrightarrow> is_running w \<Longrightarrow>
     and_then (worker_stop_guarded True w) worker_execute = Inl Terminated"
  by (simp add: worker_defs worker_ok_def Let_def)

section \<open>The units of the dispatcher\<close>

record dispatching_units =
  raw_receiver_simulation :: worker
  receiver_simulation :: worker
  raw_receiver_l2 :: worker
  receiver_l2 :: worker
  receiver_l3 :: worker
  receiver_dds :: worker
  sender :: worker

definition idle_units :: dispatching_units where
  "idle_units =
     \<lparr> raw_receiver_simulation = idle_worker, receiver_simulation = idle_worker,
       raw_receiver_l2 = idle_worker, receiver_l2 = idle_worker, receiver_l3 = idle_worker,
       receiver_dds = idle_worker, sender = idle_worker \<rparr>"

text \<open>\<open>simulated\<close>: the build defines \<open>FROM_SIMUZILLA\<close>.\<close>

definition execute_dispatchers :: "bool \<Rightarrow> dispatching_units \<Rightarrow> dispatching_units res" where
  "execute_dispatchers simulated u =
     and_then
       (if simulated then
          and_then (RawReceiverSimulation_execute (raw_receiver_simulation u)) (\<lambda>w.
            Inr (u \<lparr> raw_receiver_simulation := w \<rparr>))
        else
          and_then (RawReceiverL2_execute (raw_receiver_l2 u)) (\<lambda>l2.
          and_then (ReceiverL3_execute (receiver_l3 u)) (\<lambda>l3.
          and_then (ReceiverDDS_execute (receiver_dds u)) (\<lambda>dds.
            Inr (u \<lparr> raw_receiver_l2 := l2, receiver_l3 := l3, receiver_dds := dds \<rparr>)))))
       (\<lambda>u. and_then (Sender_execute (sender u)) (\<lambda>w. Inr (u \<lparr> sender := w \<rparr>)))"

definition stop_receivers :: "bool \<Rightarrow> dispatching_units \<Rightarrow> dispatching_units res" where
  "stop_receivers simulated u =
     (if simulated then
        and_then (RawReceiverSimulation_stop False (raw_receiver_simulation u)) (\<lambda>w.
          Inr (u \<lparr> raw_receiver_simulation := w \<rparr>))
      else
        and_then (ReceiverL2_stop False (receiver_l2 u)) (\<lambda>l2.
        and_then (ReceiverL3_stop False (receiver_l3 u)) (\<lambda>l3.
        and_then (ReceiverDDS_stop False (receiver_dds u)) (\<lambda>dds.
          Inr (u \<lparr> receiver_l2 := l2, receiver_l3 := l3, receiver_dds := dds \<rparr>)))))"

definition stop_dispatchers :: "bool \<Rightarrow> dispatching_units \<Rightarrow> dispatching_units res" where
  "stop_dispatchers simulated u =
     and_then (stop_receivers simulated u) (\<lambda>u.
     and_then (Sender_stop False (sender u)) (\<lambda>w. Inr (u \<lparr> sender := w \<rparr>)))"

text \<open>The destructor leaves the sender alone.\<close>

definition Dispatcher_destroy :: "bool \<Rightarrow> dispatching_units \<Rightarrow> dispatching_units res" where
  "Dispatcher_destroy simulated u = stop_receivers simulated u"

text \<open>The first thing the thread of the raw receiver does is to start the receiver.\<close>

definition RawReceiverSimulation_begin :: "dispatching_units \<Rightarrow> dispatching_units res" where
  "RawReceiverSimulation_begin u =
     and_then (ReceiverSimulation_execute (receiver_simulation u)) (\<lambda>w.
       Inr (u \<lparr> receiver_simulation := w \<rparr>))"

definition all_units :: "dispatching_units \<Rightarrow> worker list" where
  "all_units u =
     [raw_receiver_simulation u, receiver_simulation u, raw_receiver_l2 u, receiver_l2 u,
      receiver_l3 u, receiver_dds u, sender u]"

definition units_ok :: "dispatching_units \<Rightarrow> bool" where
  "units_ok u \<longleftrightarrow> list_all worker_ok (all_units u)"

lemmas units_defs = units_ok_def all_units_def execute_dispatchers_def stop_receivers_def
  stop_dispatchers_def Dispatcher_destroy_def RawReceiverSimulation_begin_def

lemma worker_execute_ok: "worker_ok w \<Longrightarrow> worker_execute w = Inr \<lparr> is_running = True, thread_joinable = True \<rparr>"
  by (cases w) (auto simp: worker_defs worker_ok_def)

lemma worker_stop_ok: "worker_ok w \<Longrightarrow> worker_stop False w = Inr idle_worker"
  by (cases w) (auto simp: worker_defs worker_ok_def idle_worker_def)

lemma worker_stop_guarded_ok: "worker_ok w \<Longrightarrow> worker_stop_guarded False w = Inr idle_worker"
  by (cases w) (auto simp: worker_defs worker_ok_def idle_worker_def Let_def)

lemmas worker_results = worker_execute_ok worker_stop_ok worker_stop_guarded_ok

lemma running_worker_ok [simp]: "worker_ok \<lparr> is_running = True, thread_joinable = True \<rparr>"
  by (simp add: worker_ok_def)

text \<open>
  Stopping the dispatcher does not undo starting it.  From units at rest, starting and then
  stopping returns in both builds, but in the networked build the raw layer 2 receiver still
  runs, since only the layer 2 receiver is told to stop, and in the simulated build the receiver
  that the raw receiver started still runs.
\<close>

lemma stop_dispatchers_leaves_receiver:
  "and_then (execute_dispatchers False idle_units) (stop_dispatchers False)
     = Inr (idle_units \<lparr> raw_receiver_l2 := \<lparr> is_running = True, thread_joinable = True \<rparr> \<rparr>)
   \<and> and_then (and_then (execute_dispatchers True idle_units) RawReceiverSimulation_begin) (stop_dispatchers True)
     = Inr (idle_units \<lparr> receiver_simulation := \<lparr> is_running = True, thread_joinable = True \<rparr> \<rparr>)"
  by (simp add: idle_units_def units_defs unit_defs worker_results)

text \<open>
  Every operation of the dispatcher on its units returns and keeps their invariant when it is
  called from outside.
\<close>

lemma dispatcher_calls_ok:
  assumes "units_ok u"
  shows "\<exists>u'. execute_dispatchers sim u = Inr u' \<and> units_ok u'"
    and "\<exists>u'. stop_dispatchers sim u = Inr u' \<and> units_ok u'"
    and "\<exists>u'. Dispatcher_destroy sim u = Inr u' \<and> units_ok u'"
    and "\<exists>u'. RawReceiverSimulation_begin u = Inr u' \<and> units_ok u'"
  using assms by (cases u; cases sim; simp add: units_defs unit_defs worker_results)+

section \<open>Stopping the sender\<close>

text \<open>
  The sender thread waits until its queue has an item, handles it and tests its flag.  \<open>stop\<close>
  clears the flag and joins, without waking the thread: the moves of the thread, of a client
  that sends and of a client that stops it.
\<close>

record sender_control =
  flag :: bool
  thread_alive :: bool
  in_join :: bool
  pending :: "queue_item list"

datatype sender_action =
    Enqueued queue_item
  | Handled queue_item
  | StopCalled
  | Joined

inductive sender_move :: "sender_control \<Rightarrow> sender_action \<Rightarrow> sender_control \<Rightarrow> bool" where
  enqueued: "sender_move s (Enqueued m) (s \<lparr> pending := pending s @ [m] \<rparr>)"
| handled: "thread_alive s \<Longrightarrow> pending s = m # rest \<Longrightarrow>
     sender_move s (Handled m) (s \<lparr> pending := rest, thread_alive := flag s \<rparr>)"
| stop_called: "flag s \<Longrightarrow> \<not> in_join s \<Longrightarrow>
     sender_move s StopCalled (s \<lparr> flag := False, in_join := True \<rparr>)"
| joined: "in_join s \<Longrightarrow> \<not> thread_alive s \<Longrightarrow> sender_move s Joined (s \<lparr> in_join := False \<rparr>)"

inductive_cases sender_moveE: "sender_move s a s'"

inductive_simps sender_move_iff:
  "sender_move s (Enqueued m) s'" "sender_move s (Handled m) s'"
  "sender_move s StopCalled s'" "sender_move s Joined s'"

inductive sender_moves :: "sender_control \<Rightarrow> sender_action list \<Rightarrow> sender_control \<Rightarrow> bool" where
  none: "sender_moves s [] s"
| more: "sender_move s a t \<Longrightarrow> sender_moves t as u \<Longrightarrow> sender_moves s (a # as) u"

inductive_simps sender_moves_Nil [simp]: "sender_moves s [] s'"
inductive_simps sender_moves_Cons: "sender_moves s (a # as) s'"

definition is_enqueued :: "sender_action \<Rightarrow> bool" where
  "is_enqueued a = (case a of Enqueued m \<Rightarrow> True | _ \<Rightarrow> False)"

definition is_handled :: "sender_action \<Rightarrow> bool" where
  "is_handled a = (case a of Handled m \<Rightarrow> True | _ \<Rightarrow> False)"

text \<open>
  A call of \<open>stop\<close> on a sender that has nothing to send does not return unless somebody sends
  a message: on every run on which nothing is enqueued, a thread that waits with an empty queue
  keeps waiting, nothing is handled and no join comes back.
\<close>

lemma sender_stop_waits_for_message:
  assumes "sender_moves s as s'" and "thread_alive s" and "pending s = []"
    and "list_all (\<lambda>a. \<not> is_enqueued a) as"
  shows "list_all (\<lambda>a. a = StopCalled) as \<and> thread_alive s' \<and> pending s' = []"
  using assms
  by (induction rule: sender_moves.induct) (auto simp: is_enqueued_def elim!: sender_moveE)

text \<open>After the flag was cleared at most one more message leaves; the rest stays in the queue.\<close>

lemma handled_once_stopped:
  assumes "sender_moves s as s'" and "\<not> flag s"
  shows "length (filter is_handled as) \<le> (if thread_alive s then 1 else 0)"
  using assms
proof (induction rule: sender_moves.induct)
  case (more s a t as u)
  then show ?case
    by (cases a) (auto simp: is_handled_def sender_move_iff split: if_split_asm)
qed simp

text \<open>A message on the queue lets the stop through: handle it, then the join comes back.\<close>

lemma stop_returns_with_message:
  assumes "flag s" "thread_alive s" "\<not> in_join s" "pending s = m # rest"
  shows "sender_moves s [StopCalled, Handled m, Joined]
     (s \<lparr> flag := False, thread_alive := False, in_join := False, pending := rest \<rparr>)"
  using assms by (simp add: sender_moves_Cons sender_move_iff)

end
