(* ===== verification/Receivers.thy ===== *)
theory Receivers
  imports Threads Loops
begin

text \<open>
  The receivers of the networked build (\<open>structs/dispatchers/receiver_l2.cpp\<close>,
  \<open>receiver_l3.cpp\<close>, \<open>receiver_dds.cpp\<close>) and the interleaving of the two simulation receivers.
  What \<open>recv\<close> returns is an argument: the returned number and the octets it wrote.  A round of a
  thread is atomic.
\<close>

section \<open>The raw layer 2 receiver\<close>

abbreviation (input) "TEMPORARY_BUFFER_LENGTH \<equiv> 65536 :: nat"
abbreviation (input) "RANK_ETHERTYPE \<equiv> 0x7265 :: nat"
abbreviation (input) "sizeof_ethhdr \<equiv> 14 :: nat"

text \<open>
  The queue the raw receiver shares with the receiver, whether the pointer to its mutex points to
  a mutex, and the receiver it wakes.  No constructor sets the pointer; the instance has static
  storage, so the pointer is null.
\<close>

record l2_state =
  l2_queue :: "raw_item list"
  l2_queue_mutex :: bool
  l2_receiver :: worker

definition L2_initial :: l2_state where
  "L2_initial = \<lparr> l2_queue = [], l2_queue_mutex = False, l2_receiver = idle_worker \<rparr>"

text \<open>The buffer is cleared before \<open>recv\<close> writes at its start.\<close>

definition temporary_buffer :: "byte list \<Rightarrow> byte list" where
  "temporary_buffer octets = octets @ replicate (TEMPORARY_BUFFER_LENGTH - length octets) 0"

definition h_proto :: "byte list \<Rightarrow> nat" where
  "h_proto buffer = 256 * unat (buffer ! 12) + unat (buffer ! 13)"

text \<open>The length is a \<open>size_t\<close>: it wraps for less than a header.\<close>

definition rank_data :: "byte list \<Rightarrow> int \<Rightarrow> byte list res" where
  "rank_data buffer received_bytes =
     (let n = unat (word_of_int received_bytes - 14 :: size_t) in
      if sizeof_ethhdr + n \<le> length buffer then Inr (take n (drop sizeof_ethhdr buffer))
      else Inl UndefinedBehaviour)"

definition source_address :: "byte list \<Rightarrow> byte list" where
  "source_address buffer = map ntohs_byte (take 6 (drop 6 buffer))"

definition RawReceiverL2_step :: "int \<times> byte list \<Rightarrow> l2_state \<Rightarrow> l2_state res" where
  "RawReceiverL2_step received s =
     (case received of (received_bytes, octets) \<Rightarrow>
        let buffer = temporary_buffer octets in
        if received_bytes < 0 then Inr s
        else if h_proto buffer = RANK_ETHERTYPE then
          and_then (rank_data buffer received_bytes) (\<lambda>data.
          and_then (require (l2_queue_mutex s) NullDeref) (\<lambda>_.
          let s = s \<lparr> l2_queue := l2_queue s @ [(source_address buffer, data)] \<rparr> in
          and_then (ReceiverL2_execute (l2_receiver s)) (\<lambda>w.
            Inr (s \<lparr> l2_receiver := w \<rparr>))))
        else Inr s)"

text \<open>What \<open>recv\<close> documents: the number of octets written, at most the length of the buffer.\<close>

definition recv_ok :: "int \<times> byte list \<Rightarrow> bool" where
  "recv_ok r \<longleftrightarrow> fst r < 0 \<or> fst r = int (length (snd r)) \<and> length (snd r) \<le> TEMPORARY_BUFFER_LENGTH"

text \<open>A frame of the program: at least a header, with the type of the program in it.\<close>

definition is_rank_frame :: "byte list \<Rightarrow> bool" where
  "is_rank_frame octets \<longleftrightarrow> sizeof_ethhdr \<le> length octets \<and> h_proto octets = RANK_ETHERTYPE"

lemma h_proto_of_buffer:
  assumes "length octets \<le> TEMPORARY_BUFFER_LENGTH"
  shows "h_proto (temporary_buffer octets) = RANK_ETHERTYPE \<longleftrightarrow> is_rank_frame octets"
proof (cases "sizeof_ethhdr \<le> length octets")
  case True
  then show ?thesis
    by (simp add: h_proto_def is_rank_frame_def temporary_buffer_def nth_append)
next
  case False
  then have "unat (temporary_buffer octets ! 13) = 0"
    using assms by (simp add: temporary_buffer_def nth_append)
  then show ?thesis
    using False by (auto simp: h_proto_def is_rank_frame_def dest: arg_cong [of _ _ "\<lambda>n. n mod 256"])
qed

lemma rank_data_of_frame:
  assumes "sizeof_ethhdr \<le> length octets" "length octets \<le> TEMPORARY_BUFFER_LENGTH"
  shows "rank_data (temporary_buffer octets) (int (length octets)) = Inr (drop sizeof_ethhdr octets)"
proof -
  have "unat (word_of_nat (length octets) - 14 :: size_t) = length octets - 14"
    using assms by (simp add: unat_sub_if' unat_of_nat)
  then show ?thesis
    using assms by (simp add: rank_data_def temporary_buffer_def Let_def)
qed

lemma source_address_zero [simp]: "length buffer \<ge> 12 \<Longrightarrow> source_address buffer = replicate 6 0"
  by (simp add: source_address_def list_eq_iff_nth_eq)

text \<open>One round on what \<open>recv\<close> may return, when the mutex is there.\<close>

lemma RawReceiverL2_step_frame:
  assumes "recv_ok (n, octets)" "l2_queue_mutex s" "worker_ok (l2_receiver s)"
  shows "RawReceiverL2_step (n, octets) s =
     (if 0 \<le> n \<and> is_rank_frame octets
      then Inr (s \<lparr> l2_queue := l2_queue s @ [(replicate 6 0, drop sizeof_ethhdr octets)],
                  l2_receiver := \<lparr> is_running = True, thread_joinable = True \<rparr> \<rparr>)
      else Inr s)"
proof (cases "n < 0")
  case False
  then have "n = int (length octets)" "length octets \<le> TEMPORARY_BUFFER_LENGTH"
    using assms(1) by (simp_all add: recv_ok_def)
  moreover have "12 \<le> length (temporary_buffer octets)"
    by (simp add: temporary_buffer_def)
  ultimately show ?thesis
    using assms(2,3) rank_data_of_frame [of octets] h_proto_of_buffer [of octets]
    by (auto simp: RawReceiverL2_step_def is_rank_frame_def unit_defs worker_execute_ok Let_def)
qed (simp add: RawReceiverL2_step_def)

text \<open>
  The first frame of the program brings the raw layer 2 receiver down.  In the state the
  constructors leave, a round that receives any other frame, less than a header or an error
  changes nothing, and a round that receives a frame of the program locks the mutex behind a null
  pointer.
\<close>

lemma rank_frame_locks_null_mutex:
  assumes "recv_ok (received_bytes, octets)"
  shows "RawReceiverL2_step (received_bytes, octets) L2_initial =
    (if 0 \<le> received_bytes \<and> is_rank_frame octets then Inl NullDeref else Inr L2_initial)"
proof (cases "received_bytes < 0")
  case False
  then have "received_bytes = int (length octets)" "length octets \<le> TEMPORARY_BUFFER_LENGTH"
    using assms by (simp_all add: recv_ok_def)
  then show ?thesis
    using rank_data_of_frame [of octets] h_proto_of_buffer [of octets]
    by (auto simp: RawReceiverL2_step_def L2_initial_def is_rank_frame_def Let_def)
qed (simp add: RawReceiverL2_step_def)

definition ethernet_frame :: "byte list \<Rightarrow> byte list \<Rightarrow> byte list \<Rightarrow> byte list" where
  "ethernet_frame destination source payload = destination @ source @ [0x72, 0x65] @ payload"

lemma ethernet_frame_is_rank [simp]:
  "length destination = 6 \<Longrightarrow> length source = 6 \<Longrightarrow>
     is_rank_frame (ethernet_frame destination source payload)
     \<and> drop sizeof_ethhdr (ethernet_frame destination source payload) = payload"
  by (simp add: is_rank_frame_def h_proto_def ethernet_frame_def nth_append)

section \<open>The layer 2 receiver\<close>

text \<open>
  One round of the thread; \<open>None\<close> when the flag ends the loop.  With nothing to handle the thread
  calls \<open>stop\<close>, which joins the thread itself.
\<close>

definition ReceiverL2_step ::
  "ulid_lib \<Rightarrow> byte list \<Rightarrow> l2_state \<times> dispatcher \<Rightarrow> (l2_state \<times> dispatcher) option res" where
  "ReceiverL2_step L junk sd =
     (case sd of (s, d) \<Rightarrow>
        if \<not> is_running (l2_receiver s) then Inr None
        else case l2_queue s of
          (source, bytes) # queue \<Rightarrow>
            and_then (require (l2_queue_mutex s) NullDeref) (\<lambda>_.
            let s = s \<lparr> l2_queue := queue \<rparr> in
            and_then (parse_message_from_bytes L junk bytes True) (\<lambda>message.
              case message of
                None \<Rightarrow> Inr (Some (s, d))
              | Some m \<Rightarrow> Inr (Some (s, enqueue_item (m, source, MAC) d))))
        | [] \<Rightarrow>
            and_then (ReceiverL2_stop True (l2_receiver s)) (\<lambda>w.
              Inr (Some (s \<lparr> l2_receiver := w \<rparr>, d))))"

definition ReceiverL2_run :: "ulid_lib \<Rightarrow> byte list \<Rightarrow> l2_state \<times> dispatcher \<Rightarrow> (l2_state \<times> dispatcher) run" where
  "ReceiverL2_run L junk = iterate (\<lambda>sd. Some (ReceiverL2_step L junk sd))"

text \<open>The message every network message is read as.\<close>

definition zeroed_EAR :: "ulid_lib \<Rightarrow> byte list \<Rightarrow> Message" where
  "zeroed_EAR L junk = EAR_msg
     \<lparr> req_header = Header 0 EAR (UnmarshalBinary L (replicate 16 0)), req_priority = 0,
       req_listener_length = 0, req_reserved = 0, req_listener = junk[0 := 0],
       req_payload_length = 0, req_payload = [] \<rparr>"

lemma parse_from_network:
  "junk \<noteq> [] \<Longrightarrow> parse_message_from_bytes L junk bytes True =
     (if length bytes < 17 then Inr None
      else if length bytes < 21 then Inl OutOfRange
      else Inr (Some (zeroed_EAR L junk)))"
  by (simp add: network_message_is_zeroed zeroed_EAR_def set_at_def)

text \<open>
  The layer 2 receiver never comes to rest.  Started on any queue it ends with an
  exception: \<open>std::out_of_range\<close> when some item has a header but less than four octets behind it,
  and otherwise \<open>std::system_error\<close>, because the thread that finds its queue empty stops itself and
  thereby joins itself.
\<close>

lemma layer2_receiver_ends_in_exception:
  assumes "junk \<noteq> []" "l2_queue_mutex s" "is_running (l2_receiver s)"
  shows "ReceiverL2_run L junk (s, d) = Some (Inl
     (if list_ex (\<lambda>(_, bytes). 17 \<le> length bytes \<and> length bytes < 21) (l2_queue s)
      then OutOfRange else SystemError))"
  using assms(2,3)
proof (induction "l2_queue s" arbitrary: s d)
  case Nil
  then have "ReceiverL2_step L junk (s, d) = Inl SystemError"
    by (simp add: ReceiverL2_step_def ReceiverL2_stop_def own_stop flip: Nil.hyps)
  then show ?case
    using Nil.hyps by (simp add: ReceiverL2_run_def flip: Nil.hyps)
next
  case (Cons item queue)
  obtain source bytes where item: "item = (source, bytes)"
    by fastforce
  note step = ReceiverL2_step_def parse_from_network [OF assms(1)] item Cons.hyps(2) [symmetric]
  show ?case
  proof (cases "17 \<le> length bytes \<and> length bytes < 21")
    case True
    then have "ReceiverL2_step L junk (s, d) = Inl OutOfRange"
      using Cons.prems by (simp add: step)
    with True show ?thesis
      by (simp add: ReceiverL2_run_def item flip: Cons.hyps(2))
  next
    case False
    then obtain d' where "ReceiverL2_step L junk (s, d) = Inr (Some (s \<lparr> l2_queue := queue \<rparr>, d'))"
      using Cons.prems by (cases "length bytes < 17") (auto simp: step)
    with False show ?thesis
      using Cons.hyps(1) [of "s \<lparr> l2_queue := queue \<rparr>" d'] Cons.prems
      by (simp add: ReceiverL2_run_def item flip: Cons.hyps(2))
  qed
qed

section \<open>A message over layer 2\<close>

lemma raw_payload_has_header:
  assumes "ulid_ok L" "message_ok m" "raw_payload L m = Inr bytes"
  shows "17 \<le> length bytes"
proof (rule ccontr)
  assume "\<not> 17 \<le> length bytes"
  then have "parse_message_from_bytes L (replicate 16 0) bytes False = Inr None"
    by (simp add: parse_message_from_bytes_def RANK_HEADER_LEN_def)
  then show False
    using message_trip [OF assms(1,2), of "replicate 16 0"] assms(3) by auto
qed

lemma stringified_target_MAC:
  assumes "length tgt = 6"
  shows "stringified_target tgt = Inr (colon_separated (map hex_byte tgt))"
  using assms by (simp add: stringified_target_def read_loop_in)

text \<open>
  C39. No message of the program gets past the raw layer 2 receiver.  From the state the
  constructors leave, and whatever a sequence of calls of \<open>recv\<close> returns, the thread ignores errors,
  other frames and what is too short for a header, and locks the mutex behind a null pointer at the
  first frame of the program's type; and every frame the sender makes, for any message and any
  pair of addresses, is of that type.
\<close>

theorem layer2_receiver_falls_at_first_message:
  assumes "list_all recv_ok rs" "length tgt = 6" "length src = 6"
  shows "fold_res RawReceiverL2_step rs L2_initial =
      (if list_ex (\<lambda>(received_bytes, octets). 0 \<le> received_bytes \<and> is_rank_frame octets) rs
       then Inl NullDeref else Inr L2_initial)
    \<and> is_rank_frame (ethernet_frame tgt src bytes)"
proof -
  have "fold_res RawReceiverL2_step rs L2_initial =
      (if list_ex (\<lambda>(received_bytes, octets). 0 \<le> received_bytes \<and> is_rank_frame octets) rs
       then Inl NullDeref else Inr L2_initial)"
    using assms(1)
  proof (induction rs)
    case (Cons r rs)
    obtain n octets where r: "r = (n, octets)"
      by fastforce
    with Cons show ?case
      using rank_frame_locks_null_mutex [of n octets] by (auto split: if_splits)
  qed simp
  then show ?thesis
    using assms(2,3) by simp
qed

theorem layer2_receiver_falls_at_first_message_witness:
  "\<exists>bytes. raw_payload ulid_spec (BID_new 9 1) = Inr bytes
     \<and> fold_res RawReceiverL2_step
         [(- 1, []), (3, [1, 2, 3]),
          (int (length (ethernet_frame (replicate 6 255) (replicate 6 2) bytes)), ethernet_frame (replicate 6 255) (replicate 6 2) bytes),
          (- 1, [])] L2_initial = Inl NullDeref
     \<and> fold_res RawReceiverL2_step [(- 1, []), (3, [1, 2, 3])] L2_initial = Inr L2_initial"
proof -
  obtain h where h: "marshal_header ulid_spec (Header RANK_HEADER_VERSION BID 9) = Inr h" "length h = 17"
    using marshal_header_Inr [OF ulid_spec_ok] by fastforce
  then obtain bytes where bytes: "raw_payload ulid_spec (BID_new 9 1) = Inr bytes" "length bytes = 21"
    by (simp add: BID_new_def BID_raw_payload_def float_bytes_def)
  let ?f = "ethernet_frame (replicate 6 255) (replicate 6 2) bytes"
  have f: "length ?f = 35"
    using bytes(2) by (simp add: ethernet_frame_def)
  have short: "\<not> is_rank_frame [1, 2, 3]"
    by (simp add: is_rank_frame_def)
  note falls = layer2_receiver_falls_at_first_message [where tgt = "replicate 6 0" and src = "replicate 6 0"]
  show ?thesis
    using falls [of "[(- 1, []), (3, [1, 2, 3]), (35, ?f), (- 1, [])]"] falls [of "[(- 1, []), (3, [1, 2, 3])]"] bytes f short
    by (intro exI [of _ bytes]) (simp add: recv_ok_def del: fold_res.simps)
qed

lemma acceptance_ends_receiver:
  assumes "ulid_ok L" "raw_payload L (ACC_msg h) = Inr bytes" "junk \<noteq> []"
  shows "parse_message_from_bytes L junk bytes True = Inl OutOfRange"
  using assms marshal_header_Inr [OF assms(1), of h]
  by (auto simp: ACC_raw_payload_def parse_from_network)

section \<open>The layer 3 and DDS receivers\<close>

text \<open>
  One round of their loops.  Both deposit the result of the parser without a test for the null
  pointer; the layer 3 receiver drops a message whose source has neither 4 nor 16 octets.  Their
  queues are private and no method puts anything into them.
\<close>

type_synonym deposit = "(Message option \<times> byte list \<times> IdentifierType) list"

definition ReceiverL3_step ::
  "ulid_lib \<Rightarrow> byte list \<Rightarrow> raw_item list \<times> deposit \<Rightarrow> (raw_item list \<times> deposit) res" where
  "ReceiverL3_step L junk s =
     (case s of
        ([], message_deposit) \<Rightarrow> Inr ([], message_deposit)
      | ((source, bytes) # queue, message_deposit) \<Rightarrow>
          and_then (parse_message_from_bytes L junk bytes True) (\<lambda>message.
            Inr (queue,
              if length source = IPV4_ADDR_LEN then message_deposit @ [(message, source, IPv4)]
              else if length source = IPV6_ADDR_LEN then message_deposit @ [(message, source, IPv6)]
              else message_deposit)))"

definition ReceiverDDS_step ::
  "ulid_lib \<Rightarrow> byte list \<Rightarrow> raw_item list \<times> deposit \<Rightarrow> (raw_item list \<times> deposit) res" where
  "ReceiverDDS_step L junk s =
     (case s of
        ([], message_deposit) \<Rightarrow> Inr ([], message_deposit)
      | ((source, bytes) # queue, message_deposit) \<Rightarrow>
          and_then (parse_message_from_bytes L junk bytes False) (\<lambda>message.
            Inr (queue, message_deposit @ [(message, source, DDS)])))"

lemma idle_receivers:
  "ReceiverL3_step L junk ([], dep) = Inr ([], dep)" "ReceiverDDS_step L junk ([], dep) = Inr ([], dep)"
  by (simp_all add: ReceiverL3_step_def ReceiverDDS_step_def)

text \<open>A truncated message becomes a null pointer in the queue of the dispatcher.\<close>

lemma DDS_deposits_null:
  "length bytes < 17 \<Longrightarrow>
     ReceiverDDS_step L junk ((source, bytes) # queue, dep) = Inr (queue, dep @ [(None, source, DDS)])"
  by (simp add: ReceiverDDS_step_def parse_message_from_bytes_def RANK_HEADER_LEN_def)

section \<open>Interleaving of the simulation receivers\<close>

text \<open>
  The raw receiver and the receiver run in two threads over one queue.  A schedule is the order
  of their rounds: a round of the raw receiver with what the receive function returned, or a round
  of the receiver.
\<close>

datatype receiver_event = Arrival "byte \<times> byte list" | Handling

fun simulation_event ::
  "ulid_lib \<Rightarrow> byte list \<Rightarrow> receiver_event \<Rightarrow> raw_item list \<times> dispatcher \<Rightarrow> (raw_item list \<times> dispatcher) res" where
  "simulation_event L junk (Arrival data) (queue, d) = Inr (RawReceiverSimulation_step data queue, d)"
| "simulation_event L junk Handling s = ReceiverSimulation_step L junk s"

definition arrived :: "receiver_event list \<Rightarrow> raw_item list" where
  "arrived es = concat (map (\<lambda>e. case e of Arrival (p, bs) \<Rightarrow> if p = 255 then [] else [([p], bs)] | _ \<Rightarrow> []) es)"

definition parses :: "ulid_lib \<Rightarrow> byte list \<Rightarrow> raw_item \<Rightarrow> bool" where
  "parses L junk item = (case parse_message_from_bytes L junk (snd item) False of Inl e \<Rightarrow> False | Inr m \<Rightarrow> True)"

text \<open>What becomes of an item of the queue.\<close>

definition deposited :: "ulid_lib \<Rightarrow> byte list \<Rightarrow> raw_item \<Rightarrow> queue_item list" where
  "deposited L junk item =
     (case parse_message_from_bytes L junk (snd item) False of
        Inr (Some m) \<Rightarrow> [(m, fst item, Simulation)]
      | _ \<Rightarrow> [])"

lemma ReceiverSimulation_step_parses:
  assumes "parses L junk item"
  shows "ReceiverSimulation_step L junk (item # queue, d)
    = Inr (queue, d \<lparr> received_messages := received_messages d @ deposited L junk item \<rparr>)"
  using assms
  by (cases item) (auto simp: ReceiverSimulation_step_def parses_def deposited_def enqueue_item_def
      split: sum.splits option.splits)

lemma simulation_receivers_run:
  assumes "list_all (parses L junk) (queue @ arrived es)"
  shows "\<exists>n d'. fold_res (simulation_event L junk) es (queue, d) = Inr (drop n (queue @ arrived es), d')
    \<and> received_messages d' = received_messages d @ concat (map (deposited L junk) (take n (queue @ arrived es)))
    \<and> sending_messages d' = sending_messages d"
  using assms
proof (induction es arbitrary: queue d)
  case Nil
  have "fold_res (simulation_event L junk) [] (queue, d) = Inr (drop 0 (queue @ arrived []), d)"
    by (simp add: arrived_def)
  then show ?case
    by fastforce
next
  case (Cons e es)
  show ?case
  proof (cases e)
    case (Arrival data)
    let ?q = "RawReceiverSimulation_step data queue"
    have "?q @ arrived es = queue @ arrived (e # es)"
      by (cases data) (simp add: Arrival arrived_def RawReceiverSimulation_step_def)
    then show ?thesis
      using Cons.IH [of ?q d] Cons.prems by (simp add: Arrival)
  next
    case Handling
    have rest: "arrived (Handling # es) = arrived es"
      by (simp add: arrived_def)
    show ?thesis
    proof (cases queue)
      case Nil
      then show ?thesis
        using Cons.IH [of "[]" d] Cons.prems by (simp add: Handling rest ReceiverSimulation_step_def)
    next
      case (Cons item q)
      let ?d = "d \<lparr> received_messages := received_messages d @ deposited L junk item \<rparr>"
      obtain n d' where "fold_res (simulation_event L junk) es (q, ?d) = Inr (drop n (q @ arrived es), d')"
        "received_messages d' = received_messages ?d @ concat (map (deposited L junk) (take n (q @ arrived es)))"
        "sending_messages d' = sending_messages d"
        using Cons.IH [of q ?d] Cons.prems Cons by (auto simp: Handling rest)
      then show ?thesis
        using Cons.prems Cons by (intro exI [of _ "Suc n"]) (simp add: Handling rest ReceiverSimulation_step_parses)
    qed
  qed
qed

text \<open>Rounds of the receiver alone empty the queue, when there are enough of them.\<close>

lemma handling_empties:
  assumes "list_all (parses L junk) queue" "length queue \<le> k"
  shows "\<exists>d'. fold_res (simulation_event L junk) (replicate k Handling) (queue, d) = Inr ([], d')"
  using assms
proof (induction k arbitrary: queue d)
  case (Suc k)
  show ?case
  proof (cases queue)
    case Nil
    then show ?thesis
      using Suc.IH [of "[]" d] by (simp add: ReceiverSimulation_step_def)
  next
    case (Cons item q)
    then show ?thesis
      using Suc.IH [of q "d \<lparr> received_messages := received_messages d @ deposited L junk item \<rparr>"] Suc.prems
      by (simp add: ReceiverSimulation_step_parses)
  qed
qed simp

text \<open>An item the parser throws at ends the thread, and with it the run.\<close>

lemma unreadable_ends_receiver:
  assumes "parse_message_from_bytes L junk (snd item) False = Inl e"
  shows "fold_res (simulation_event L junk) (Handling # es) (item # queue, d) = Inl e"
  using assms by (cases item) (simp add: ReceiverSimulation_step_def)

lemma deposited_message:
  assumes "ulid_ok L" "length junk = 16" "message_ok m" "raw_payload L m = Inr bytes"
  shows "parses L junk (source, bytes)"
    and "deposited L junk (source, bytes) = [(message_received junk m, source, Simulation)]"
  using message_trip [OF assms(1,3,2)] assms(4) by (auto simp: parses_def deposited_def)

text \<open>
  C29. Whatever the schedule of the two simulation receivers, well-formed messages are neither
  lost nor duplicated nor overtaken: if what the queue holds and what arrives are the octets of
  well-formed messages, the run returns, the dispatcher has received the first of them, for some
  number, each as the parser restores it and with its source, in the order of arrival, and the
  queue holds exactly the octets of the others.  A schedule that ends with as many rounds of the
  receiver as there are messages delivers them all.  (Octets that make the parser throw end the
  thread of the receiver.)
\<close>

theorem simulation_receivers_keep_order:
  assumes "ulid_ok L" "length junk = 16"
    and "list_all2 (\<lambda>(source, bytes) (s, m). source = s \<and> message_ok m \<and> raw_payload L m = Inr bytes)
       (queue @ arrived es) ms"
  shows "\<exists>n queue' d'. fold_res (simulation_event L junk) es (queue, d) = Inr (queue', d')
    \<and> received_messages d' = received_messages d
        @ map (\<lambda>(s, m). (message_received junk m, s, Simulation)) (take n ms)
    \<and> queue' = drop n (queue @ arrived es)
    \<and> sending_messages d' = sending_messages d
    \<and> (es = es0 @ replicate (length ms) Handling \<longrightarrow> queue' = [] \<and> take n ms = ms)"
proof -
  let ?items = "queue @ arrived es"
  have ok: "list_all (parses L junk) ?items"
    using assms(3)
  proof (induction rule: list_all2_induct)
    case (Cons x xs y ys)
    then show ?case
      using deposited_message(1) [OF assms(1,2)] by (cases x; cases y) auto
  qed simp
  have dep: "concat (map (deposited L junk) xs) = map (\<lambda>(s, m). (message_received junk m, s, Simulation)) ys"
    if "list_all2 (\<lambda>(source, bytes) (s, m). source = s \<and> message_ok m \<and> raw_payload L m = Inr bytes) xs ys" for xs ys
    using that by (induction rule: list_all2_induct) (auto simp: deposited_message(2) [OF assms(1,2)])
  obtain n d' where run: "fold_res (simulation_event L junk) es (queue, d) = Inr (drop n ?items, d')"
    "received_messages d' = received_messages d @ concat (map (deposited L junk) (take n ?items))"
    "sending_messages d' = sending_messages d"
    using simulation_receivers_run [OF ok] by blast
  have len: "length ?items = length ms"
    using assms(3) by (rule list_all2_lengthD)
  have "drop n ?items = []" if es: "es = es0 @ replicate (length ms) Handling"
  proof -
    have "arrived es0 = arrived es"
      by (simp add: es arrived_def)
    then obtain n0 d0 where "fold_res (simulation_event L junk) es0 (queue, d) = Inr (drop n0 ?items, d0)"
      using simulation_receivers_run [of L junk queue es0] ok by metis
    moreover have "list_all (parses L junk) (drop n0 ?items)"
      using ok by (auto simp: list_all_iff dest: in_set_dropD)
    ultimately show ?thesis
      using run(1) handling_empties [of L junk "drop n0 ?items" "length ms" d0] len
      by (auto simp: es fold_res_append)
  qed
  then have all: "es = es0 @ replicate (length ms) Handling \<longrightarrow> drop n ?items = [] \<and> take n ms = ms"
    unfolding drop_eq_Nil len by simp
  have "concat (map (deposited L junk) (take n ?items))
      = map (\<lambda>(s, m). (message_received junk m, s, Simulation)) (take n ms)"
    using list_all2_takeI [OF assms(3)] by (rule dep)
  then show ?thesis
    using run all by (intro exI [of _ n] exI [of _ "drop n ?items"] exI [of _ d']) argo
qed

theorem simulation_receivers_keep_order_witness:
  "\<exists>b c d'. raw_payload ulid_spec (BID_new 9 1) = Inr b \<and> raw_payload ulid_spec (ACC_new 9) = Inr c
    \<and> fold_res (simulation_event ulid_spec (replicate 16 0))
        [Arrival (3, b), Handling, Arrival (255, []), Arrival (4, c), Handling, Handling]
        ([], \<lparr> received_messages = [], sending_messages = [] \<rparr>) = Inr ([], d')
    \<and> received_messages d' = [(BID_new 9 1, [3], Simulation), (ACC_new 9, [4], Simulation)]"
proof -
  have ok: "message_ok (BID_new 9 1)" "message_ok (ACC_new 9)"
    by (simp_all add: BID_new_def ACC_new_def header_ok_def Header_def RANK_HEADER_VERSION_def message_type_of_code_def)
  obtain b c where oct: "raw_payload ulid_spec (BID_new 9 1) = Inr b" "raw_payload ulid_spec (ACC_new 9) = Inr c"
    using message_trip [OF ulid_spec_ok ok(1), of "replicate 16 0"] message_trip [OF ulid_spec_ok ok(2), of "replicate 16 0"]
    by auto
  let ?es0 = "[Arrival (3, b), Handling, Arrival (255, []), Arrival (4, c)]"
  let ?ms = "[([3], BID_new 9 1), ([4], ACC_new 9)]"
  have "arrived (?es0 @ replicate (length ?ms) Handling) = [([3], b), ([4], c)]"
    by (simp add: arrived_def)
  then show ?thesis
    using simulation_receivers_keep_order [OF ulid_spec_ok, of "replicate 16 0" "[]" "?es0 @ replicate (length ?ms) Handling" ?ms
        "\<lparr> received_messages = [], sending_messages = [] \<rparr>" ?es0] ok oct
    by (auto simp: BID_new_def ACC_new_def numeral_2_eq_2 simp del: fold_res.simps)
qed

end
