(* ===== verification/Api_Server.thy ===== *)
theory Api_Server
  imports Threads
begin

text \<open>
  The client interface of the networked build (\<open>structs/dispatchers/api.cpp\<close>): a round of the
  thread that reads requests from the FIFO of the daemon, the message built from a request, and
  the answer to a client.  The octets a round reads, rapidjson's parser, the text of an identifier,
  the process recorded for a request and the outcome of the system calls are arguments.
\<close>

section \<open>Answers to clients\<close>

datatype ApiResult = OK | FAIL

fun api_result_to_string :: "ApiResult \<Rightarrow> string" where
  "api_result_to_string OK = ''Ok''"
| "api_result_to_string FAIL = ''Fail''"

fun api_result_code :: "ApiResult \<Rightarrow> int" where
  "api_result_code OK = 0"
| "api_result_code FAIL = 1"

definition result_document :: "(UUIDv4 \<Rightarrow> string) \<Rightarrow> json \<Rightarrow> ApiResult \<Rightarrow> string \<Rightarrow> UUIDv4 \<Rightarrow> json res" where
  "result_document display document code message uuid =
     and_then (AddMember document ''code'' (JInt (api_result_code code))) (\<lambda>document.
     and_then (AddMember document ''error'' (JString (api_result_to_string code))) (\<lambda>document.
     and_then (AddMember document ''message'' (JString message)) (\<lambda>document.
       AddMember document ''uuid'' (JString (display uuid)))))"

text \<open>
  The FIFO that is written to is named by the process of the request; \<open>None\<close> when nothing is
  written.  \<open>opened\<close> says whether the FIFO could be opened.
\<close>

definition communicate_result ::
  "bool \<Rightarrow> (UUIDv4 \<Rightarrow> string) \<Rightarrow> (UUIDv4 \<Rightarrow> int) \<Rightarrow> (int \<Rightarrow> bool) \<Rightarrow> ApiResult \<Rightarrow> string \<Rightarrow> UUIDv4 \<Rightarrow> (int \<times> json) option res" where
  "communicate_result simulated display get_pid_from opened code message uuid =
     (if simulated then Inr None
      else
        and_then (result_document display JNull code message uuid) (\<lambda>json.
        let pid = get_pid_from uuid in
        Inr (if opened pid then Some (pid, json) else None)))"

text \<open>The client of a networked node is never answered.\<close>

lemma communicate_result_asserts:
  "communicate_result False display get_pid opened code message uuid = Inl AssertionFailed"
  by (simp add: communicate_result_def result_document_def AddMember_def)

text \<open>On a document that was made an object the members would come out in this order.\<close>

lemma result_document_members:
  "result_document display (JObject []) code message uuid = Inr (JObject
     [(''code'', JInt (api_result_code code)), (''error'', JString (api_result_to_string code)),
      (''message'', JString message), (''uuid'', JString (display uuid))])"
  by (simp add: result_document_def AddMember_def)

section \<open>Requests from clients\<close>

text \<open>The identifier of the message is the default of its type, which is zero.\<close>

definition build_message_from_admission_request ::
  "marshal_lib \<Rightarrow> (string \<Rightarrow> json) \<Rightarrow> AdmissionRequest \<Rightarrow> Message res" where
  "build_message_from_admission_request M parse_json admission_request =
     and_then (copy_target (adm_target admission_request)) (\<lambda>listener.
     let payload = serialize_json_as_vector M (parse_json (adm_requirements admission_request)) in
       Inr (EAR_with_header (Header RANK_HEADER_VERSION EAR 0) (adm_priority admission_request)
              (identifier_code (adm_target_type admission_request)) listener
              (word_of_nat (length payload)) payload))"

definition message_listener :: "Message \<Rightarrow> byte list res" where
  "message_listener m = (case m of EAR_msg r \<Rightarrow> EAR_listener r | _ \<Rightarrow> Inl NullDeref)"

text \<open>One round of \<open>API::operator()\<close> on the octets the FIFO yields in it.\<close>

definition API_round ::
  "marshal_lib \<Rightarrow> (string \<Rightarrow> json) \<Rightarrow> (UUIDv4 \<Rightarrow> uint32 \<Rightarrow> 's \<Rightarrow> 's) \<Rightarrow> byte list
     \<Rightarrow> (byte list \<times> byte list) \<times> dispatcher \<times> 's \<Rightarrow> ((byte list \<times> byte list) \<times> dispatcher \<times> 's) res" where
  "API_round M parse_json mark_origin octets s =
     (case s of (buffers, d, p) \<Rightarrow>
        let (tester, bytestream) = api_read octets buffers in
        and_then (deserialize bytestream) (\<lambda>admission_request.
        and_then (build_message_from_admission_request M parse_json admission_request) (\<lambda>ear_message.
        and_then (message_listener ear_message) (\<lambda>listener.
        let d = enqueue_item (ear_message, listener, adm_target_type admission_request) d in
          Inr ((tester, bytestream), d,
               mark_origin (Message_uuid ear_message) (adm_pid admission_request) p)))))"

lemma api_read_extracts_nothing: "snd (api_read octets (tester, [])) = []"
proof (induction octets arbitrary: tester)
  case (Cons b octets)
  then show ?case
    by (auto simp: Let_def found_delimiter_def RANK_FIFO_DELIMITER_def)
qed simp

text \<open>
  No client of a networked node is ever served: whatever octets arrive over the FIFO, the
  round of the reading thread extracts no request from them and then deserialises an empty
  stream, reading past its end.
\<close>

lemma networked_request_is_undefined:
  "API_round M parse_json mark_origin octets (([], []), d, p) = Inl UndefinedBehaviour"
proof -
  have "snd (api_read octets ([], [])) = []"
    by (rule api_read_extracts_nothing)
  then show ?thesis
    by (cases "api_read octets ([], [])")
      (simp add: API_round_def deserialize_def shifted_loop.simps numeral_eq_Suc)
qed

text \<open>Would a request be extracted, two requests would get the same identifier.\<close>

lemma admission_requests_share_identifier:
  "build_message_from_admission_request M parse_json a = Inr m \<Longrightarrow> Message_uuid m = 0"
  by (auto simp: build_message_from_admission_request_def Let_def EAR_with_header_def Message_uuid_def
      Header_def)

text \<open>
  The message of a request with a target of at most 16 octets carries the priority, the
  target and the marshalled requirements of the request.
\<close>

lemma admission_request_message:
  assumes "length (adm_target a) \<le> 16"
  shows "\<exists>r. build_message_from_admission_request M parse_json a = Inr (EAR_msg r)
    \<and> req_priority r = adm_priority a \<and> req_listener_length r = identifier_code (adm_target_type a)
    \<and> take (length (adm_target a)) (req_listener r) = adm_target a \<and> length (req_listener r) = 16
    \<and> req_payload r = serialize_json_as_vector M (parse_json (adm_requirements a))"
  using assms
  by (simp add: build_message_from_admission_request_def copy_target_def RANK_LISTENER_MAX_LEN_def
      EAR_with_header_def Let_def)

end
