(* ===== verification/Shaping.thy ===== *)
theory Shaping
  imports Marshalling Std_Map Dispatcher
begin

text \<open>
  The rules of the time-aware and the credit-based shaper (\<open>internal/rankd-time\<close>:
  \<open>include/standards/ieee.h\<close>, \<open>data-sources/latency/standards.cpp\<close>) and how the readers of the
  queueing disciplines show them (the output half of \<open>data-sources/latency/latency.cpp\<close>).

  rapidjson keeps strings by reference and the members of an object in the allocator of their
  document; both may be gone by the time the document is written.  A document is therefore a tree
  in which a reference to released memory is a value of its own, \<open>Freed\<close>, and writing it reads the
  tree.
\<close>

section \<open>Documents that refer to memory\<close>

datatype rapid =
    RUint nat
  | RBool bool
  | RString string
  | RArray "rapid list"
  | RObject "(string \<times> rapid) list"
  | Freed

fun Accept :: "rapid \<Rightarrow> json res" where
  "Accept (RUint n) = Inr (JInt (int n))"
| "Accept (RBool b) = Inr (JBool b)"
| "Accept (RString s) = Inr (JString s)"
| "Accept (RArray xs) = and_then (map_res Accept xs) (\<lambda>xs. Inr (JArray xs))"
| "Accept (RObject ms) =
     and_then (map_res (\<lambda>m. and_then (Accept (snd m)) (\<lambda>v. Inr (fst m, v))) ms) (\<lambda>ms. Inr (JObject ms))"
| "Accept Freed = Inl Dangling"

text \<open>
  What a value taken out of a document is once the document is destroyed: numbers live in the value
  itself, members and elements in the allocator of the document.
\<close>

fun after_document :: "rapid \<Rightarrow> rapid" where
  "after_document (RArray (x # xs)) = Freed"
| "after_document (RObject (m # ms)) = Freed"
| "after_document v = v"

section \<open>Rules\<close>

type_synonym uint64 = "64 word"

record RationalGrouping =
  numerator :: uint32
  denominator :: uint32

record PTPTimeGrouping =
  seconds :: uint64
  nanoseconds :: uint32

text \<open>An enumeration; a cast of another number to it keeps the number.\<close>

datatype TypeOfOperation = SetGateStates | SetAndHoldMac | SetAndReleaseMac | OtherOperation uint32

definition operation_of_number :: "uint32 \<Rightarrow> TypeOfOperation" where
  "operation_of_number n =
     (if n = 0 then SetGateStates else if n = 1 then SetAndHoldMac else if n = 2 then SetAndReleaseMac
      else OtherOperation n)"

fun type_of_operation_name :: "TypeOfOperation \<Rightarrow> string res" where
  "type_of_operation_name SetGateStates = Inr ''set''"
| "type_of_operation_name SetAndHoldMac = Inr ''set and hold''"
| "type_of_operation_name SetAndReleaseMac = Inr ''set and release''"
| "type_of_operation_name (OtherOperation _) = Inl UndefinedBehaviour"

record SchedGateControlEntriesEntry =
  sg_index :: uint32
  sg_operation_name :: TypeOfOperation
  sg_time_interval_value :: "uint32 option"
  sg_gate_states_value :: byte

record GateParameterTableEntry =
  gp_traffic_class_type :: byte
  gp_queue_max_sdu :: "uint32 option"
  gp_transmission_overrun :: "uint64 option"

record SchedParameters =
  gate_parameter_table :: "GateParameterTableEntry list option"
  gate_enabled :: "bool option"
  admin_gate_states :: "byte option"
  oper_gate_states :: "byte option"
  admin_control_list :: "SchedGateControlEntriesEntry list option"
  oper_control_list :: "SchedGateControlEntriesEntry list option"
  admin_cycle_time :: "RationalGrouping option"
  oper_cycle_time :: "RationalGrouping option"
  admin_cycle_time_extension :: "uint32 option"
  oper_cycle_time_extension :: "uint32 option"
  admin_base_time :: "PTPTimeGrouping option"
  oper_base_time :: "PTPTimeGrouping option"
  config_change :: "bool option"
  config_change_time :: "PTPTimeGrouping option"
  tick_granularity :: "uint32 option"
  currentTime :: "PTPTimeGrouping option"
  config_pending :: "bool option"
  config_change_error :: "uint64 option"
  supported_list_max :: "uint32 option"
  supported_cycle_max :: "RationalGrouping option"
  supported_interval_max :: "uint32 option"

definition SchedParameters_new :: SchedParameters where
  "SchedParameters_new =
     \<lparr> gate_parameter_table = None, gate_enabled = Some False, admin_gate_states = Some 255,
       oper_gate_states = None, admin_control_list = None, oper_control_list = None,
       admin_cycle_time = None, oper_cycle_time = None, admin_cycle_time_extension = None,
       oper_cycle_time_extension = None, admin_base_time = None, oper_base_time = None,
       config_change = None, config_change_time = None, tick_granularity = None, currentTime = None,
       config_pending = None, config_change_error = None, supported_list_max = None,
       supported_cycle_max = None, supported_interval_max = None \<rparr>"

record CBSAParametersTableEntry =
  cb_traffic_class :: byte
  cb_admin_idle_slope :: "uint64 option"
  cb_oper_idle_slope :: "uint64 option"

record CBSAConfig =
  cbsa_parameters :: "CBSAParametersTableEntry list option"

section \<open>Documents of the rules\<close>

text \<open>A member without a value is shown as an empty object.\<close>

definition or_empty :: "('a \<Rightarrow> rapid) \<Rightarrow> 'a option \<Rightarrow> rapid" where
  "or_empty f v = (case v of None \<Rightarrow> RObject [] | Some x \<Rightarrow> f x)"

definition SetUint :: "('a::len) word \<Rightarrow> rapid" where
  "SetUint w = RUint (unat (ucast w :: uint32))"

definition SetUint64 :: "uint64 \<Rightarrow> rapid" where
  "SetUint64 w = RUint (unat w)"

definition gate_parameter_json :: "GateParameterTableEntry \<Rightarrow> rapid" where
  "gate_parameter_json e = RObject
     [(''traffic-class-type'', SetUint (gp_traffic_class_type e)),
      (''queue-max-sdu'', or_empty SetUint (gp_queue_max_sdu e)),
      (''transmission-overrun'', or_empty SetUint (gp_transmission_overrun e))]"

text \<open>
  The name of the operation is a temporary \<open>std::string\<close>, of which the document keeps the address.
\<close>

definition control_entry_json :: "SchedGateControlEntriesEntry \<Rightarrow> rapid res" where
  "control_entry_json e =
     and_then (type_of_operation_name (sg_operation_name e)) (\<lambda>_. Inr (RObject
       [(''index'', SetUint (sg_index e)), (''operation-name'', Freed),
        (''time-interval-value'', or_empty SetUint (sg_time_interval_value e)),
        (''gate-states-value'', SetUint (sg_gate_states_value e))]))"

definition control_list_json :: "SchedGateControlEntriesEntry list option \<Rightarrow> rapid res" where
  "control_list_json entries =
     (case entries of
        None \<Rightarrow> Inr (RObject [])
      | Some es \<Rightarrow> and_then (map_res control_entry_json es) (\<lambda>xs. Inr (RArray xs)))"

definition rational_json :: "RationalGrouping \<Rightarrow> rapid" where
  "rational_json r = RObject [(''numerator'', SetUint (numerator r)), (''denominator'', SetUint (denominator r))]"

definition time_json :: "PTPTimeGrouping \<Rightarrow> rapid" where
  "time_json t = RObject [(''seconds'', SetUint64 (seconds t)), (''nanoseconds'', SetUint (nanoseconds t))]"

definition SchedParameters_json :: "SchedParameters \<Rightarrow> rapid res" where
  "SchedParameters_json p =
     and_then (control_list_json (admin_control_list p)) (\<lambda>admin_list.
     and_then (control_list_json (oper_control_list p)) (\<lambda>oper_list. Inr (RObject
       [(''gate-parameter-table'', or_empty (\<lambda>es. RArray (map gate_parameter_json es)) (gate_parameter_table p)),
        (''gate-enabled'', or_empty RBool (gate_enabled p)),
        (''admin-gate-states'', or_empty SetUint (admin_gate_states p)),
        (''oper-gate-states'', or_empty SetUint (oper_gate_states p)),
        (''admin-control-list'', admin_list),
        (''oper-control-list'', oper_list),
        (''admin-cycle-time'', or_empty rational_json (admin_cycle_time p)),
        (''oper-cycle-time'', or_empty rational_json (oper_cycle_time p)),
        (''admin-cycle-time-extension'', or_empty SetUint (admin_cycle_time_extension p)),
        (''oper-cycle-time-extension'', or_empty SetUint (oper_cycle_time_extension p)),
        (''admin-base-time'', or_empty time_json (admin_base_time p)),
        (''oper-base-time'', or_empty time_json (oper_base_time p)),
        (''config-changed'', or_empty RBool (config_change p)),
        (''config-change-time'', or_empty time_json (config_change_time p)),
        (''tick-granularity'', or_empty SetUint (tick_granularity p)),
        (''current-time'', or_empty time_json (currentTime p)),
        (''config-pending'', or_empty (\<lambda>b. RUint (of_bool b)) (config_pending p)),
        (''config-change-error'', or_empty SetUint64 (config_change_error p)),
        (''supported-list-max'', or_empty SetUint (supported_list_max p)),
        (''supported_cycle_max'', or_empty rational_json (supported_cycle_max p)),
        (''supported-interval-max'', or_empty SetUint (supported_interval_max p))])))"

definition slope_json :: "CBSAParametersTableEntry \<Rightarrow> rapid" where
  "slope_json e = RObject
     [(''traffic-class'', SetUint (cb_traffic_class e)),
      (''admin-idle-slope'', or_empty SetUint64 (cb_admin_idle_slope e)),
      (''oper-idle-slope'', or_empty SetUint64 (cb_oper_idle_slope e))]"

definition CBSAConfig_json :: "CBSAConfig \<Rightarrow> rapid" where
  "CBSAConfig_json c =
     (case cbsa_parameters c of
        None \<Rightarrow> RObject []
      | Some es \<Rightarrow> RObject [(''parameters'', RArray (map slope_json es))])"

section \<open>The source of rules and its document\<close>

text \<open>The rules by interface, as pointers that may be null.\<close>

record Latency =
  lat_tas :: "(byte, SchedParameters option) std_map"
  lat_cbs :: "(byte, CBSAConfig option) std_map"
  lat_json_formatted_output :: bool
  lat_output_type :: byte

abbreviation (input) "OUTPUT_LATENCY_TYPE_CBS \<equiv> 1 :: byte"
abbreviation (input) "OUTPUT_LATENCY_TYPE_TAS \<equiv> 2 :: byte"
abbreviation (input) "OUTPUT_LATENCY_TYPE_CQF \<equiv> 4 :: byte"
abbreviation (input) "OUTPUT_LATENCY_TYPE_ATS \<equiv> 8 :: byte"

text \<open>The constants are combined with \<open>||\<close>, the logical operator.\<close>

definition OUTPUT_LATENCY_TYPE_ALL :: byte where
  "OUTPUT_LATENCY_TYPE_ALL =
     of_bool (OUTPUT_LATENCY_TYPE_CBS \<noteq> 0 \<or> OUTPUT_LATENCY_TYPE_TAS \<noteq> 0
       \<or> OUTPUT_LATENCY_TYPE_CQF \<noteq> 0 \<or> OUTPUT_LATENCY_TYPE_ATS \<noteq> 0)"

definition Latency_enable_json_output :: "Latency \<Rightarrow> Latency" where
  "Latency_enable_json_output l = l \<lparr> lat_json_formatted_output := True \<rparr>"

definition Latency_disable_json_output :: "Latency \<Rightarrow> Latency" where
  "Latency_disable_json_output l = l \<lparr> lat_json_formatted_output := False \<rparr>"

definition Latency_set_output :: "byte \<Rightarrow> Latency \<Rightarrow> Latency" where
  "Latency_set_output type l = l \<lparr> lat_output_type := type \<rparr>"

definition bit_count :: "byte \<Rightarrow> nat" where
  "bit_count w = length (filter (bit w) [0..<8])"

text \<open>
  A rule is moved out of the document that \<open>json()\<close> of the rule returns, a temporary that is
  destroyed at the end of the statement.
\<close>

definition rule_entry :: "byte \<Rightarrow> rapid \<Rightarrow> rapid" where
  "rule_entry index rule = RObject [(''index'', SetUint index), (''rule'', after_document rule)]"

fun rule_entries :: "('a \<Rightarrow> rapid res) \<Rightarrow> (byte \<times> 'a option) list \<Rightarrow> rapid list res" where
  "rule_entries json [] = Inr []"
| "rule_entries json ((index, None) # rules) = rule_entries json rules"
| "rule_entries json ((index, Some rule) # rules) =
     and_then (json rule) (\<lambda>v. and_then (rule_entries json rules) (\<lambda>vs. Inr (rule_entry index v # vs)))"

definition Latency_json :: "Latency \<Rightarrow> rapid res" where
  "Latency_json l =
     (if 1 < bit_count (lat_output_type l) then Inr (RObject [])
      else if lat_output_type l = OUTPUT_LATENCY_TYPE_CBS then
        and_then (rule_entries (\<lambda>c. Inr (CBSAConfig_json c)) (lat_cbs l)) (\<lambda>es. Inr (RObject [(''cbs-rules'', RArray es)]))
      else if lat_output_type l = OUTPUT_LATENCY_TYPE_TAS then
        and_then (rule_entries SchedParameters_json (lat_tas l)) (\<lambda>es. Inr (RObject [(''tas-rules'', RArray es)]))
      else Inr (RObject []))"

section \<open>Text\<close>

text \<open>A value of type \<open>uint8_t\<close> is written to a stream as a character.\<close>

definition line :: "nat \<Rightarrow> string \<Rightarrow> string" where
  "line depth content = concat (replicate depth ''  '') @ content @ [CHR 0x0A]"

definition octet_text :: "byte \<Rightarrow> string" where
  "octet_text b = [char_of_byte b]"

definition number_text :: "('a::len) word \<Rightarrow> string" where
  "number_text w = decimal (unat w)"

definition bool_text :: "bool \<Rightarrow> string" where
  "bool_text b = (if b then ''true'' else ''false'')"

definition time_text :: "PTPTimeGrouping \<Rightarrow> string" where
  "time_text t = number_text (seconds t) @ ''s, '' @ number_text (nanoseconds t) @ ''ns''"

text \<open>Integer division.\<close>

definition ratio_text :: "RationalGrouping \<Rightarrow> string res" where
  "ratio_text r =
     (if denominator r = 0 then Inl UndefinedBehaviour else Inr (number_text (numerator r div denominator r)))"

definition optional_line_res :: "nat \<Rightarrow> string \<Rightarrow> ('a \<Rightarrow> string res) \<Rightarrow> 'a option \<Rightarrow> string res" where
  "optional_line_res depth label f v =
     (case v of
        None \<Rightarrow> Inr (line depth (label @ ''undefined''))
      | Some x \<Rightarrow> and_then (f x) (\<lambda>s. Inr (line depth (label @ s))))"

definition optional_line :: "nat \<Rightarrow> string \<Rightarrow> ('a \<Rightarrow> string) \<Rightarrow> 'a option \<Rightarrow> string res" where
  "optional_line depth label f = optional_line_res depth label (\<lambda>x. Inr (f x))"

definition parts :: "string res list \<Rightarrow> string res" where
  "parts xs = and_then (map_res id xs) (\<lambda>xs. Inr (concat xs))"

definition or_undefined :: "('a \<Rightarrow> string res) \<Rightarrow> 'a list option \<Rightarrow> string res" where
  "or_undefined f entries =
     (case entries of None \<Rightarrow> Inr (line 4 ''undefined'') | Some es \<Rightarrow> parts (map f es))"

definition gate_parameter_lines :: "GateParameterTableEntry \<Rightarrow> string res" where
  "gate_parameter_lines e = parts
     [Inr (line 4 (''Traffic class type: '' @ octet_text (gp_traffic_class_type e))),
      optional_line 4 ''Queue SDU max: '' number_text (gp_queue_max_sdu e),
      optional_line 4 ''Transmission overrun: '' number_text (gp_transmission_overrun e)]"

definition control_entry_lines :: "SchedGateControlEntriesEntry \<Rightarrow> string res" where
  "control_entry_lines e = parts
     [Inr (line 4 (''Index: '' @ number_text (sg_index e))),
      and_then (type_of_operation_name (sg_operation_name e)) (\<lambda>name. Inr (line 4 (''Operation name: '' @ name))),
      optional_line 4 ''Time interval value: '' number_text (sg_time_interval_value e),
      Inr (line 4 (''Gate states value: '' @ octet_text (sg_gate_states_value e)))]"

definition schedule_lines :: "SchedParameters \<Rightarrow> string res" where
  "schedule_lines p = parts
     [Inr (line 2 ''Schedule parameters:''),
      Inr (line 3 ''Gate parameter table: ''),
      or_undefined gate_parameter_lines (gate_parameter_table p),
      optional_line 3 ''Gate enabled: '' bool_text (gate_enabled p),
      optional_line 3 ''Admin gate states: '' octet_text (admin_gate_states p),
      optional_line 3 ''Oper gate states: '' octet_text (oper_gate_states p),
      Inr (line 3 ''Admin control list: ''),
      or_undefined control_entry_lines (admin_control_list p),
      Inr (line 3 ''Admin control list: ''),
      or_undefined control_entry_lines (oper_control_list p),
      optional_line_res 3 ''Admin cycle time: '' ratio_text (admin_cycle_time p),
      optional_line_res 3 ''Oper cycle time: '' ratio_text (oper_cycle_time p),
      optional_line 3 ''Admin cycle time extension: '' number_text (admin_cycle_time_extension p),
      optional_line 3 ''Oper cycle time extension: '' number_text (oper_cycle_time_extension p),
      optional_line 3 ''Admin base time: '' time_text (admin_base_time p),
      optional_line 3 ''Oper base time: '' time_text (oper_base_time p),
      optional_line 3 ''Config change: '' bool_text (config_change p),
      optional_line 3 ''Config change time: '' time_text (config_change_time p),
      optional_line 3 ''Tick granularity: '' number_text (tick_granularity p),
      optional_line 3 ''Current time: '' time_text (currentTime p),
      optional_line 3 ''Config pending: '' bool_text (config_pending p),
      optional_line 3 ''Config change error: '' number_text (config_change_error p),
      optional_line 3 ''Supported list max: '' number_text (supported_list_max p),
      optional_line_res 3 ''Supported cycle max: '' ratio_text (supported_cycle_max p),
      optional_line 3 ''Supported interval max: '' number_text (supported_interval_max p)]"

definition rule_lines :: "('a \<Rightarrow> string res) \<Rightarrow> byte \<times> 'a option \<Rightarrow> string res" where
  "rule_lines f entry = parts
     [Inr (line 1 (''Rule '' @ octet_text (fst entry) @ '':'')),
      (case snd entry of None \<Rightarrow> Inr (line 2 ''inaccessible'') | Some rule \<Rightarrow> f rule)]"

definition rules_text :: "string \<Rightarrow> ('a \<Rightarrow> string res) \<Rightarrow> (byte \<times> 'a option) list \<Rightarrow> string res" where
  "rules_text title f rules = parts
     [Inr (line 0 title),
      (if rules = [] then Inr (line 1 ''No rules found on system.'') else parts (map (rule_lines f) rules)),
      Inr [CHR 0x0A]]"

definition print_latency_tas :: "Latency \<Rightarrow> string res" where
  "print_latency_tas l = rules_text ''Time-aware shaper (TAS) rules:'' schedule_lines (lat_tas l)"

definition slope_lines :: "CBSAParametersTableEntry \<Rightarrow> string res" where
  "slope_lines e = parts
     [Inr (line 3 (''Traffic class: '' @ octet_text (cb_traffic_class e))),
      optional_line 3 ''Admin idle slope: '' number_text (cb_admin_idle_slope e),
      optional_line 3 ''Operation idle slope: '' number_text (cb_oper_idle_slope e)]"

definition config_lines :: "CBSAConfig \<Rightarrow> string res" where
  "config_lines c =
     (case cbsa_parameters c of
        None \<Rightarrow> Inr (line 2 ''inaccessible'')
      | Some es \<Rightarrow> parts (Inr (line 2 ''Parameters:'') # map slope_lines es))"

definition print_latency_cbs :: "Latency \<Rightarrow> string res" where
  "print_latency_cbs l = rules_text ''Credit-based shaper (CBS) rules:'' config_lines (lat_cbs l)"

definition Latency_print :: "(json \<Rightarrow> string) \<Rightarrow> Latency \<Rightarrow> string res" where
  "Latency_print writer l =
     (if lat_json_formatted_output l then
        and_then (Latency_json l) (\<lambda>document. and_then (Accept document) (\<lambda>v. Inr (writer v)))
      else parts
        [(if and (lat_output_type l) OUTPUT_LATENCY_TYPE_CBS \<noteq> 0 then print_latency_cbs l else Inr ''''),
         (if and (lat_output_type l) OUTPUT_LATENCY_TYPE_TAS \<noteq> 0 then print_latency_tas l else Inr '''')])"

section \<open>What the output shows\<close>

text \<open>
  The document can be written exactly if no member of it refers to released memory: rules of the
  time-aware shaper always do, those of the credit-based shaper whenever they have parameters.
\<close>

lemma SchedParameters_json_freed: "SchedParameters_json p = Inr v \<Longrightarrow> after_document v = Freed"
  by (auto simp: SchedParameters_json_def)

lemma CBSAConfig_json_freed: "after_document (CBSAConfig_json c) = (if cbsa_parameters c = None then RObject [] else Freed)"
  by (simp add: CBSAConfig_json_def split: option.split)

lemma Accept_rule_entry:
  "Accept (rule_entry i v) =
     and_then (Accept (after_document v)) (\<lambda>j. Inr (JObject [(''index'', JInt (int (unat i))), (''rule'', j)]))"
proof -
  have "unat (ucast i :: uint32) = unat i"
    by (simp add: unsigned_ucast_eq take_bit_nat_eq_self unsigned_less [THEN less_trans])
  then show ?thesis
    by (cases "Accept (after_document v)") (simp_all add: rule_entry_def SetUint_def)
qed

lemma Accept_rules_freed:
  assumes "rule_entries json rules = Inr es" "\<And>r v. json r = Inr v \<Longrightarrow> after_document v = Freed"
  shows "map_res Accept es = (if list_all (\<lambda>r. snd r = None) rules then Inr [] else Inl Dangling)"
  using assms(1)
proof (induction rules arbitrary: es)
  case (Cons entry rules)
  obtain i rule where "entry = (i, rule)"
    by (cases entry)
  with Cons assms(2) show ?case
    by (cases rule) (auto simp: Accept_rule_entry)
qed simp

lemma latency_document_of_tas:
  assumes "lat_output_type l = OUTPUT_LATENCY_TYPE_TAS" "Latency_json l = Inr document"
  shows "Accept document =
    (if list_all (\<lambda>r. snd r = None) (lat_tas l) then Inr (JObject [(''tas-rules'', JArray [])]) else Inl Dangling)"
proof -
  have "bit_count 2 = 1"
    by (simp add: bit_count_def upt_rec)
  with assms obtain es where "rule_entries SchedParameters_json (lat_tas l) = Inr es"
    and "document = RObject [(''tas-rules'', RArray es)]"
    by (auto simp: Latency_json_def)
  then show ?thesis
    using Accept_rules_freed [of SchedParameters_json "lat_tas l" es, OF _ SchedParameters_json_freed] by simp
qed

end
