(* ===== verification/Netlink_Walk.thy ===== *)
theory Netlink_Walk
  imports Neighbouring Dispatcher
begin

text \<open>
  What the readers of the network state share (\<open>internal/rankd-net\<close>): the loop over the
  attributes of a netlink message, the loop over the messages of a response, both with the body of
  the loop as an argument, and the texts of addresses (\<open>utils/addresses.cpp\<close>).  Both loops end
  for every buffer, and on a buffer that holds messages as the kernel writes them they fold the
  body over the attributes and over the messages.
\<close>

section \<open>Texts of addresses\<close>

text \<open>
  \<open>inet_ntop\<close> is an argument, a text for four or for sixteen octets; for any other family it
  fails and the text is read from an uninitialised array.
\<close>

definition mac_to_string :: "byte list \<Rightarrow> nat \<Rightarrow> string res" where
  "mac_to_string buffer mac =
     and_then (load_octets buffer mac 6) (\<lambda>octets. Inr (colon_separated (map hex_byte octets)))"

definition ip_to_string :: "(byte list \<Rightarrow> string) \<Rightarrow> byte list \<Rightarrow> nat \<Rightarrow> nat \<Rightarrow> string res" where
  "ip_to_string inet_ntop buffer family addr =
     (if family = AF_INET then and_then (load_octets buffer addr 4) (\<lambda>a. Inr (inet_ntop a))
      else if family = AF_INET6 then and_then (load_octets buffer addr 16) (\<lambda>a. Inr (inet_ntop a))
      else Inl UndefinedBehaviour)"

text \<open>The library has its own copy of \<open>parse_rtattr\<close>, word for word the one of the search for connections.\<close>

definition net_parse_rtattr :: "byte list \<Rightarrow> nat \<Rightarrow> nat \<Rightarrow> int \<Rightarrow> nat option list run" where
  [simp]: "net_parse_rtattr = parse_rtattr"

text \<open>\<open>SIOCGIFNAME\<close> names the interface of an index, unless the socket or the request fails.\<close>

definition get_interface_name :: "(int \<Rightarrow> string option) \<Rightarrow> int \<Rightarrow> string" where
  "get_interface_name SIOCGIFNAME index = (case SIOCGIFNAME index of None \<Rightarrow> '''' | Some name \<Rightarrow> name)"

text \<open>The octets behind a pointer up to the terminating zero.\<close>

definition c_string :: "byte list \<Rightarrow> nat \<Rightarrow> string res" where
  "c_string buffer p =
     (let octets = drop p buffer in
      if 0 \<in> set octets then Inr (map char_of_byte (takeWhile (\<lambda>b. b \<noteq> 0) octets)) else Inl UndefinedBehaviour)"

definition load_int :: "byte list \<Rightarrow> nat \<Rightarrow> int res" where
  "load_int buffer p = and_then (load32 buffer p) (\<lambda>n. Inr (sint (word_of_nat n :: uint32)))"

definition RTA_PAYLOAD :: "byte list \<Rightarrow> nat \<Rightarrow> int res" where
  "RTA_PAYLOAD buffer rta = and_then (load16 buffer rta) (\<lambda>n. Inr (int n - int sizeof_rtattr))"

text \<open>Reading an uninitialised member is undefined.\<close>

definition initialised :: "'a option \<Rightarrow> 'a res" where
  "initialised v = (case v of None \<Rightarrow> Inl UndefinedBehaviour | Some x \<Rightarrow> Inr x)"

subsection \<open>Hardware addresses are told apart by their texts\<close>

lemma hex_digit_inj: "m < 16 \<Longrightarrow> n < 16 \<Longrightarrow> hex_digit m = hex_digit n \<Longrightarrow> m = n"
  by (auto simp: hex_digit_def split: if_split_asm)

lemma hex_byte_inj: "hex_byte a = hex_byte b \<longleftrightarrow> a = b"
proof
  assume "hex_byte a = hex_byte b"
  moreover have "unat a < 16 * 16" "unat b < 16 * 16"
    using unsigned_less [of a] unsigned_less [of b] by simp_all
  ultimately have "unat a div 16 = unat b div 16" "unat a mod 16 = unat b mod 16"
    by (auto simp: hex_byte_def less_mult_imp_div_less intro: hex_digit_inj)
  then have "unat a = unat b"
    by (metis mult_div_mod_eq)
  then show "a = b"
    by (simp add: unsigned_word_eqI)
qed simp

lemma length_hex_byte [simp]: "length (hex_byte b) = 2"
  by (simp add: hex_byte_def)

lemma colon_separated_Cons:
  "xs \<noteq> [] \<Longrightarrow> colon_separated (x # xs) = x @ '':'' @ colon_separated xs"
  by (cases xs) simp_all

lemma mac_text_inj:
  "length a = length b \<Longrightarrow> colon_separated (map hex_byte a) = colon_separated (map hex_byte b) \<longleftrightarrow> a = b"
proof (induction a b rule: list_induct2)
  case (Cons x xs y ys)
  show ?case
  proof (cases "xs = []")
    case True
    then show ?thesis
      using Cons.hyps by (simp add: hex_byte_inj)
  next
    case False
    moreover from this have "ys \<noteq> []"
      using Cons.hyps by auto
    ultimately show ?thesis
      using Cons.IH by (simp add: colon_separated_Cons append_eq_append_conv hex_byte_inj)
  qed
qed simp

section \<open>Walking over attributes\<close>

text \<open>
  \<open>handle type attribute x\<close> is the body of the loop for an attribute of the type at an offset.
\<close>

definition attribute_round ::
  "byte list \<Rightarrow> (nat \<Rightarrow> nat \<Rightarrow> 'a \<Rightarrow> 'a res) \<Rightarrow> nat \<times> int \<times> 'a \<Rightarrow> (nat \<times> int \<times> 'a) option res" where
  "attribute_round buffer handle s =
     (case s of (attribute, attribute_length, x) \<Rightarrow>
        and_then (RTA_OK buffer attribute attribute_length) (\<lambda>ok.
          if \<not> ok then Inr None
          else
            and_then (load16 buffer (attribute + 2)) (\<lambda>rta_type.
            and_then (handle rta_type attribute x) (\<lambda>x.
            and_then (load16 buffer attribute) (\<lambda>rta_len.
              Inr (Some (attribute + align4 rta_len, attribute_length - int (align4 rta_len), x)))))))"

definition attribute_walk ::
  "byte list \<Rightarrow> (nat \<Rightarrow> nat \<Rightarrow> 'a \<Rightarrow> 'a res) \<Rightarrow> nat \<Rightarrow> int \<Rightarrow> 'a \<Rightarrow> 'a run" where
  "attribute_walk buffer handle attribute attribute_length x =
     run_then (iterate (\<lambda>s. Some (attribute_round buffer handle s)) (attribute, attribute_length, x))
       (\<lambda>(_, _, x). Some (Inr x))"

interpretation attribute_loop: bounded_loop
  "\<lambda>s. Some (attribute_round b f s)" "\<lambda>_. True" "\<lambda>(p, len, x). nat len" for b f
  by unfold_locales (auto simp: attribute_round_def RTA_OK_True walk_advances split: if_split_asm)

lemma attribute_walk_terminates [simp]: "attribute_walk b f p len x \<noteq> None"
  using attribute_loop.terminates [of b f "(p, len, x)"] by (auto simp: attribute_walk_def)

text \<open>
  On attributes as the kernel writes them the loop is a fold, up to what follows them.  The body
  may rely on the length and the data of its attribute.
\<close>

definition attribute_at :: "byte list \<Rightarrow> nat \<Rightarrow> nat \<times> byte list \<Rightarrow> bool" where
  "attribute_at b p a \<longleftrightarrow>
     load16 b p = Inr (4 + length (snd a)) \<and> load16 b (p + 2) = Inr (fst a)
     \<and> load_octets b (p + 4) (length (snd a)) = Inr (snd a) \<and> take (length (snd a)) (drop (p + 4) b) = snd a"

lemma attribute_at_app:
  assumes "rtattr_fits a" "b = pre @ rtattr_octets a @ post"
  shows "attribute_at b (length pre) a"
  using load_attribute [OF assms] assms(2)
  by (simp add: attribute_at_def rtattr_octets_def le16_def Let_def)

text \<open>Any round that moves on by one attribute.\<close>

lemma attributes_fold:
  assumes "list_all rtattr_fits as" "b = pre @ concat (map rtattr_octets as) @ post" "0 \<le> extra"
    and step: "\<And>a p len x. a \<in> set as \<Longrightarrow> attribute_at b p a \<Longrightarrow> int (4 + length (snd a)) \<le> len \<Longrightarrow>
      rnd (p, len, x) = Some (Inr (Some (p + align4 (4 + length (snd a)), len - int (align4 (4 + length (snd a))), g a x)))"
  shows "iterate rnd (length pre, int (length (concat (map rtattr_octets as))) + extra, x)
       = iterate rnd (length (pre @ concat (map rtattr_octets as)), extra, fold g as x)"
  using assms
proof (induction as arbitrary: pre x)
  case (Cons a as)
  let ?rest = "concat (map rtattr_octets as)"
  have b: "b = pre @ rtattr_octets a @ ?rest @ post" and fits: "rtattr_fits a"
    using Cons.prems(1,2) by simp_all
  have room: "int (4 + length (snd a)) \<le> int (length (rtattr_octets a)) + (int (length ?rest) + extra)"
    using align4_ge [of "4 + length (snd a)"] Cons.prems(3) unfolding rtattr_octets_length by linarith
  have "rnd (length pre, int (length (rtattr_octets a)) + (int (length ?rest) + extra), x)
      = Some (Inr (Some (length (pre @ rtattr_octets a), int (length ?rest) + extra, g a x)))"
    using Cons.prems(4) [OF _ attribute_at_app [OF fits b] room] by simp
  then show ?case
    using Cons.IH [of "pre @ rtattr_octets a" "g a x"] Cons.prems by (simp add: add.assoc)
qed simp

lemma attribute_walk_folds:
  assumes "list_all rtattr_fits as" "b = pre @ concat (map rtattr_octets as) @ post" "0 \<le> extra"
    and body: "\<And>a p x. a \<in> set as \<Longrightarrow> attribute_at b p a \<Longrightarrow> f (fst a) p x = Inr (g a x)"
  shows "iterate (\<lambda>s. Some (attribute_round b f s))
           (length pre, int (length (concat (map rtattr_octets as))) + extra, x)
       = iterate (\<lambda>s. Some (attribute_round b f s))
           (length (pre @ concat (map rtattr_octets as)), extra, fold g as x)"
  by (rule attributes_fold [OF assms(1-3)])
    (use body in \<open>auto simp: attribute_round_def RTA_OK_def attribute_at_def\<close>)

text \<open>What the body keeps, the walk keeps.\<close>

interpretation attribute_inv: bounded_loop
  "\<lambda>s. Some (attribute_round b f s)"
  "\<lambda>(p, len, x). keep x \<and> (\<forall>t p x x'. keep x \<longrightarrow> f t p x = Inr x' \<longrightarrow> keep x')" "\<lambda>(p, len, x). nat len" for b f keep
  by unfold_locales (auto simp: attribute_round_def RTA_OK_True walk_advances split: if_split_asm)

lemma attribute_walk_keeps:
  assumes "attribute_walk b f p len x = Some (Inr y)" "keep x" "\<And>t p x x'. keep x \<Longrightarrow> f t p x = Inr x' \<Longrightarrow> keep x'"
  shows "keep y"
proof -
  obtain q l where "iterate (\<lambda>s. Some (attribute_round b f s)) (p, len, x) = Some (Inr (q, l, y))"
    using assms(1) by (auto simp: attribute_walk_def)
  then show ?thesis
    using attribute_inv.returns [of keep f "(p, len, x)" b "(q, l, y)"] assms(2,3) by auto
qed

text \<open>The loop ends where the room left is less than a header or than the length read there.\<close>

lemma attribute_walk_is_fold:
  assumes "list_all rtattr_fits as" "b = pre @ concat (map rtattr_octets as) @ post" "0 \<le> extra"
    and "RTA_OK b (length (pre @ concat (map rtattr_octets as))) extra = Inr False"
    and "\<And>a p x. a \<in> set as \<Longrightarrow> attribute_at b p a \<Longrightarrow> f (fst a) p x = Inr (g a x)"
  shows "attribute_walk b f (length pre) (int (length (concat (map rtattr_octets as))) + extra) x
    = Some (Inr (fold g as x))"
proof -
  have "attribute_round b f (length (pre @ concat (map rtattr_octets as)), extra, fold g as x) = Inr None"
    using assms(4) by (simp add: attribute_round_def)
  then show ?thesis
    using attribute_walk_folds [where f = f and g = g, OF assms(1-3,5)] by (simp add: attribute_walk_def)
qed

section \<open>Walking over messages\<close>

text \<open>
  \<open>handle response nlmsg_len x\<close> is the body for the message at an offset; its flag says that the
  body leaves the loop.
\<close>

type_synonym 'a walk_state = "nat \<times> int \<times> 'a \<times> bool"

definition message_round ::
  "byte list \<Rightarrow> (nat \<Rightarrow> nat \<Rightarrow> 'a \<Rightarrow> ('a \<times> bool) run) \<Rightarrow> 'a walk_state \<Rightarrow> 'a walk_state option run" where
  "message_round buffer handle s =
     (case s of (response, received_bytes, x, left_loop) \<Rightarrow>
        if left_loop then Some (Inr None)
        else
          run_then (Some (NLMSG_OK buffer response received_bytes)) (\<lambda>ok.
            if \<not> ok then Some (Inr None)
            else
              run_then (Some (load32 buffer response)) (\<lambda>nlmsg_len.
              run_then (handle response nlmsg_len x) (\<lambda>(x, left_loop).
                Some (Inr (Some (response + align4 nlmsg_len, received_bytes - int (align4 nlmsg_len), x, left_loop)))))))"

definition message_walk ::
  "byte list \<Rightarrow> (nat \<Rightarrow> nat \<Rightarrow> 'a \<Rightarrow> ('a \<times> bool) run) \<Rightarrow> int \<Rightarrow> 'a \<Rightarrow> ('a \<times> bool) run" where
  "message_walk buffer handle received_bytes x =
     run_then (iterate (message_round buffer handle) (0, received_bytes, x, False))
       (\<lambda>(_, _, x, left_loop). Some (Inr (x, left_loop)))"

interpretation message_loop: bounded_loop
  "message_round b f" "\<lambda>_. \<forall>p n x. f p n x \<noteq> None" "\<lambda>(p, len, x, l). nat len" for b f
  by unfold_locales (auto simp: message_round_def NLMSG_OK_True walk_advances split: if_split_asm)

lemma message_walk_terminates:
  assumes "\<And>p n x. f p n x \<noteq> None"
  shows "message_walk b f len x \<noteq> None"
  using message_loop.terminates [of f b "(0, len, x, False)"] assms by (auto simp: message_walk_def)

text \<open>What the body keeps of its state, the walk keeps.\<close>

interpretation message_inv: bounded_loop
  "message_round b f"
  "\<lambda>(p, len, x, l). keep x \<and> (\<forall>p n x. f p n x \<noteq> None) \<and> (\<forall>p n x x' l. keep x \<longrightarrow> f p n x = Some (Inr (x', l)) \<longrightarrow> keep x')"
  "\<lambda>(p, len, x, l). nat len" for b f keep
  by unfold_locales (auto simp: message_round_def NLMSG_OK_True walk_advances split: if_split_asm, blast)

lemma message_walk_keeps:
  assumes "message_walk b f len x = Some (Inr (y, l))" "keep x" "\<And>p n x. f p n x \<noteq> None"
    and "\<And>p n x x' l. keep x \<Longrightarrow> f p n x = Some (Inr (x', l)) \<Longrightarrow> keep x'"
  shows "keep y"
proof -
  obtain q m where "iterate (message_round b f) (0, len, x, False) = Some (Inr (q, m, y, l))"
    using assms(1) by (auto simp: message_walk_def)
  then show ?thesis
    using message_inv.returns [of keep f "(0, len, x, False)" b "(q, m, y, l)"] assms(2-4) by auto
qed

text \<open>
  A message as the kernel writes it: its length first, and its size a multiple of four.  The
  responses are read into 8192 octets, so that a length takes no more than two of its four octets.
\<close>

definition framed :: "byte list \<Rightarrow> bool" where
  "framed m \<longleftrightarrow>
     16 \<le> length m \<and> length m mod 4 = 0 \<and> length m < 2 ^ 16 \<and> take 4 m = le16 (length m) @ [0, 0]"

lemma align4_id [simp]: "n mod 4 = 0 \<Longrightarrow> align4 n = n"
  unfolding align4_def by presburger

lemma align4_mod [simp]: "align4 n mod 4 = 0"
  by (simp add: align4_def)

lemma length_attributes_mod: "length (concat (map rtattr_octets as)) mod 4 = 0"
  by (induction as) (simp_all add: mod_add_eq [symmetric])

lemma load16_at: "n < 2 ^ 16 \<Longrightarrow> b = pre @ le16 n @ post \<Longrightarrow> p = length pre \<Longrightarrow> load16 b p = Inr n"
  using load16_le16 by simp

lemma load32_at:
  assumes "n < 2 ^ 32" "b = pre @ le16 (n mod 65536) @ le16 (n div 65536) @ post" "p = length pre"
  shows "load32 b p = Inr n"
proof -
  have "load16 b p = Inr (n mod 65536)"
    by (rule load16_at [OF _ assms(2,3)]) simp
  moreover have "load16 b (p + 2) = Inr (n div 65536)"
    by (rule load16_at [of _ _ "pre @ le16 (n mod 65536)" post]) (use assms in simp_all)
  ultimately show ?thesis
    by (simp add: load32_def)
qed

lemma load_at: "b = pre @ x # post \<Longrightarrow> p = length pre \<Longrightarrow> load b p = Inr x"
  by simp

lemma load_octets_at: "b = pre @ d @ post \<Longrightarrow> p = length pre \<Longrightarrow> n = length d \<Longrightarrow> load_octets b p n = Inr d"
  using load_octets_app by simp

text \<open>Reading inside octets that lie in the buffer is reading the octets.\<close>

lemma load_within:
  assumes "take (length d) (drop p b) = d" "i < length d"
  shows "load b (p + i) = load d i"
proof -
  have "length d \<le> length b - p"
    using arg_cong [OF assms(1), of length] by simp
  moreover have "d ! i = b ! (p + i)"
    using assms by (metis add.commute nth_drop nth_take less_imp_le_nat drop_all length_drop less_nat_zero_code linorder_not_le take_eq_Nil2 list.size(3))
  ultimately show ?thesis
    using assms(2) by (simp add: load_def)
qed

lemma load16_within: "take (length d) (drop p b) = d \<Longrightarrow> i + 2 \<le> length d \<Longrightarrow> load16 b (p + i) = load16 d i"
  using load_within [of d p b i] load_within [of d p b "i + 1"] by (simp add: load16_def)

lemma load32_within: "take (length d) (drop p b) = d \<Longrightarrow> i + 4 \<le> length d \<Longrightarrow> load32 b (p + i) = load32 d i"
  using load16_within [of d p b i] load16_within [of d p b "i + 2"] by (simp add: load32_def)

lemma load_octets_within:
  "take (length d) (drop p b) = d \<Longrightarrow> i + n \<le> length d \<Longrightarrow> load_octets b (p + i) n = load_octets d i n"
proof (induction n arbitrary: i)
  case (Suc n)
  then show ?case
    using load_within [of d p b i] Suc.IH [of "Suc i"] by simp
qed simp

lemma c_string_within:
  assumes "take (length d) (drop p b) = d" "0 \<in> set d"
  shows "c_string b p = Inr (map char_of_byte (takeWhile (\<lambda>x. x \<noteq> 0) d))"
proof -
  have "drop p b = d @ drop (length d) (drop p b)"
    using assms(1) append_take_drop_id [of "length d" "drop p b"] by simp
  then obtain rest where "drop p b = d @ rest"
    by blast
  then show ?thesis
    using assms(2) by (simp add: c_string_def Let_def takeWhile_append1)
qed

lemma load_octets_nth: "load_octets b p n = Inr d \<Longrightarrow> i < n \<Longrightarrow> load b (p + i) = Inr (d ! i)"
proof (induction n arbitrary: p d i)
  case (Suc n)
  then show ?case
    using Suc.IH [of "Suc p"] by (cases i) auto
qed simp

lemma framed_cases:
  assumes "framed m"
  obtains rest where "m = le16 (length m) @ [0, 0] @ rest"
proof
  show "m = le16 (length m) @ [0, 0] @ drop 4 m"
    using assms append_take_drop_id [of 4 m] by (simp add: framed_def)
qed

lemma framed_loads:
  assumes "framed m" "b = pre @ m @ post"
  shows "load16 b (length pre) = Inr (length m)" "load16 b (length pre + 2) = Inr 0"
    and "load32 b (length pre) = Inr (length m)"
proof -
  obtain rest where m: "m = le16 (length m) @ [0, 0] @ rest"
    using framed_cases [OF assms(1)] .
  have zero: "[0, 0] = le16 0"
    by (simp add: le16_def)
  have short: "length m < 2 ^ 16"
    using assms(1) by (simp add: framed_def)
  have "b = pre @ le16 (length m) @ ([0, 0] @ rest @ post)"
    using assms(2) m by (metis append.assoc)
  then show first: "load16 b (length pre) = Inr (length m)"
    using load16_le16 [OF short] by simp
  have "b = (pre @ le16 (length m)) @ le16 0 @ (rest @ post)"
    using assms(2) m zero by (metis append.assoc)
  then show second: "load16 b (length pre + 2) = Inr 0"
    using load16_le16 [of 0 "pre @ le16 (length m)" "rest @ post"] by simp
  show "load32 b (length pre) = Inr (length m)"
    using second by (simp add: load32_def first)
qed

text \<open>
  Messages as the encodings of what they stand for: the loop folds the meaning \<open>g\<close> of its body.
\<close>

lemma message_walk_folds:
  assumes "list_all (\<lambda>k. framed (enc k)) ks" "b = pre @ concat (map enc ks) @ post" "0 \<le> extra"
    and body: "\<And>ks1 k ks2 x. ks = ks1 @ k # ks2 \<Longrightarrow>
       f (length (pre @ concat (map enc ks1))) (length (enc k)) x = Some (Inr (g k x, False))"
  shows "iterate (message_round b f) (length pre, int (length (concat (map enc ks))) + extra, x, False)
       = iterate (message_round b f) (length (pre @ concat (map enc ks)), extra, fold g ks x, False)"
  using assms
proof (induction ks arbitrary: pre x)
  case (Cons k ks)
  let ?rest = "concat (map enc ks)"
  have b: "b = pre @ enc k @ ?rest @ post" and framed: "framed (enc k)"
    using Cons.prems by simp_all
  have "NLMSG_OK b (length pre) (int (length (enc k)) + (int (length ?rest) + extra)) = Inr True"
    using framed_loads(3) [OF framed b] framed Cons.prems(3) by (simp add: NLMSG_OK_def framed_def)
  then have "message_round b f (length pre, int (length (enc k)) + (int (length ?rest) + extra), x, False)
      = Some (Inr (Some (length (pre @ enc k), int (length ?rest) + extra, g k x, False)))"
    using framed_loads(3) [OF framed b] framed Cons.prems(4) [of "[]" k ks x]
    by (simp add: message_round_def framed_def)
  moreover have "f (length ((pre @ enc k) @ concat (map enc ks1))) (length (enc k')) y = Some (Inr (g k' y, False))"
    if "ks = ks1 @ k' # ks2" for ks1 k' ks2 y
    using Cons.prems(4) [of "k # ks1" k' ks2 y] that by simp
  ultimately show ?case
    using Cons.IH [of "pre @ enc k" "g k x"] Cons.prems(1-3) by (simp add: add.assoc)
qed simp

lemma message_walk_is_fold:
  assumes "list_all (\<lambda>k. framed (enc k)) ks" "b = concat (map enc ks) @ post"
    and "\<And>ks1 k ks2 x. ks = ks1 @ k # ks2 \<Longrightarrow>
       f (length (concat (map enc ks1))) (length (enc k)) x = Some (Inr (g k x, False))"
  shows "message_walk b f (int (length (concat (map enc ks)))) x = Some (Inr (fold g ks x, False))"
proof -
  have "message_round b f (length (concat (map enc ks)), 0, fold g ks x, False) = Some (Inr None)"
    by (simp add: message_round_def NLMSG_OK_def)
  then show ?thesis
    using message_walk_folds [of enc ks b "[]" post 0 f g x] assms by (simp add: message_walk_def)
qed

text \<open>With one more message at the end whose body leaves the loop.\<close>

lemma message_walk_until:
  assumes "list_all (\<lambda>k. framed (enc k)) ks" "framed m" "b = concat (map enc ks) @ m @ post"
    and "\<And>ks1 k ks2 x. ks = ks1 @ k # ks2 \<Longrightarrow>
       f (length (concat (map enc ks1))) (length (enc k)) x = Some (Inr (g k x, False))"
    and "\<And>x. f (length (concat (map enc ks))) (length m) x = Some (Inr (x, True))"
  shows "message_walk b f (int (length (concat (map enc ks) @ m))) x = Some (Inr (fold g ks x, True))"
proof -
  let ?all = "concat (map enc ks)"
  have "NLMSG_OK b (length ?all) (int (length m)) = Inr True"
    using framed_loads(3) [OF assms(2,3)] assms(2) by (simp add: NLMSG_OK_def framed_def)
  then have "message_round b f (length ?all, int (length m), fold g ks x, False)
      = Some (Inr (Some (length ?all + length m, 0, fold g ks x, True)))"
    using framed_loads(3) [OF assms(2,3)] assms(2,5) by (simp add: message_round_def framed_def)
  moreover have "message_round b f (length ?all + length m, 0, fold g ks x, True) = Some (Inr None)"
    by (simp add: message_round_def)
  ultimately show ?thesis
    using message_walk_folds [of enc ks b "[]" "m @ post" "int (length m)" f g x] assms(1,3,4)
    by (simp add: message_walk_def)
qed

text \<open>The body fails on a message behind messages it passes.\<close>

lemma message_walk_faults:
  assumes "list_all (\<lambda>k. framed (enc k)) ks" "framed m" "b = concat (map enc ks) @ m @ post" "0 \<le> extra"
    and "\<And>ks1 k ks2 x. ks = ks1 @ k # ks2 \<Longrightarrow>
       f (length (concat (map enc ks1))) (length (enc k)) x = Some (Inr (g k x, False))"
    and "f (length (concat (map enc ks))) (length m) (fold g ks x) = Some (Inl e)"
  shows "message_walk b f (int (length (concat (map enc ks) @ m)) + extra) x = Some (Inl e)"
proof -
  let ?all = "concat (map enc ks)"
  have "NLMSG_OK b (length ?all) (int (length m) + extra) = Inr True"
    using framed_loads(3) [OF assms(2,3)] assms(2,4) by (simp add: NLMSG_OK_def framed_def)
  then have "message_round b f (length ?all, int (length m) + extra, fold g ks x, False) = Some (Inl e)"
    using framed_loads(3) [OF assms(2,3)] assms(6) by (simp add: message_round_def)
  then show ?thesis
    using message_walk_folds [of enc ks b "[]" "m @ post" "int (length m) + extra" f g x] assms(1,3-5)
    by (simp add: message_walk_def add.assoc)
qed

section \<open>Reads inside the buffer are defined\<close>

lemma load_octets_bound: "load_octets b p n = Inr d \<Longrightarrow> 0 < n \<Longrightarrow> p + n \<le> length b"
proof (induction n arbitrary: p d)
  case (Suc n)
  then obtain bs where "p < length b" "load_octets b (Suc p) n = Inr bs"
    by (auto simp: load_def split: if_split_asm)
  then show ?case
    using Suc.IH [of "Suc p" bs] by (cases n) simp_all
qed simp

lemma load32_in: "p + 4 \<le> length b \<Longrightarrow> \<exists>n. load32 b p = Inr n"
  by (simp add: load32_def load16_in)

lemma load_int_in: "p + 4 \<le> length b \<Longrightarrow> \<exists>i. load_int b p = Inr i"
  using load32_in by (auto simp: load_int_def)

lemma octets_in_buffer:
  assumes "load_octets b p (length d) = Inr d" "d \<noteq> []"
  obtains pre post where "b = pre @ d @ post" "length pre = p"
proof
  have bound: "p + length d \<le> length b"
    using load_octets_bound [OF assms(1)] assms(2) by simp
  then have "take (length d) (drop p b) = d"
    using load_octets_in [OF bound] assms(1) by simp
  then show "b = take p b @ d @ drop (length d) (drop p b)"
    by (metis append_take_drop_id)
  show "length (take p b) = p"
    using bound by simp
qed

section \<open>Members read through a table of attributes\<close>

text \<open>\<open>if (table[t]) member = read(RTA_DATA(table[t]))\<close>.\<close>

definition table_member :: "nat option list \<Rightarrow> nat \<Rightarrow> (nat \<Rightarrow> 'a res) \<Rightarrow> 'a \<Rightarrow> 'a res" where
  "table_member table t read absent =
     (case table ! t of None \<Rightarrow> Inr absent | Some rta \<Rightarrow> read (rta + sizeof_rtattr))"

definition attribute_int :: "byte list \<Rightarrow> int" where
  "attribute_int d =
     sint (word_of_nat (unat (d ! 0) + 256 * unat (d ! 1) + 65536 * (unat (d ! 2) + 256 * unat (d ! 3))) :: uint32)"

definition attribute_or :: "(nat \<times> byte list) list \<Rightarrow> nat \<Rightarrow> (byte list \<Rightarrow> 'a) \<Rightarrow> 'a \<Rightarrow> 'a" where
  "attribute_or as t f x = (case map_of as t of None \<Rightarrow> x | Some d \<Rightarrow> f d)"

lemma load_int_of_octets:
  assumes "load_octets b p (length d) = Inr d" "4 \<le> length d"
  shows "load_int b p = Inr (attribute_int d)"
proof -
  have "load b (p + i) = Inr (d ! i)" if "i < 4" for i
    using load_octets_nth [OF assms(1)] that assms(2) by simp
  note octet = this
  have "load b p = Inr (d ! 0)" "load b (p + 1) = Inr (d ! 1)" "load b (p + 2) = Inr (d ! 2)" "load b (p + 2 + 1) = Inr (d ! 3)"
    using octet [of 0] octet [of 1] octet [of 2] octet [of 3] by (simp_all add: numeral_3_eq_3)
  then show ?thesis
    unfolding load_int_def load32_def load16_def attribute_int_def by simp
qed

lemma table_member_lookup:
  assumes "case map_of as t of None \<Rightarrow> tb ! t = None
      | Some d \<Rightarrow> \<exists>p. tb ! t = Some p \<and> load_octets b (p + 4) (length d) = Inr d"
    and "\<And>d p. map_of as t = Some d \<Longrightarrow> load_octets b p (length d) = Inr d \<Longrightarrow> rd p = Inr (f d)"
  shows "table_member tb t rd x = Inr (attribute_or as t f x)"
  using assms by (auto simp: table_member_def attribute_or_def split: option.split_asm)


lemma attribute_table_entry:
  assumes "attribute_table b h as tb" "t \<le> h"
  shows "map_of as t = None \<Longrightarrow> tb ! t = None"
    and "map_of as t = Some d \<Longrightarrow> \<exists>p. tb ! t = Some p \<and> load16 b p = Inr (4 + length d) \<and> load_octets b (p + 4) (length d) = Inr d
      \<and> p + align4 (4 + length d) \<le> length b"
  using spec [OF conjunct2 [OF assms(1) [unfolded attribute_table_def]], of t] assms(2) by simp_all

lemma table_member_absent: "attribute_table b h as tb \<Longrightarrow> t \<le> h \<Longrightarrow> map_of as t = None \<Longrightarrow> table_member tb t rd x = Inr x"
  using attribute_table_entry(1) by (simp add: table_member_def)

lemma table_member_defined:
  assumes "attribute_table b h as tb" "t \<le> h" "\<And>d. map_of as t = Some d \<Longrightarrow> n \<le> length d" "0 < n"
    and "\<And>p. p + n \<le> length b \<Longrightarrow> \<exists>v. rd p = Inr v"
  shows "\<exists>v. table_member tb t rd x = Inr v"
proof (cases "map_of as t")
  case None
  then show ?thesis
    using table_member_absent [OF assms(1,2), of rd x] by auto
next
  case (Some d)
  then obtain p where p: "tb ! t = Some p" "load_octets b (p + 4) (length d) = Inr d"
    using attribute_table_entry(2) [OF assms(1,2)] by blast
  moreover have "p + 4 + n \<le> length b"
    using load_octets_bound [OF p(2)] assms(3) [OF Some] assms(4) by linarith
  ultimately show ?thesis
    using assms(5) [of "p + 4"] by (simp add: table_member_def)
qed

text \<open>The padding makes four octets readable behind the header of any attribute that is not empty.\<close>

lemma table_member_padded:
  assumes "attribute_table b h as tb" "t \<le> h" "\<And>d. map_of as t = Some d \<Longrightarrow> d \<noteq> []"
    and "\<And>p. p + 4 \<le> length b \<Longrightarrow> \<exists>v. rd p = Inr v"
  shows "\<exists>v. table_member tb t rd x = Inr v"
proof (cases "map_of as t")
  case None
  then show ?thesis
    using table_member_absent [OF assms(1,2), of rd x] by auto
next
  case (Some d)
  then obtain p where p: "tb ! t = Some p" "p + align4 (4 + length d) \<le> length b"
    using attribute_table_entry(2) [OF assms(1,2)] by blast
  moreover have "8 \<le> align4 (4 + length d)"
    using assms(3) [OF Some] by (cases d) (auto simp: align4_def)
  ultimately show ?thesis
    using assms(4) [of "p + 4"] by (simp add: table_member_def)
qed

end
