(* ===== verification/Latency_Source.thy ===== *)
theory Latency_Source
  imports Shaping Netlink_Walk
begin

text \<open>
  Reading the shaping rules of the host (\<open>internal/rankd-time\<close>: \<open>utils/kernel.cpp\<close> and the
  snapshots of \<open>data-sources/latency/latency.cpp\<close>): the queueing disciplines the kernel dumps over
  netlink, of which those of kind \<open>taprio\<close> are rules of the time-aware shaper and those of kind
  \<open>cbs\<close> rules of the credit-based shaper.  The kernel, the clock and the highest attribute type of
  the kernel headers are arguments.
\<close>

section \<open>Attributes with flags in their types\<close>

definition NLA_F_NESTED :: uint16 where
  "NLA_F_NESTED = 0x8000"

definition masked_type :: "uint16 \<Rightarrow> nat \<Rightarrow> nat" where
  "masked_type flags rta_type = unat (and (word_of_nat rta_type) (not flags))"

definition parse_rtattr_flags :: "byte list \<Rightarrow> nat \<Rightarrow> nat \<Rightarrow> int \<Rightarrow> uint16 \<Rightarrow> nat option list run" where
  "parse_rtattr_flags buffer highest rta len flags =
     run_then (iterate (\<lambda>s. Some (table_round buffer highest (masked_type flags) s)) (rta, len, replicate (highest + 1) None))
       (\<lambda>(rta, len, tb). Some (if len \<noteq> 0 then Inl StdException else Inr tb))"

definition get_clock_name :: "int \<Rightarrow> string" where
  "get_clock_name clockid =
     (case map_of [(0, ''REALTIME''), (11, ''TAI''), (7, ''BOOTTIME''), (1, ''MONOTONIC'')] clockid of
        None \<Rightarrow> ''invalid'' | Some name \<Rightarrow> name)"

section \<open>The time-aware shaper\<close>

abbreviation (input) "TCA_KIND \<equiv> 1 :: nat"
abbreviation (input) "TCA_OPTIONS \<equiv> 2 :: nat"
abbreviation (input) "RTM_NEWQDISC \<equiv> 36 :: nat"
abbreviation (input) "sizeof_tcmsg \<equiv> 20 :: nat"
abbreviation (input) "TCA_TAPRIO_ATTR_PRIOMAP \<equiv> 1 :: nat"
abbreviation (input) "TCA_TAPRIO_ATTR_SCHED_ENTRY_LIST \<equiv> 2 :: nat"
abbreviation (input) "TCA_TAPRIO_ATTR_SCHED_BASE_TIME \<equiv> 3 :: nat"
abbreviation (input) "TCA_TAPRIO_ATTR_SCHED_CLOCKID \<equiv> 5 :: nat"
abbreviation (input) "TCA_TAPRIO_ATTR_SCHED_CYCLE_TIME \<equiv> 8 :: nat"
abbreviation (input) "TCA_TAPRIO_ATTR_SCHED_CYCLE_TIME_EXTENSION \<equiv> 9 :: nat"
abbreviation (input) "TCA_TAPRIO_ATTR_FLAGS \<equiv> 10 :: nat"
abbreviation (input) "TCA_TAPRIO_ATTR_TXTIME_DELAY \<equiv> 11 :: nat"
abbreviation (input) "TCA_TAPRIO_SCHED_ENTRY_INDEX \<equiv> 1 :: nat"
abbreviation (input) "TCA_TAPRIO_SCHED_ENTRY_CMD \<equiv> 2 :: nat"
abbreviation (input) "TCA_TAPRIO_SCHED_ENTRY_GATE_MASK \<equiv> 3 :: nat"
abbreviation (input) "TCA_TAPRIO_SCHED_ENTRY_INTERVAL \<equiv> 4 :: nat"
abbreviation (input) "TCA_TAPRIO_SCHED_ENTRY_MAX \<equiv> 4 :: nat"

text \<open>\<open>strcmp(p, name) == 0\<close>: the comparison stops at the first octet that differs.\<close>

fun strcmp_equal :: "byte list \<Rightarrow> nat \<Rightarrow> string \<Rightarrow> bool res" where
  "strcmp_equal buffer p [] = and_then (load buffer p) (\<lambda>b. Inr (b = 0))"
| "strcmp_equal buffer p (c # cs) =
     and_then (load buffer p) (\<lambda>b. if char_of_byte b = c then strcmp_equal buffer (Suc p) cs else Inr False)"

definition names_kind :: "string \<Rightarrow> byte list \<Rightarrow> nat \<Rightarrow> nat \<Rightarrow> bool res" where
  "names_kind kind buffer rta_type attribute =
     (if rta_type = TCA_KIND then strcmp_equal buffer (attribute + sizeof_rtattr) kind else Inr False)"

definition load64 :: "byte list \<Rightarrow> nat \<Rightarrow> nat res" where
  "load64 buffer p =
     and_then (load32 buffer p) (\<lambda>a. and_then (load32 buffer (p + 4)) (\<lambda>b. Inr (a + 2 ^ 32 * b)))"

definition load_long :: "byte list \<Rightarrow> nat \<Rightarrow> int res" where
  "load_long buffer p = and_then (load64 buffer p) (\<lambda>n. Inr (sint (word_of_nat n :: uint64)))"

definition load_uint :: "byte list \<Rightarrow> nat \<Rightarrow> uint32 res" where
  "load_uint buffer p = and_then (load32 buffer p) (\<lambda>n. Inr (word_of_nat n))"

text \<open>
  \<open>struct tc_mqprio_qopt\<close>: \<open>num_tc\<close>, then \<open>prio_tc_map\<close> of 16 octets of which 15 are read, and from
  offset 18 on \<open>count\<close> and \<open>offset\<close> with 16 entries of two octets each.
\<close>

definition queue_options :: "byte list \<Rightarrow> nat \<Rightarrow> (byte \<times> byte list \<times> (byte \<times> byte) list) res" where
  "queue_options buffer queue_value =
     and_then (load buffer queue_value) (\<lambda>number_of_traffic_classes.
     and_then (load_octets buffer (queue_value + 1) 15) (\<lambda>priority_to_tc_map.
     and_then (map_res (\<lambda>i.
         if i < 16 then
           and_then (load16 buffer (queue_value + 18 + 2 * i)) (\<lambda>count.
           and_then (load16 buffer (queue_value + 50 + 2 * i)) (\<lambda>offset. Inr (word_of_nat count, word_of_nat offset)))
         else Inl UndefinedBehaviour) [0..<unat number_of_traffic_classes]) (\<lambda>queues.
       Inr (number_of_traffic_classes, priority_to_tc_map, queues))))"

type_synonym schedule_entry = "uint32 \<times> uint32 \<times> uint32 \<times> uint32"

text \<open>
  The interval is read through the table of the discipline at the index that the attribute has in
  the table of the entry.
\<close>

definition schedule_entry :: "byte list \<Rightarrow> nat option list \<Rightarrow> nat \<Rightarrow> schedule_entry run" where
  "schedule_entry buffer taprio_attribute schedule_item =
     run_then (Some (RTA_PAYLOAD buffer schedule_item)) (\<lambda>payload.
     run_then (parse_rtattr_flags buffer TCA_TAPRIO_SCHED_ENTRY_MAX (schedule_item + sizeof_rtattr) payload NLA_F_NESTED)
       (\<lambda>schedule_attribute.
     run_then (Some (table_member schedule_attribute TCA_TAPRIO_SCHED_ENTRY_INDEX (load_uint buffer) 0)) (\<lambda>index.
     run_then (Some (table_member schedule_attribute TCA_TAPRIO_SCHED_ENTRY_CMD (load_uint buffer) 0)) (\<lambda>command.
     run_then (Some (table_member schedule_attribute TCA_TAPRIO_SCHED_ENTRY_GATE_MASK (load_uint buffer) 0)) (\<lambda>gatemask.
     run_then (Some (case schedule_attribute ! TCA_TAPRIO_SCHED_ENTRY_INTERVAL of
         None \<Rightarrow> Inr 0
       | Some _ \<Rightarrow>
           (case taprio_attribute ! TCA_TAPRIO_SCHED_ENTRY_INTERVAL of
              None \<Rightarrow> Inl NullDeref
            | Some rta \<Rightarrow> load_uint buffer (rta + sizeof_rtattr)))) (\<lambda>interval.
       Some (Inr (index, command, gatemask, interval))))))))"

definition schedule_round ::
  "byte list \<Rightarrow> nat option list \<Rightarrow> nat \<times> int \<times> schedule_entry list \<Rightarrow> (nat \<times> int \<times> schedule_entry list) option run" where
  "schedule_round buffer taprio_attribute s =
     (case s of (schedule_item, remainder, schedule) \<Rightarrow>
        run_then (Some (RTA_OK buffer schedule_item remainder)) (\<lambda>ok.
          if \<not> ok then Some (Inr None)
          else
            run_then (schedule_entry buffer taprio_attribute schedule_item) (\<lambda>entry.
            run_then (Some (load16 buffer schedule_item)) (\<lambda>rta_len.
              Some (Inr (Some (schedule_item + align4 rta_len, remainder - int (align4 rta_len), schedule @ [entry])))))))"

definition schedule_of :: "byte list \<Rightarrow> nat option list \<Rightarrow> schedule_entry list run" where
  "schedule_of buffer taprio_attribute =
     (case taprio_attribute ! TCA_TAPRIO_ATTR_SCHED_ENTRY_LIST of
        None \<Rightarrow> Some (Inr [])
      | Some schedule_pointer \<Rightarrow>
          run_then (Some (RTA_PAYLOAD buffer schedule_pointer)) (\<lambda>remainder.
          run_then (iterate (schedule_round buffer taprio_attribute) (schedule_pointer + sizeof_rtattr, remainder, []))
            (\<lambda>(_, _, schedule). Some (Inr schedule))))"

text \<open>\<open>duration_cast\<close> from nanoseconds to seconds rounds towards zero.\<close>

definition seconds_of_nanoseconds :: "int \<Rightarrow> int" where
  "seconds_of_nanoseconds ns = (if 0 \<le> ns then ns div 10 ^ 9 else - (- ns div 10 ^ 9))"

definition control_entry :: "schedule_entry \<Rightarrow> SchedGateControlEntriesEntry" where
  "control_entry e =
     (case e of (index, command, gatemask, interval) \<Rightarrow>
        \<lparr> sg_index = index, sg_operation_name = operation_of_number command,
          sg_time_interval_value = Some interval, sg_gate_states_value = ucast gatemask \<rparr>)"

definition schedule_parameters ::
  "int \<times> int \<Rightarrow> byte \<Rightarrow> schedule_entry list \<Rightarrow> int \<Rightarrow> int \<Rightarrow> int \<Rightarrow> SchedParameters" where
  "schedule_parameters current_time number_of_traffic_classes schedule base_time cycle_time cycle_time_extension =
     (let gate_states = drop_bit (unat number_of_traffic_classes) 255;
          control_list = map control_entry schedule;
          cycle = \<lparr> numerator = word_of_int cycle_time, denominator = 1 \<rparr>;
          base = \<lparr> seconds = word_of_int (seconds_of_nanoseconds base_time), nanoseconds = word_of_int base_time \<rparr> in
      \<lparr> gate_parameter_table = None, gate_enabled = Some True, admin_gate_states = Some gate_states,
        oper_gate_states = Some gate_states, admin_control_list = Some control_list,
        oper_control_list = Some control_list, admin_cycle_time = Some cycle, oper_cycle_time = Some cycle,
        admin_cycle_time_extension = Some (word_of_int cycle_time_extension),
        oper_cycle_time_extension = Some (word_of_int cycle_time_extension),
        admin_base_time = Some base, oper_base_time = Some base, config_change = Some False,
        config_change_time = None, tick_granularity = None,
        currentTime = Some \<lparr> seconds = word_of_int (fst current_time), nanoseconds = word_of_int (snd current_time) \<rparr>,
        config_pending = Some False, config_change_error = None, supported_list_max = None,
        supported_cycle_max = None, supported_interval_max = None \<rparr>)"

text \<open>
  The attributes are read in the order of the source; the text of the clock, the flags and the
  delay are not used any further.  A local variable that no attribute has set is uninitialised.
\<close>

definition taprio_rule :: "int \<times> int \<Rightarrow> byte list \<Rightarrow> nat option list \<Rightarrow> nat \<Rightarrow> SchedParameters run" where
  "taprio_rule current_time buffer taprio_attribute priomap =
     (let some_long = (\<lambda>p. and_then (load_long buffer p) (\<lambda>n. Inr (Some n)));
          some_int = (\<lambda>p. and_then (load_int buffer p) (\<lambda>n. Inr (Some n)));
          some_uint = (\<lambda>p. and_then (load_uint buffer p) (\<lambda>n. Inr (Some n))) in
      run_then (Some (queue_options buffer (priomap + sizeof_rtattr))) (\<lambda>(number_of_traffic_classes, _, _).
      run_then (Some (table_member taprio_attribute TCA_TAPRIO_ATTR_SCHED_BASE_TIME some_long None)) (\<lambda>base_time.
      run_then (Some (table_member taprio_attribute TCA_TAPRIO_ATTR_SCHED_CLOCKID some_int None)) (\<lambda>clock_id.
      run_then (schedule_of buffer taprio_attribute) (\<lambda>schedule.
      run_then (Some (table_member taprio_attribute TCA_TAPRIO_ATTR_FLAGS some_uint None)) (\<lambda>flags.
      run_then (Some (table_member taprio_attribute TCA_TAPRIO_ATTR_TXTIME_DELAY some_uint None)) (\<lambda>txtime_delay.
      run_then (Some (table_member taprio_attribute TCA_TAPRIO_ATTR_SCHED_CYCLE_TIME some_long None)) (\<lambda>cycle_time.
      run_then (Some (table_member taprio_attribute TCA_TAPRIO_ATTR_SCHED_CYCLE_TIME_EXTENSION some_long None))
        (\<lambda>cycle_time_extension.
      run_then (Some (initialised cycle_time)) (\<lambda>cycle_time.
      run_then (Some (initialised cycle_time_extension)) (\<lambda>cycle_time_extension.
      run_then (Some (initialised base_time)) (\<lambda>base_time.
        Some (Inr (schedule_parameters current_time number_of_traffic_classes schedule base_time cycle_time
          cycle_time_extension))))))))))))))"

text \<open>
  One round over the attributes of a message.  The data of the attribute that names the kind are
  read as a \<open>struct tcmsg\<close>, whose interface index is at offset 4; then the loop moves on to the next
  attribute without a test that there is one.
\<close>

type_synonym tas_rules = "(byte, SchedParameters option) std_map"
type_synonym tas_state = "nat \<times> int \<times> tas_rules"

definition taprio_attribute ::
  "int \<times> int \<Rightarrow> nat \<Rightarrow> byte list \<Rightarrow> tas_state \<Rightarrow> tas_state run" where
  "taprio_attribute current_time TCA_TAPRIO_ATTR_MAX buffer s =
     (case s of (attribute, attribute_length, rules) \<Rightarrow>
        run_then (Some (load_int buffer (attribute + sizeof_rtattr + 4))) (\<lambda>interface_index.
        let index = word_of_int interface_index :: byte;
            rules = (if map_contains index rules then rules else map_assign index (Some SchedParameters_new) rules) in
        run_then (Some (load16 buffer attribute)) (\<lambda>rta_len.
        let attribute = attribute + align4 rta_len; attribute_length = attribute_length - int (align4 rta_len) in
        run_then (Some (RTA_PAYLOAD buffer attribute)) (\<lambda>payload.
        run_then (parse_rtattr_flags buffer TCA_TAPRIO_ATTR_MAX (attribute + sizeof_rtattr) payload NLA_F_NESTED)
          (\<lambda>taprio_attribute.
          case taprio_attribute ! TCA_TAPRIO_ATTR_PRIOMAP of
            None \<Rightarrow> Some (Inr (attribute, attribute_length, rules))
          | Some priomap \<Rightarrow>
              run_then (taprio_rule current_time buffer taprio_attribute priomap) (\<lambda>rule.
                Some (Inr (attribute, attribute_length, map_assign index (Some rule) rules))))))))"

definition tas_attribute_round ::
  "int \<times> int \<Rightarrow> nat \<Rightarrow> byte list \<Rightarrow> tas_state \<Rightarrow> tas_state option run" where
  "tas_attribute_round current_time TCA_TAPRIO_ATTR_MAX buffer s =
     (case s of (attribute, attribute_length, rules) \<Rightarrow>
        run_then (Some (RTA_OK buffer attribute attribute_length)) (\<lambda>ok.
          if \<not> ok then Some (Inr None)
          else
            run_then (Some (load16 buffer (attribute + 2))) (\<lambda>rta_type.
            run_then (Some (names_kind ''taprio'' buffer rta_type attribute)) (\<lambda>is_taprio.
            run_then (if is_taprio then taprio_attribute current_time TCA_TAPRIO_ATTR_MAX buffer s else Some (Inr s))
              (\<lambda>(attribute, attribute_length, rules).
            run_then (Some (load16 buffer attribute)) (\<lambda>rta_len.
              Some (Inr (Some (attribute + align4 rta_len, attribute_length - int (align4 rta_len), rules)))))))))"

definition tas_message ::
  "int \<times> int \<Rightarrow> nat \<Rightarrow> byte list \<Rightarrow> nat \<Rightarrow> nat \<Rightarrow> tas_rules \<Rightarrow> (tas_rules \<times> bool) run" where
  "tas_message current_time TCA_TAPRIO_ATTR_MAX buffer response_header nlmsg_len rules =
     run_then (Some (load16 buffer (response_header + 4))) (\<lambda>nlmsg_type.
       if nlmsg_type = RTM_NEWQDISC then
         run_then (iterate (tas_attribute_round current_time TCA_TAPRIO_ATTR_MAX buffer)
             (response_header + sizeof_nlmsghdr + sizeof_tcmsg, int nlmsg_len - int (sizeof_nlmsghdr + sizeof_tcmsg), rules))
           (\<lambda>(_, _, rules). Some (Inr (rules, False)))
       else Some (Inr (rules, False)))"

text \<open>
  The socket is opened and bound by the constructor; both snapshots ask for all queueing disciplines
  and read one response.
\<close>

definition qdisc_dump :: "(netlink_request \<Rightarrow> netlink_answer) \<Rightarrow> (byte list \<times> int) res" where
  "qdisc_dump linux =
     (let answer = linux \<lparr> rq_type = 38, rq_flags = 0x301, rq_len = sizeof_nlmsghdr + sizeof_tcmsg, rq_family = Some 0 \<rparr> in
      and_then (require (0 \<le> nl_send answer) StdException) (\<lambda>_.
      and_then (require (0 \<le> nl_recv answer) StdException) (\<lambda>_.
        Inr (nl_buffer answer, nl_recv answer))))"

definition snap_tas_via_linux_tc ::
  "int \<times> int \<Rightarrow> nat \<Rightarrow> (netlink_request \<Rightarrow> netlink_answer) \<Rightarrow> Latency \<Rightarrow> Latency run" where
  "snap_tas_via_linux_tc current_time TCA_TAPRIO_ATTR_MAX linux l =
     run_then (Some (qdisc_dump linux)) (\<lambda>(buffer, response_length).
     run_then (message_walk buffer (tas_message current_time TCA_TAPRIO_ATTR_MAX buffer) response_length []) (\<lambda>(rules, _).
       Some (Inr (l \<lparr> lat_tas := rules \<rparr>))))"

section \<open>The credit-based shaper\<close>

text \<open>
  The parent, at offset 12 of a \<open>struct tcmsg\<close>, and the idle slope, at offset 12 of a
  \<open>struct tc_cbs_qopt\<close>, are read from the data of the same attribute.  A new rule has no vector of
  parameters to append to.
\<close>

type_synonym cbs_rules = "(byte, CBSAConfig option) std_map"

definition cbs_append :: "CBSAParametersTableEntry \<Rightarrow> CBSAConfig option \<Rightarrow> CBSAConfig option res" where
  "cbs_append entry rule =
     (case rule of
        None \<Rightarrow> Inl NullDeref
      | Some config \<Rightarrow>
          (case cbsa_parameters config of
             None \<Rightarrow> Inl UndefinedBehaviour
           | Some es \<Rightarrow> Inr (Some (config \<lparr> cbsa_parameters := Some (es @ [entry]) \<rparr>))))"

definition cbs_attribute :: "byte list \<Rightarrow> nat \<Rightarrow> nat \<Rightarrow> cbs_rules \<Rightarrow> cbs_rules res" where
  "cbs_attribute buffer rta_type attribute rules =
     and_then (names_kind ''cbs'' buffer rta_type attribute) (\<lambda>is_cbs.
       if \<not> is_cbs then Inr rules
       else
         and_then (load_int buffer (attribute + sizeof_rtattr + 4)) (\<lambda>interface_index.
         let index = word_of_int interface_index :: byte;
             rules = (if map_contains index rules then rules else map_assign index (Some \<lparr> cbsa_parameters = None \<rparr>) rules) in
         and_then (load32 buffer (attribute + sizeof_rtattr + 12)) (\<lambda>traffic_class.
         and_then (load_int buffer (attribute + sizeof_rtattr + 12)) (\<lambda>idle_slope.
         and_then (map_at rules index) (\<lambda>rule.
         and_then (cbs_append \<lparr> cb_traffic_class = word_of_nat traffic_class, cb_admin_idle_slope = Some 0,
                                cb_oper_idle_slope = Some (word_of_int idle_slope) \<rparr> rule) (\<lambda>rule.
           Inr (map_assign index rule rules)))))))"

definition cbs_message :: "byte list \<Rightarrow> nat \<Rightarrow> nat \<Rightarrow> cbs_rules \<Rightarrow> (cbs_rules \<times> bool) run" where
  "cbs_message buffer response_header nlmsg_len rules =
     run_then (Some (load16 buffer (response_header + 4))) (\<lambda>nlmsg_type.
       if nlmsg_type = RTM_NEWQDISC then
         run_then (attribute_walk buffer (cbs_attribute buffer) (response_header + sizeof_nlmsghdr + sizeof_tcmsg)
             (int nlmsg_len - int (sizeof_nlmsghdr + sizeof_tcmsg)) rules)
           (\<lambda>rules. Some (Inr (rules, False)))
       else Some (Inr (rules, False)))"

definition snap_cbs_via_linux_tc :: "(netlink_request \<Rightarrow> netlink_answer) \<Rightarrow> Latency \<Rightarrow> Latency run" where
  "snap_cbs_via_linux_tc linux l =
     run_then (Some (qdisc_dump linux)) (\<lambda>(buffer, response_length).
     run_then (message_walk buffer (cbs_message buffer) response_length []) (\<lambda>(rules, _).
       Some (Inr (l \<lparr> lat_cbs := rules \<rparr>))))"

text \<open>
  The two snapshots ask over the same socket and read once each.  Nothing says that the second
  read sees the second dump: the message that ends the first one is usually still to be read, and
  then it is what the second snapshot gets.  So the second answer is an argument of its own.
\<close>

definition Latency_snap ::
  "int \<times> int \<Rightarrow> nat \<Rightarrow> (netlink_request \<Rightarrow> netlink_answer) \<Rightarrow> (netlink_request \<Rightarrow> netlink_answer) \<Rightarrow> Latency \<Rightarrow> Latency run" where
  "Latency_snap current_time TCA_TAPRIO_ATTR_MAX linux linux' l =
     run_then (snap_tas_via_linux_tc current_time TCA_TAPRIO_ATTR_MAX linux l) (snap_cbs_via_linux_tc linux')"

definition Latency_new :: "int \<Rightarrow> Latency res" where
  "Latency_new bind_result =
     and_then (require (0 \<le> bind_result) StdException) (\<lambda>_.
       Inr \<lparr> lat_tas = [], lat_cbs = [], lat_json_formatted_output = False, lat_output_type = OUTPUT_LATENCY_TYPE_ALL \<rparr>)"

section \<open>Termination\<close>

lemma parse_rtattr_flags_terminates [simp]: "parse_rtattr_flags b h p len flags \<noteq> None"
  using table.terminates [of b h "masked_type flags" "(p, len, replicate (h + 1) None)"]
  by (auto simp: parse_rtattr_flags_def)

lemma schedule_entry_terminates [simp]: "schedule_entry b tb p \<noteq> None"
  by (simp add: schedule_entry_def)

interpretation schedule_loop: bounded_loop
  "schedule_round b tb" "\<lambda>_. True" "\<lambda>(p, len, x). nat len" for b tb
  by unfold_locales (auto simp: schedule_round_def RTA_OK_True walk_advances split: if_split_asm)

lemma schedule_of_terminates [simp]: "schedule_of b tb \<noteq> None"
  using schedule_loop.terminates by (auto simp: schedule_of_def split: option.split)

lemma taprio_attribute_terminates [simp]: "taprio_attribute now h b s \<noteq> None"
  by (cases s) (simp add: taprio_attribute_def taprio_rule_def Let_def case_prod_unfold split: option.split)

lemma taprio_attribute_ends [simp]: "\<exists>r. taprio_attribute now h b s = Some r"
  using taprio_attribute_terminates by blast

lemma taprio_attribute_advances:
  "taprio_attribute now h b (p, len, rules) = Some (Inr (p', len', rules')) \<Longrightarrow>
     \<exists>n. load16 b p = Inr n \<and> len' = len - int (align4 n)"
  by (auto simp: taprio_attribute_def Let_def split: option.split_asm)

lemma advances_further: "4 \<le> n \<Longrightarrow> - int (align4 n) < int (align4 m)"
  using align4_ge [of n] by linarith

interpretation tas_loop: bounded_loop
  "tas_attribute_round now h b" "\<lambda>_. True" "\<lambda>(p, len, x). nat len" for now h b
  by unfold_locales
    (auto simp: tas_attribute_round_def RTA_OK_True walk_advances advances_further
      dest!: taprio_attribute_advances split: if_split_asm prod.split)

lemma messages_terminate: "tas_message now h b p n rules \<noteq> None" "cbs_message b p n rules' \<noteq> None"
  using tas_loop.terminates by (auto simp: tas_message_def cbs_message_def)

lemma Latency_snap_terminates: "Latency_snap now h linux linux' l \<noteq> None"
  using message_walk_terminates [OF messages_terminate(1)] message_walk_terminates [OF messages_terminate(2)]
  by (auto simp: Latency_snap_def snap_tas_via_linux_tc_def snap_cbs_via_linux_tc_def)

section \<open>Rules of the credit-based shaper are never read\<close>

lemma cbs_attribute_keeps: "cbs_attribute b t p [] = Inr rules \<Longrightarrow> rules = []"
  by (auto simp: cbs_attribute_def Let_def cbs_append_def map_assign_def map_at_def split: if_split_asm)

lemma cbs_walk_keeps: "attribute_walk b (cbs_attribute b) p len [] = Some (Inr rules) \<Longrightarrow> rules = []"
  by (erule attribute_walk_keeps [where keep = "\<lambda>rules. rules = []"]) (auto dest: cbs_attribute_keeps)

lemma snap_cbs_returns: "snap_cbs_via_linux_tc linux l = Some (Inr l') \<Longrightarrow> l' = l \<lparr> lat_cbs := [] \<rparr>"
proof -
  assume snap: "snap_cbs_via_linux_tc linux l = Some (Inr l')"
  then obtain b len rules left where walk: "message_walk b (cbs_message b) len [] = Some (Inr (rules, left))"
    and l': "l' = l \<lparr> lat_cbs := rules \<rparr>"
    by (auto simp: snap_cbs_via_linux_tc_def)
  have "rules = []"
  proof (rule message_walk_keeps [OF walk, where keep = "\<lambda>rules. rules = []"])
    fix p n x x' l
    assume "x = []" "cbs_message b p n x = Some (Inr (x', l))"
    then show "x' = []"
      by (auto simp: cbs_message_def dest: cbs_walk_keeps split: if_split_asm)
  qed (simp_all add: messages_terminate)
  then show ?thesis
    by (simp add: l')
qed

section \<open>A dump of the kernel\<close>

text \<open>
  A message for a queueing discipline: the netlink header, whose type is \<open>RTM_NEWQDISC\<close>, the
  \<open>struct tcmsg\<close>, the attribute that names the kind, and the other attributes.
\<close>

record kernel_qdisc =
  kq_header :: "byte list"
  kq_fixed :: "byte list"
  kq_kind :: string
  kq_attributes :: "(nat \<times> byte list) list"

definition kq_all :: "kernel_qdisc \<Rightarrow> (nat \<times> byte list) list" where
  "kq_all k = (TCA_KIND, map byte_of_char (kq_kind k) @ [0]) # kq_attributes k"

definition kq_octets :: "kernel_qdisc \<Rightarrow> byte list" where
  "kq_octets k =
     le16 (36 + length (concat (map rtattr_octets (kq_all k)))) @ [0, 0] @ le16 RTM_NEWQDISC @ kq_header k @ kq_fixed k
     @ concat (map rtattr_octets (kq_all k))"

text \<open>
  The options of a \<open>taprio\<close> discipline as the kernel dumps them: the queues, and once a schedule
  runs, its entries, each with an interval; a single entry
  (\<open>TCA_TAPRIO_ATTR_SCHED_SINGLE_ENTRY\<close>, of type 4) is part of requests only.  The command of an
  entry is one octet and its other fields four; it is enough that no field is empty, because the
  padding lets four octets be read from each.
\<close>

definition typed_options :: "(nat \<times> byte list) list \<Rightarrow> (nat \<times> byte list) list" where
  "typed_options = map (\<lambda>a. (masked_type NLA_F_NESTED (fst a), snd a))"

definition entry_ok :: "nat \<times> byte list \<Rightarrow> bool" where
  "entry_ok e \<longleftrightarrow>
     rtattr_fits e
     \<and> (\<exists>fields. snd e = concat (map rtattr_octets fields) \<and> list_all rtattr_fits fields
          \<and> list_all (\<lambda>a. snd a \<noteq> []) fields \<and> map_of (typed_options fields) TCA_TAPRIO_SCHED_ENTRY_INTERVAL \<noteq> None)"

definition options_ok :: "(nat \<times> byte list) list \<Rightarrow> bool" where
  "options_ok opts \<longleftrightarrow>
     list_all rtattr_fits opts
     \<and> (\<exists>q. map_of (typed_options opts) TCA_TAPRIO_ATTR_PRIOMAP = Some q \<and> length q = 82 \<and> unat (q ! 0) \<le> 16)
     \<and> map_of (typed_options opts) 4 = None
     \<and> (case map_of (typed_options opts) TCA_TAPRIO_ATTR_SCHED_ENTRY_LIST of
          None \<Rightarrow> map_of (typed_options opts) TCA_TAPRIO_ATTR_SCHED_CYCLE_TIME = None
        | Some d \<Rightarrow> \<exists>entries. entries \<noteq> [] \<and> d = concat (map rtattr_octets entries) \<and> list_all entry_ok entries)
     \<and> list_all (\<lambda>(t, d). (t \<in> {3, 8, 9} \<longrightarrow> 8 \<le> length d) \<and> (t \<in> {5, 10, 11} \<longrightarrow> 4 \<le> length d)) (typed_options opts)"

definition has_schedule :: "(nat \<times> byte list) list \<Rightarrow> bool" where
  "has_schedule opts \<longleftrightarrow> map_of (typed_options opts) TCA_TAPRIO_ATTR_SCHED_ENTRY_LIST \<noteq> None"

definition kq_ok :: "kernel_qdisc \<Rightarrow> bool" where
  "kq_ok k \<longleftrightarrow>
     length (kq_header k) = 10 \<and> length (kq_fixed k) = 20 \<and> CHR 0x00 \<notin> set (kq_kind k)
     \<and> list_all rtattr_fits (kq_all k) \<and> list_all (\<lambda>a. fst a \<noteq> TCA_KIND) (kq_attributes k)
     \<and> 36 + length (concat (map rtattr_octets (kq_all k))) < 2 ^ 16
     \<and> (kq_kind k = ''taprio'' \<longrightarrow>
          (\<exists>opts rest. kq_attributes k = (TCA_OPTIONS, concat (map rtattr_octets opts)) # rest \<and> options_ok opts))"

lemma load_drop: "drop p b = x # xs \<Longrightarrow> load b p = Inr x \<and> drop (Suc p) b = xs"
  by (metis Cons_nth_drop_Suc drop_all linorder_not_le list.inject list.simps(3) load_in)

lemma char_of_byte_0: "char_of_byte 0 = CHR 0x00"
  by (simp add: char_of_byte_def char_of_def)

lemma byte_of_char_0: "byte_of_char c = 0 \<longleftrightarrow> c = CHR 0x00"
  using char_of_byte_of_char [of c] by (auto simp: char_of_byte_0 byte_of_char_def)

lemma strcmp_equal_string:
  assumes "drop p b = map byte_of_char s @ 0 # rest" "CHR 0x00 \<notin> set s" "CHR 0x00 \<notin> set t"
  shows "strcmp_equal b p t = Inr (s = t)"
  using assms
proof (induction t arbitrary: s p)
  case Nil
  then show ?case
    using load_drop [of p b] by (cases s) (auto simp: byte_of_char_0)
next
  case (Cons c t)
  show ?case
  proof (cases s)
    case Nil
    then show ?thesis
      using Cons.prems load_drop [of p b 0] by (auto simp: char_of_byte_0)
  next
    case (Cons d s')
    with Cons.prems load_drop [of p b "byte_of_char d"] have "load b p = Inr (byte_of_char d)"
      and "drop (Suc p) b = map byte_of_char s' @ 0 # rest"
      by auto
    with Cons show ?thesis
      using Cons.IH [of "Suc p" s'] Cons.prems by auto
  qed
qed

subsection \<open>Disciplines of other kinds\<close>

lemma fold_same [simp]: "fold (\<lambda>_ x. x) xs y = y"
  by (induction xs) simp_all

lemma names_kind_at:
  assumes "attribute_at b p a" "fst a = TCA_KIND \<Longrightarrow> snd a = map byte_of_char s @ [0] \<and> CHR 0x00 \<notin> set s" "CHR 0x00 \<notin> set t"
  shows "names_kind t b (fst a) p = Inr (fst a = TCA_KIND \<and> s = t)"
proof (cases "fst a = TCA_KIND")
  case True
  then have a: "snd a = map byte_of_char s @ [0]" "CHR 0x00 \<notin> set s"
    using assms(2) by simp_all
  have "drop (p + 4) b = snd a @ drop (length (snd a)) (drop (p + 4) b)"
    using assms(1) by (metis attribute_at_def append_take_drop_id)
  then show ?thesis
    using strcmp_equal_string [of "p + 4" b s _ t] a assms(3) True by (simp add: names_kind_def)
qed (simp add: names_kind_def)

lemma kq_length: "kq_ok k \<Longrightarrow> length (kq_octets k) = 36 + length (concat (map rtattr_octets (kq_all k)))"
  by (simp add: kq_ok_def kq_octets_def)

lemma kq_framed: "kq_ok k \<Longrightarrow> framed (kq_octets k)"
  using length_attributes_mod [of "kq_all k"]
  by (simp add: framed_def kq_length) (simp add: kq_ok_def kq_octets_def mod_add_eq [symmetric])

lemma kq_split:
  assumes "kq_ok k" "b = pre @ kq_octets k @ post"
  obtains pre' where "b = pre' @ concat (map rtattr_octets (kq_all k)) @ post" "length pre' = length pre + 36"
    and "load16 b (length pre + 4) = Inr RTM_NEWQDISC" "list_all rtattr_fits (kq_all k)"
proof
  let ?len = "le16 (36 + length (concat (map rtattr_octets (kq_all k)))) @ [0, 0]"
  let ?pre = "pre @ ?len @ le16 RTM_NEWQDISC @ kq_header k @ kq_fixed k"
  show "b = ?pre @ concat (map rtattr_octets (kq_all k)) @ post"
    using assms(2) by (simp add: kq_octets_def)
  show "length ?pre = length pre + 36" "list_all rtattr_fits (kq_all k)"
    using assms(1) by (simp_all add: kq_ok_def)
  show "load16 b (length pre + 4) = Inr RTM_NEWQDISC"
    by (rule load16_at [of _ _ "pre @ ?len"]) (use assms in \<open>simp_all add: kq_octets_def kq_ok_def\<close>)
qed

lemma kq_all_kind:
  "kq_ok k \<Longrightarrow> a \<in> set (kq_all k) \<Longrightarrow> fst a = TCA_KIND \<Longrightarrow>
     snd a = map byte_of_char (kq_kind k) @ [0] \<and> CHR 0x00 \<notin> set (kq_kind k)"
  by (auto simp: kq_ok_def kq_all_def list_all_iff)

lemma tas_message_quiet:
  assumes "kq_ok k" "kq_kind k \<noteq> ''taprio''" "b = pre @ kq_octets k @ post"
  shows "tas_message now h b (length pre) (length (kq_octets k)) rules = Some (Inr (rules, False))"
proof -
  obtain pre' where b: "b = pre' @ concat (map rtattr_octets (kq_all k)) @ post" and len: "length pre' = length pre + 36"
    and type: "load16 b (length pre + 4) = Inr RTM_NEWQDISC" and fits: "list_all rtattr_fits (kq_all k)"
    using kq_split [OF assms(1,3)] .
  have step: "tas_attribute_round now h b (p, l, x)
      = Some (Inr (Some (p + align4 (4 + length (snd a)), l - int (align4 (4 + length (snd a))), x)))"
    if "a \<in> set (kq_all k)" "attribute_at b p a" "int (4 + length (snd a)) \<le> l" for a p l x
    using that names_kind_at [OF that(2), of "kq_kind k" "''taprio''"] kq_all_kind [OF assms(1) that(1)] assms(2)
    by (simp add: tas_attribute_round_def RTA_OK_def attribute_at_def)
  have "iterate (tas_attribute_round now h b) (length pre + 36, int (length (concat (map rtattr_octets (kq_all k)))), rules)
      = iterate (tas_attribute_round now h b) (length (pre' @ concat (map rtattr_octets (kq_all k))), 0, rules)"
    using attributes_fold [OF fits b, of 0 "tas_attribute_round now h b" "\<lambda>_ x. x" rules, OF _ step]
    by (simp add: len)
  moreover have "tas_attribute_round now h b (q, 0, rules) = Some (Inr None)" for q
    by (simp add: tas_attribute_round_def RTA_OK_def)
  ultimately show ?thesis
    using type kq_length [OF assms(1)] by (simp add: tas_message_def add.assoc)
qed

lemma cbs_message_quiet:
  assumes "kq_ok k" "kq_kind k \<noteq> ''cbs''" "b = pre @ kq_octets k @ post"
  shows "cbs_message b (length pre) (length (kq_octets k)) rules = Some (Inr (rules, False))"
proof -
  obtain pre' where b: "b = pre' @ concat (map rtattr_octets (kq_all k)) @ post" and len: "length pre' = length pre + 36"
    and type: "load16 b (length pre + 4) = Inr RTM_NEWQDISC" and fits: "list_all rtattr_fits (kq_all k)"
    using kq_split [OF assms(1,3)] .
  have body: "cbs_attribute b (fst a) p x = Inr x" if "a \<in> set (kq_all k)" "attribute_at b p a" for a p x
    using names_kind_at [OF that(2), of "kq_kind k" "''cbs''"] kq_all_kind [OF assms(1) that(1)] assms(2)
    by (simp add: cbs_attribute_def)
  have "attribute_walk b (cbs_attribute b) (length pre') (int (length (concat (map rtattr_octets (kq_all k)))) + 0) rules
      = Some (Inr (fold (\<lambda>_ x. x) (kq_all k) rules))"
    by (rule attribute_walk_is_fold [OF fits b]) (simp_all add: RTA_OK_def body)
  then show ?thesis
    using type kq_length [OF assms(1)] by (simp add: cbs_message_def len add.assoc)
qed

lemma load32_fault: "load32 b p = Inl e \<Longrightarrow> e = UndefinedBehaviour"
  by (auto simp: load32_def load16_def load_def split: if_split_asm)

lemma cbs_attribute_fails:
  assumes "names_kind ''cbs'' b t p = Inr True"
  shows "cbs_attribute b t p [] = Inl UndefinedBehaviour"
proof (cases "load32 b (p + 4 + 4)")
  case (Inl e)
  then show ?thesis
    using assms load32_fault by (auto simp: cbs_attribute_def load_int_def)
next
  case (Inr n)
  then show ?thesis
    using assms load32_fault [of b "p + 4 + 12"]
    by (cases "load32 b (p + 4 + 12)")
      (auto simp: cbs_attribute_def load_int_def Let_def map_assign_def map_at_def cbs_append_def)
qed

lemma cbs_message_fails:
  assumes "kq_ok k" "kq_kind k = ''cbs''" "b = pre @ kq_octets k @ post"
  shows "cbs_message b (length pre) (length (kq_octets k)) [] = Some (Inl UndefinedBehaviour)"
proof -
  obtain pre' where b: "b = pre' @ concat (map rtattr_octets (kq_all k)) @ post" and len: "length pre' = length pre + 36"
    and type: "load16 b (length pre + 4) = Inr RTM_NEWQDISC" and fits: "list_all rtattr_fits (kq_all k)"
    using kq_split [OF assms(1,3)] .
  let ?a = "(TCA_KIND, map byte_of_char ''cbs'' @ [0])" and ?total = "int (length (concat (map rtattr_octets (kq_all k))))"
  have at: "attribute_at b (length pre + 36) ?a"
    using attribute_at_app [of ?a b pre' "concat (map rtattr_octets (kq_attributes k)) @ post"] b fits assms(2)
    by (simp add: kq_all_def len)
  have room: "int (4 + length (snd ?a)) \<le> ?total"
    by (simp add: kq_all_def assms(2) align4_def)
  have "cbs_attribute b TCA_KIND (length pre + 36) [] = Inl UndefinedBehaviour"
    using names_kind_at [OF at, of "''cbs''" "''cbs''"] by (intro cbs_attribute_fails) simp
  then have "attribute_round b (cbs_attribute b) (length pre + 36, ?total, []) = Inl UndefinedBehaviour"
    using at room by (simp add: attribute_round_def RTA_OK_def attribute_at_def)
  then show ?thesis
    using type kq_length [OF assms(1)] by (simp add: cbs_message_def attribute_walk_def add.assoc)
qed

subsection \<open>Disciplines of the time-aware shaper\<close>

lemma parse_rtattr_flags_table:
  assumes "list_all rtattr_fits as" "b = pre @ concat (map rtattr_octets as) @ post" "p = length pre"
    and "len = int (length (concat (map rtattr_octets as)))"
  shows "\<exists>tb. parse_rtattr_flags b h p len NLA_F_NESTED = Some (Inr tb) \<and> attribute_table b h (typed_options as) tb"
  using table_of_attributes [OF assms(1,2), of h "masked_type NLA_F_NESTED"]
  by (auto simp: parse_rtattr_flags_def typed_options_def assms(3,4))

lemma load_uint_in: "p + 4 \<le> length b \<Longrightarrow> \<exists>v. load_uint b p = Inr v"
  using load32_in by (auto simp: load_uint_def)

lemma load_long_in: "p + 8 \<le> length b \<Longrightarrow> \<exists>v. load_long b p = Inr v"
  using load32_in [of p b] load32_in [of "p + 4" b] by (auto simp: load_long_def load64_def)

lemma queue_options_in:
  assumes "load_octets b p 82 = Inr q" "unat (q ! 0) \<le> 16"
  shows "\<exists>m qs. queue_options b p = Inr (q ! 0, m, qs)"
proof -
  have bound: "p + 82 \<le> length b"
    using load_octets_bound [OF assms(1)] by simp
  have "\<exists>qs. map_res (\<lambda>i.
      if i < 16 then and_then (load16 b (p + 18 + 2 * i)) (\<lambda>count.
        and_then (load16 b (p + 50 + 2 * i)) (\<lambda>offset. Inr (word_of_nat count, word_of_nat offset)))
      else Inl UndefinedBehaviour) [0..<unat (q ! 0)] = Inr (qs :: (byte \<times> byte) list)"
    by (rule exI, rule map_res_Inr) (use bound assms(2) in \<open>simp add: load16_in\<close>)
  moreover have "load b p = Inr (q ! 0)"
    using load_octets_nth [OF assms(1), of 0] by simp
  ultimately show ?thesis
    using load_octets_in [of "p + 1" 15 b] bound by (auto simp: queue_options_def)
qed

lemma schedule_entry_fails:
  assumes "entry_ok e" "attribute_at b p e" "tb ! TCA_TAPRIO_SCHED_ENTRY_INTERVAL = None"
  shows "schedule_entry b tb p = Some (Inl NullDeref)"
proof -
  obtain fields where fields: "snd e = concat (map rtattr_octets fields)" "list_all rtattr_fits fields"
    "list_all (\<lambda>a. snd a \<noteq> []) fields" "map_of (typed_options fields) TCA_TAPRIO_SCHED_ENTRY_INTERVAL \<noteq> None"
    using assms(1) by (auto simp: entry_ok_def)
  have "snd e \<noteq> []"
    using fields(1,2,4) by (cases fields) (auto simp: typed_options_def rtattr_octets_def le16_def Let_def)
  then obtain pre post where b: "b = pre @ snd e @ post" "length pre = p + 4"
    using octets_in_buffer [of b "p + 4" "snd e"] assms(2) by (auto simp: attribute_at_def)
  obtain tb' where parse: "parse_rtattr_flags b 4 (p + 4) (int (length (snd e))) NLA_F_NESTED = Some (Inr tb')"
    and table: "attribute_table b 4 (typed_options fields) tb'"
    using parse_rtattr_flags_table [OF fields(2), of b pre post "p + 4" "int (length (snd e))" 4] b fields(1) by auto
  have filled: "d \<noteq> []" if "map_of (typed_options fields) t = Some d" for t d
    using map_of_SomeD [OF that] fields(3) by (auto simp: typed_options_def list_all_iff)
  have member: "\<exists>v. table_member tb' t (load_uint b) 0 = Inr v" if "t \<le> 4" for t
    by (rule table_member_padded [OF table that]) (auto simp: filled load_uint_in)
  obtain q where "tb' ! 4 = Some q"
    using attribute_table_entry(2) [OF table, of 4] fields(4) by auto
  moreover have "RTA_PAYLOAD b p = Inr (int (length (snd e)))"
    using assms(2) by (simp add: RTA_PAYLOAD_def attribute_at_def)
  ultimately show ?thesis
    using parse member [of 1] member [of 2] member [of 3] assms(3) by (auto simp: schedule_entry_def)
qed

lemma schedule_of_fails:
  assumes "attribute_table b h (typed_options opts) tb" "options_ok opts" "has_schedule opts" "4 \<le> h"
  shows "schedule_of b tb = Some (Inl NullDeref)"
proof -
  have none: "tb ! 4 = None"
    using attribute_table_entry(1) [OF assms(1,4)] assms(2) by (simp add: options_ok_def)
  obtain d entries where d: "map_of (typed_options opts) 2 = Some d" "entries \<noteq> []"
    "d = concat (map rtattr_octets entries)" "list_all entry_ok entries"
    using assms(2,3) by (auto simp: options_ok_def has_schedule_def)
  then obtain e rest where entries: "entries = e # rest" "entry_ok e"
    by (cases entries) auto
  obtain p where p: "tb ! 2 = Some p" "load16 b p = Inr (4 + length d)" "load_octets b (p + 4) (length d) = Inr d"
    using attribute_table_entry(2) [OF assms(1) _ d(1)] assms(4) by auto
  have "d \<noteq> []"
    by (simp add: d(3) entries rtattr_octets_def le16_def Let_def)
  then obtain pre post where b: "b = pre @ d @ post" "length pre = p + 4"
    using octets_in_buffer [OF p(3)] by blast
  have fits: "rtattr_fits e"
    using entries(2) by (simp add: entry_ok_def)
  have at: "attribute_at b (p + 4) e"
    using attribute_at_app [OF fits, of b pre "concat (map rtattr_octets rest) @ post"] b by (simp add: d(3) entries)
  have "int (4 + length (snd e)) \<le> int (length d)"
    using align4_ge [of "4 + length (snd e)"] by (simp add: d(3) entries trans_le_add1 flip: of_nat_add)
  then have "schedule_round b tb (p + 4, int (length d), []) = Some (Inl NullDeref)"
    using schedule_entry_fails [OF entries(2) at none] at by (simp add: schedule_round_def RTA_OK_def attribute_at_def)
  then show ?thesis
    using p(1,2) by (simp add: schedule_of_def RTA_PAYLOAD_def)
qed

text \<open>
  With a schedule the interval of its first entry is read through a null pointer; without one the
  cycle time is uninitialised.
\<close>

definition taprio_fault :: "(nat \<times> byte list) list \<Rightarrow> fault" where
  "taprio_fault opts = (if has_schedule opts then NullDeref else UndefinedBehaviour)"

lemma taprio_rule_fails:
  assumes "attribute_table b h (typed_options opts) tb" "options_ok opts" "11 \<le> h" "tb ! 1 = Some priomap"
  shows "taprio_rule now b tb priomap = Some (Inl (taprio_fault opts))"
proof -
  let ?as = "typed_options opts"
  obtain q where q: "load_octets b (priomap + 4) 82 = Inr q" "unat (q ! 0) \<le> 16"
    using attribute_table_entry(2) [OF assms(1), of 1] assms(2-4) by (auto simp: options_ok_def)
  obtain m qs where queues: "queue_options b (priomap + 4) = Inr (q ! 0, m, qs)"
    using queue_options_in [OF q] by blast
  have size: "t \<in> {3, 8, 9} \<Longrightarrow> 8 \<le> length d" "t \<in> {5, 10, 11} \<Longrightarrow> 4 \<le> length d" if "map_of ?as t = Some d" for t d
    using map_of_SomeD [OF that] assms(2) by (auto simp: options_ok_def list_all_iff)
  have long: "\<exists>v. table_member tb t (\<lambda>p. and_then (load_long b p) (\<lambda>n. Inr (Some n))) None = Inr v"
    if "t \<in> {3, 8, 9}" for t
    by (rule table_member_defined [OF assms(1), of _ 8]) (use that assms(3) size load_long_in in \<open>fastforce+\<close>)
  have int: "\<exists>v. table_member tb t (\<lambda>p. and_then (load_int b p) (\<lambda>n. Inr (Some n))) None = Inr v" if "t = 5" for t
    by (rule table_member_defined [OF assms(1), of _ 4]) (use that assms(3) size load_int_in in \<open>fastforce+\<close>)
  have uint: "\<exists>v. table_member tb t (\<lambda>p. and_then (load_uint b p) (\<lambda>n. Inr (Some n))) None = Inr v"
    if "t \<in> {10, 11}" for t
    by (rule table_member_defined [OF assms(1), of _ 4]) (use that assms(3) size load_uint_in in \<open>fastforce+\<close>)
  show ?thesis
  proof (cases "has_schedule opts")
    case True
    then have "schedule_of b tb = Some (Inl NullDeref)"
      using schedule_of_fails [OF assms(1,2)] assms(3) by simp
    then show ?thesis
      using queues long [of 3] int [of 5] True by (auto simp: taprio_rule_def Let_def taprio_fault_def)
  next
    case False
    then have "map_of ?as 8 = None" "map_of ?as 2 = None"
      using assms(2) by (auto simp: options_ok_def has_schedule_def)
    then have "table_member tb 8 (\<lambda>p. and_then (load_long b p) (\<lambda>n. Inr (Some n))) None = Inr None" "tb ! 2 = None"
      using assms(3) table_member_absent [OF assms(1), of 8] attribute_table_entry(1) [OF assms(1), of 2] by simp_all
    then show ?thesis
      using queues long [of 3] int [of 5] uint [of 10] uint [of 11] long [of 9] False
      by (auto simp: taprio_rule_def Let_def taprio_fault_def schedule_of_def initialised_def)
  qed
qed

lemma tas_message_fails:
  assumes "kq_ok k" "kq_kind k = ''taprio''" "11 \<le> h" "b = pre @ kq_octets k @ post"
  shows "\<exists>e \<in> {NullDeref, UndefinedBehaviour}. tas_message now h b (length pre) (length (kq_octets k)) rules = Some (Inl e)"
proof -
  obtain pre' where b: "b = pre' @ concat (map rtattr_octets (kq_all k)) @ post" and len: "length pre' = length pre + 36"
    and type: "load16 b (length pre + 4) = Inr RTM_NEWQDISC" and fits: "list_all rtattr_fits (kq_all k)"
    using kq_split [OF assms(1,4)] .
  obtain opts rest where attributes: "kq_attributes k = (TCA_OPTIONS, concat (map rtattr_octets opts)) # rest"
    and ok: "options_ok opts"
    using assms(1,2) by (auto simp: kq_ok_def)
  let ?kind = "(TCA_KIND, map byte_of_char ''taprio'' @ [0])" and ?opts = "(TCA_OPTIONS, concat (map rtattr_octets opts))"
  let ?p = "length pre + 36" and ?total = "int (length (concat (map rtattr_octets (kq_all k))))"
  have split: "b = pre' @ rtattr_octets ?kind @ rtattr_octets ?opts @ concat (map rtattr_octets rest) @ post"
    using b by (simp add: kq_all_def assms(2) attributes)
  have kind: "attribute_at b ?p ?kind" and opts: "attribute_at b (?p + 12) ?opts"
    using attribute_at_app [of ?kind b pre'] attribute_at_app [of ?opts b "pre' @ rtattr_octets ?kind"] split fits
    by (simp_all add: kq_all_def assms(2) attributes len align4_def)
  have room: "int (4 + length (snd ?kind)) \<le> ?total"
    by (simp add: kq_all_def assms(2) align4_def)
  have "opts \<noteq> []" "list_all rtattr_fits opts"
    using ok by (auto simp: options_ok_def typed_options_def)
  then have "concat (map rtattr_octets opts) \<noteq> []"
    by (cases opts) (auto simp: rtattr_octets_def le16_def Let_def)
  then obtain pre2 post2 where b2: "b = pre2 @ concat (map rtattr_octets opts) @ post2" "length pre2 = ?p + 16"
    using octets_in_buffer [of b "?p + 16" "snd ?opts"] opts by (auto simp: attribute_at_def add.assoc)
  obtain tb where parse: "parse_rtattr_flags b h (?p + 16) (int (length (snd ?opts))) NLA_F_NESTED = Some (Inr tb)"
    and table: "attribute_table b h (typed_options opts) tb"
    using parse_rtattr_flags_table [OF \<open>list_all rtattr_fits opts\<close> b2(1), of "?p + 16" _ h] b2(2) by auto
  obtain priomap where priomap: "tb ! 1 = Some priomap"
    using attribute_table_entry(2) [OF table, of 1] ok assms(3) by (auto simp: options_ok_def)
  have "?p + 12 \<le> length b"
    using b2 by simp
  then obtain i where "load_int b (?p + 8) = Inr i"
    using load_int_in [of "?p + 8" b] by auto
  then have "taprio_attribute now h b (?p, ?total, rules) = Some (Inl (taprio_fault opts))"
    using kind opts parse priomap taprio_rule_fails [OF table ok assms(3) priomap]
    by (simp add: taprio_attribute_def Let_def attribute_at_def RTA_PAYLOAD_def align4_def add.assoc)
  then have "tas_attribute_round now h b (?p, ?total, rules) = Some (Inl (taprio_fault opts))"
    using names_kind_at [OF kind, of "''taprio''" "''taprio''"] kind room
    by (simp add: tas_attribute_round_def RTA_OK_def attribute_at_def)
  then have "tas_message now h b (length pre) (length (kq_octets k)) rules = Some (Inl (taprio_fault opts))"
    using type kq_length [OF assms(1)] by (simp add: tas_message_def add.assoc)
  then show ?thesis
    by (simp add: taprio_fault_def)
qed

subsection \<open>The whole dump\<close>

lemma dump_walk:
  assumes "list_all kq_ok ks" "b = concat (map kq_octets ks) @ post"
    and quiet: "\<And>k pre post x. kq_ok k \<Longrightarrow> \<not> bad k \<Longrightarrow> b = pre @ kq_octets k @ post \<Longrightarrow>
      f (length pre) (length (kq_octets k)) x = Some (Inr (x, False))"
    and fails: "\<And>k pre post. kq_ok k \<Longrightarrow> bad k \<Longrightarrow> b = pre @ kq_octets k @ post \<Longrightarrow>
      \<exists>e \<in> E. f (length pre) (length (kq_octets k)) [] = Some (Inl e)"
  shows "if list_all (\<lambda>k. \<not> bad k) ks
    then message_walk b f (int (length (concat (map kq_octets ks)))) [] = Some (Inr ([], False))
    else \<exists>e \<in> E. message_walk b f (int (length (concat (map kq_octets ks)))) [] = Some (Inl e)"
proof (cases "list_all (\<lambda>k. \<not> bad k) ks")
  case True
  have "message_walk b f (int (length (concat (map kq_octets ks)))) [] = Some (Inr (fold (\<lambda>_ x. x) ks [], False))"
  proof (rule message_walk_is_fold [OF _ assms(2)])
    fix ks1 k ks2 x
    assume "ks = ks1 @ k # ks2"
    then show "f (length (concat (map kq_octets ks1))) (length (kq_octets k)) x = Some (Inr (x, False))"
      using quiet [of k "concat (map kq_octets ks1)" "concat (map kq_octets ks2) @ post" x] True assms(1,2) by simp
  qed (use assms(1) kq_framed in \<open>auto simp: list_all_iff\<close>)
  then show ?thesis
    using True by simp
next
  case False
  then obtain ks1 k ks2 where ks: "ks = ks1 @ k # ks2" "bad k" "\<forall>k \<in> set ks1. \<not> bad k"
    using split_list_first_prop [of ks bad] by (auto simp: list_all_iff)
  then obtain e where e: "e \<in> E" "f (length (concat (map kq_octets ks1))) (length (kq_octets k)) [] = Some (Inl e)"
    using fails [of k "concat (map kq_octets ks1)" "concat (map kq_octets ks2) @ post"] assms(1,2) by auto
  have "message_walk b f (int (length (concat (map kq_octets ks1) @ kq_octets k)) + int (length (concat (map kq_octets ks2)))) []
      = Some (Inl e)"
  proof (rule message_walk_faults [where g = "\<lambda>_ x. x" and post = "concat (map kq_octets ks2) @ post"])
    fix ks3 k' ks4 x
    assume "ks1 = ks3 @ k' # ks4"
    then show "f (length (concat (map kq_octets ks3))) (length (kq_octets k')) x = Some (Inr (x, False))"
      using quiet [of k' "concat (map kq_octets ks3)" "concat (map kq_octets (ks4 @ k # ks2)) @ post" x] ks assms(1,2) by simp
  qed (use assms(1,2) ks e kq_framed in \<open>auto simp: list_all_iff\<close>)
  then show ?thesis
    using False e(1) by (auto simp: ks(1) add.assoc)
qed

lemma snap_cbs_fails:
  assumes "qdisc_dump linux = Inr (concat (map kq_octets ks) @ post, int (length (concat (map kq_octets ks))))"
    and "list_all kq_ok ks" "list_ex (\<lambda>k. kq_kind k = ''cbs'') ks"
  shows "snap_cbs_via_linux_tc linux l = Some (Inl UndefinedBehaviour)"
proof -
  let ?b = "concat (map kq_octets ks) @ post" and ?len = "int (length (concat (map kq_octets ks)))"
  have "if list_all (\<lambda>k. kq_kind k \<noteq> ''cbs'') ks
      then message_walk ?b (cbs_message ?b) ?len [] = Some (Inr ([], False))
      else \<exists>e \<in> {UndefinedBehaviour}. message_walk ?b (cbs_message ?b) ?len [] = Some (Inl e)"
    by (rule dump_walk [OF assms(2) refl]) (blast intro: cbs_message_quiet cbs_message_fails)+
  moreover have "\<not> list_all (\<lambda>k. kq_kind k \<noteq> ''cbs'') ks"
    using assms(3) by (auto simp: list_all_iff list_ex_iff)
  ultimately show ?thesis
    using assms(1) by (simp add: snap_cbs_via_linux_tc_def)
qed

text \<open>The message that ends a dump: its length, 20 octets, and the type \<open>NLMSG_DONE\<close>.\<close>

definition done_octets :: "byte list \<Rightarrow> byte list" where
  "done_octets rest = le16 20 @ [0, 0] @ le16 3 @ rest"

lemma snap_cbs_reads_done:
  assumes "qdisc_dump linux = Inr (done_octets rest @ post, 20)" "length rest = 14"
  shows "snap_cbs_via_linux_tc linux l = Some (Inr (l \<lparr> lat_cbs := [] \<rparr>))"
proof -
  let ?b = "done_octets rest @ post"
  have framed: "framed (done_octets rest)" and len: "length (done_octets rest) = 20"
    using assms(2) by (simp_all add: framed_def done_octets_def le16_def)
  have "load16 ?b 4 = Inr 3"
    by (rule load16_at [of _ _ "le16 20 @ [0, 0]"]) (simp_all add: done_octets_def)
  then have "cbs_message ?b 0 n x = Some (Inr (x, False))" for n x
    by (simp add: cbs_message_def)
  then have "message_walk ?b (cbs_message ?b) (int (length (concat (map done_octets [rest])))) []
      = Some (Inr (fold (\<lambda>_ x. x) [rest] [], False))"
    by (intro message_walk_is_fold [of done_octets "[rest]" ?b post]) (simp_all add: framed Cons_eq_append_conv)
  then show ?thesis
    using assms(1) len by (simp add: snap_cbs_via_linux_tc_def)
qed

text \<open>
  C38. The snapshot of the shaping rules never reports a rule.  Let the first read see queueing
  disciplines as the kernel dumps them, with schedules or without, and the second read anything at
  all.  If one of the disciplines is a time-aware shaper the snapshot fails: the interval of a
  schedule entry is looked up in the wrong table and read through a null pointer, and without a
  schedule the cycle time is uninitialised.  Otherwise the snapshot ends, and if it returns both
  tables of rules are empty, although the disciplines may be credit-based shapers.  It does return
  when the second read sees the message that ended the first dump, and it fails when it sees a dump
  with a credit-based shaper, whose parameters are appended to a vector that does not exist.
\<close>

theorem latency_snapshot_finds_no_rules:
  assumes "list_all kq_ok ks" "11 \<le> TCA_TAPRIO_ATTR_MAX"
    and "qdisc_dump linux = Inr (concat (map kq_octets ks) @ post, int (length (concat (map kq_octets ks))))"
  shows "if list_all (\<lambda>k. kq_kind k \<noteq> ''taprio'') ks
    then (\<exists>r. Latency_snap now TCA_TAPRIO_ATTR_MAX linux linux' l = Some r
            \<and> (\<forall>l'. r = Inr l' \<longrightarrow> l' = l \<lparr> lat_tas := [], lat_cbs := [] \<rparr>)
            \<and> (qdisc_dump linux' = Inr (done_octets rest @ post', 20) \<and> length rest = 14 \<longrightarrow>
                 r = Inr (l \<lparr> lat_tas := [], lat_cbs := [] \<rparr>))
            \<and> (qdisc_dump linux' = Inr (concat (map kq_octets ks') @ post', int (length (concat (map kq_octets ks'))))
                 \<and> list_all kq_ok ks' \<and> list_ex (\<lambda>k. kq_kind k = ''cbs'') ks' \<longrightarrow> r = Inl UndefinedBehaviour))
    else \<exists>e \<in> {NullDeref, UndefinedBehaviour}. Latency_snap now TCA_TAPRIO_ATTR_MAX linux linux' l = Some (Inl e)"
proof -
  let ?b = "concat (map kq_octets ks) @ post" and ?E = "{NullDeref, UndefinedBehaviour}" and ?h = TCA_TAPRIO_ATTR_MAX
  let ?len = "int (length (concat (map kq_octets ks)))"
  have tas: "if list_all (\<lambda>k. kq_kind k \<noteq> ''taprio'') ks
      then message_walk ?b (tas_message now ?h ?b) ?len [] = Some (Inr ([], False))
      else \<exists>e \<in> ?E. message_walk ?b (tas_message now ?h ?b) ?len [] = Some (Inl e)"
    by (rule dump_walk [OF assms(1) refl]) (blast intro: tas_message_quiet tas_message_fails [OF _ _ assms(2)])+
  show ?thesis
  proof (cases "list_all (\<lambda>k. kq_kind k \<noteq> ''taprio'') ks")
    case False
    then obtain e where "e \<in> ?E" "message_walk ?b (tas_message now ?h ?b) ?len [] = Some (Inl e)"
      using tas by auto
    then have "e \<in> ?E \<and> Latency_snap now ?h linux linux' l = Some (Inl e)"
      using assms(3) by (simp add: Latency_snap_def snap_tas_via_linux_tc_def)
    then show ?thesis
      using False by auto
  next
    case True
    then have snap: "Latency_snap now ?h linux linux' l = snap_cbs_via_linux_tc linux' (l \<lparr> lat_tas := [] \<rparr>)"
      using tas assms(3) by (simp add: Latency_snap_def snap_tas_via_linux_tc_def)
    obtain r where r: "snap_cbs_via_linux_tc linux' (l \<lparr> lat_tas := [] \<rparr>) = Some r"
      using Latency_snap_terminates [of now ?h linux linux' l] snap by auto
    have "l' = l \<lparr> lat_tas := [], lat_cbs := [] \<rparr>" if "r = Inr l'" for l'
      using snap_cbs_returns [of linux' "l \<lparr> lat_tas := [] \<rparr>" l'] r that by simp
    moreover have "r = Inr (l \<lparr> lat_tas := [], lat_cbs := [] \<rparr>)"
      if "qdisc_dump linux' = Inr (done_octets rest @ post', 20)" "length rest = 14"
      using snap_cbs_reads_done [OF that] r by simp
    moreover have "r = Inl UndefinedBehaviour"
      if "qdisc_dump linux' = Inr (concat (map kq_octets ks') @ post', int (length (concat (map kq_octets ks'))))"
        "list_all kq_ok ks'" "list_ex (\<lambda>k. kq_kind k = ''cbs'') ks'"
      using snap_cbs_fails [OF that] r by simp
    ultimately show ?thesis
      unfolding if_P [OF True] snap r by (intro exI [of _ r]) blast
  qed
qed

definition sample_options :: "(nat \<times> byte list) list" where
  "sample_options =
     [(1, 3 # replicate 81 0), (3, replicate 8 0), (8, replicate 8 0), (9, replicate 8 0),
      (2, rtattr_octets (1, concat (map rtattr_octets [(1, [0, 0, 0, 0]), (2, [0]), (3, [3, 0, 0, 0]), (4, [64, 66, 15, 0])])))]"

definition sample_taprio :: kernel_qdisc where
  "sample_taprio =
     \<lparr> kq_header = replicate 10 0, kq_fixed = replicate 20 0, kq_kind = ''taprio'',
       kq_attributes = [(TCA_OPTIONS, concat (map rtattr_octets sample_options))] \<rparr>"

lemma masked_small: "t < 2 ^ 15 \<Longrightarrow> masked_type NLA_F_NESTED t = t"
proof -
  assume "t < 2 ^ 15"
  moreover have "not NLA_F_NESTED = mask 15"
    by (simp add: NLA_F_NESTED_def mask_eq_exp_minus_1)
  ultimately show ?thesis
    by (simp add: masked_type_def take_bit_eq_mask [symmetric] unsigned_take_bit_eq unat_of_nat)
      (simp add: take_bit_eq_mod)
qed

lemma sample_schedule_entry_ok: "entry_ok (1, concat (map rtattr_octets [(1, [0, 0, 0, 0]), (2, [0]), (3, [3, 0, 0, 0]), (4, [64, 66, 15, 0])]))"
  unfolding entry_ok_def
  by (intro conjI exI [of _ "[(1, [0, 0, 0, 0]), (2, [0]), (3, [3, 0, 0, 0]), (4, [64, 66, 15, 0])]"])
    (simp_all add: rtattr_fits_def typed_options_def masked_small align4_def)

lemma sample_options_ok: "options_ok sample_options"
proof -
  let ?e = "(1, concat (map rtattr_octets [(1, [0, 0, 0, 0]), (2, [0]), (3, [3, 0, 0, 0]), (4, [64, 66, 15, 0])])) :: nat \<times> byte list"
  have "\<exists>entries. entries \<noteq> [] \<and> rtattr_octets ?e = concat (map rtattr_octets entries) \<and> list_all entry_ok entries"
    by (rule exI [of _ "[?e]"]) (use sample_schedule_entry_ok in simp)
  then show ?thesis
    unfolding options_ok_def
    by (simp add: sample_options_def typed_options_def masked_small rtattr_fits_def align4_def)
qed

lemma sample_taprio_ok: "kq_ok sample_taprio"
proof -
  have "length (concat (map rtattr_octets sample_options)) = 164"
    by (simp add: sample_options_def align4_def)
  then show ?thesis
    using sample_options_ok by (auto simp: kq_ok_def kq_all_def sample_taprio_def rtattr_fits_def align4_def)
qed

definition sample_cbs :: kernel_qdisc where
  "sample_cbs = \<lparr> kq_header = replicate 10 0, kq_fixed = replicate 20 0, kq_kind = ''cbs'', kq_attributes = [] \<rparr>"

definition answer_with :: "byte list \<Rightarrow> netlink_request \<Rightarrow> netlink_answer" where
  "answer_with octets request =
     \<lparr> nl_socket = 3, nl_bind = 0, nl_send = 36, nl_recv = int (length octets), nl_buffer = octets @ replicate 40 0 \<rparr>"

lemma answer_with_dump: "qdisc_dump (answer_with octets) = Inr (octets @ replicate 40 0, int (length octets))"
  by (simp add: qdisc_dump_def answer_with_def)

lemma sample_cbs_ok: "kq_ok sample_cbs"
  by (simp add: kq_ok_def kq_all_def sample_cbs_def rtattr_fits_def align4_def)

text \<open>
  A schedule with one entry, its command in one octet; and a credit-based shaper, first followed by
  the end of its dump, then by a second dump.
\<close>

theorem latency_snapshot_finds_no_rules_witness:
  "let l = \<lparr> lat_tas = [], lat_cbs = [], lat_json_formatted_output = False, lat_output_type = 1 \<rparr>;
       taprio = answer_with (kq_octets sample_taprio); cbs = answer_with (kq_octets sample_cbs);
       ended = answer_with (done_octets (replicate 14 0)) in
     (\<exists>e \<in> {NullDeref, UndefinedBehaviour}. Latency_snap (0, 0) 12 taprio ended l = Some (Inl e))
     \<and> Latency_snap (0, 0) 12 cbs ended l = Some (Inr l)
     \<and> Latency_snap (0, 0) 12 cbs cbs l = Some (Inl UndefinedBehaviour)"
proof -
  let ?l = "\<lparr> lat_tas = [], lat_cbs = [], lat_json_formatted_output = False, lat_output_type = 1 \<rparr>"
  let ?ended = "answer_with (done_octets (replicate 14 0))"
  have kinds: "kq_kind sample_taprio = ''taprio''" "kq_kind sample_cbs = ''cbs''"
    by (simp_all add: sample_taprio_def sample_cbs_def)
  have len: "int (length (done_octets (replicate 14 0))) = 20"
    by (simp add: done_octets_def)
  note snap = latency_snapshot_finds_no_rules [where TCA_TAPRIO_ATTR_MAX = 12 and now = "(0, 0)" and l = ?l
      and post = "replicate 40 0" and post' = "replicate 40 0" and rest = "replicate 14 0" and ks' = "[sample_cbs]"]
  show ?thesis
    using snap [of "[sample_taprio]" "answer_with (kq_octets sample_taprio)" ?ended]
      snap [of "[sample_cbs]" "answer_with (kq_octets sample_cbs)" ?ended]
      snap [of "[sample_cbs]" "answer_with (kq_octets sample_cbs)" "answer_with (kq_octets sample_cbs)"]
      sample_taprio_ok sample_cbs_ok kinds len
    by (simp add: answer_with_dump Let_def)
qed

section \<open>What is shown by default\<close>

text \<open>Of the four kinds of rules a new source shows those of the credit-based shaper only.\<close>

lemma default_output_shows_cbs_only:
  assumes "Latency_new r = Inr l"
  shows "Latency_print writer l = print_latency_cbs l"
proof -
  have l: "lat_output_type l = 1" "\<not> lat_json_formatted_output l"
    using assms by (auto simp: Latency_new_def OUTPUT_LATENCY_TYPE_ALL_def)
  then show ?thesis
    by (cases "print_latency_cbs l") (simp_all add: Latency_print_def parts_def)
qed

section \<open>Synchronisation\<close>

text \<open>
  The source for the state of the clocks (\<open>data-sources/synchronization/synchronization.cpp\<close>) reads
  nothing yet: a snapshot has an empty body and the document is an empty object.
\<close>

record Synchronization =
  syn_json_formatted_output :: bool
  syn_output_type :: byte

definition Synchronization_new :: Synchronization where
  "Synchronization_new = \<lparr> syn_json_formatted_output = False, syn_output_type = 1 \<rparr>"

definition Synchronization_snap :: "Synchronization \<Rightarrow> Synchronization" where
  "Synchronization_snap s = s"

definition Synchronization_enable_json_output :: "Synchronization \<Rightarrow> Synchronization" where
  "Synchronization_enable_json_output s = s \<lparr> syn_json_formatted_output := True \<rparr>"

definition Synchronization_disable_json_output :: "Synchronization \<Rightarrow> Synchronization" where
  "Synchronization_disable_json_output s = s \<lparr> syn_json_formatted_output := False \<rparr>"

definition Synchronization_set_output :: "byte \<Rightarrow> Synchronization \<Rightarrow> Synchronization" where
  "Synchronization_set_output type s = s \<lparr> syn_output_type := type \<rparr>"

definition Synchronization_json :: "Synchronization \<Rightarrow> rapid" where
  "Synchronization_json s = RObject []"

end
