(* ===== verification/Timers.thy ===== *)
theory Timers
  imports Handler Threads Loops
begin

text \<open>
  The timers of a session in time (\<open>structs/timeouts/\<close>, \<open>structs/timeout_handler.cpp\<close>).  The node
  takes a timer as something that may expire at any moment; here is what the threads behind it do,
  on a clock of milliseconds that starts with the thread.

  A timer consists of two threads.  The function \<open>timer\<close> starts an asynchronous one that sleeps for
  the time of the timer and then calls what the timer was given.  The thread of the timer polls the
  future of the first; when it leaves its function, the destructor of that future waits for the
  asynchronous thread, as \<open>std::async\<close> prescribes.  How much longer than asked a sleep or a wait
  takes, and how long the call takes, are arguments.
\<close>

section \<open>The times\<close>

fun RANK_TIMEOUT_VALUE :: "TimeoutType \<Rightarrow> nat" where
  "RANK_TIMEOUT_VALUE EAR = 60000"
| "RANK_TIMEOUT_VALUE MAR = 120000"
| "RANK_TIMEOUT_VALUE BID = 120000"
| "RANK_TIMEOUT_VALUE AUCT = 120000"
| "RANK_TIMEOUT_VALUE REP = 60000"

text \<open>The asynchronous thread: when it calls, and when its future is ready.\<close>

record scheduling =
  sleep_late :: nat
  call_takes :: nat
  poll_late :: "nat \<Rightarrow> nat"
  wait_late :: "nat \<Rightarrow> nat"

definition call_time :: "scheduling \<Rightarrow> TimeoutType \<Rightarrow> nat" where
  "call_time S t = RANK_TIMEOUT_VALUE t + sleep_late S"

definition ready_time :: "scheduling \<Rightarrow> TimeoutType \<Rightarrow> nat" where
  "ready_time S t = call_time S t + call_takes S"

section \<open>One timer\<close>

record Timeout =
  to_type :: TimeoutType
  to_handler :: haddr
  to_thread :: worker

definition Timeout_new :: "haddr \<Rightarrow> TimeoutType \<Rightarrow> Timeout" where
  "Timeout_new a t = \<lparr> to_type = t, to_handler = a, to_thread = idle_worker \<rparr>"

definition Timeout_execute :: "Timeout \<Rightarrow> Timeout res" where
  "Timeout_execute x = and_then (worker_execute (to_thread x)) (\<lambda>w. Inr (x \<lparr> to_thread := w \<rparr>))"

definition Timeout_stop :: "bool \<Rightarrow> Timeout \<Rightarrow> Timeout res" where
  "Timeout_stop own x = and_then (worker_stop own (to_thread x)) (\<lambda>w. Inr (x \<lparr> to_thread := w \<rparr>))"

definition Timeout_signal_stop :: "Timeout \<Rightarrow> Timeout" where
  "Timeout_signal_stop x =
     (if \<not> is_running (to_thread x) then x else x \<lparr> to_thread := (to_thread x) \<lparr> is_running := False \<rparr> \<rparr>)"

text \<open>The thread: the round, the time and the timer.\<close>

record timer_thread =
  tt_round :: nat
  tt_clock :: nat
  tt_timeout :: Timeout

text \<open>\<open>future.wait_for(1ms)\<close>: the time after it.\<close>

definition wait_for :: "scheduling \<Rightarrow> TimeoutType \<Rightarrow> nat \<Rightarrow> nat \<Rightarrow> nat" where
  "wait_for S t k now = (if ready_time S t \<le> now then now else now + 1 + wait_late S k)"

definition poll_future :: "scheduling \<Rightarrow> nat \<Rightarrow> timer_thread \<Rightarrow> timer_thread" where
  "poll_future S now x =
     (let t = to_type (tt_timeout x);
          now = wait_for S t (tt_round x) now in
      x \<lparr> tt_round := tt_round x + 1, tt_clock := now,
          tt_timeout := (if ready_time S t \<le> now then Timeout_signal_stop (tt_timeout x) else tt_timeout x) \<rparr>)"

text \<open>One round of the loop of \<open>EARTimeout\<close>, \<open>MARTimeout\<close>, \<open>BIDTimeout\<close> and \<open>REPTimeout\<close>.\<close>

definition sleeping_round :: "scheduling \<Rightarrow> timer_thread \<Rightarrow> timer_thread option run" where
  "sleeping_round S x =
     (if \<not> is_running (to_thread (tt_timeout x)) then Some (Inr None)
      else Some (Inr (Some (poll_future S (tt_clock x + 1000 + poll_late S (tt_round x)) x))))"

text \<open>One round of the loop of \<open>AUCTTimeout\<close>; \<open>arrived\<close> tells when all bids have arrived.  Leaving the
  loop with \<open>break\<close> is the next test, which finds the flag cleared.\<close>

definition auction_round :: "scheduling \<Rightarrow> (nat \<Rightarrow> bool) \<Rightarrow> timer_thread \<Rightarrow> timer_thread option run" where
  "auction_round S arrived x =
     (if \<not> is_running (to_thread (tt_timeout x)) then Some (Inr None)
      else if arrived (tt_clock x) then Some (Inr (Some (x \<lparr> tt_timeout := Timeout_signal_stop (tt_timeout x) \<rparr>)))
      else Some (Inr (Some (poll_future S (tt_clock x) x))))"

definition timer_round :: "scheduling \<Rightarrow> (nat \<Rightarrow> bool) \<Rightarrow> timer_thread \<Rightarrow> timer_thread option run" where
  "timer_round S arrived x =
     (if to_type (tt_timeout x) = AUCT then auction_round S arrived x else sleeping_round S x)"

text \<open>The function of the thread: when it calls what the timer was given, when it is over, and the
  timer it leaves.\<close>

definition Timeout_operator :: "scheduling \<Rightarrow> (nat \<Rightarrow> bool) \<Rightarrow> Timeout \<Rightarrow> (nat list \<times> nat \<times> Timeout) run" where
  "Timeout_operator S arrived timeout =
     run_then (iterate (timer_round S arrived) \<lparr> tt_round = 0, tt_clock = 0, tt_timeout = timeout \<rparr>) (\<lambda>x.
       let t = to_type timeout in
       Some (Inr ([call_time S t], max (tt_clock x) (ready_time S t), tt_timeout x)))"

section \<open>The timers of a node\<close>

record TimeoutHandler =
  th_timeouts :: "TimeoutType \<Rightarrow> Timeout list"
  th_thread :: worker

definition TimeoutHandler_new :: TimeoutHandler where
  "TimeoutHandler_new = \<lparr> th_timeouts = (\<lambda>t. []), th_thread = idle_worker \<rparr>"

definition TimeoutHandler_initiate_timeout :: "haddr \<Rightarrow> TimeoutType \<Rightarrow> TimeoutHandler \<Rightarrow> TimeoutHandler res" where
  "TimeoutHandler_initiate_timeout a t H =
     and_then (Timeout_execute (Timeout_new a t)) (\<lambda>event.
       Inr (H \<lparr> th_timeouts := (th_timeouts H)(t := th_timeouts H t @ [event]) \<rparr>))"

definition TimeoutHandler_execute :: "TimeoutHandler \<Rightarrow> TimeoutHandler res" where
  "TimeoutHandler_execute H = and_then (worker_execute (th_thread H)) (\<lambda>w. Inr (H \<lparr> th_thread := w \<rparr>))"

definition TimeoutHandler_stop :: "bool \<Rightarrow> TimeoutHandler \<Rightarrow> TimeoutHandler res" where
  "TimeoutHandler_stop own H = and_then (worker_stop own (th_thread H)) (\<lambda>w. Inr (H \<lparr> th_thread := w \<rparr>))"

section \<open>A timer calls once\<close>

text \<open>
  What the loop keeps: the timer is the one it was started with, perhaps with its flag cleared; while
  the flag is set the future is not ready; and the clock is not far beyond that, if the scheduler is
  never late by more than \<open>D\<close>.
\<close>

definition punctual :: "scheduling \<Rightarrow> nat \<Rightarrow> bool" where
  "punctual S D \<longleftrightarrow> (\<forall>k. poll_late S k \<le> D \<and> wait_late S k \<le> D)"

definition timer_inv :: "scheduling \<Rightarrow> nat \<Rightarrow> Timeout \<Rightarrow> timer_thread \<Rightarrow> bool" where
  "timer_inv S D timeout x \<longleftrightarrow>
     (tt_timeout x = timeout \<and> tt_clock x < ready_time S (to_type timeout) \<or> tt_timeout x = Timeout_signal_stop timeout)
     \<and> is_running (to_thread timeout)
     \<and> (punctual S D \<longrightarrow> tt_clock x < ready_time S (to_type timeout) + 1000 + D)"

definition timer_left :: "scheduling \<Rightarrow> timer_thread \<Rightarrow> nat" where
  "timer_left S x =
     (if is_running (to_thread (tt_timeout x)) then ready_time S (to_type (tt_timeout x)) - tt_clock x + 1 else 0)"

lemma signal_stop_facts [simp]:
  "to_type (Timeout_signal_stop x) = to_type x"
  "\<not> is_running (to_thread (Timeout_signal_stop x))"
  "thread_joinable (to_thread (Timeout_signal_stop x)) = thread_joinable (to_thread x)"
  by (simp_all add: Timeout_signal_stop_def)

lemma ready_time_positive: "0 < ready_time S t"
  by (cases t) (simp_all add: ready_time_def call_time_def)

lemmas timer_defs = timer_round_def sleeping_round_def auction_round_def poll_future_def wait_for_def Let_def

text \<open>Polling the future later than now: the flag is cleared exactly when the future is ready.\<close>

lemma poll_future_inv:
  assumes "tt_timeout x = timeout" "is_running (to_thread timeout)" "tt_clock x < ready_time S (to_type timeout)"
    and "tt_clock x \<le> now" "punctual S D \<longrightarrow> now \<le> tt_clock x + 1000 + D"
  shows "timer_inv S D timeout (poll_future S now x) \<and> timer_left S (poll_future S now x) < timer_left S x"
proof -
  have late: "punctual S D \<Longrightarrow> wait_late S k \<le> D" for k
    by (simp add: punctual_def)
  show ?thesis
    using assms late [of "tt_round x"]
    by (auto simp: timer_inv_def timer_left_def poll_future_def wait_for_def Let_def)
qed

lemma timer_round_inv:
  assumes "timer_inv S D timeout x" "timer_round S arrived x = Some (Inr (Some x'))"
  shows "timer_inv S D timeout x' \<and> timer_left S x' < timer_left S x"
proof -
  have running: "is_running (to_thread (tt_timeout x))"
    using assms(2) by (auto simp: timer_defs split: if_splits)
  then have x: "tt_timeout x = timeout" "tt_clock x < ready_time S (to_type timeout)"
    using assms(1) by (auto simp: timer_inv_def)
  show ?thesis
  proof (cases "x' = x \<lparr> tt_timeout := Timeout_signal_stop timeout \<rparr>")
    case True
    then show ?thesis
      using assms(1) running x by (simp add: timer_inv_def timer_left_def)
  next
    case False
    then obtain now where "x' = poll_future S now x" "tt_clock x \<le> now" "punctual S D \<longrightarrow> now \<le> tt_clock x + 1000 + D"
      using assms(2) x(1) running
      by (auto simp: timer_round_def sleeping_round_def auction_round_def punctual_def split: if_splits)
    then show ?thesis
      using poll_future_inv [OF x(1) _ x(2)] running x(1) by simp
  qed
qed

interpretation timer_loop: bounded_loop "timer_round S arrived" "timer_inv S D timeout" "timer_left S"
  for S arrived D timeout
  by unfold_locales (use timer_round_inv in \<open>auto simp: timer_round_def sleeping_round_def auction_round_def\<close>)

lemma timer_round_no_fault: "timer_round S arrived x \<noteq> Some (Inl e)"
  by (simp add: timer_round_def sleeping_round_def auction_round_def)

lemma timer_thread_ends:
  assumes "is_running (to_thread timeout)"
  obtains x where "iterate (timer_round S arrived) \<lparr> tt_round = 0, tt_clock = 0, tt_timeout = timeout \<rparr> = Some (Inr x)"
    "tt_timeout x = Timeout_signal_stop timeout"
    "punctual S D \<longrightarrow> tt_clock x < ready_time S (to_type timeout) + 1000 + D"
proof -
  let ?x = "\<lparr> tt_round = 0, tt_clock = 0, tt_timeout = timeout \<rparr>"
  have inv: "timer_inv S D timeout ?x"
    using assms ready_time_positive by (simp add: timer_inv_def)
  obtain x where x: "iterate (timer_round S arrived) ?x = Some (Inr x)"
    using timer_loop.terminates [OF inv] timer_loop.faults [OF inv] timer_round_no_fault
    by (metis option.exhaust sum.exhaust)
  with timer_loop.returns [OF inv x] assms that show ?thesis
    by (auto simp: timer_inv_def timer_round_def sleeping_round_def auction_round_def split: if_splits)
qed

text \<open>
  C37. A timer that is started calls what it was given exactly once: when its time is over and not
  before, whatever the scheduler does and whether or not all bids arrive earlier, so that nothing
  cancels it.  Its thread ends by itself, not before the call has returned, and less than a second
  (and the lateness of the scheduler) after it.
\<close>

theorem timer_calls_once:
  "\<exists>x end_time. Timeout_execute (Timeout_new a t) = Inr x
     \<and> Timeout_operator S arrived x
         = Some (Inr ([RANK_TIMEOUT_VALUE t + sleep_late S], end_time, Timeout_signal_stop x))
     \<and> ready_time S t \<le> end_time \<and> (punctual S D \<longrightarrow> end_time < ready_time S t + 1000 + D)"
proof -
  let ?x = "\<lparr> to_type = t, to_handler = a, to_thread = \<lparr> is_running = True, thread_joinable = True \<rparr> \<rparr>"
  have start: "Timeout_execute (Timeout_new a t) = Inr ?x"
    by (simp add: Timeout_execute_def Timeout_new_def worker_execute_ok)
  obtain y where "iterate (timer_round S arrived) \<lparr> tt_round = 0, tt_clock = 0, tt_timeout = ?x \<rparr> = Some (Inr y)"
    "tt_timeout y = Timeout_signal_stop ?x" "punctual S D \<longrightarrow> tt_clock y < ready_time S t + 1000 + D"
    by (rule timer_thread_ends [of ?x S arrived D]) simp_all
  with start show ?thesis
    by (auto simp: Timeout_operator_def call_time_def)
qed

definition sample_scheduling :: scheduling where
  "sample_scheduling = \<lparr> sleep_late = 3, call_takes = 2, poll_late = (\<lambda>k. k mod 5), wait_late = (\<lambda>k. 0) \<rparr>"

theorem timer_calls_once_witness:
  "\<exists>x end_time. Timeout_operator sample_scheduling (\<lambda>now. 10 \<le> now) x = Some (Inr ([120003], end_time, Timeout_signal_stop x))
     \<and> 120005 \<le> end_time \<and> end_time < 121009"
proof -
  have "punctual sample_scheduling 4"
  proof -
    have "k mod 5 \<le> 4" for k :: nat by (rule less_Suc_eq_le [THEN iffD1]) simp
    then show ?thesis by (simp add: punctual_def sample_scheduling_def)
  qed
  then show ?thesis
    using timer_calls_once [of 0 AUCT sample_scheduling "\<lambda>now. 10 \<le> now" 4]
    by (auto simp: sample_scheduling_def ready_time_def call_time_def)
qed

section \<open>The timers of the node and the timers of its model\<close>

text \<open>The world of the node lists the timers in the order in which they were started, the program
  keeps one vector for each kind: both hold the same handlers.\<close>

definition same_timers :: "world \<Rightarrow> TimeoutHandler \<Rightarrow> bool" where
  "same_timers w H \<longleftrightarrow> (\<forall>t. map to_handler (th_timeouts H t) = map fst (filter (\<lambda>(a, t'). t' = t) (w_timeouts w)))"

lemma initiate_timeout_refines:
  assumes "same_timers w H"
  shows "\<exists>H'. TimeoutHandler_initiate_timeout a t H = Inr H' \<and> same_timers (initiate_timeout a t w) H'"
  using assms
  by (auto simp: TimeoutHandler_initiate_timeout_def Timeout_execute_def Timeout_new_def worker_execute_ok
      same_timers_def initiate_timeout_def)

text \<open>A timer is never taken out again, and once its thread has ended it cannot be started a second
  time: the thread still waits to be joined, which nothing does.\<close>

lemma finished_timer_unusable:
  assumes "Timeout_execute (Timeout_new a t) = Inr x"
  shows "Timeout_execute (Timeout_signal_stop x) = Inl Terminated"
    and "Timeout_stop own (Timeout_signal_stop x) = Inr (Timeout_signal_stop x)"
  using assms
  by (auto simp: Timeout_execute_def Timeout_stop_def Timeout_new_def idle_worker_def worker_defs
      Timeout_signal_stop_def)

interpretation timeout_handler: service TimeoutHandler_execute "TimeoutHandler_stop False"
  "\<lambda>H. is_running (th_thread H)" "\<lambda>H. worker_ok (th_thread H)"
  by unfold_locales (auto simp: TimeoutHandler_execute_def TimeoutHandler_stop_def worker_defs worker_ok_def)

end
