(* ===== verification/Process_Start.thy ===== *)
theory Process_Start
  imports Threads Neighbouring
begin

text \<open>
  Starting and stopping a \<open>Process\<close> (\<open>structs/process.cpp\<close>): the threads of the process, of its
  resource manager (\<open>structs/resources.cpp\<close>) and of its dispatcher, and the network interface that the
  constructor of the networked configuration asks the kernel for.  What the units do once they run is
  in \<open>Process\<close> and \<open>Node\<close>.
\<close>

section \<open>Threads\<close>

definition Resources_execute :: "worker \<Rightarrow> worker res" where
  "Resources_execute = worker_execute"

definition Resources_stop :: "worker \<Rightarrow> worker res" where
  "Resources_stop = worker_stop False"

text \<open>
  \<open>pt_resources\<close>: the manager the process points to; \<open>pt_abandoned\<close>: managers it pointed to before.
\<close>

record process_threads =
  pt_main :: worker
  pt_units :: dispatching_units
  pt_resources :: "worker option"
  pt_abandoned :: "worker list"

definition Process_new :: process_threads where
  "Process_new = \<lparr> pt_main = idle_worker, pt_units = idle_units, pt_resources = None, pt_abandoned = [] \<rparr>"

definition Process_execute :: "bool \<Rightarrow> process_threads \<Rightarrow> process_threads res" where
  "Process_execute simulated p =
     (if is_running (pt_main p) then Inr p
      else
        and_then (execute_dispatchers simulated (pt_units p)) (\<lambda>u.
        and_then (thread_start ((pt_main p) \<lparr> is_running := True \<rparr>)) (\<lambda>w.
          Inr (p \<lparr> pt_main := w, pt_units := u \<rparr>))))"

definition Process_stop :: "bool \<Rightarrow> process_threads \<Rightarrow> process_threads res" where
  "Process_stop simulated p =
     (if \<not> is_running (pt_main p) then Inr p
      else
        let w = (pt_main p) \<lparr> is_running := False \<rparr> in
        and_then (stop_dispatchers simulated (pt_units p)) (\<lambda>u.
        and_then (thread_join False w) (\<lambda>w.
          Inr (p \<lparr> pt_main := w, pt_units := u \<rparr>))))"

definition Process_destroy :: "bool \<Rightarrow> process_threads \<Rightarrow> process_threads res" where
  "Process_destroy simulated p = Process_stop simulated p"

text \<open>What the thread of the process does first in the simulated configuration, in which
  \<open>Resources::get_instance\<close> makes a new manager each time.\<close>

definition Process_begin :: "process_threads \<Rightarrow> process_threads res" where
  "Process_begin p =
     and_then (Resources_execute idle_worker) (\<lambda>r.
       Inr (p \<lparr> pt_resources := Some r,
                pt_abandoned := pt_abandoned p @ (case pt_resources p of None \<Rightarrow> [] | Some r \<Rightarrow> [r]) \<rparr>))"

section \<open>The interface of the networked configuration\<close>

text \<open>
  The request is a local structure of a header and a link message, 32 octets, with what was in memory
  before (\<open>junk\<close>); the attributes are written behind it.  A store or a copy outside of an object is
  undefined.
\<close>

definition le32 :: "nat \<Rightarrow> byte list" where
  "le32 n = le16 n @ le16 (n div 65536)"

definition store_octets :: "nat \<Rightarrow> byte list \<Rightarrow> byte list \<Rightarrow> byte list res" where
  "store_octets p bs buffer =
     (if p + length bs \<le> length buffer then Inr (take p buffer @ bs @ drop (p + length bs) buffer)
      else Inl UndefinedBehaviour)"

definition RANK_INTERFACE :: "byte list" where
  "RANK_INTERFACE = map of_char ''rank0'' @ [0]"

definition RANK_INTERFACE_TYPE_INFO :: "byte list" where
  "RANK_INTERFACE_TYPE_INFO = map of_char ''dummy'' @ [0]"

definition sizeof_request :: nat where
  "sizeof_request = 32"

definition RTA_LENGTH :: "nat \<Rightarrow> nat" where
  "RTA_LENGTH n = 4 + n"

definition rank0_request :: "(nat \<Rightarrow> byte) \<Rightarrow> nat \<Rightarrow> byte list res" where
  "rank0_request junk now =
     (let nlmsg_len = sizeof_request;
          name_len = length RANK_INTERFACE + 1;
          rta = align4 nlmsg_len;
          nlmsg_len' = align4 nlmsg_len + RTA_LENGTH name_len;
          rta' = align4 nlmsg_len';
          info_kind_attribute = le16 (RTA_LENGTH (length RANK_INTERFACE_TYPE_INFO + 1)) @ le16 1;
          nlmsg_len'' = align4 nlmsg_len' + RTA_LENGTH (length info_kind_attribute) in
      and_then (fold_res (\<lambda>(p, bs). store_octets p bs)
        [(4, le16 16), (6, le16 0x605), (0, le32 nlmsg_len), (8, le32 now), (16, [0]), (18, le16 0), (20, le32 0),
         (24, le32 1), (28, le32 0xFFFFFFFF), (rta + 2, le16 3), (rta, le16 (RTA_LENGTH name_len)), (0, le32 nlmsg_len')]
        (map junk [0..<sizeof_request])) (\<lambda>request.
      and_then (load_octets RANK_INTERFACE 0 name_len) (\<lambda>name.
        fold_res (\<lambda>(p, bs). store_octets p bs)
          [(rta + 4, name), (rta' + 2, le16 18), (rta', le16 (RTA_LENGTH 2)), (0, le32 nlmsg_len''),
           (rta' + 4, info_kind_attribute)] request)))"

text \<open>
  The loop over the answer.  It does not go on to the next message, and what it takes for the error is
  the first word of the message, its length.
\<close>

definition rank0_answer_round :: "byte list \<Rightarrow> int \<Rightarrow> unit \<Rightarrow> unit option run" where
  "rank0_answer_round buffer received_bytes x =
     run_then (Some (NLMSG_OK buffer 0 received_bytes)) (\<lambda>ok.
       if \<not> ok then Some (Inr None)
       else
         run_then (Some (load16 buffer 4)) (\<lambda>nlmsg_type.
           if nlmsg_type = 2 then
             run_then (Some (load32 buffer 0)) (\<lambda>error.
               if error \<noteq> 0 then Some (Inl StdException) else Some (Inr (Some x)))
           else Some (Inr (Some x))))"

definition Process_create_interface :: "(nat \<Rightarrow> byte) \<Rightarrow> nat \<Rightarrow> (byte list \<Rightarrow> netlink_answer) \<Rightarrow> unit run" where
  "Process_create_interface junk now linux =
     run_then (Some (require (0 \<le> nl_socket (linux [])) StdException)) (\<lambda>_.
     run_then (Some (require (0 \<le> nl_bind (linux [])) StdException)) (\<lambda>_.
     run_then (Some (rank0_request junk now)) (\<lambda>request.
     run_then (Some (require (0 \<le> nl_send (linux request)) StdException)) (\<lambda>_.
     run_then (Some (require (0 \<le> nl_recv (linux request)) StdException)) (\<lambda>_.
       iterate (rank0_answer_round (nl_buffer (linux request)) (nl_recv (linux request))) ())))))"

section \<open>Starting and stopping\<close>

definition process_ok :: "process_threads \<Rightarrow> bool" where
  "process_ok p \<longleftrightarrow> worker_ok (pt_main p) \<and> units_ok (pt_units p)"

text \<open>A process can be started and stopped from outside in any order.\<close>

interpretation process_threads: service "Process_execute simulated" "Process_stop simulated"
  "\<lambda>p. is_running (pt_main p)" process_ok for simulated
proof unfold_locales
  fix p
  assume ok: "process_ok p"
  then obtain u where "execute_dispatchers simulated (pt_units p) = Inr u" "units_ok u"
    using dispatcher_calls_ok(1) [of "pt_units p" simulated] by (auto simp: process_ok_def)
  with ok show "\<exists>p'. Process_execute simulated p = Inr p' \<and> process_ok p' \<and> is_running (pt_main p')"
    by (auto simp: Process_execute_def process_ok_def worker_ok_def thread_start_def)
  obtain u where "stop_dispatchers simulated (pt_units p) = Inr u" "units_ok u"
    using dispatcher_calls_ok(2) [of "pt_units p" simulated] ok by (auto simp: process_ok_def)
  with ok show "\<exists>p'. Process_stop simulated p = Inr p' \<and> process_ok p' \<and> \<not> is_running (pt_main p')"
    by (auto simp: Process_stop_def process_ok_def worker_ok_def thread_join_def Let_def)
qed (simp_all add: Process_execute_def Process_stop_def)

text \<open>
  Stopping a process stops neither the manager nor the receiver of the simulation, and starting it
  again leaves the old manager behind, with its thread.
\<close>

lemma restarted_process_abandons_manager:
  assumes "process_ok p" "pt_resources p = Some r"
  shows "\<exists>p'. and_then (and_then (Process_stop simulated p) (Process_execute simulated)) Process_begin = Inr p'
    \<and> pt_resources p' = Some \<lparr> is_running = True, thread_joinable = True \<rparr> \<and> pt_abandoned p' = pt_abandoned p @ [r]"
proof -
  obtain p1 where p1: "Process_stop simulated p = Inr p1" "process_ok p1"
    using process_threads.halt_stops [OF assms(1), of simulated] by blast
  obtain p2 where p2: "Process_execute simulated p1 = Inr p2"
    using process_threads.execute_starts [OF p1(2), of simulated] by blast
  have "pt_resources p2 = Some r" "pt_abandoned p2 = pt_abandoned p"
    using p1(1) p2 assms(2) by (auto simp: Process_stop_def Process_execute_def Let_def split: if_split_asm)
  then show ?thesis
    by (simp add: p1(1) p2 Process_begin_def Resources_execute_def worker_execute_def idle_worker_def thread_start_def)
qed

section \<open>The interface is never created\<close>

text \<open>
  The first attribute lies behind the structure, so that the constructor is undefined as soon as it
  has a socket.
\<close>

lemma rank0_request_undefined: "rank0_request junk now = Inl UndefinedBehaviour"
  by (simp add: rank0_request_def store_octets_def sizeof_request_def align4_def le16_def le32_def Let_def)

lemma rank0_never_created:
  "Process_create_interface junk now linux =
     Some (Inl (if nl_socket (linux []) < 0 \<or> nl_bind (linux []) < 0 then StdException else UndefinedBehaviour))"
  by (simp add: Process_create_interface_def rank0_request_undefined)

text \<open>
  Were the request sent, its confirmation, an error message with the code zero, would be taken for a
  failure, and any other message for which the test holds would be looked at for ever.
\<close>

lemma rank0_answer_misread:
  assumes "NLMSG_OK buffer 0 received = Inr True" "load16 buffer 4 = Inr t"
  shows "iterate (rank0_answer_round buffer received) () = (if t = 2 then Some (Inl StdException) else None)"
proof (cases "t = 2")
  case True
  obtain n where "load32 buffer 0 = Inr n" "n \<noteq> 0"
    using assms(1) by (auto simp: NLMSG_OK_True)
  with True assms show ?thesis
    by (simp add: rank0_answer_round_def)
next
  case False
  have "iterate (rank0_answer_round buffer received) () = None"
    by (rule iterate_diverges [where stays = "\<lambda>_. True"]) (use False assms in \<open>auto simp: rank0_answer_round_def\<close>)
  with False show ?thesis
    by simp
qed

end
