(* ===== verification/Host_Reports.thy ===== *)
theory Host_Reports
  imports Memory_Info
begin

text \<open>
  What the sources for processor and memory show (\<open>internal/rankd-comp/data-sources\<close>: the accessors
  and the printing operators of \<open>cpu.cpp\<close> and \<open>memory.cpp\<close>): either the document, or lines of text.
  The writer of rapidjson and the text of a double on a stream are arguments.
\<close>

section \<open>The processor\<close>

record CPU_source = CPU +
  cpu_json_formatted_output :: bool

definition CPU_enable_json_output :: "CPU_source \<Rightarrow> CPU_source" where
  "CPU_enable_json_output cpu = cpu \<lparr> cpu_json_formatted_output := True \<rparr>"

definition CPU_disable_json_output :: "CPU_source \<Rightarrow> CPU_source" where
  "CPU_disable_json_output cpu = cpu \<lparr> cpu_json_formatted_output := False \<rparr>"

text \<open>The accessors of the optional texts.\<close>

definition text_or_empty :: "string option \<Rightarrow> string" where
  "text_or_empty v = (case v of None \<Rightarrow> '''' | Some s \<Rightarrow> s)"

definition CPU_vendor_id :: "CPU_source \<Rightarrow> string" where
  "CPU_vendor_id cpu = text_or_empty (cpu_vendor_id cpu)"

definition CPU_family :: "CPU_source \<Rightarrow> string" where
  "CPU_family cpu = text_or_empty (cpu_family cpu)"

definition CPU_model :: "CPU_source \<Rightarrow> string" where
  "CPU_model cpu = text_or_empty (cpu_model cpu)"

definition CPU_model_name :: "CPU_source \<Rightarrow> string" where
  "CPU_model_name cpu = text_or_empty (cpu_model_name cpu)"

definition CPU_stepping :: "CPU_source \<Rightarrow> string" where
  "CPU_stepping cpu = text_or_empty (cpu_stepping cpu)"

definition CPU_microcode :: "CPU_source \<Rightarrow> string" where
  "CPU_microcode cpu = text_or_empty (cpu_microcode cpu)"

definition line_if :: "string \<Rightarrow> ('a \<Rightarrow> string) \<Rightarrow> 'a option \<Rightarrow> string" where
  "line_if label show v = (case v of None \<Rightarrow> '''' | Some x \<Rightarrow> label @ show x @ [CHR 0x0A])"

definition core_lines :: "(64 word \<Rightarrow> string) \<Rightarrow> int \<times> CPUCore \<Rightarrow> string" where
  "core_lines show item =
     (let core = snd item in
      [CHR 0x09] @ ''Core number '' @ to_string (fst item) @ '': '' @ [CHR 0x0A]
      @ line_if ([CHR 0x09] @ ''  Frequency: '') show (core_frequency core)
      @ line_if ([CHR 0x09] @ ''  Cache size: '') id (core_cache_size core)
      @ line_if ([CHR 0x09] @ ''  Has FPU: '') (\<lambda>b. if b then ''true'' else ''false'') (core_has_fpu core))"

definition CPU_print ::
  "(real \<Rightarrow> 64 word) \<Rightarrow> (json \<Rightarrow> string) \<Rightarrow> (64 word \<Rightarrow> string) \<Rightarrow> CPU_source \<Rightarrow> string res" where
  "CPU_print double writer show cpu =
     (if cpu_json_formatted_output cpu then
        and_then (CPU_json double (CPU.truncate cpu)) (\<lambda>document. Inr (writer document))
      else Inr
        (line_if ''CPU model: '' id (cpu_model cpu)
         @ ''Endianess: '' @ (if cpu_byte_order cpu = LITTLE then ''little endian'' else ''big endian'') @ [CHR 0x0A]
         @ line_if ''Stepping: '' id (cpu_stepping cpu)
         @ line_if ''Microcode: '' id (cpu_microcode cpu)
         @ ''Flags: '' @ concat (map (\<lambda>(flag, _). flag @ '' '') (cpu_flags cpu)) @ [CHR 0x0A]
         @ ''Bugs: '' @ concat (map (\<lambda>(bug, _). bug @ '' '') (cpu_bugs cpu)) @ [CHR 0x0A]
         @ ''Bogomips: '' @ show (cpu_bogomips cpu) @ [CHR 0x0A]
         @ ''Number of cores: '' @ decimal (length (cpu_cores cpu)) @ [CHR 0x0A]
         @ ''Cores: '' @ [CHR 0x0A] @ concat (map (core_lines show) (cpu_cores cpu))))"

section \<open>The memory\<close>

record Memory_source = Memory +
  mem_json_formatted_output :: bool

definition Memory_enable_json_output :: "Memory_source \<Rightarrow> Memory_source" where
  "Memory_enable_json_output m = m \<lparr> mem_json_formatted_output := True \<rparr>"

definition Memory_disable_json_output :: "Memory_source \<Rightarrow> Memory_source" where
  "Memory_disable_json_output m = m \<lparr> mem_json_formatted_output := False \<rparr>"

definition memory_line :: "Memory_source \<Rightarrow> string \<times> string \<Rightarrow> string" where
  "memory_line m item =
     (case item of (label, field) \<Rightarrow>
        line_if label (\<lambda>v. decimal (unat v)) (Option.bind (map_of (mem_values m) field) id))"

definition Memory_print :: "(json \<Rightarrow> string) \<Rightarrow> Memory_source \<Rightarrow> string" where
  "Memory_print writer m =
     (if mem_json_formatted_output m then writer (Memory_json (Memory.truncate m))
      else
        concat (map (memory_line m)
          [(''Total memory: '', ''total''), (''Free memory: '', ''free''), (''Available memory: '', ''available''),
           (''Swap memory: '', ''swap_total''), (''Swap free memory: '', ''swap_free''),
           (''Shared memory: '', ''shared_memory'')])
        @ line_if ''OOM killer invocations: '' to_string (mem_oom_killer_invocations m))"

section \<open>The text exists where the document does not\<close>

text \<open>
  A processor that reports no vendor, as on ARM, has no document, but its text is
  printed.
\<close>

lemma cpu_text_without_document:
  assumes "cpu_vendor_id cpu = None"
  shows "CPU_print d w s (CPU_enable_json_output cpu) = Inl UndefinedBehaviour"
    and "\<exists>t. CPU_print d w s (CPU_disable_json_output cpu) = Inr t"
  using assms by (simp_all add: CPU_print_def CPU_enable_json_output_def CPU_disable_json_output_def CPU_json_def
      CPU.truncate_def optional_c_str_def)

text \<open>A counter of the kernel is shown under its label exactly if the kernel has reported it.\<close>

lemma memory_line_shown:
  assumes "map_of memory_table field = Some (key, name)"
  shows "memory_line (m \<lparr> mem_values := memory_counters meminfo \<rparr>) (label, field)
    = line_if label (\<lambda>v. decimal (unat v)) (meminfo key)"
proof -
  have "map_of (map (\<lambda>(field, key, name). (field, meminfo key)) table) field = Some (meminfo key)"
    if "map_of table field = Some (key, name)" for table :: "(string \<times> string \<times> string) list"
    using that by (induction table) (auto split: if_split_asm)
  then show ?thesis
    using assms by (simp add: memory_line_def memory_counters_def)
qed

end
