(* ===== verification/Host_System.thy ===== *)
theory Host_System
  imports Host_Reports Netlink_Walk
begin

text \<open>
  The operating system of the host as the computing engine reports it
  (\<open>internal/rankd-comp/data-sources/os.cpp\<close>): its kernel, its load and its processes.  What the
  procfs library reports of a process, \<open>getpwuid\<close>, \<open>uname\<close> and \<open>sysinfo\<close> are arguments, as are the
  rounding of a number to a float, of a real number to a double, and the text of a double.

  The structure of a process has no initialisers and the snapshot does not assign all of its
  members: what it leaves uninitialised is \<open>None\<close>.
\<close>

section \<open>States of processes\<close>

datatype task_state =
    task_running | task_sleeping | task_disk_sleep | task_stopped | task_tracing_stop | task_zombie
  | task_dead | task_wakekill | task_waking | task_parked | task_idle

datatype ProcessStatus =
    Running | Sleeping | DiskSleep | Stopped | TracingStop | Zombie | Dead | Wakekill | Waking | Parked | Idle

fun parse_state_type :: "task_state \<Rightarrow> ProcessStatus" where
  "parse_state_type task_running = Running"
| "parse_state_type task_sleeping = Sleeping"
| "parse_state_type task_disk_sleep = DiskSleep"
| "parse_state_type task_stopped = Stopped"
| "parse_state_type task_tracing_stop = TracingStop"
| "parse_state_type task_zombie = Zombie"
| "parse_state_type task_dead = Dead"
| "parse_state_type task_wakekill = Wakekill"
| "parse_state_type task_waking = Waking"
| "parse_state_type task_parked = Parked"
| "parse_state_type task_idle = Idle"

fun get_state_name :: "ProcessStatus \<Rightarrow> string" where
  "get_state_name Running = ''Running''"
| "get_state_name Sleeping = ''Sleeping''"
| "get_state_name DiskSleep = ''Disk Sleep''"
| "get_state_name Stopped = ''Stopped''"
| "get_state_name TracingStop = ''Tracing Stop''"
| "get_state_name Zombie = ''Zombie''"
| "get_state_name Dead = ''Dead''"
| "get_state_name Wakekill = ''Wakekill''"
| "get_state_name Waking = ''Waking''"
| "get_state_name Parked = ''Parked''"
| "get_state_name Idle = ''Idle''"

fun get_task_state_name :: "task_state \<Rightarrow> string" where
  "get_task_state_name task_running = ''Running''"
| "get_task_state_name task_sleeping = ''Sleeping''"
| "get_task_state_name task_disk_sleep = ''Disk Sleep''"
| "get_task_state_name task_stopped = ''Stopped''"
| "get_task_state_name task_tracing_stop = ''Tracing Stop''"
| "get_task_state_name task_zombie = ''Zombie''"
| "get_task_state_name task_dead = ''Dead''"
| "get_task_state_name task_wakekill = ''Wakekill''"
| "get_task_state_name task_waking = ''Waking''"
| "get_task_state_name task_parked = ''Parked''"
| "get_task_state_name task_idle = ''Idle''"

text \<open>The names of the document.\<close>

fun status_json_name :: "ProcessStatus \<Rightarrow> string" where
  "status_json_name Running = ''running''"
| "status_json_name Sleeping = ''sleeping''"
| "status_json_name DiskSleep = ''disk sleep''"
| "status_json_name Stopped = ''stopped''"
| "status_json_name TracingStop = ''tracing stop''"
| "status_json_name Zombie = ''zombie''"
| "status_json_name Dead = ''dead''"
| "status_json_name Wakekill = ''wakekill''"
| "status_json_name Waking = ''waking''"
| "status_json_name Parked = ''parked''"
| "status_json_name Idle = ''idle''"

lemma get_state_name_parse: "get_state_name (parse_state_type s) = get_task_state_name s"
  by (cases s) simp_all

lemma status_json_name_inj: "status_json_name s = status_json_name t \<longleftrightarrow> s = t"
  by (cases s; cases t) simp_all

section \<open>The snapshot\<close>

record os_process =
  pr_id :: int
  pr_user :: string
  pr_cpu_usage :: "real option"
  pr_memory_usage :: "real option"
  pr_status :: ProcessStatus
  pr_time :: "int option"
  pr_command :: string
  pr_threads :: int

record os_kernel =
  sysname :: string
  nodename :: string
  release :: string
  version :: string
  machine :: string

record OperativeSystem =
  os_kernel :: os_kernel
  os_uptime :: int
  os_load1m :: real
  os_load5m :: real
  os_load15m :: real
  os_processes :: "(uint32, os_process) std_map"
  os_json_formatted_output :: bool

text \<open>What the procfs library reports; its calls throw when the process has ended meanwhile.\<close>

record pfs_status =
  pf_effective_uid :: int
  pf_state :: task_state
  pf_threads :: int

record pfs_process =
  pf_id :: int
  pf_status :: "pfs_status res"
  pf_cmdline :: "string list res"

record sysinfo =
  si_uptime :: int
  si_loads :: "nat \<times> nat \<times> nat"

definition get_username_from_uid :: "(int \<Rightarrow> string option) \<Rightarrow> int \<Rightarrow> string" where
  "get_username_from_uid getpwuid uid = (case getpwuid uid of None \<Rightarrow> '''' | Some name \<Rightarrow> name)"

text \<open>
  The items of the command line, each followed by a space; \<open>pop_back\<close> of an empty text is undefined,
  and the text is copied up to its first zero.
\<close>

definition command_text :: "string list \<Rightarrow> string res" where
  "command_text items =
     (let command_line = concat (map (\<lambda>item. item @ '' '') items) in
      if command_line = [] then Inl UndefinedBehaviour
      else Inr (takeWhile (\<lambda>c. c \<noteq> CHR 0x00) (butlast command_line)))"

definition temporary_process :: "(int \<Rightarrow> string option) \<Rightarrow> pfs_process \<Rightarrow> pfs_status \<Rightarrow> string \<Rightarrow> os_process" where
  "temporary_process getpwuid process status command =
     \<lparr> pr_id = pf_id process, pr_user = get_username_from_uid getpwuid (pf_effective_uid status),
       pr_cpu_usage = None, pr_memory_usage = None, pr_status = parse_state_type (pf_state status),
       pr_time = None, pr_command = command, pr_threads = pf_threads status \<rparr>"

definition snap_process ::
  "(int \<Rightarrow> string option) \<Rightarrow> pfs_process \<Rightarrow> (uint32, os_process) std_map \<Rightarrow> (uint32, os_process) std_map res" where
  "snap_process getpwuid process processes =
     and_then (pf_status process) (\<lambda>status.
     and_then (pf_cmdline process) (\<lambda>items.
     and_then (command_text items) (\<lambda>command.
       Inr (map_assign (word_of_int (pf_id process)) (temporary_process getpwuid process status command) processes))))"

definition load_average :: "(nat \<Rightarrow> real) \<Rightarrow> nat \<Rightarrow> real" where
  "load_average to_float n = to_float n * (1 / 2 ^ 16)"

definition OperativeSystem_snap ::
  "(int \<Rightarrow> string option) \<Rightarrow> (nat \<Rightarrow> real) \<Rightarrow> pfs_process list \<Rightarrow> sysinfo \<Rightarrow> OperativeSystem \<Rightarrow> OperativeSystem res" where
  "OperativeSystem_snap getpwuid to_float processes system_info os =
     and_then (fold_res (snap_process getpwuid) processes []) (\<lambda>ps.
       case si_loads system_info of (l1, l5, l15) \<Rightarrow>
         Inr (os \<lparr> os_processes := ps, os_uptime := si_uptime system_info, os_load1m := load_average to_float l1,
                   os_load5m := load_average to_float l5, os_load15m := load_average to_float l15 \<rparr>))"

definition OperativeSystem_new ::
  "(int \<Rightarrow> string option) \<Rightarrow> (nat \<Rightarrow> real) \<Rightarrow> os_kernel \<Rightarrow> pfs_process list \<Rightarrow> sysinfo \<Rightarrow> OperativeSystem res" where
  "OperativeSystem_new getpwuid to_float uname processes system_info =
     OperativeSystem_snap getpwuid to_float processes system_info
       \<lparr> os_kernel = uname, os_uptime = 0, os_load1m = 0, os_load5m = 0, os_load15m = 0, os_processes = [],
         os_json_formatted_output = False \<rparr>"

definition OperativeSystem_enable_json_output :: "OperativeSystem \<Rightarrow> OperativeSystem" where
  "OperativeSystem_enable_json_output os = os \<lparr> os_json_formatted_output := True \<rparr>"

definition OperativeSystem_disable_json_output :: "OperativeSystem \<Rightarrow> OperativeSystem" where
  "OperativeSystem_disable_json_output os = os \<lparr> os_json_formatted_output := False \<rparr>"

section \<open>Output\<close>

definition kernel_json :: "os_kernel \<Rightarrow> json" where
  "kernel_json k = JObject
     [(''sysname'', JString (sysname k)), (''nodename'', JString (nodename k)), (''release'', JString (release k)),
      (''version'', JString (version k)), (''machine'', JString (machine k))]"

definition process_json :: "(real \<Rightarrow> 64 word) \<Rightarrow> uint32 \<times> os_process \<Rightarrow> (string \<times> json) res" where
  "process_json double item =
     (let process = snd item in
      and_then (initialised (pr_cpu_usage process)) (\<lambda>cpu_usage.
      and_then (initialised (pr_memory_usage process)) (\<lambda>memory_usage.
      and_then (initialised (pr_time process)) (\<lambda>time.
        Inr (decimal (unat (fst item)), JObject
          [(''user'', JString (pr_user process)), (''cpu-usage'', JDouble (double cpu_usage)),
           (''memory-usage'', JDouble (double memory_usage)),
           (''status'', JString (status_json_name (pr_status process))), (''time'', JInt time),
           (''command'', JString (pr_command process)), (''thread'', JInt (pr_threads process))])))))"

definition OperativeSystem_json :: "(real \<Rightarrow> 64 word) \<Rightarrow> OperativeSystem \<Rightarrow> json res" where
  "OperativeSystem_json double os =
     and_then (map_res (process_json double) (os_processes os)) (\<lambda>processes.
       Inr (JObject
         [(''kernel'', kernel_json (os_kernel os)), (''uptime'', JInt (os_uptime os)),
          (''load-1m'', JDouble (double (os_load1m os))), (''load-5m'', JDouble (double (os_load5m os))),
          (''load-15m'', JDouble (double (os_load15m os))), (''processes'', JObject processes)]))"

text \<open>\<open>std::setw\<close> fills up on the left.\<close>

definition setw :: "nat \<Rightarrow> string \<Rightarrow> string" where
  "setw n s = replicate (n - length s) (CHR 0x20) @ s"

definition process_line :: "(nat \<Rightarrow> real \<Rightarrow> string) \<Rightarrow> uint32 \<times> os_process \<Rightarrow> string res" where
  "process_line show item =
     (let process = snd item in
      and_then (initialised (pr_cpu_usage process)) (\<lambda>cpu_usage.
      and_then (initialised (pr_memory_usage process)) (\<lambda>memory_usage.
        Inr ([CHR 0x09] @ setw 8 (pr_user process) @ '' '' @ setw 7 (decimal (unat (fst item))) @ '' ''
             @ setw 5 (show 4 cpu_usage) @ '' '' @ setw 5 (show 4 memory_usage) @ '' '' @ pr_command process
             @ [CHR 0x0A]))))"

definition OperativeSystem_print ::
  "(real \<Rightarrow> 64 word) \<Rightarrow> (json \<Rightarrow> string) \<Rightarrow> (nat \<Rightarrow> real \<Rightarrow> string) \<Rightarrow> OperativeSystem \<Rightarrow> string res" where
  "OperativeSystem_print double writer show os =
     (if os_json_formatted_output os then and_then (OperativeSystem_json double os) (\<lambda>document. Inr (writer document))
      else
        and_then (map_res (process_line show) (os_processes os)) (\<lambda>lines.
          let k = os_kernel os in
          Inr (''Kernel Information: '' @ [CHR 0x0A]
            @ [CHR 0x09] @ ''System name: '' @ sysname k @ [CHR 0x0A]
            @ [CHR 0x09] @ ''Node name: '' @ nodename k @ [CHR 0x0A]
            @ [CHR 0x09] @ ''Release: '' @ release k @ [CHR 0x0A]
            @ [CHR 0x09] @ ''Version: '' @ version k @ [CHR 0x0A]
            @ [CHR 0x09] @ ''Machine: '' @ machine k @ [CHR 0x0A]
            @ ''Uptime and loads:'' @ [CHR 0x0A]
            @ [CHR 0x09] @ ''Uptime: '' @ to_string (os_uptime os) @ '' seconds'' @ [CHR 0x0A]
            @ [CHR 0x09] @ ''Load (1m): '' @ show 6 (os_load1m os) @ [CHR 0x0A]
            @ [CHR 0x09] @ ''Load (5m): '' @ show 6 (os_load5m os) @ [CHR 0x0A]
            @ [CHR 0x09] @ ''Load (15m): '' @ show 6 (os_load15m os) @ [CHR 0x0A]
            @ ''Processes: ('' @ decimal (length (os_processes os)) @ '')'' @ [CHR 0x0A]
            @ concat lines @ [CHR 0x0A])))"

section \<open>The report of the processes\<close>

lemma command_text_defined: "items \<noteq> [] \<Longrightarrow> \<exists>c. command_text items = Inr c"
  by (cases items) (simp_all add: command_text_def Let_def)

lemma command_text_Nil: "command_text [] = Inl UndefinedBehaviour"
  by (simp add: command_text_def)

text \<open>The library reports the process and its command line, which may be empty.\<close>

definition pfs_reported :: "pfs_process \<Rightarrow> bool" where
  "pfs_reported p \<longleftrightarrow> isl (pf_status p) = False \<and> isl (pf_cmdline p) = False"

definition has_command :: "pfs_process \<Rightarrow> bool" where
  "has_command p \<longleftrightarrow> pf_cmdline p \<noteq> Inr []"

lemma snap_process_cases:
  assumes "pfs_reported p"
  shows "if has_command p
    then \<exists>e. snap_process getpwuid p ps = Inr (map_assign (word_of_int (pf_id p)) e ps) \<and> pr_cpu_usage e = None
    else snap_process getpwuid p ps = Inl UndefinedBehaviour"
proof -
  obtain s items where p: "pf_status p = Inr s" "pf_cmdline p = Inr items"
    using assms by (auto simp: pfs_reported_def isl_def) (metis sum.collapse(2) sum.disc(2) sum.exhaust)+
  show ?thesis
  proof (cases "items = []")
    case True
    then show ?thesis
      using p by (simp add: snap_process_def has_command_def command_text_Nil)
  next
    case False
    then obtain c where "command_text items = Inr c"
      using command_text_defined by blast
    then have "snap_process getpwuid p ps = Inr (map_assign (word_of_int (pf_id p)) (temporary_process getpwuid p s c) ps)"
      using p by (simp add: snap_process_def)
    moreover have "pr_cpu_usage (temporary_process getpwuid p s c) = None"
      by (simp add: temporary_process_def)
    ultimately show ?thesis
      using p False by (auto simp: has_command_def)
  qed
qed

text \<open>Every entry of the table was written by the snapshot, with members uninitialised.\<close>

definition unmeasured :: "(uint32, os_process) std_map \<Rightarrow> bool" where
  "unmeasured ps \<longleftrightarrow> (\<forall>e \<in> snd ` set ps. pr_cpu_usage e = None)"

lemma unmeasured_assign:
  assumes "unmeasured ps" "pr_cpu_usage e = None"
  shows "unmeasured (map_assign i e ps) \<and> map_assign i e ps \<noteq> []"
proof
  show "unmeasured (map_assign i e ps)"
    using assms set_map_insert_subset [of i e "map_erase i ps"]
    by (fastforce simp: unmeasured_def map_assign_def map_erase_def)
  show "map_assign i e ps \<noteq> []"
    using map_insert_fst [of i e "map_erase i ps"] by (auto simp: map_assign_def)
qed

lemma snap_processes:
  assumes "list_all pfs_reported procs" "unmeasured ps"
  shows "if list_all has_command procs
    then \<exists>ps'. fold_res (snap_process getpwuid) procs ps = Inr ps' \<and> unmeasured ps' \<and> (procs \<noteq> [] \<or> ps \<noteq> [] \<longrightarrow> ps' \<noteq> [])
    else fold_res (snap_process getpwuid) procs ps = Inl UndefinedBehaviour"
  using assms
proof (induction procs arbitrary: ps)
  case (Cons p procs)
  show ?case
  proof (cases "has_command p")
    case True
    then obtain e where "snap_process getpwuid p ps = Inr (map_assign (word_of_int (pf_id p)) e ps)" "pr_cpu_usage e = None"
      using snap_process_cases [of p getpwuid ps] Cons.prems(1) by auto
    then show ?thesis
      using Cons.IH [of "map_assign (word_of_int (pf_id p)) e ps"] Cons.prems True unmeasured_assign [of ps e "word_of_int (pf_id p)"]
      by auto
  next
    case False
    then show ?thesis
      using snap_process_cases [of p getpwuid ps] Cons.prems(1) by simp
  qed
qed simp

lemma unmeasured_json: "unmeasured ps \<Longrightarrow> ps \<noteq> [] \<Longrightarrow> map_res (process_json d) ps = Inl UndefinedBehaviour"
  by (cases ps) (simp_all add: unmeasured_def process_json_def initialised_def Let_def)

text \<open>
  The report of the operating system is undefined on every host: a process without a command
  line, such as a thread of the kernel, makes the snapshot remove the last character of an empty
  text, and if all processes have one, the document reads the processor and memory usage of the
  first, which nothing has assigned.
\<close>

lemma process_report_undefined:
  assumes "list_all pfs_reported processes" "processes \<noteq> []"
  shows "and_then (OperativeSystem_new getpwuid to_float uname processes system_info) (OperativeSystem_json double)
    = Inl UndefinedBehaviour"
proof (cases "list_all has_command processes")
  case True
  then obtain ps where "fold_res (snap_process getpwuid) processes [] = Inr ps" "unmeasured ps" "ps \<noteq> []"
    using snap_processes [OF assms(1), of "[]" getpwuid] assms(2) by (auto simp: unmeasured_def)
  then show ?thesis
    using unmeasured_json
    by (auto simp: OperativeSystem_new_def OperativeSystem_snap_def OperativeSystem_json_def split: prod.split)
next
  case False
  then show ?thesis
    using snap_processes [OF assms(1), of "[]" getpwuid]
    by (auto simp: OperativeSystem_new_def OperativeSystem_snap_def unmeasured_def)
qed

end
