(* ===== verification/Host_Storage.thy ===== *)
theory Host_Storage
  imports Host_Reports Netlink_Walk
begin

text \<open>
  The storage of the host as the computing engine reports it
  (\<open>internal/rankd-comp/data-sources/storage.cpp\<close> and its header): the partitions that
  \<open>/proc/partitions\<close> lists, where they are mounted, how full their filesystems are and their counters
  of \<open>/proc/diskstats\<close>.  The contents of the two files, the entries of \<open>/proc/mounts\<close> (\<open>None\<close> when the
  table cannot be opened) and \<open>statvfs64\<close>, which leaves the structure alone when it fails, are
  arguments, as are the conversion of a number to the bits of a double, the text of a double and
  the writer of rapidjson.

  What the code leaves uninitialised is \<open>None\<close>: the structure for \<open>statvfs64\<close> before the first call
  that succeeds, the counters of a device before they are read, the pointer to the root device.
\<close>

section \<open>Numbers on a stream\<close>

text \<open>
  \<open>stream >> value\<close> for an integer: \<open>convert\<close> gives the value of a sign and a magnitude and whether
  the type can hold it.
\<close>

definition scan_number :: "'v \<Rightarrow> (bool \<Rightarrow> nat \<Rightarrow> 'v \<times> bool) \<Rightarrow> 'v \<Rightarrow> istream \<Rightarrow> 'v \<times> istream" where
  "scan_number zero convert old s =
     (if \<not> good s then (old, s \<lparr> is_fail := True \<rparr>)
      else
        let text = dropWhile isspace (is_text s) in
        if text = [] then (old, s \<lparr> is_text := [], is_eof := True, is_fail := True \<rparr>)
        else
          let negative = (hd text = CHR ''-'');
              body = (if hd text = CHR ''-'' \<or> hd text = CHR ''+'' then tl text else text);
              ds = takeWhile isdigit body;
              rest = dropWhile isdigit body;
              s = s \<lparr> is_text := rest, is_eof := (rest = []) \<rparr>
          in if ds = [] then (zero, s \<lparr> is_fail := True \<rparr>)
             else let (v, fits) = convert negative (digits_value ds) in
               (v, if fits then s else s \<lparr> is_fail := True \<rparr>))"

definition to_int :: "bool \<Rightarrow> nat \<Rightarrow> int \<times> bool" where
  "to_int negative n =
     (let v = (if negative then - int n else int n) in
      if v < - (2 ^ 31) then (- (2 ^ 31), False) else if 2 ^ 31 \<le> v then (2 ^ 31 - 1, False) else (v, True))"

text \<open>A number with a minus sign is negated modulo \<open>2 ^ 64\<close>.\<close>

definition to_ulong :: "bool \<Rightarrow> nat \<Rightarrow> 64 word \<times> bool" where
  "to_ulong negative n =
     (if 2 ^ 64 \<le> n then (- 1, False) else (if negative then - word_of_nat n else word_of_nat n, True))"

definition read_int :: "int \<Rightarrow> istream \<Rightarrow> int \<times> istream" where
  "read_int = scan_number 0 to_int"

definition read_ulong :: "64 word \<Rightarrow> istream \<Rightarrow> 64 word \<times> istream" where
  "read_ulong = scan_number 0 to_ulong"

section \<open>Devices\<close>

record IOps =
  reads_completed :: "64 word"
  reads_merged :: "64 word"
  sectors_read :: "64 word"
  ms_spent_reading :: "64 word"
  writes_completed :: "64 word"
  writes_merged :: "64 word"
  sectors_written :: "64 word"
  ms_spent_writing :: "64 word"
  io_in_progress :: "64 word"
  ms_doing_io :: "64 word"
  weighted_ms_doing_io :: "64 word"

text \<open>The percentage is \<open>None\<close> where the code divides by zero and gets no finite number.\<close>

record Device =
  sd_path :: string
  sd_filesystem :: string
  sd_size :: "64 word"
  sd_used :: "64 word"
  sd_available :: "64 word"
  sd_use_percentage :: "real option"
  sd_mounted_on :: string
  sd_iops :: "IOps option"

record Storage =
  st_devices :: "(string, Device) std_map"
  st_root_storage :: "string option"
  st_json_formatted_output :: bool

record statvfs =
  f_blocks :: "64 word"
  f_bfree :: "64 word"
  f_frsize :: "64 word"

record mntent =
  mnt_fsname :: string
  mnt_dir :: string
  mnt_type :: string

section \<open>The partitions\<close>

definition find_last_of :: "char \<Rightarrow> string \<Rightarrow> 64 word" where
  "find_last_of c s =
     (if c \<in> set s then word_of_nat (length s - 1 - length (takeWhile (\<lambda>d. d \<noteq> c) (rev s))) else - 1)"

type_synonym partitions = "(string, string \<times> string) std_map"

definition partitions_round ::
  "istream \<times> string list \<times> partitions \<Rightarrow> (istream \<times> string list \<times> partitions) option res" where
  "partitions_round p =
     (case p of (file, names, partitions) \<Rightarrow>
        if is_eof file then Inr None
        else
          let (line, file) = getline (CHR 0x0A) '''' file;
              location = find_last_of (CHR 0x20) line + 1 in
          if location = - 1 then Inr (Some (file, names, partitions))
          else
            let partition_name = drop (unat location) line in
            if partition_name = [] then Inr (Some (file, names, partitions))
            else Inr (Some (file, names @ [partition_name], map_assign (''/dev/'' @ partition_name) ('''', '''') partitions)))"

text \<open>The first two lines are dropped.\<close>

definition read_partitions :: "string option \<Rightarrow> (string list \<times> partitions) run" where
  "read_partitions file =
     (let s = snd (getline (CHR 0x0A) '''' (open_file file));
          s = snd (getline (CHR 0x0A) '''' s) in
      run_then (iterate (\<lambda>p. Some (partitions_round p)) (s, [], [])) (\<lambda>(_, names, partitions).
        Some (Inr (names, partitions))))"

definition mount_partition :: "mntent \<Rightarrow> partitions \<Rightarrow> partitions" where
  "mount_partition entity partitions =
     (if map_contains (mnt_fsname entity) partitions
      then map_assign (mnt_fsname entity) (mnt_dir entity, mnt_type entity) partitions
      else partitions)"

text \<open>\<open>getmntent\<close> on a table that could not be opened is undefined.\<close>

definition mount_partitions :: "mntent list option \<Rightarrow> partitions \<Rightarrow> partitions res" where
  "mount_partitions mounts partitions =
     and_then (initialised mounts) (\<lambda>entities. Inr (fold mount_partition entities partitions))"

section \<open>The filesystems\<close>

definition percentage :: "64 word \<Rightarrow> 64 word \<Rightarrow> real option" where
  "percentage used all =
     (if all = 0 then None else Some (real (unat used) / real (unat all) * 100))"

definition partition_device :: "string \<Rightarrow> string \<times> string \<Rightarrow> statvfs \<Rightarrow> Device" where
  "partition_device name place p =
     (let total_size = f_blocks p * f_frsize p;
          available = f_bfree p * f_frsize p;
          used = total_size - available in
      \<lparr> sd_path = name,
        sd_filesystem = (if snd place = '''' then ''unknown'' else snd place),
        sd_size = total_size, sd_used = used, sd_available = available,
        sd_use_percentage = percentage used total_size,
        sd_mounted_on = (if fst place = '''' then ''Unmounted'' else fst place),
        sd_iops = None \<rparr>)"

definition device_round ::
  "(string \<Rightarrow> statvfs option) \<Rightarrow> string \<times> string \<times> string \<Rightarrow> statvfs option \<times> Storage
    \<Rightarrow> (statvfs option \<times> Storage) res" where
  "device_round statvfs64 item acc =
     (case item of (name, place) \<Rightarrow> case acc of (stat, st) \<Rightarrow>
        if name = '''' then Inr acc
        else
          let stat = (case statvfs64 (fst place) of None \<Rightarrow> stat | Some p \<Rightarrow> Some p) in
          and_then (initialised stat) (\<lambda>p.
            let device = partition_device name place p;
                st = st \<lparr> st_devices := map_assign name device (st_devices st) \<rparr> in
            Inr (stat, if sd_mounted_on device = ''/'' then st \<lparr> st_root_storage := Some name \<rparr> else st)))"

section \<open>The counters\<close>

definition read_iops :: "istream \<Rightarrow> IOps \<times> istream" where
  "read_iops s =
     (let (a, s) = read_ulong 0 s; (b, s) = read_ulong 0 s; (c, s) = read_ulong 0 s; (d, s) = read_ulong 0 s;
          (e, s) = read_ulong 0 s; (f, s) = read_ulong 0 s; (g, s) = read_ulong 0 s; (h, s) = read_ulong 0 s;
          (i, s) = read_ulong 0 s; (j, s) = read_ulong 0 s; (k, s) = read_ulong 0 s in
      (\<lparr> reads_completed = a, reads_merged = b, sectors_read = c, ms_spent_reading = d, writes_completed = e,
         writes_merged = f, sectors_written = g, ms_spent_writing = h, io_in_progress = i, ms_doing_io = j,
         weighted_ms_doing_io = k \<rparr>, s))"

text \<open>What \<open>operator[]\<close> creates for a key that is not in the map.\<close>

definition empty_device :: Device where
  "empty_device =
     \<lparr> sd_path = '''', sd_filesystem = '''', sd_size = 0, sd_used = 0, sd_available = 0,
       sd_use_percentage = Some 0, sd_mounted_on = '''',
       sd_iops = Some \<lparr> reads_completed = 0, reads_merged = 0, sectors_read = 0, ms_spent_reading = 0,
         writes_completed = 0, writes_merged = 0, sectors_written = 0, ms_spent_writing = 0, io_in_progress = 0,
         ms_doing_io = 0, weighted_ms_doing_io = 0 \<rparr> \<rparr>"

definition assign_iops :: "string \<Rightarrow> IOps \<Rightarrow> (string, Device) std_map \<Rightarrow> (string, Device) std_map" where
  "assign_iops name iops devices =
     (let device = (case map_of devices name of None \<Rightarrow> empty_device | Some d \<Rightarrow> d) in
      map_assign name (device \<lparr> sd_iops := Some iops \<rparr>) devices)"

definition diskstats_round ::
  "string list \<Rightarrow> istream \<times> (string, Device) std_map \<Rightarrow> (istream \<times> (string, Device) std_map) option res" where
  "diskstats_round names p =
     (case p of (file, devices) \<Rightarrow>
        if is_eof file then Inr None
        else
          let file = snd (read_int 0 file);
              file = snd (read_int 0 file);
              (partition_name, file) = extract_word file;
              (file, devices) =
                (if partition_name \<in> set names
                 then let (iops, file) = read_iops file in
                   (file, assign_iops (''/dev/'' @ partition_name) iops devices)
                 else (file, devices))
          in Inr (Some (snd (getline (CHR 0x0A) '''' file), devices)))"

definition Storage_snap ::
  "string option \<Rightarrow> mntent list option \<Rightarrow> (string \<Rightarrow> statvfs option) \<Rightarrow> string option \<Rightarrow> Storage \<Rightarrow> Storage run" where
  "Storage_snap partitions_file mounts statvfs64 iops_file st =
     run_then (read_partitions partitions_file) (\<lambda>(names, partitions).
     run_then (Some (mount_partitions mounts partitions)) (\<lambda>partitions.
     run_then (Some (fold_res (device_round statvfs64) partitions (None, st))) (\<lambda>(_, st).
     run_then (iterate (\<lambda>p. Some (diskstats_round names p)) (open_file iops_file, st_devices st)) (\<lambda>(_, devices).
       Some (Inr (st \<lparr> st_devices := devices \<rparr>))))))"

definition Storage_new ::
  "string option \<Rightarrow> mntent list option \<Rightarrow> (string \<Rightarrow> statvfs option) \<Rightarrow> string option \<Rightarrow> Storage run" where
  "Storage_new partitions_file mounts statvfs64 iops_file =
     Storage_snap partitions_file mounts statvfs64 iops_file
       \<lparr> st_devices = [], st_root_storage = None, st_json_formatted_output = False \<rparr>"

text \<open>Following the pointer to the root device.\<close>

definition root_device_snap :: "Storage \<Rightarrow> Device res" where
  "root_device_snap st =
     and_then (initialised (st_root_storage st)) (\<lambda>path. initialised (map_of (st_devices st) path))"

definition Storage_enable_json_output :: "Storage \<Rightarrow> Storage" where
  "Storage_enable_json_output st = st \<lparr> st_json_formatted_output := True \<rparr>"

definition Storage_disable_json_output :: "Storage \<Rightarrow> Storage" where
  "Storage_disable_json_output st = st \<lparr> st_json_formatted_output := False \<rparr>"

section \<open>Output\<close>

definition add_members :: "(string \<times> json) list \<Rightarrow> json \<Rightarrow> json res" where
  "add_members ms = fold_res (\<lambda>(name, v) object. AddMember object name v) ms"

definition storage_device_members :: "(real option \<Rightarrow> 64 word) \<Rightarrow> Device \<Rightarrow> (string \<times> json) list" where
  "storage_device_members double d =
     [(''path'', JString (sd_path d)), (''filesystem'', JString (sd_filesystem d)),
      (''size'', JInt (uint (sd_size d))), (''used'', JInt (uint (sd_used d))),
      (''available'', JInt (uint (sd_available d))), (''use-percentage'', JDouble (double (sd_use_percentage d))),
      (''mounted-on'', JString (sd_mounted_on d))]"

definition iops_members :: "IOps \<Rightarrow> (string \<times> json) list" where
  "iops_members i =
     [(''reads-completed'', JInt (uint (reads_completed i))), (''reads-merged'', JInt (uint (reads_merged i))),
      (''sectors-read'', JInt (uint (sectors_read i))), (''ms-spent-reading'', JInt (uint (ms_spent_reading i))),
      (''writes-completed'', JInt (uint (writes_completed i))), (''writes-merged'', JInt (uint (writes_merged i))),
      (''sectors-written'', JInt (uint (sectors_written i))), (''ms-spent-writing'', JInt (uint (ms_spent_writing i))),
      (''io-in-progress'', JInt (uint (io_in_progress i))), (''ms-doing-io'', JInt (uint (ms_doing_io i)))]"

text \<open>The counters of the root device go into a member of its object.\<close>

definition root_json :: "(real option \<Rightarrow> 64 word) \<Rightarrow> Device \<Rightarrow> json res" where
  "root_json double d =
     and_then (add_members (storage_device_members double d) (JObject [])) (\<lambda>object.
     and_then (AddMember object ''iops'' (JObject [])) (\<lambda>object.
     and_then (initialised (sd_iops d)) (\<lambda>iops.
       at_member ''iops'' (add_members (iops_members iops)) object)))"

text \<open>Those of a device go into a member of the object of all devices.\<close>

definition storage_device_json :: "(real option \<Rightarrow> 64 word) \<Rightarrow> string \<times> Device \<Rightarrow> json \<Rightarrow> json res" where
  "storage_device_json double item devices =
     (case item of (name, d) \<Rightarrow>
        and_then (AddMember devices name (JObject [])) (\<lambda>devices.
        and_then (at_member name (add_members (storage_device_members double d)) devices) (\<lambda>devices.
        and_then (AddMember devices ''iops'' (JObject [])) (\<lambda>devices.
        and_then (initialised (sd_iops d)) (\<lambda>iops.
          at_member ''iops'' (add_members (iops_members iops)) devices)))))"

definition Storage_json :: "(real option \<Rightarrow> 64 word) \<Rightarrow> Storage \<Rightarrow> json res" where
  "Storage_json double st =
     and_then (root_device_snap st) (\<lambda>root.
     and_then (root_json double root) (\<lambda>root_object.
     and_then (fold_res (storage_device_json double) (st_devices st) (JObject [])) (\<lambda>devices.
       Inr (JObject [(''root-device'', root_object), (''devices'', devices)]))))"

definition device_line :: "(nat \<Rightarrow> real option \<Rightarrow> string) \<Rightarrow> string \<Rightarrow> string \<times> Device \<Rightarrow> string" where
  "device_line show root_path item =
     (case item of (name, d) \<Rightarrow>
        [CHR 0x09] @ ''Device '' @ name @ (if name = root_path then '' (Root device)'' else '''') @ '':'' @ [CHR 0x0A]
        @ [CHR 0x09] @ ''  '' @ sd_path d @ '' with '' @ sd_filesystem d @ '' filesystem, mounted on ''
        @ sd_mounted_on d @ '', '' @ show 4 (sd_use_percentage d) @ ''% used.'' @ [CHR 0x0A])"

definition Storage_print ::
  "(real option \<Rightarrow> 64 word) \<Rightarrow> (json \<Rightarrow> string) \<Rightarrow> (nat \<Rightarrow> real option \<Rightarrow> string) \<Rightarrow> Storage \<Rightarrow> string res" where
  "Storage_print double writer show st =
     (if st_json_formatted_output st then and_then (Storage_json double st) (\<lambda>document. Inr (writer document))
      else
        and_then (root_device_snap st) (\<lambda>root.
          Inr (''Root device'' @ '' ('' @ sd_path root @ ''):'' @ [CHR 0x0A]
            @ [CHR 0x09] @ ''Filesystem: '' @ sd_filesystem root @ [CHR 0x0A]
            @ [CHR 0x09] @ ''Size: '' @ decimal (unat (sd_size root)) @ '' bytes'' @ [CHR 0x0A]
            @ [CHR 0x09] @ ''Used: '' @ decimal (unat (sd_used root)) @ '' bytes'' @ [CHR 0x0A]
            @ [CHR 0x09] @ ''Available: '' @ decimal (unat (sd_available root)) @ '' bytes'' @ [CHR 0x0A]
            @ [CHR 0x09] @ ''Use Percentage: '' @ show 4 (sd_use_percentage root) @ ''%'' @ [CHR 0x0A]
            @ ''Other devices: '' @ [CHR 0x0A]
            @ concat (map (device_line show (sd_path root)) (st_devices st)) @ [CHR 0x0A])))"

section \<open>Files as the kernel writes them\<close>

text \<open>The word after the last blank of a line, which is the whole line without a blank.\<close>

definition last_word :: "string \<Rightarrow> string" where
  "last_word line = rev (takeWhile (\<lambda>c. c \<noteq> CHR 0x20) (rev line))"

lemma takeWhile_shorter: "\<exists>x\<in>set xs. \<not> P x \<Longrightarrow> length (takeWhile P xs) < length xs"
  by (induction xs) auto

lemma last_word_located:
  assumes "length line < 2 ^ 32"
  shows "find_last_of (CHR 0x20) line + 1 \<noteq> - 1"
    and "drop (unat (find_last_of (CHR 0x20) line + 1)) line = last_word line"
proof -
  let ?n = "length (takeWhile (\<lambda>c. c \<noteq> CHR 0x20) (rev line))"
  have whole: "last_word line = drop (length line - ?n) line"
    unfolding last_word_def by (subst takeWhile_eq_take) (simp add: rev_take)
  have location: "find_last_of (CHR 0x20) line + 1 = word_of_nat (length line - ?n)"
  proof (cases "CHR 0x20 \<in> set line")
    case True
    then have "?n < length line"
      using takeWhile_shorter[of "rev line" "\<lambda>c. c \<noteq> CHR 0x20"] by auto
    then have "length line - ?n = Suc (length line - 1 - ?n)" by simp
    with True show ?thesis by (simp add: find_last_of_def)
  next
    case False
    then have "?n = length line"
      by (subst takeWhile_eq_all_conv[THEN iffD2]) auto
    with False show ?thesis by (simp add: find_last_of_def)
  qed
  have small: "unat (word_of_nat (length line - ?n) :: 64 word) = length line - ?n"
    using assms by (simp add: unsigned_of_nat take_bit_nat_eq_self)
  then show "drop (unat (find_last_of (CHR 0x20) line + 1)) line = last_word line"
    by (simp add: location whole)
  show "find_last_of (CHR 0x20) line + 1 \<noteq> - 1"
  proof
    assume "find_last_of (CHR 0x20) line + 1 = - 1"
    then have "unat (- 1 :: 64 word) = length line - ?n"
      using small location by simp
    then have "2 ^ 64 - 1 = length line - ?n"
      by (simp add: unsigned_minus_1_eq_mask mask_eq_exp_minus_1)
    with assms show False by simp
  qed
qed

definition text_lines :: "string list \<Rightarrow> string" where
  "text_lines ls = concat (map (\<lambda>l. l @ [CHR 0x0A]) ls)"

definition text_line_ok :: "string \<Rightarrow> bool" where
  "text_line_ok l \<longleftrightarrow> CHR 0x0A \<notin> set l \<and> length l < 2 ^ 32"

abbreviation reading :: "string \<Rightarrow> istream" where
  "reading t \<equiv> \<lparr> is_text = t, is_eof = False, is_fail = False \<rparr>"

lemma getline_text_line:
  "text_line_ok l \<Longrightarrow> getline (CHR 0x0A) str (reading (text_lines (l # ls))) = (l, reading (text_lines ls))"
  using getline_upto[of "reading (text_lines (l # ls))" l "CHR 0x0A" "text_lines ls" str]
  by (simp add: text_lines_def text_line_ok_def good_def)

definition named_partitions :: "string list \<Rightarrow> string list" where
  "named_partitions ls = filter (\<lambda>n. n \<noteq> '''') (map last_word ls)"

definition enter_partitions :: "string list \<Rightarrow> partitions \<Rightarrow> partitions" where
  "enter_partitions = fold (\<lambda>n. map_assign (''/dev/'' @ n) ('''', ''''))"

lemma partitions_loop:
  assumes "list_all text_line_ok ls"
  shows "\<exists>t. iterate (\<lambda>p. Some (partitions_round p)) (reading (text_lines ls), names, m)
    = Some (Inr (t, names @ named_partitions ls, enter_partitions (named_partitions ls) m))"
  using assms
proof (induction ls arbitrary: names m)
  case Nil
  have "partitions_round (reading (text_lines []), names, m)
      = Inr (Some (\<lparr> is_text = [], is_eof = True, is_fail = True \<rparr>, names, m))"
    by (simp add: partitions_round_def getline_def good_def text_lines_def)
  then show ?case
    by (simp add: partitions_round_def named_partitions_def enter_partitions_def)
next
  case (Cons l ls)
  then have l: "text_line_ok l" "length l < 2 ^ 32"
    by (simp_all add: text_line_ok_def)
  have "partitions_round (reading (text_lines (l # ls)), names, m)
      = Inr (Some (reading (text_lines ls), names @ named_partitions [l], enter_partitions (named_partitions [l]) m))"
    using last_word_located[OF l(2)]
    by (simp add: partitions_round_def Let_def getline_text_line[OF l(1)] named_partitions_def enter_partitions_def)
  moreover have "named_partitions (l # ls) = named_partitions [l] @ named_partitions ls"
    by (simp add: named_partitions_def)
  ultimately show ?case
    using Cons.IH[of "names @ named_partitions [l]" "enter_partitions (named_partitions [l]) m"] Cons.prems
    by (simp add: enter_partitions_def del: append_Cons)
qed

lemma read_partitions_lines:
  assumes "list_all text_line_ok (h # h' # ls)"
  shows "read_partitions (Some (text_lines (h # h' # ls)))
    = Some (Inr (named_partitions ls, enter_partitions (named_partitions ls) []))"
  using assms partitions_loop[of ls "[]" "[]"]
  by (auto simp: read_partitions_def open_file_def getline_text_line)

text \<open>A file that cannot be opened is read forever.\<close>

lemma read_partitions_stuck: "read_partitions None = None"
proof -
  have "iterate (\<lambda>p. Some (partitions_round p)) (\<lparr> is_text = t, is_eof = False, is_fail = True \<rparr>, ns, m) = None" for t ns m
  proof (rule iterate_diverges[where stays = "\<lambda>(s, ns, m). is_fail s \<and> \<not> is_eof s"])
    show "\<exists>p'. Some (partitions_round p) = Some (Inr (Some p')) \<and> (case p' of (s, ns, m) \<Rightarrow> is_fail s \<and> \<not> is_eof s)"
      if "case p of (s, ns, m) \<Rightarrow> is_fail s \<and> \<not> is_eof s" for p
      using that by (auto simp: partitions_round_def getline_def good_def find_last_of_def)
  qed simp
  then show ?thesis
    by (simp add: read_partitions_def open_file_def getline_def good_def)
qed

section \<open>Where the partitions are mounted\<close>

lemma enter_partitions_wf: "std_map_wf m \<Longrightarrow> std_map_wf (enter_partitions ns m)"
  unfolding enter_partitions_def by (induction ns arbitrary: m) simp_all

lemma enter_partitions_lookup:
  "std_map_wf m \<Longrightarrow> map_of (enter_partitions ns m) k
     = (if k \<in> (\<lambda>n. ''/dev/'' @ n) ` set ns then Some ('''', '''') else map_of m k)"
  unfolding enter_partitions_def by (induction ns arbitrary: m) (auto simp del: append_Cons)

text \<open>The last entry of the table for a partition.\<close>

definition place_of :: "mntent list \<Rightarrow> string \<Rightarrow> string \<times> string" where
  "place_of entities name =
     (case find (\<lambda>e. mnt_fsname e = name) (rev entities) of
        None \<Rightarrow> ('''', '''')
      | Some e \<Rightarrow> (mnt_dir e, mnt_type e))"

lemma find_append: "find P (xs @ ys) = (case find P xs of None \<Rightarrow> find P ys | Some x \<Rightarrow> Some x)"
  by (induction xs) auto

lemma mount_partition_wf: "std_map_wf m \<Longrightarrow> std_map_wf (fold mount_partition es m)"
  by (induction es arbitrary: m) (simp_all add: mount_partition_def)

lemma mount_partition_lookup:
  "std_map_wf m \<Longrightarrow> map_of (fold mount_partition es m) k
     = map_option (\<lambda>old. case find (\<lambda>e. mnt_fsname e = k) (rev es) of None \<Rightarrow> old | Some e \<Rightarrow> (mnt_dir e, mnt_type e))
         (map_of m k)"
proof (induction es arbitrary: m)
  case (Cons e es)
  have "std_map_wf (mount_partition e m)"
    using Cons.prems by (simp add: mount_partition_def)
  with Cons show ?case
    by (cases "map_of m (mnt_fsname e)")
      (auto simp: mount_partition_def find_append domIff split: option.split)
qed (simp add: option.map_id[unfolded id_def])

text \<open>The table of the partitions after both files: every partition with its place.\<close>

definition mounted :: "mntent list \<Rightarrow> string list \<Rightarrow> partitions" where
  "mounted es ns = fold mount_partition es (enter_partitions ns [])"

lemma mounted_wf: "std_map_wf (mounted es ns)"
  unfolding mounted_def by (intro mount_partition_wf enter_partitions_wf) simp

lemma mounted_lookup:
  "map_of (mounted es ns) k = (if k \<in> (\<lambda>n. ''/dev/'' @ n) ` set ns then Some (place_of es k) else None)"
  unfolding mounted_def
  by (simp add: mount_partition_lookup enter_partitions_wf enter_partitions_lookup place_of_def split: option.split)

section \<open>The filesystems of the partitions\<close>

definition next_stat :: "(string \<Rightarrow> statvfs option) \<Rightarrow> string \<times> string \<Rightarrow> statvfs option \<Rightarrow> statvfs option" where
  "next_stat f place stat = (case f (fst place) of None \<Rightarrow> stat | Some p \<Rightarrow> Some p)"

lemma device_round_known:
  assumes "name \<noteq> ''''" and "next_stat f place stat = Some p"
  shows "device_round f (name, place) (stat, st) = Inr (Some p,
    st \<lparr> st_devices := map_assign name (partition_device name place p) (st_devices st),
         st_root_storage := (if fst place = ''/'' then Some name else st_root_storage st) \<rparr>)"
  using assms by (auto simp: device_round_def next_stat_def initialised_def partition_device_def Let_def split: option.splits)

lemma device_round_unknown:
  "name \<noteq> '''' \<Longrightarrow> next_stat f place stat = None \<Longrightarrow> device_round f (name, place) (stat, st) = Inl UndefinedBehaviour"
  by (auto simp: device_round_def next_stat_def initialised_def Let_def split: option.splits)

text \<open>
  Once the structure is filled the loop goes through.  Every partition gets a device; its numbers
  are those of its own filesystem if it has one, and of an earlier partition otherwise.
\<close>

definition device_for :: "(string \<Rightarrow> statvfs option) \<Rightarrow> string \<times> string \<times> string \<Rightarrow> Device \<Rightarrow> bool" where
  "device_for f item d \<longleftrightarrow>
     (\<exists>p. d = partition_device (fst item) (snd item) p \<and> (\<forall>q. f (fst (snd item)) = Some q \<longrightarrow> p = q))"

lemma device_for_facts:
  assumes "device_for f item d"
  shows "sd_path d = fst item" "sd_size d = sd_used d + sd_available d" "sd_iops d = None"
    and "f (fst (snd item)) = Some p \<Longrightarrow> sd_size d = f_blocks p * f_frsize p \<and> sd_available d = f_bfree p * f_frsize p"
  using assms by (auto simp: device_for_def partition_device_def Let_def)

lemma device_loop:
  assumes "\<forall>(n, _)\<in>set parts. n \<noteq> ''''" "distinct (map fst parts)" "std_map_wf (st_devices st)"
  shows "\<exists>stat' st'. fold_res (device_round f) parts (Some p, st) = Inr (Some stat', st')
    \<and> std_map_wf (st_devices st') \<and> st_json_formatted_output st' = st_json_formatted_output st
    \<and> (\<forall>k. k \<notin> fst ` set parts \<longrightarrow> map_of (st_devices st') k = map_of (st_devices st) k)
    \<and> (\<forall>item\<in>set parts. \<exists>d. map_of (st_devices st') (fst item) = Some d \<and> device_for f item d)
    \<and> (st_root_storage st' = st_root_storage st \<and> (\<forall>(n, place)\<in>set parts. fst place \<noteq> ''/'')
       \<or> (\<exists>(n, place)\<in>set parts. fst place = ''/'' \<and> st_root_storage st' = Some n))"
  using assms
proof (induction parts arbitrary: p st)
  case (Cons item parts)
  obtain n place where item: "item = (n, place)" "n \<noteq> ''''"
    using Cons.prems(1) by (cases item) auto
  obtain q where q: "next_stat f place (Some p) = Some q"
    by (cases "f (fst place)") (simp_all add: next_stat_def)
  let ?st = "st \<lparr> st_devices := map_assign n (partition_device n place q) (st_devices st),
    st_root_storage := (if fst place = ''/'' then Some n else st_root_storage st) \<rparr>"
  obtain stat' st' where st':
    "fold_res (device_round f) parts (Some q, ?st) = Inr (Some stat', st')"
    "std_map_wf (st_devices st')" "st_json_formatted_output st' = st_json_formatted_output st"
    "\<forall>k. k \<notin> fst ` set parts \<longrightarrow> map_of (st_devices st') k = map_of (st_devices ?st) k"
    "\<forall>item\<in>set parts. \<exists>d. map_of (st_devices st') (fst item) = Some d \<and> device_for f item d"
    "st_root_storage st' = st_root_storage ?st \<and> (\<forall>(n, place)\<in>set parts. fst place \<noteq> ''/'')
       \<or> (\<exists>(n, place)\<in>set parts. fst place = ''/'' \<and> st_root_storage st' = Some n)"
    using Cons.IH[of ?st q] Cons.prems by auto
  have "device_for f (n, place) (partition_device n place q)"
    using q by (auto simp: device_for_def next_stat_def split: option.splits)
  moreover have "map_of (st_devices st') n = Some (partition_device n place q)"
    using st'(4) Cons.prems item by simp
  ultimately have own: "\<exists>d. map_of (st_devices st') n = Some d \<and> device_for f (n, place) d" by blast
  have others: "map_of (st_devices st') k = map_of (st_devices st) k" if "k \<notin> fst ` set (item # parts)" for k
    using that st'(4) Cons.prems(3) item by simp
  have "fold_res (device_round f) (item # parts) (Some p, st) = Inr (Some stat', st')"
    using device_round_known[OF item(2) q] st'(1) item(1) by simp
  then show ?case
    using st'(2,3,5,6) own others item by (intro exI[of _ stat'] exI[of _ st']) (auto split: if_splits)
qed auto

section \<open>The counters of the partitions\<close>

text \<open>A line of \<open>/proc/diskstats\<close>: the numbers of the device, its name, the counters, and what newer
  kernels append.\<close>

record diskstat =
  ds_major :: nat
  ds_minor :: nat
  ds_name :: string
  ds_counters :: "nat list"
  ds_more :: string

definition spaced :: "string list \<Rightarrow> string" where
  "spaced ws = concat (map (\<lambda>w. CHR 0x20 # w) ws)"

definition diskstat_line :: "diskstat \<Rightarrow> string" where
  "diskstat_line l =
     spaced ([decimal (ds_major l), decimal (ds_minor l), ds_name l] @ map decimal (ds_counters l)) @ ds_more l"

definition diskstat_ok :: "diskstat \<Rightarrow> bool" where
  "diskstat_ok l \<longleftrightarrow>
     ds_major l < 2 ^ 31 \<and> ds_minor l < 2 ^ 31 \<and> ds_name l \<noteq> '''' \<and> list_all (\<lambda>c. \<not> isspace c) (ds_name l)
     \<and> length (ds_counters l) = 11 \<and> list_all (\<lambda>n. n < 2 ^ 64) (ds_counters l)
     \<and> CHR 0x0A \<notin> set (ds_more l) \<and> (ds_more l = [] \<or> hd (ds_more l) = CHR 0x20)"

lemma scan_decimal:
  assumes "convert False n = (v, True)" "\<not> isdigit c"
  shows "scan_number zero convert old (reading (CHR 0x20 # decimal n @ c # rest)) = (v, reading (c # rest))"
proof -
  obtain d ds where dec: "decimal n = d # ds" "isdigit d"
    using decimal_digits[of n] by (cases "decimal n") (auto simp del: decimal.simps)
  have split: "takeWhile isdigit (decimal n @ c # rest) = decimal n"
    "dropWhile isdigit (decimal n @ c # rest) = c # rest"
    using takeWhile_stop[of isdigit "decimal n" c rest] decimal_digits[of n] assms(2) by (simp_all del: decimal.simps)
  have skip: "dropWhile isspace (CHR 0x20 # decimal n @ c # rest) = decimal n @ c # rest"
    using digit_no_sign[OF dec(2)] by (simp add: dec(1) isspace_def[of "CHR 0x20"] del: decimal.simps)
  have front: "hd (decimal n @ c # rest) = d" "decimal n \<noteq> []"
    by (simp_all add: dec(1) del: decimal.simps)
  show ?thesis
    using assms(1) digit_no_sign[OF dec(2)] decimal_digits[of n] front split
    by (simp add: scan_number_def good_def skip Let_def del: decimal.simps dropWhile.simps hd_append2)
qed

lemma read_int_decimal:
  "n < 2 ^ 31 \<Longrightarrow> \<not> isdigit c
    \<Longrightarrow> read_int old (reading (CHR 0x20 # decimal n @ c # rest)) = (int n, reading (c # rest))"
  unfolding read_int_def by (rule scan_decimal) (simp_all add: to_int_def Let_def)

lemma read_ulong_decimal:
  "n < 2 ^ 64 \<Longrightarrow> \<not> isdigit c
    \<Longrightarrow> read_ulong old (reading (CHR 0x20 # decimal n @ c # rest)) = (word_of_nat n, reading (c # rest))"
  unfolding read_ulong_def by (rule scan_decimal) (simp_all add: to_ulong_def)

definition iops_of :: "nat list \<Rightarrow> IOps" where
  "iops_of ns =
     \<lparr> reads_completed = of_nat (ns ! 0), reads_merged = of_nat (ns ! 1), sectors_read = of_nat (ns ! 2),
       ms_spent_reading = of_nat (ns ! 3), writes_completed = of_nat (ns ! 4), writes_merged = of_nat (ns ! 5),
       sectors_written = of_nat (ns ! 6), ms_spent_writing = of_nat (ns ! 7), io_in_progress = of_nat (ns ! 8),
       ms_doing_io = of_nat (ns ! 9), weighted_ms_doing_io = of_nat (ns ! 10) \<rparr>"

lemma read_iops_line:
  assumes "length ns = 11" "list_all (\<lambda>n. n < 2 ^ 64) ns" "\<not> isdigit c"
  shows "read_iops (reading (spaced (map decimal ns) @ c # rest)) = (iops_of ns, reading (c # rest))"
proof -
  obtain n0 n1 n2 n3 n4 n5 n6 n7 n8 n9 n10 where ns: "ns = [n0, n1, n2, n3, n4, n5, n6, n7, n8, n9, n10]"
    using assms(1) by (auto simp: length_Suc_conv numeral_eq_Suc)
  have blank: "\<not> isdigit (CHR 0x20)"
    by (simp add: isdigit_def)
  show ?thesis
    using assms(2,3) blank
    by (simp add: ns read_iops_def spaced_def read_ulong_decimal iops_of_def del: decimal.simps)
qed

text \<open>What follows the counters or the name of a line up to its end is skipped.\<close>

lemma skip_line:
  "CHR 0x0A \<notin> set l \<Longrightarrow> snd (getline (CHR 0x0A) str (reading (l @ CHR 0x0A # rest))) = reading rest"
  using getline_upto[of "reading (l @ CHR 0x0A # rest)" l "CHR 0x0A" rest str] by (simp add: good_def)

lemma decimal_no_newline: "CHR 0x0A \<notin> set (decimal n)"
  using decimal_digits[of n] by (auto simp: list_all_iff isdigit_def simp del: decimal.simps)

lemma spaced_no_newline: "CHR 0x0A \<notin> set (spaced (map decimal ns))"
  using decimal_no_newline by (auto simp: spaced_def simp del: decimal.simps)

lemma more_first:
  assumes "diskstat_ok l"
  obtains c cs where "ds_more l @ CHR 0x0A # rest = c # cs" "\<not> isdigit c"
proof (cases "ds_more l")
  case Nil
  then show ?thesis by (intro that[of "CHR 0x0A" rest]) (simp_all add: isdigit_def)
next
  case (Cons c cs)
  with assms show ?thesis by (intro that[of c "cs @ CHR 0x0A # rest"]) (simp_all add: diskstat_ok_def isdigit_def)
qed

lemma counters_first:
  assumes "diskstat_ok l"
  obtains t where "spaced (map decimal (ds_counters l)) @ ds_more l @ CHR 0x0A # rest = CHR 0x20 # t"
  using assms by (cases "ds_counters l") (auto simp: diskstat_ok_def spaced_def)

lemma diskstats_round_line:
  assumes ok: "diskstat_ok l"
  shows "diskstats_round names (reading (diskstat_line l @ CHR 0x0A # rest), devices) = Inr (Some (reading rest,
    if ds_name l \<in> set names then assign_iops (''/dev/'' @ ds_name l) (iops_of (ds_counters l)) devices else devices))"
proof -
  let ?after = "spaced (map decimal (ds_counters l)) @ ds_more l @ CHR 0x0A # rest"
  have parts: "ds_major l < 2 ^ 31" "ds_minor l < 2 ^ 31" "ds_name l \<noteq> ''''" "list_all (\<lambda>c. \<not> isspace c) (ds_name l)"
    "length (ds_counters l) = 11" "list_all (\<lambda>n. n < 2 ^ 64) (ds_counters l)" "CHR 0x0A \<notin> set (ds_more l)"
    using ok by (simp_all add: diskstat_ok_def)
  obtain t where t: "?after = CHR 0x20 # t"
    by (rule counters_first[OF ok])
  obtain c cs where c: "ds_more l @ CHR 0x0A # rest = c # cs" "\<not> isdigit c"
    by (rule more_first[OF ok])
  have line: "diskstat_line l @ CHR 0x0A # rest
      = CHR 0x20 # decimal (ds_major l) @ CHR 0x20 # decimal (ds_minor l) @ CHR 0x20 # ds_name l @ ?after"
    by (simp add: diskstat_line_def spaced_def del: decimal.simps)
  have blank: "\<not> isdigit (CHR 0x20)" "list_all isspace [CHR 0x20]"
    by (simp_all add: isdigit_def isspace_def)
  have word: "extract_word (reading (CHR 0x20 # ds_name l @ ?after)) = (ds_name l, reading ?after)"
    using extract_key[of "reading (CHR 0x20 # ds_name l @ ?after)" "[CHR 0x20]" "ds_name l" t] parts(3,4) blank(2)
    by (simp add: t good_def)
  have iops: "read_iops (reading ?after) = (iops_of (ds_counters l), reading (ds_more l @ CHR 0x0A # rest))"
    using read_iops_line[OF parts(5,6) c(2), of cs] by (simp add: c(1))
  have skip: "snd (getline (CHR 0x0A) [] (reading (ds_more l @ CHR 0x0A # rest))) = reading rest"
    "snd (getline (CHR 0x0A) [] (reading ?after)) = reading rest"
    using skip_line[of "ds_more l"] skip_line[of "spaced (map decimal (ds_counters l)) @ ds_more l"]
      parts(7) spaced_no_newline by simp_all
  show ?thesis
    unfolding line
    by (simp add: diskstats_round_def read_int_decimal[OF parts(1) blank(1)] read_int_decimal[OF parts(2) blank(1)]
        word iops skip Let_def del: decimal.simps append_Cons append_assoc)
qed

definition enter_iops :: "string list \<Rightarrow> diskstat list \<Rightarrow> (string, Device) std_map \<Rightarrow> (string, Device) std_map" where
  "enter_iops names = fold (\<lambda>l devices.
     if ds_name l \<in> set names then assign_iops (''/dev/'' @ ds_name l) (iops_of (ds_counters l)) devices else devices)"

lemma diskstats_loop:
  assumes "list_all diskstat_ok ls" "'''' \<notin> set names"
  shows "\<exists>t. iterate (\<lambda>p. Some (diskstats_round names p)) (reading (text_lines (map diskstat_line ls)), devices)
    = Some (Inr (t, enter_iops names ls devices))"
  using assms
proof (induction ls arbitrary: devices)
  case Nil
  then have "diskstats_round names (reading (text_lines []), devices)
      = Inr (Some (\<lparr> is_text = [], is_eof = True, is_fail = True \<rparr>, devices))"
    by (simp add: diskstats_round_def read_int_def scan_number_def extract_word_def getline_def good_def text_lines_def)
  then show ?case
    by (simp add: diskstats_round_def enter_iops_def)
next
  case (Cons l ls)
  have "text_lines (map diskstat_line (l # ls)) = diskstat_line l @ CHR 0x0A # text_lines (map diskstat_line ls)"
    by (simp add: text_lines_def)
  then show ?case
    using Cons diskstats_round_line[of l names "text_lines (map diskstat_line ls)" devices]
    by (simp add: enter_iops_def del: append_Cons)
qed

lemma assign_iops_wf: "std_map_wf m \<Longrightarrow> std_map_wf (assign_iops k i m)"
  by (simp add: assign_iops_def Let_def)

definition counters_of :: "diskstat list \<Rightarrow> string \<Rightarrow> IOps option" where
  "counters_of ls n = map_option (\<lambda>l. iops_of (ds_counters l)) (find (\<lambda>l. ds_name l = n) (rev ls))"

lemma enter_iops_lookup:
  assumes "std_map_wf m" "\<forall>n\<in>set names. ''/dev/'' @ n \<in> dom (map_of m)" "n \<in> set names"
  shows "map_of (enter_iops names ls m) (''/dev/'' @ n)
    = map_option (\<lambda>d. case counters_of ls n of None \<Rightarrow> d | Some i \<Rightarrow> d \<lparr> sd_iops := Some i \<rparr>) (map_of m (''/dev/'' @ n))"
  using assms
proof (induction ls arbitrary: m)
  case (Cons l ls)
  let ?m = "if ds_name l \<in> set names then assign_iops (''/dev/'' @ ds_name l) (iops_of (ds_counters l)) m else m"
  have wf: "std_map_wf ?m" "\<forall>n\<in>set names. ''/dev/'' @ n \<in> dom (map_of ?m)"
    using Cons.prems(1,2) assign_iops_wf by (auto simp: assign_iops_def Let_def simp del: append_Cons)
  have "map_of (enter_iops names (l # ls) m) (''/dev/'' @ n) = map_of (enter_iops names ls ?m) (''/dev/'' @ n)"
    by (simp add: enter_iops_def)
  moreover have "map_of ?m (''/dev/'' @ n) = map_option (\<lambda>d. if ds_name l = n then d \<lparr> sd_iops := Some (iops_of (ds_counters l)) \<rparr> else d)
      (map_of m (''/dev/'' @ n))"
    using Cons.prems by (auto simp: assign_iops_def Let_def domIff simp del: append_Cons split: option.split)
  ultimately show ?case
    using Cons.IH[OF wf Cons.prems(3)]
    by (cases "map_of m (''/dev/'' @ n)") (auto simp: counters_of_def find_append simp del: append_Cons split: option.split)
qed (simp add: enter_iops_def counters_of_def option.map_id[unfolded id_def])

lemma enter_iops_keys:
  assumes "std_map_wf m" "\<forall>n\<in>set names. ''/dev/'' @ n \<in> dom (map_of m)"
  shows "std_map_wf (enter_iops names ls m) \<and> dom (map_of (enter_iops names ls m)) = dom (map_of m)"
  using assms
proof (induction ls arbitrary: m)
  case (Cons l ls)
  let ?m = "if ds_name l \<in> set names then assign_iops (''/dev/'' @ ds_name l) (iops_of (ds_counters l)) m else m"
  have wf: "std_map_wf ?m" "dom (map_of ?m) = dom (map_of m)"
    using Cons.prems assign_iops_wf by (auto simp: assign_iops_def Let_def simp del: append_Cons)
  moreover have "enter_iops names (l # ls) m = enter_iops names ls ?m"
    by (simp add: enter_iops_def)
  ultimately show ?case
    using Cons.IH[of ?m] Cons.prems(2) by simp
qed (simp add: enter_iops_def)

section \<open>A snapshot of the storage\<close>

definition storage_files :: "string list \<Rightarrow> mntent list \<Rightarrow> (string \<Rightarrow> statvfs option) \<Rightarrow> diskstat list \<Rightarrow> Storage run" where
  "storage_files ls es f ds =
     Storage_new (Some (text_lines ls)) (Some es) f (Some (text_lines (map diskstat_line ds)))"

lemma storage_new_run:
  assumes "list_all text_line_ok (h # h' # ls)" "list_all diskstat_ok ds"
  shows "storage_files (h # h' # ls) es f ds
    = run_then (Some (fold_res (device_round f) (mounted es (named_partitions ls))
          (None, \<lparr> st_devices = [], st_root_storage = None, st_json_formatted_output = False \<rparr>))) (\<lambda>(_, st).
        Some (Inr (st \<lparr> st_devices := enter_iops (named_partitions ls) ds (st_devices st) \<rparr>)))"
proof -
  have "'''' \<notin> set (named_partitions ls)"
    by (simp add: named_partitions_def)
  then obtain t where "iterate (\<lambda>p. Some (diskstats_round (named_partitions ls) p)) (reading (text_lines (map diskstat_line ds)), devices)
      = Some (Inr (t devices, enter_iops (named_partitions ls) ds devices))" for devices
    using diskstats_loop[OF assms(2), of "named_partitions ls"] by metis
  then show ?thesis
    unfolding storage_files_def Storage_new_def Storage_snap_def read_partitions_lines[OF assms(1)]
    by (simp add: mount_partitions_def initialised_def mounted_def open_file_def split_beta)
qed

text \<open>
  If the filesystem of the partition that comes first cannot be asked, as for a disk that is not
  mounted itself, the snapshot computes with a structure nobody has written.
\<close>

lemma mounted_item:
  "(k, place) \<in> set (mounted es ns) \<longleftrightarrow> k \<in> (\<lambda>n. ''/dev/'' @ n) ` set ns \<and> place = place_of es k"
  using map_of_in_set[OF mounted_wf, of es ns k place] mounted_lookup[of es ns k] by (auto split: if_splits)

lemma mounted_keys: "fst ` set (mounted es ns) = (\<lambda>n. ''/dev/'' @ n) ` set ns"
  using mounted_lookup[of es ns] by (simp add: dom_map_of_conv_image_fst[symmetric] dom_def set_eq_iff)

lemma partition_named: "(k, place) \<in> set (mounted es ns) \<Longrightarrow> k \<noteq> '''' \<and> place = place_of es k"
  by (auto simp: mounted_item)

lemma unmounted_first_undefined:
  assumes "list_all text_line_ok (h # h' # ls)" "list_all diskstat_ok ds"
    and first: "mounted es (named_partitions ls) = item # rest" "f (fst (snd item)) = None"
  shows "storage_files (h # h' # ls) es f ds = Some (Inl UndefinedBehaviour)"
proof -
  have "fst item \<noteq> ''''"
    using partition_named[of "fst item" "snd item" es "named_partitions ls"] first(1) by simp
  then have "device_round f item (None, st) = Inl UndefinedBehaviour" for st
    using device_round_unknown[of "fst item" f "snd item" None st] first(2) by (simp add: next_stat_def)
  then show ?thesis
    by (simp add: storage_new_run[OF assms(1,2)] first(1))
qed

lemma device_loop_first:
  assumes "mounted es ns = [] \<or> f (fst (snd (hd (mounted es ns)))) \<noteq> None"
  obtains stat st where
    "fold_res (device_round f) (mounted es ns)
       (None, \<lparr> st_devices = [], st_root_storage = None, st_json_formatted_output = False \<rparr>) = Inr (stat, st)"
    "std_map_wf (st_devices st)" "dom (map_of (st_devices st)) = (\<lambda>n. ''/dev/'' @ n) ` set ns"
    "\<forall>n\<in>set ns. \<exists>d. map_of (st_devices st) (''/dev/'' @ n) = Some d
       \<and> device_for f (''/dev/'' @ n, place_of es (''/dev/'' @ n)) d"
    "\<forall>k. st_root_storage st = Some k \<longrightarrow> k \<in> (\<lambda>n. ''/dev/'' @ n) ` set ns \<and> fst (place_of es k) = ''/''"
    "st_root_storage st = None \<longrightarrow> (\<forall>n\<in>set ns. fst (place_of es (''/dev/'' @ n)) \<noteq> ''/'')"
proof -
  let ?st = "\<lparr> st_devices = [], st_root_storage = None, st_json_formatted_output = False \<rparr>"
  show ?thesis
  proof (cases "mounted es ns")
    case Nil
    then have "ns = []" using mounted_keys[of es ns] by simp
    with Nil show ?thesis by (intro that[of None ?st]) simp_all
  next
    case (Cons first rest)
    obtain p where p: "f (fst (snd first)) = Some p"
      using assms Cons by auto
    have "fst first \<noteq> ''''"
      using partition_named[of "fst first" "snd first" es ns] Cons by simp
    then have "device_round f first (None, ?st) = device_round f first (Some p, ?st)"
      by (cases first) (use p in \<open>simp add: device_round_def\<close>)
    then have same: "fold_res (device_round f) (mounted es ns) (None, ?st) = fold_res (device_round f) (mounted es ns) (Some p, ?st)"
      by (simp add: Cons)
    have named: "\<forall>(n, _)\<in>set (mounted es ns). n \<noteq> ''''"
      using partition_named by blast
    have "std_map_wf (st_devices ?st)" by simp
    from device_loop[OF named std_map_distinct[OF mounted_wf] this, of f p] obtain stat st where loop: "fold_res (device_round f) (mounted es ns) (Some p, ?st) = Inr (Some stat, st)"
      "std_map_wf (st_devices st)"
      "\<forall>k. k \<notin> fst ` set (mounted es ns) \<longrightarrow> map_of (st_devices st) k = map_of (st_devices ?st) k"
      "\<forall>item\<in>set (mounted es ns). \<exists>d. map_of (st_devices st) (fst item) = Some d \<and> device_for f item d"
      "st_root_storage st = st_root_storage ?st \<and> (\<forall>(n, place)\<in>set (mounted es ns). fst place \<noteq> ''/'')
         \<or> (\<exists>(n, place)\<in>set (mounted es ns). fst place = ''/'' \<and> st_root_storage st = Some n)"
      by (elim exE conjE) (rule that; assumption)
    have entered: "(''/dev/'' @ n, place_of es (''/dev/'' @ n)) \<in> set (mounted es ns)" if "n \<in> set ns" for n
      using that unfolding mounted_item by blast
    have devices: "\<forall>n\<in>set ns. \<exists>d. map_of (st_devices st) (''/dev/'' @ n) = Some d
        \<and> device_for f (''/dev/'' @ n, place_of es (''/dev/'' @ n)) d"
      using bspec[OF loop(4) entered] by simp
    have keys': "dom (map_of (st_devices st)) = (\<lambda>n. ''/dev/'' @ n) ` set ns"
      using loop(3) devices unfolding mounted_keys by (auto simp: dom_def)
    have root_known: "\<forall>k. st_root_storage st = Some k \<longrightarrow> k \<in> (\<lambda>n. ''/dev/'' @ n) ` set ns \<and> fst (place_of es k) = ''/''"
      using loop(5) mounted_item by (auto simp del: append_Cons)
    have root_absent: "st_root_storage st = None \<longrightarrow> (\<forall>n\<in>set ns. fst (place_of es (''/dev/'' @ n)) \<noteq> ''/'')"
    proof (intro impI ballI)
      fix n
      assume "st_root_storage st = None" "n \<in> set ns"
      then show "fst (place_of es (''/dev/'' @ n)) \<noteq> ''/''"
        using loop(5) entered[of n] by fastforce
    qed
    show ?thesis
      by (rule that[of "Some stat" st]) (use same loop(1,2) devices keys' root_known root_absent in simp_all)
  qed
qed

text \<open>
  Otherwise it returns.  There is one device for every partition of the file, with its place, sizes
  that add up (modulo \<open>2 ^ 64\<close>), those of its own filesystem if that can be asked, and the counters of
  its last line; the root device can be followed exactly if a partition is mounted there.
\<close>

lemma storage_snapshot:
  assumes "list_all text_line_ok (h # h' # ls)" "list_all diskstat_ok ds"
    and "mounted es (named_partitions ls) = [] \<or> f (fst (snd (hd (mounted es (named_partitions ls))))) \<noteq> None"
  obtains st where "storage_files (h # h' # ls) es f ds = Some (Inr st)"
    "dom (map_of (st_devices st)) = (\<lambda>n. ''/dev/'' @ n) ` set (named_partitions ls)"
    "\<forall>n\<in>set (named_partitions ls). \<exists>d. map_of (st_devices st) (''/dev/'' @ n) = Some d
       \<and> sd_path d = ''/dev/'' @ n \<and> sd_size d = sd_used d + sd_available d \<and> sd_iops d = counters_of ds n
       \<and> (\<forall>p. f (fst (place_of es (''/dev/'' @ n))) = Some p
            \<longrightarrow> sd_size d = f_blocks p * f_frsize p \<and> sd_available d = f_bfree p * f_frsize p)"
    "(\<exists>d. root_device_snap st = Inr d)
       \<longleftrightarrow> (\<exists>n\<in>set (named_partitions ls). fst (place_of es (''/dev/'' @ n)) = ''/'')"
proof -
  let ?ns = "named_partitions ls"
  obtain stat st where st:
    "fold_res (device_round f) (mounted es ?ns)
       (None, \<lparr> st_devices = [], st_root_storage = None, st_json_formatted_output = False \<rparr>) = Inr (stat, st)"
    "std_map_wf (st_devices st)" "dom (map_of (st_devices st)) = (\<lambda>n. ''/dev/'' @ n) ` set ?ns"
    "\<forall>n\<in>set ?ns. \<exists>d. map_of (st_devices st) (''/dev/'' @ n) = Some d
       \<and> device_for f (''/dev/'' @ n, place_of es (''/dev/'' @ n)) d"
    "\<forall>k. st_root_storage st = Some k \<longrightarrow> k \<in> (\<lambda>n. ''/dev/'' @ n) ` set ?ns \<and> fst (place_of es k) = ''/''"
    "st_root_storage st = None \<longrightarrow> (\<forall>n\<in>set ?ns. fst (place_of es (''/dev/'' @ n)) \<noteq> ''/'')"
    by (rule device_loop_first[where f = f and es = es and ns = "named_partitions ls", OF assms(3)])
  let ?st = "st \<lparr> st_devices := enter_iops ?ns ds (st_devices st) \<rparr>"
  have present: "\<forall>n\<in>set ?ns. ''/dev/'' @ n \<in> dom (map_of (st_devices st))"
    using st(3) by simp
  note keys = enter_iops_keys[OF st(2) present, of ds]
  have run: "storage_files (h # h' # ls) es f ds = Some (Inr ?st)"
    by (simp add: storage_new_run[OF assms(1,2)] st(1))
  have device: "\<exists>d. map_of (st_devices ?st) (''/dev/'' @ n) = Some d
       \<and> sd_path d = ''/dev/'' @ n \<and> sd_size d = sd_used d + sd_available d \<and> sd_iops d = counters_of ds n
       \<and> (\<forall>p. f (fst (place_of es (''/dev/'' @ n))) = Some p
            \<longrightarrow> sd_size d = f_blocks p * f_frsize p \<and> sd_available d = f_bfree p * f_frsize p)"
    if n: "n \<in> set ?ns" for n
  proof -
    obtain d where d: "map_of (st_devices st) (''/dev/'' @ n) = Some d"
      "device_for f (''/dev/'' @ n, place_of es (''/dev/'' @ n)) d"
      using bspec[OF st(4) n] by blast
    then have "map_of (st_devices ?st) (''/dev/'' @ n)
        = Some (case counters_of ds n of None \<Rightarrow> d | Some i \<Rightarrow> d \<lparr> sd_iops := Some i \<rparr>)"
      using enter_iops_lookup[OF st(2) present n, of ds] by simp
    then show ?thesis
      using device_for_facts(1-3)[OF d(2)] device_for_facts(4)[OF d(2)] by (cases "counters_of ds n") auto
  qed
  have "(\<exists>d. root_device_snap ?st = Inr d) \<longleftrightarrow> st_root_storage st \<noteq> None"
    using st(5) keys st(3) by (cases "st_root_storage st") (auto simp: root_device_snap_def initialised_def dom_def split: option.split)
  also have "\<dots> \<longleftrightarrow> (\<exists>n\<in>set ?ns. fst (place_of es (''/dev/'' @ n)) = ''/'')"
    using st(5,6) by (cases "st_root_storage st") auto
  finally show ?thesis
    using that[OF run] keys device st(3) by simp
qed

section \<open>Where the counters end up in the document\<close>

lemma add_members_object: "add_members ms (JObject ns) = Inr (JObject (ns @ ms))"
  unfolding add_members_def by (induction ms arbitrary: ns) auto

text \<open>The object of a device has no counters.  Those of all devices are added to the first member
  \<open>iops\<close> beside the devices, one after the other under the same names.\<close>

lemma two_devices_share_counters:
  assumes "name \<noteq> name'" "name \<noteq> ''iops''" "name' \<noteq> ''iops''" "sd_iops d = Some i" "sd_iops d' = Some i'"
  shows "fold_res (storage_device_json double) [(name, d), (name', d')] (JObject [])
    = Inr (JObject [(name, JObject (storage_device_members double d)), (''iops'', JObject (iops_members i @ iops_members i')),
                    (name', JObject (storage_device_members double d')), (''iops'', JObject [])])"
  using assms
  by (simp add: storage_device_json_def at_member_def GetObject_def add_members_object initialised_def)

text \<open>Counters nobody has read are shown nevertheless.\<close>

lemma unread_counters_undefined:
  assumes "sd_iops d = None"
  shows "root_json double d = Inl UndefinedBehaviour"
  using assms by (simp add: root_json_def add_members_object initialised_def)

end
