(* ===== verification/Simulated_Host.thy ===== *)
theory Simulated_Host
  imports Host_System Host_Storage Resources
begin

text \<open>
  The host of a simulated node (\<open>internal/dry-rankd-comp\<close>).  In the simulated configuration the
  current capabilities of a node are not read from the system: these classes replace the sources of
  \<open>rankd-comp\<close> and make their values up.  Every file has a random engine of its own; what its
  distribution returns, one after the other, is an argument (\<open>draws\<close>), and the position of the next
  draw is threaded through.  The values are of \<open>uint_fast32_t\<close>, which has 64 bits on the platforms the
  program is built for, so that all arithmetic on them wraps at \<open>2 ^ 64\<close>.  A \<open>double\<close> is a real
  number; the conversion to its bits is an argument where a record of another theory holds bits.
\<close>

type_synonym draws = "nat \<Rightarrow> 64 word"

definition RAND_MAX :: "64 word" where
  "RAND_MAX = 2147483647"

definition draws_ok :: "draws \<Rightarrow> bool" where
  "draws_ok r \<longleftrightarrow> (\<forall>n. r n \<le> RAND_MAX)"

section \<open>The processor\<close>

definition core_options :: "nat list" where
  "core_options = [4, 8, 16, 32, 64]"

definition frequency_options :: "nat list" where
  "frequency_options = [2500, 2800, 3000, 3200, 3500]"

text \<open>The share in use and the total, as percentages; a division by zero has the value 0 here.\<close>

definition dry_percentages :: "CPUStats \<Rightarrow> CPUStats" where
  "dry_percentages s =
     (let total_time = ps_system s + ps_user s + ps_nice s + ps_irq s + ps_softirq s + ps_iowait s + ps_idle s + ps_steal s in
      s \<lparr> stats_in_use := real (unat (total_time - ps_idle s)) / real (unat total_time) * 100, stats_total := 100 \<rparr>)"

definition dry_stats_new :: "draws \<Rightarrow> CPUStats" where
  "dry_stats_new r = dry_percentages
     \<lparr> ps_system = r 0 mod 5000 + 1000, ps_user = r 1 mod 10000 + 5000, ps_nice = r 2 mod 1000 + 200,
       ps_irq = r 3 mod 300 + 50, ps_softirq = r 4 mod 200 + 20, ps_iowait = r 5 mod 500 + 100,
       ps_idle = r 6 mod 20000 + 5000, ps_steal = r 7 mod 100, stats_in_use = 0, stats_total = 0 \<rparr>"

text \<open>\<open>if (x < 0) x = 0\<close> for an unsigned \<open>x\<close>.\<close>

definition at_least_zero :: "64 word \<Rightarrow> 64 word" where
  "at_least_zero x = (if x < 0 then 0 else x)"

definition dry_stats_snap :: "draws \<Rightarrow> nat \<Rightarrow> CPUStats \<Rightarrow> CPUStats" where
  "dry_stats_snap r n s = dry_percentages
     (s \<lparr> ps_system := at_least_zero (ps_system s + (r n mod 100 - 50)),
          ps_user := at_least_zero (ps_user s + (r (n + 1) mod 200 - 100)),
          ps_nice := at_least_zero (ps_nice s + (r (n + 2) mod 50 - 25)),
          ps_irq := at_least_zero (ps_irq s + (r (n + 3) mod 20 - 10)),
          ps_softirq := at_least_zero (ps_softirq s + (r (n + 4) mod 10 - 5)),
          ps_iowait := at_least_zero (ps_iowait s + (r (n + 5) mod 30 - 15)),
          ps_idle := at_least_zero (ps_idle s + (r (n + 6) mod 200 - 100)),
          ps_steal := at_least_zero (ps_steal s + r (n + 7) mod 10) \<rparr>)"

record dry_CPU =
  dc_cpu :: CPU
  dc_drawn :: nat

definition dry_CPU_snap :: "draws \<Rightarrow> dry_CPU \<Rightarrow> dry_CPU" where
  "dry_CPU_snap r c =
     \<lparr> dc_cpu = (dc_cpu c) \<lparr> cpu_snapshot := dry_stats_snap r (dc_drawn c) (cpu_snapshot (dc_cpu c)) \<rparr>,
       dc_drawn = dc_drawn c + 8 \<rparr>"

text \<open>\<open>pick\<close> and \<open>pick'\<close>: the two draws between 0 and 4.\<close>

definition dry_core :: "(real \<Rightarrow> 64 word) \<Rightarrow> nat \<Rightarrow> nat \<Rightarrow> CPUCore" where
  "dry_core double cpu_frequency core_index =
     \<lparr> core_identifier = word_of_nat core_index, core_frequency = Some (double (real cpu_frequency)),
       core_cache_size = Some ''8'', core_has_fpu = Some True \<rparr>"

definition dry_CPU_new :: "(real \<Rightarrow> 64 word) \<Rightarrow> nat \<Rightarrow> nat \<Rightarrow> draws \<Rightarrow> dry_CPU" where
  "dry_CPU_new double pick pick' r =
     (let cores = core_options ! pick;
          cpu_frequency = frequency_options ! pick' in
      dry_CPU_snap r
        \<lparr> dc_cpu = \<lparr> cpu_identifier = 0, cpu_byte_order = LITTLE, cpu_vendor_id = Some ''Generic vendor ID'',
            cpu_family = Some ''Generic CPU family'', cpu_model = Some ''CPU for Simuzilla, version 1'',
            cpu_model_name = Some ''SimuCPU'', cpu_stepping = Some '''', cpu_microcode = Some '''',
            cpu_flags = [(''A'', ()), (''B'', ())], cpu_bugs = [(''b1'', ()), (''b2'', ())],
            cpu_bogomips = double 7199.99,
            cpu_cores = fold (\<lambda>i. map_assign (int i) (dry_core double cpu_frequency i)) [0..<cores] [],
            cpu_snapshot = dry_stats_new r \<rparr>,
          dc_drawn = 8 \<rparr>)"

section \<open>The memory\<close>

text \<open>
  How the constructor makes up a member: a draw below a bound, plus an offset; a draw below a part of
  another member; another member plus a draw; the sum of two members; a constant.
\<close>

datatype memory_rule =
    Below "64 word" "64 word"
  | BelowPart string "64 word"
  | Above string "64 word"
  | SumOf string string
  | Fixed "64 word"

definition dry_memory_rules :: "(string \<times> memory_rule) list" where
  "dry_memory_rules =
     [(''total'', Below 64000 1024), (''free'', BelowPart ''total'' 4), (''available'', Above ''free'' 10000),
      (''buffers'', Below 10000 0), (''cached'', Below 20000 0), (''swap_cached'', Below 5000 0),
      (''active'', BelowPart ''total'' 2), (''inactive'', BelowPart ''total'' 4),
      (''active_anonymous'', Below 5000 0), (''inactive_anonymous'', Below 5000 0),
      (''active_file'', Below 20000 0), (''inactive_file'', Below 10000 0), (''unevictable'', Below 1000 0),
      (''locked'', Below 1000 0), (''swap_total'', Below 32000 1024),
      (''swap_free'', BelowPart ''swap_total'' 1), (''dirty'', Below 500 0), (''writeback'', Below 100 0),
      (''anonymous_pages'', Below 20000 0), (''mapped'', Below 10000 0), (''shared_memory'', Below 5000 0),
      (''kernel_reclaimable'', Below 5000 0), (''slab'', Below 5000 0), (''slab_reclaimable'', Below 2000 0),
      (''slab_unreclaim'', Below 3000 0), (''kernel_stack'', Below 500 0), (''page_tables'', Below 1000 0),
      (''NFS_unstable'', Below 1000 0), (''bounce'', Below 100 0), (''writeback_tmp'', Below 100 0),
      (''commit_limit'', SumOf ''total'' ''swap_total''), (''committed_AS'', BelowPart ''commit_limit'' 1),
      (''vmalloc_total'', Below 64000 0), (''vmalloc_used'', Below 32000 0),
      (''vmalloc_chunk'', Below 16000 0), (''percpu'', Below 10000 0), (''hardware_corrupted'', Below 1000 0),
      (''anon_huge_pages'', Below 10000 0), (''shared_memory_huge_pages'', Below 10000 0),
      (''shared_memory_pmd_mapped'', Below 5000 0), (''file_huge_pages'', Below 5000 0),
      (''file_pmd_mapped'', Below 2000 0), (''huge_pages_total'', Below 10000 0),
      (''huge_pages_free'', BelowPart ''huge_pages_total'' 1), (''huge_pages_rsvd'', Below 1000 0),
      (''huge_pages_surp'', Below 500 0), (''huge_page_size'', Fixed 2048), (''huge_tlb'', Below 10000 0)]"

text \<open>\<open>value()\<close> of a member that was assigned before.  A remainder by zero is undefined.\<close>

definition assigned :: "(string \<times> size_t option) list \<Rightarrow> string \<Rightarrow> size_t res" where
  "assigned vs name = (case map_of vs name of Some (Some v) \<Rightarrow> Inr v | _ \<Rightarrow> Inl StdException)"

definition remainder :: "64 word \<Rightarrow> 64 word \<Rightarrow> 64 word res" where
  "remainder a b = (if b = 0 then Inl UndefinedBehaviour else Inr (a mod b))"

fun rule_value :: "64 word \<Rightarrow> (string \<times> size_t option) list \<Rightarrow> memory_rule \<Rightarrow> size_t res" where
  "rule_value x vs (Below m c) = and_then (remainder x m) (\<lambda>v. Inr (v + c))"
| "rule_value x vs (BelowPart f d) = and_then (assigned vs f) (\<lambda>v. remainder x (v div d))"
| "rule_value x vs (Above f m) = and_then (assigned vs f) (\<lambda>v. and_then (remainder x m) (\<lambda>y. Inr (v + y)))"
| "rule_value x vs (SumOf f g) = and_then (assigned vs f) (\<lambda>v. and_then (assigned vs g) (\<lambda>w. Inr (v + w)))"
| "rule_value x vs (Fixed c) = Inr c"

fun rule_draws :: "memory_rule \<Rightarrow> nat" where
  "rule_draws (SumOf f g) = 0"
| "rule_draws (Fixed c) = 0"
| "rule_draws _ = 1"

definition dry_member ::
  "draws \<Rightarrow> string \<times> memory_rule \<Rightarrow> nat \<times> (string \<times> size_t option) list \<Rightarrow> (nat \<times> (string \<times> size_t option) list) res" where
  "dry_member r item acc =
     (case item of (field, rule) \<Rightarrow> case acc of (n, vs) \<Rightarrow>
        and_then (rule_value (r n) vs rule) (\<lambda>v. Inr (n + rule_draws rule, vs @ [(field, Some v)])))"

record dry_Memory =
  dm_memory :: Memory
  dm_drawn :: nat

text \<open>
  \<open>if (_m) _m = _m.value() + (draw % m) - c\<close> for seven of the members, and then \<open>if (_m < 0) _m = 0\<close>
  for the same, which for an optional is also true when it is empty.
\<close>

definition dry_drift :: "(string \<times> 64 word \<times> 64 word) list" where
  "dry_drift =
     [(''free'', 500, 250), (''available'', 1000, 500), (''active'', 1000, 500), (''inactive'', 500, 250),
      (''swap_free'', 500, 250), (''dirty'', 100, 50), (''anon_huge_pages'', 500, 250)]"

definition set_member :: "string \<Rightarrow> (size_t option \<Rightarrow> size_t option) \<Rightarrow> (string \<times> size_t option) list \<Rightarrow> (string \<times> size_t option) list" where
  "set_member field f = map (\<lambda>(k, v). (k, if k = field then f v else v))"

definition drift_member ::
  "draws \<Rightarrow> string \<times> 64 word \<times> 64 word \<Rightarrow> nat \<times> (string \<times> size_t option) list \<Rightarrow> nat \<times> (string \<times> size_t option) list" where
  "drift_member r item acc =
     (case item of (field, m, c) \<Rightarrow> case acc of (n, vs) \<Rightarrow>
        if Option.bind (map_of vs field) id = None then (n, vs)
        else (n + 1, set_member field (map_option (\<lambda>v. v + r n mod m - c)) vs))"

definition clamp_member :: "string \<times> 64 word \<times> 64 word \<Rightarrow> (string \<times> size_t option) list \<Rightarrow> (string \<times> size_t option) list" where
  "clamp_member item =
     set_member (fst item) (\<lambda>v. case v of None \<Rightarrow> Some 0 | Some x \<Rightarrow> Some (at_least_zero x))"

definition dry_Memory_snap :: "draws \<Rightarrow> dry_Memory \<Rightarrow> dry_Memory" where
  "dry_Memory_snap r m =
     (case fold (drift_member r) dry_drift (dm_drawn m, mem_values (dm_memory m)) of (n, vs) \<Rightarrow>
        \<lparr> dm_memory = (dm_memory m) \<lparr> mem_values := fold clamp_member dry_drift vs \<rparr>, dm_drawn = n \<rparr>)"

definition dry_Memory_new :: "draws \<Rightarrow> dry_Memory res" where
  "dry_Memory_new r =
     and_then (fold_res (dry_member r) dry_memory_rules (0, [])) (\<lambda>(n, vs).
       Inr (dry_Memory_snap r
         \<lparr> dm_memory = \<lparr> mem_values = vs, mem_oom_killer_invocations = Some (uint (r n mod 100)) \<rparr>,
           dm_drawn = n + 1 \<rparr>))"

section \<open>The operating system\<close>

definition random_status :: "64 word \<Rightarrow> ProcessStatus" where
  "random_status x =
     [Running, Sleeping, DiskSleep, Stopped, TracingStop, Zombie, Dead, Wakekill, Waking, Parked, Idle] ! unat (x mod 11)"

definition random_user :: "64 word \<Rightarrow> string" where
  "random_user x = [''root'', ''alice'', ''bob'', ''carol'', ''dave''] ! unat (x mod 5)"

definition random_command :: "64 word \<Rightarrow> string" where
  "random_command x =
     [''/bin/bash'', ''python3 script.py'', ''java MyApp'', ''nginx'', ''systemd'', ''ls'', ''dmesg'',
      ''cargo build'', ''sl'', ''asciiquarium''] ! unat (x mod 10)"

record dry_OperativeSystem = OperativeSystem +
  dos_starting_time_point :: real
  dos_drawn :: nat

definition dry_process :: "draws \<Rightarrow> nat \<Rightarrow> nat \<Rightarrow> os_process" where
  "dry_process r n process_index =
     \<lparr> pr_id = int process_index, pr_user = random_user (r n),
       pr_cpu_usage = Some (real (unat (r (n + 1) mod 1000)) / 10),
       pr_memory_usage = Some (real (unat (r (n + 2) mod 10000)) / 10),
       pr_status = random_status (r (n + 3)), pr_time = Some (uint (r (n + 4) mod 1000000000)),
       pr_command = random_command (r (n + 5)), pr_threads = uint (r (n + 6) mod 16) + 1 \<rparr>"

text \<open>The differences are unsigned: a draw below the subtrahend gives a number close to \<open>2 ^ 64\<close>.\<close>

definition drift :: "64 word \<Rightarrow> 64 word \<Rightarrow> 64 word \<Rightarrow> real \<Rightarrow> real" where
  "drift x m c d = real (unat (x mod m - c)) / d"

definition no_less_than_zero :: "real \<Rightarrow> real" where
  "no_less_than_zero x = (if x < 0 then 0 else x)"

definition dry_process_snap :: "draws \<Rightarrow> nat \<Rightarrow> os_process \<Rightarrow> nat \<times> os_process" where
  "dry_process_snap r n p =
     (let cpu = map_option (\<lambda>c. let c = no_less_than_zero (c + drift (r n) 200 100 100) in if 100 < c then 100 else c)
            (pr_cpu_usage p);
          memory = map_option (\<lambda>m. no_less_than_zero (m + drift (r (n + 1)) 200 100 10)) (pr_memory_usage p);
          (n, status) = (if r (n + 2) mod 10 = 0 then (n + 4, random_status (r (n + 3))) else (n + 3, pr_status p));
          time = map_option (\<lambda>t. t + uint (r n mod 1000000)) (pr_time p) in
      (n + 1, p \<lparr> pr_cpu_usage := cpu, pr_memory_usage := memory, pr_status := status, pr_time := time \<rparr>))"

fun dry_processes_snap :: "draws \<Rightarrow> nat \<Rightarrow> (uint32 \<times> os_process) list \<Rightarrow> nat \<times> (uint32 \<times> os_process) list" where
  "dry_processes_snap r n [] = (n, [])"
| "dry_processes_snap r n ((pid, p) # ps) =
     (let (n, p) = dry_process_snap r n p;
          (n, ps) = dry_processes_snap r n ps in
      (n, (pid, p) # ps))"

text \<open>\<open>now\<close>: the nanoseconds of the system clock.  A cast to \<open>long long\<close> cuts the fraction off.\<close>

definition truncated :: "real \<Rightarrow> int" where
  "truncated x = (if x < 0 then \<lceil>x\<rceil> else \<lfloor>x\<rfloor>)"

definition dry_OperativeSystem_snap :: "draws \<Rightarrow> int \<Rightarrow> dry_OperativeSystem \<Rightarrow> dry_OperativeSystem" where
  "dry_OperativeSystem_snap r now os =
     (let n = dos_drawn os;
          (n', ps) = dry_processes_snap r (n + 3) (os_processes os) in
      os \<lparr> os_uptime := truncated (real_of_int now / 10 ^ 9) - truncated (dos_starting_time_point os),
           os_load1m := no_less_than_zero (os_load1m os + drift (r n) 100 50 100),
           os_load5m := no_less_than_zero (os_load5m os + drift (r (n + 1)) 80 40 100),
           os_load15m := no_less_than_zero (os_load15m os + drift (r (n + 2)) 50 25 100),
           os_processes := ps, dos_drawn := n' \<rparr>)"

text \<open>\<open>later\<close>: the clock when the constructor takes its first snapshot.\<close>

definition dry_OperativeSystem_new :: "draws \<Rightarrow> int \<Rightarrow> int \<Rightarrow> dry_OperativeSystem" where
  "dry_OperativeSystem_new r now later =
     (let number_of_processes = unat (r 3 mod 10) + 10;
          (n, ps) = fold (\<lambda>i (n, ps). (n + 7, map_assign (word_of_nat i) (dry_process r n i) ps))
            [0..<number_of_processes] (4, []) in
      dry_OperativeSystem_snap r later
        \<lparr> os_kernel = \<lparr> sysname = ''Operative System SimulOS'', nodename = ''Node name SimuNode'',
            release = ''Africa'', version = ''1.0.0'', machine = ''Mac1'' \<rparr>,
          os_uptime = 0, os_load1m = real (unat (r 0 mod 1000)) / 100, os_load5m = real (unat (r 1 mod 800)) / 100,
          os_load15m = real (unat (r 2 mod 500)) / 100, os_processes = ps, os_json_formatted_output = False,
          dos_starting_time_point = real_of_int now, dos_drawn = n \<rparr>)"

definition dry_load_1m :: "dry_OperativeSystem \<Rightarrow> real" where
  "dry_load_1m os = (if 60 \<le> os_uptime os then os_load1m os else 0)"

definition dry_load_5m :: "dry_OperativeSystem \<Rightarrow> real" where
  "dry_load_5m os = (if 300 \<le> os_uptime os then os_load5m os else 0)"

definition dry_load_15m :: "dry_OperativeSystem \<Rightarrow> real" where
  "dry_load_15m os = (if 900 \<le> os_uptime os then os_load15m os else 0)"

section \<open>The storage\<close>

text \<open>Converting a floating-point number to an unsigned type that cannot hold it is undefined.\<close>

definition to_unsigned_long :: "real \<Rightarrow> 64 word res" where
  "to_unsigned_long x = (if - 1 < x \<and> x < 2 ^ 64 then Inr (word_of_int (truncated x)) else Inl UndefinedBehaviour)"

definition dry_device :: "draws \<Rightarrow> nat \<Rightarrow> nat \<Rightarrow> Device res" where
  "dry_device r n number_of_devices =
     (let device_size = r n mod 1000 + 128;
          available = r (n + 1) mod 100 + 1;
          use_percentage = (1 - real (unat available) / 100 * real (unat device_size)) * 100 in
      and_then (to_unsigned_long (use_percentage * real (unat device_size))) (\<lambda>used. Inr
        \<lparr> sd_path = ''path/of/the/storage'', sd_filesystem = ''ExFAT'', sd_size = device_size, sd_used = used,
          sd_available = available, sd_use_percentage = Some use_percentage,
          sd_mounted_on = ''/mnt/'' @ decimal number_of_devices, sd_iops = sd_iops empty_device \<rparr>))"

record dry_Storage = Storage +
  dst_drawn :: nat

definition dry_device_snap :: "draws \<Rightarrow> nat \<Rightarrow> Device \<Rightarrow> Device" where
  "dry_device_snap r n d =
     (let used = sd_used d + r (n + 2) mod 10000;
          used = (if sd_size d < used then sd_size d else used) in
      d \<lparr> sd_iops := map_option (\<lambda>i. i \<lparr> reads_completed := reads_completed i + r n mod 100,
            writes_completed := writes_completed i + r (n + 1) mod 100 \<rparr>) (sd_iops d),
          sd_used := used, sd_available := sd_size d - used, sd_use_percentage := percentage used (sd_size d) \<rparr>)"

fun dry_devices_snap :: "draws \<Rightarrow> nat \<Rightarrow> (string \<times> Device) list \<Rightarrow> nat \<times> (string \<times> Device) list" where
  "dry_devices_snap r n [] = (n, [])"
| "dry_devices_snap r n ((k, d) # ds) =
     (let (n', ds) = dry_devices_snap r (n + 3) ds in (n', (k, dry_device_snap r n d) # ds))"

definition dry_Storage_snap :: "draws \<Rightarrow> dry_Storage \<Rightarrow> dry_Storage" where
  "dry_Storage_snap r st =
     (let (n, ds) = dry_devices_snap r (dst_drawn st) (st_devices st) in
      st \<lparr> st_devices := ds, dst_drawn := n \<rparr>)"

text \<open>All devices get the same key.  The root device is created by asking for it.\<close>

definition dry_Storage_new :: "draws \<Rightarrow> dry_Storage res" where
  "dry_Storage_new r =
     (let number_of_devices = unat (r 0 mod 3) + 1 in
      and_then (fold_res (\<lambda>device_index (n, ds).
          and_then (dry_device r n number_of_devices) (\<lambda>d. Inr (n + 2, map_assign (sd_mounted_on d) d ds)))
        [0..<number_of_devices] (1, [])) (\<lambda>(n, ds).
          Inr (dry_Storage_snap r
            \<lparr> st_devices = map_insert ''/mnt/0'' empty_device ds, st_root_storage = Some ''/mnt/0'',
              st_json_formatted_output = False, dst_drawn = n \<rparr>)))"

section \<open>The current capabilities\<close>

text \<open>
  \<open>CurrentCapabilities\<close> of the simulated configuration (\<open>rank-prelude/include/structs/current_capabilities.h\<close>).
  The sensors and the three sources of \<open>dry-rankd-net\<close> keep nothing and their snapshots do nothing.
\<close>

record dry_engines =
  cpu_draws :: draws
  memory_draws :: draws
  os_draws :: draws
  storage_draws :: draws

record CurrentCapabilities =
  cc_cpu :: dry_CPU
  cc_memory :: dry_Memory
  cc_os :: dry_OperativeSystem
  cc_storage :: dry_Storage

definition CurrentCapabilities_new ::
  "(real \<Rightarrow> 64 word) \<Rightarrow> nat \<Rightarrow> nat \<Rightarrow> dry_engines \<Rightarrow> int \<Rightarrow> int \<Rightarrow> CurrentCapabilities res" where
  "CurrentCapabilities_new double pick pick' D now later =
     and_then (dry_Memory_new (memory_draws D)) (\<lambda>memory.
     and_then (dry_Storage_new (storage_draws D)) (\<lambda>storage. Inr
       \<lparr> cc_cpu = dry_CPU_new double pick pick' (cpu_draws D), cc_memory = memory,
         cc_os = dry_OperativeSystem_new (os_draws D) now later, cc_storage = storage \<rparr>))"

definition CurrentCapabilities_update :: "dry_engines \<Rightarrow> int \<Rightarrow> CurrentCapabilities \<Rightarrow> CurrentCapabilities" where
  "CurrentCapabilities_update D now c =
     \<lparr> cc_cpu = dry_CPU_snap (cpu_draws D) (cc_cpu c), cc_memory = dry_Memory_snap (memory_draws D) (cc_memory c),
       cc_os = dry_OperativeSystem_snap (os_draws D) now (cc_os c),
       cc_storage = dry_Storage_snap (storage_draws D) (cc_storage c) \<rparr>"

definition dry_memory_get :: "string \<Rightarrow> dry_Memory \<Rightarrow> size_t res" where
  "dry_memory_get field m = Memory_get field (dm_memory m)"

definition dry_bare_metal_cpu_cores :: "draws \<Rightarrow> dry_CPU \<Rightarrow> uint32 \<times> dry_CPU" where
  "dry_bare_metal_cpu_cores r cpu =
     (let cpu = dry_CPU_snap r cpu in (word_of_nat (length (cpu_cores (dc_cpu cpu))), cpu))"

definition dry_bare_metal_memory :: "draws \<Rightarrow> dry_Memory \<Rightarrow> (uint32 \<times> dry_Memory) res" where
  "dry_bare_metal_memory r memory =
     (let memory = dry_Memory_snap r memory in
      and_then (dry_memory_get ''total'' memory) (\<lambda>t. Inr (ucast t, memory)))"

definition dry_current_memory :: "draws \<Rightarrow> dry_Memory \<Rightarrow> (real \<times> dry_Memory) res" where
  "dry_current_memory r memory =
     (let memory = dry_Memory_snap r memory in
      and_then (dry_memory_get ''available'' memory) (\<lambda>a.
      and_then (dry_memory_get ''total'' memory) (\<lambda>t.
        if t = 0 then Inl UndefinedBehaviour else Inr (real (unat (a div t)), memory))))"

definition CurrentCapabilities_display :: "CurrentCapabilities \<Rightarrow> string res" where
  "CurrentCapabilities_display c =
     (let cores = decimal (length (cpu_cores (dc_cpu (cc_cpu c)))) in
      and_then (dry_memory_get ''available'' (cc_memory c)) (\<lambda>a.
      and_then (dry_memory_get ''total'' (cc_memory c)) (\<lambda>t.
        Inr (''{C: cpu_cores: '' @ cores @ ''/'' @ cores @ '' mem_avail: '' @ decimal (unat a) @ ''/'' @ decimal (unat t) @ '' } ''))))"

section \<open>Cores of the simulated processor\<close>

lemma fold_assign_keys:
  assumes "std_map_wf m"
  shows "std_map_wf (fold (\<lambda>i. map_assign (int i) (f i)) is m)
    \<and> fst ` set (fold (\<lambda>i. map_assign (int i) (f i)) is m) = int ` set is \<union> fst ` set m"
  using assms
proof (induction "is" arbitrary: m)
  case (Cons i "is")
  have "fst ` set (map_assign (int i) (f i) m) = insert (int i) (fst ` set m)"
    using map_of_assign [OF Cons.prems, of "int i" "f i"]
    by (metis dom_fun_upd dom_map_of_conv_image_fst option.distinct(1))
  with Cons show ?case by simp
qed simp

lemma assigned_count: "length (fold (\<lambda>i. map_assign (int i) (f i)) [0..<n] []) = n"
proof -
  let ?m = "fold (\<lambda>i. map_assign (int i) (f i)) [0..<n] []"
  have "std_map_wf ?m" "fst ` set ?m = int ` {0..<n}"
    using fold_assign_keys [of "[]" f "[0..<n]"] by simp_all
  then have "length ?m = card (int ` {0..<n})"
    using distinct_card [OF std_map_distinct] by (metis length_map list.set_map)
  then show ?thesis by (simp add: card_image)
qed

lemma dry_snap_keeps_cores [simp]: "cpu_cores (dc_cpu (dry_CPU_snap r c)) = cpu_cores (dc_cpu c)"
  by (simp add: dry_CPU_snap_def)

lemma dry_snaps_keep_cores [simp]: "cpu_cores (dc_cpu ((dry_CPU_snap r ^^ i) c)) = cpu_cores (dc_cpu c)"
  by (induction i) simp_all

lemma dry_core_count: "length (cpu_cores (dc_cpu (dry_CPU_new double pick pick' r))) = core_options ! pick"
  by (simp add: dry_CPU_new_def Let_def assigned_count)

text \<open>The test for negative counters never applies: an unsigned number below zero has wrapped around.\<close>

lemma at_least_zero_id [simp]: "at_least_zero x = x"
  by (simp add: at_least_zero_def)

lemma dry_counter_wraps: "ps_softirq s = 0 \<Longrightarrow> r (n + 4) = 0 \<Longrightarrow> ps_softirq (dry_stats_snap r n s) = - 5"
  by (simp add: dry_stats_snap_def dry_percentages_def Let_def)

section \<open>Total and available memory\<close>

lemma dry_member_keeps:
  assumes "dry_member r item (n, vs) = Inr (n', vs')" "k \<in> dom (map_of vs)"
  shows "map_of vs' k = map_of vs k"
  using assms by (auto simp: dry_member_def split: prod.splits)

lemma dry_members_keep:
  assumes "fold_res (dry_member r) items (n, vs) = Inr (n', vs')" "k \<in> dom (map_of vs)"
  shows "map_of vs' k = map_of vs k"
  using assms
proof (induction items arbitrary: n vs)
  case (Cons item items)
  then obtain n1 vs1 where step: "dry_member r item (n, vs) = Inr (n1, vs1)"
    "fold_res (dry_member r) items (n1, vs1) = Inr (n', vs')"
    by auto
  then show ?case
    using Cons.IH [OF step(2)] dry_member_keeps [OF step(1) Cons.prems(2)] Cons.prems(2) by (auto simp: dom_def)
qed simp

lemma map_of_set_member: "map_of (set_member field f vs) k = (if k = field then map_option f (map_of vs k) else map_of vs k)"
  by (induction vs) (auto simp: set_member_def)

lemma drift_members_other:
  assumes "k \<notin> fst ` set items"
  shows "map_of (snd (fold (drift_member r) items (n, vs))) k = map_of vs k"
  using assms
proof (induction items arbitrary: n vs)
  case (Cons item items)
  obtain n1 vs1 where step: "drift_member r item (n, vs) = (n1, vs1)" by fastforce
  then have "map_of vs1 k = map_of vs k"
    using Cons.prems by (auto simp: drift_member_def map_of_set_member split: prod.splits if_splits)
  then show ?case
    using Cons.IH [of n1 vs1] Cons.prems step by simp
qed simp

lemma clamp_members_other:
  "k \<notin> fst ` set items \<Longrightarrow> map_of (fold clamp_member items vs) k = map_of vs k"
  by (induction items arbitrary: vs) (auto simp: clamp_member_def map_of_set_member)

lemma dry_memory_snap_total: "map_of (mem_values (dm_memory (dry_Memory_snap r m))) ''total''
    = map_of (mem_values (dm_memory m)) ''total''"
  using drift_members_other [of "''total''" dry_drift r "dm_drawn m" "mem_values (dm_memory m)"]
    clamp_members_other [of "''total''" dry_drift]
  by (auto simp: dry_Memory_snap_def dry_drift_def split: prod.split)

text \<open>Every member has a value after the constructor and keeps having one.\<close>

definition all_assigned :: "(string \<times> size_t option) list \<Rightarrow> bool" where
  "all_assigned vs \<longleftrightarrow> list_all (\<lambda>(k, v). v \<noteq> None) vs"

lemma dry_members_assigned:
  assumes "fold_res (dry_member r) items (n, vs) = Inr (n', vs')" "all_assigned vs"
  shows "all_assigned vs' \<and> fst ` set vs' = fst ` set vs \<union> fst ` set items"
  using assms
proof (induction items arbitrary: n vs)
  case (Cons item items)
  obtain field rule where item: "item = (field, rule)" by fastforce
  obtain v where
    "fold_res (dry_member r) items (n + rule_draws rule, vs @ [(field, Some v)]) = Inr (n', vs')"
    using Cons.prems(1) dry_member_def [of r item "(n, vs)"] by (auto simp: item)
  then show ?case
    using Cons.IH Cons.prems(2) item by (auto simp: all_assigned_def)
qed simp

lemma set_member_assigned:
  "all_assigned vs \<Longrightarrow> (\<And>v. v \<noteq> None \<Longrightarrow> f v \<noteq> None) \<Longrightarrow> all_assigned (set_member field f vs)"
  by (auto simp: all_assigned_def set_member_def list_all_iff)

lemma set_member_keys [simp]: "fst ` set (set_member field f vs) = fst ` set vs"
  by (force simp: set_member_def)

lemma drift_members_assigned:
  assumes "all_assigned vs"
  shows "all_assigned (snd (fold (drift_member r) items (n, vs)))
    \<and> fst ` set (snd (fold (drift_member r) items (n, vs))) = fst ` set vs"
  using assms
proof (induction items arbitrary: n vs)
  case (Cons item items)
  obtain n1 vs1 where step: "drift_member r item (n, vs) = (n1, vs1)" by fastforce
  then have "vs1 = vs \<or> (\<exists>field f. vs1 = set_member field (map_option f) vs)"
    by (auto simp: drift_member_def split: prod.splits if_splits)
  then have "all_assigned vs1 \<and> fst ` set vs1 = fst ` set vs"
    using Cons.prems by (elim disjE exE) (simp_all add: set_member_assigned)
  then show ?case
    using Cons.IH [of vs1 n1] step by simp
qed simp

lemma clamp_members_assigned:
  "all_assigned vs \<Longrightarrow> all_assigned (fold clamp_member items vs) \<and> fst ` set (fold clamp_member items vs) = fst ` set vs"
  by (induction items arbitrary: vs) (simp_all add: clamp_member_def set_member_assigned split: option.split)

text \<open>What is known of the memory of a simulated node at any time.\<close>

definition dry_memory_ok :: "dry_Memory \<Rightarrow> bool" where
  "dry_memory_ok m \<longleftrightarrow>
     all_assigned (mem_values (dm_memory m))
     \<and> {''total'', ''available''} \<subseteq> fst ` set (mem_values (dm_memory m))
     \<and> (\<exists>t. map_of (mem_values (dm_memory m)) ''total'' = Some (Some t) \<and> 1024 \<le> unat t \<and> unat t < 65024)"

lemma dry_memory_snap_ok: "dry_memory_ok m \<Longrightarrow> dry_memory_ok (dry_Memory_snap r m)"
  using drift_members_assigned [of "mem_values (dm_memory m)" r dry_drift "dm_drawn m"]
    clamp_members_assigned [of "snd (fold (drift_member r) dry_drift (dm_drawn m, mem_values (dm_memory m)))" dry_drift]
    dry_memory_snap_total [of r m]
  by (auto simp: dry_memory_ok_def dry_Memory_snap_def split: prod.splits)

lemma dry_memory_snaps_ok: "dry_memory_ok m \<Longrightarrow> dry_memory_ok ((dry_Memory_snap r ^^ j) m)"
  by (induction j) (simp_all add: dry_memory_snap_ok)

lemma total_bounds: "1024 \<le> unat (x mod 64000 + 1024 :: 64 word) \<and> unat (x mod 64000 + 1024) < 65024"
proof -
  have "unat (x mod 64000) < 64000"
    by (simp add: unat_mod)
  then have "unat (x mod 64000 + 1024) = unat (x mod 64000) + 1024"
    by (subst unat_add_lem [THEN iffD1]) simp_all
  then show ?thesis
    using \<open>unat (x mod 64000) < 64000\<close> by simp
qed

lemma dry_memory_new_ok:
  assumes "dry_Memory_new r = Inr m"
  shows "dry_memory_ok m"
proof -
  obtain n vs where new: "fold_res (dry_member r) dry_memory_rules (0, []) = Inr (n, vs)"
    "m = dry_Memory_snap r \<lparr> dm_memory = \<lparr> mem_values = vs, mem_oom_killer_invocations = Some (uint (r n mod 100)) \<rparr>,
       dm_drawn = n + 1 \<rparr>"
    using assms by (auto simp: dry_Memory_new_def)
  obtain rest where rules: "dry_memory_rules = (''total'', Below 64000 1024) # rest"
    by (simp add: dry_memory_rules_def)
  have "fold_res (dry_member r) rest (1, [(''total'', Some (r 0 mod 64000 + 1024))]) = Inr (n, vs)"
    using new(1) by (simp add: rules dry_member_def remainder_def)
  from dry_members_keep [OF this, of "''total''"]
  have total: "map_of vs ''total'' = Some (Some (r 0 mod 64000 + 1024))" by simp
  have "{''total'', ''available''} \<subseteq> fst ` set dry_memory_rules"
    by (simp add: dry_memory_rules_def)
  then have "dry_memory_ok \<lparr> dm_memory = \<lparr> mem_values = vs, mem_oom_killer_invocations = Some (uint (r n mod 100)) \<rparr>,
      dm_drawn = n + 1 \<rparr>"
    using dry_members_assigned [OF new(1)] total total_bounds [of "r 0"] by (simp add: dry_memory_ok_def all_assigned_def)
  then show ?thesis
    by (simp add: new(2) dry_memory_snap_ok)
qed

lemma all_assigned_get: "all_assigned vs \<Longrightarrow> k \<in> fst ` set vs \<Longrightarrow> \<exists>v. map_of vs k = Some (Some v)"
  by (induction vs) (auto simp: all_assigned_def)

lemma dry_memory_values:
  assumes "dry_memory_ok m"
  obtains t a where "dry_memory_get ''total'' m = Inr t" "1024 \<le> unat t" "unat t < 65024"
    "dry_memory_get ''available'' m = Inr a"
  using assms all_assigned_get [of "mem_values (dm_memory m)" "''available''"]
  by (auto simp: dry_memory_ok_def dry_memory_get_def Memory_get_def)

section \<open>What admission sees of a simulated host\<close>

text \<open>The environment of the resource manager, as these sources report it.\<close>

definition value_or_zero :: "size_t res \<Rightarrow> size_t" where
  "value_or_zero v = (case v of Inl _ \<Rightarrow> 0 | Inr x \<Rightarrow> x)"

definition simulated_environment :: "dry_CPU \<Rightarrow> dry_Memory \<Rightarrow> environment \<Rightarrow> environment" where
  "simulated_environment cpu memory E =
     E \<lparr> env_cpu_cores := word_of_nat (length (cpu_cores (dc_cpu cpu))),
         env_memory_total := value_or_zero (dry_memory_get ''total'' memory),
         env_memory_available := value_or_zero (dry_memory_get ''available'' memory) \<rparr>"

lemma dry_bare_metal_cpu_cores_env:
  "fst (dry_bare_metal_cpu_cores r cpu) = bare_metal_cpu_cores (simulated_environment cpu memory E)"
  by (simp add: dry_bare_metal_cpu_cores_def bare_metal_cpu_cores_def simulated_environment_def Let_def)

lemma dry_bare_metal_memory_env:
  assumes "dry_memory_ok m"
  shows "dry_bare_metal_memory r m
    = Inr (bare_metal_memory (simulated_environment cpu (dry_Memory_snap r m) E), dry_Memory_snap r m)"
proof -
  obtain t where "dry_memory_get ''total'' (dry_Memory_snap r m) = Inr t"
    by (rule dry_memory_values [OF dry_memory_snap_ok [OF assms]])
  then show ?thesis
    by (simp add: dry_bare_metal_memory_def bare_metal_memory_def simulated_environment_def value_or_zero_def Let_def)
qed

lemma dry_current_memory_env:
  assumes "dry_memory_ok m"
  shows "dry_current_memory r m
    = and_then (current_memory (simulated_environment cpu (dry_Memory_snap r m) E)) (\<lambda>x. Inr (x, dry_Memory_snap r m))"
proof -
  obtain t a where "dry_memory_get ''total'' (dry_Memory_snap r m) = Inr t" "dry_memory_get ''available'' (dry_Memory_snap r m) = Inr a"
    by (rule dry_memory_values [OF dry_memory_snap_ok [OF assms]])
  then show ?thesis
    by (simp add: dry_current_memory_def current_memory_def simulated_environment_def value_or_zero_def Let_def)
qed

text \<open>The total is never zero, so that what the properties of the pool ask of the environment holds.\<close>

lemma simulated_env_ok:
  assumes "dry_memory_ok m" "0 \<le> env_rtt E" "0 \<le> env_pdv E" "0 \<le> env_pl E"
  shows "env_ok (simulated_environment cpu m E)"
proof -
  obtain t where "dry_memory_get ''total'' m = Inr t" "1024 \<le> unat t"
    by (rule dry_memory_values [OF assms(1)])
  then show ?thesis
    using assms(2-4) by (auto simp: env_ok_def simulated_environment_def value_or_zero_def)
qed

lemma core_options_bound: "pick < 5 \<Longrightarrow> 4 \<le> core_options ! pick \<and> core_options ! pick \<le> 64"
  by (auto simp: core_options_def less_Suc_eq numeral_eq_Suc)

lemma below_core_options:
  assumes "pick < 5"
  shows "(n :: uint32) < word_of_nat (core_options ! pick) \<longleftrightarrow> unat n < core_options ! pick"
proof -
  have "unat (word_of_nat (core_options ! pick) :: uint32) = core_options ! pick"
    using core_options_bound [OF assms] by (simp add: unsigned_of_nat take_bit_nat_eq_self)
  then show ?thesis
    by (simp add: word_less_nat_alt)
qed

text \<open>
  On a simulated node the admission of a request for processor cores never faults, however often
  the sources were read before: a request of non-zero priority is admitted exactly if every number of
  cores it asks for is below the number the processor was made with, one of 4, 8, 16, 32 and 64.
\<close>

lemma simulated_host_decides_admission:
  assumes "pick < 5" "dry_Memory_new rm = Inr m" "0 \<le> env_rtt E" "0 \<le> env_pdv E" "0 \<le> env_pl E"
    and "resources_wf R" "heap R a = Some r"
    and "rsv_capabilities r = cpu_requirements ns" "ns \<noteq> []" "length ns \<le> 256"
  shows "\<exists>q R'. available_for_performance
      (simulated_environment ((dry_CPU_snap rc ^^ i) (dry_CPU_new double pick pick' rc)) ((dry_Memory_snap rm ^^ j) m) E)
      (Some a) prio R = Inr (q, R')
    \<and> (q \<noteq> None \<longleftrightarrow> prio \<noteq> 0 \<and> list_all (\<lambda>n. unat n < [4, 8, 16, 32, 64] ! pick) ns)"
proof -
  let ?E = "simulated_environment ((dry_CPU_snap rc ^^ i) (dry_CPU_new double pick pick' rc)) ((dry_Memory_snap rm ^^ j) m) E"
  have env: "env_ok ?E"
    by (rule simulated_env_ok [OF dry_memory_snaps_ok [OF dry_memory_new_ok [OF assms(2)]] assms(3-5)])
  have typed: "items_typed (cap_ordered_items (rsv_capabilities r))"
    using assms(8,10) by (simp add: cpu_requirements_typed)
  have "env_cpu_cores ?E = word_of_nat (core_options ! pick)"
    by (simp add: simulated_environment_def dry_core_count)
  then have "admissible ?E (cap_ordered_items (rsv_capabilities r)) prio
      \<longleftrightarrow> prio \<noteq> 0 \<and> list_all (\<lambda>n. unat n < core_options ! pick) ns"
    using cpu_admissible [OF assms(10,9)] below_core_options [OF assms(1)] by (auto simp: assms(8))
  then show ?thesis
    using available_effect [OF assms(6,7) env typed, of prio]
    by (auto simp: core_options_def split: if_split_asm)
qed

text \<open>Draws that are all 1 make a memory; a draw of zero for the number of huge pages does not.\<close>

lemma sample_memory_defined: "isl (dry_Memory_new (\<lambda>n. 1)) = False"
  by code_simp

lemma no_huge_pages_undefined: "dry_Memory_new (\<lambda>n. if n = 41 then 0 else 1) = Inl UndefinedBehaviour"
  by code_simp

section \<open>Two sources that do not do what they mean to\<close>

text \<open>
  The storage of a simulated node cannot be made: the share in use is computed so that it is always
  far below zero, and its product with the size does not fit the unsigned member.
\<close>

lemma dry_device_undefined: "dry_device r n k = Inl UndefinedBehaviour"
proof -
  have a: "1 \<le> unat (x mod 100 + 1 :: 64 word)" and s: "128 \<le> unat (y mod 1000 + 128 :: 64 word)" for x y
  proof -
    have "unat (x mod 100) < 100" "unat (y mod 1000) < 1000" by (simp_all add: unat_mod)
    then show "1 \<le> unat (x mod 100 + 1 :: 64 word)" "128 \<le> unat (y mod 1000 + 128 :: 64 word)"
      by (simp_all add: unat_word_ariths unat_mod)
  qed
  let ?a = "real (unat (r (n + 1) mod 100 + 1))" and ?s = "real (unat (r n mod 1000 + 128))"
  have bounds: "1 \<le> ?a" "128 \<le> ?s"
    using a [of "r (n + 1)"] s [of "r n"] by linarith+
  have "1 * 128 \<le> ?a * ?s"
    by (rule mult_mono) (use bounds in simp_all)
  then have "(1 - ?a / 100 * ?s) * 100 \<le> - 28" by simp
  then have "(1 - ?a / 100 * ?s) * 100 * ?s \<le> - 28 * 128"
    using mult_mono [of 28 "- ((1 - ?a / 100 * ?s) * 100)" 128 ?s] bounds(2) by linarith
  then show ?thesis
    by (simp add: dry_device_def to_unsigned_long_def Let_def)
qed

lemma dry_storage_undefined: "dry_Storage_new r = Inl UndefinedBehaviour"
proof -
  obtain k where "[0..<unat (r 0 mod 3) + 1] = 0 # k" by (metis upt_conv_Cons add_gr_0 zero_less_one)
  then show ?thesis
    by (simp add: dry_Storage_new_def dry_device_undefined Let_def)
qed

lemma simulated_capabilities_undefined:
  "dry_Memory_new (memory_draws D) = Inr m \<Longrightarrow> CurrentCapabilities_new double pick pick' D now later = Inl UndefinedBehaviour"
  by (simp add: CurrentCapabilities_new_def dry_storage_undefined)

text \<open>
  The time since the start is taken between seconds and nanoseconds: with any clock that fits into
  64 bits it is negative, and no load is ever shown.
\<close>

lemma dry_loads_never_shown:
  assumes "10 ^ 10 \<le> now" "later < 2 ^ 63" "dos_starting_time_point os = real_of_int now" "0 \<le> later"
  shows "dry_load_1m (dry_OperativeSystem_snap r later os) = 0"
    and "dry_load_5m (dry_OperativeSystem_snap r later os) = 0"
    and "dry_load_15m (dry_OperativeSystem_snap r later os) = 0"
proof -
  have "real_of_int later / 10 ^ 9 < 10 ^ 10"
    using assms(2) by simp
  then have "truncated (real_of_int later / 10 ^ 9) \<le> 10 ^ 10"
    using assms(4) by (simp add: truncated_def floor_le_iff)
  moreover have "truncated (real_of_int now) = now"
    by (simp add: truncated_def)
  ultimately have "os_uptime (dry_OperativeSystem_snap r later os) < 60"
    using assms(1,3) by (simp add: dry_OperativeSystem_snap_def Let_def split: prod.split)
  then show "dry_load_1m (dry_OperativeSystem_snap r later os) = 0"
    "dry_load_5m (dry_OperativeSystem_snap r later os) = 0" "dry_load_15m (dry_OperativeSystem_snap r later os) = 0"
    by (simp_all add: dry_load_1m_def dry_load_5m_def dry_load_15m_def)
qed

end
