(* ===== verification/Net_Measurements.thy ===== *)
theory Net_Measurements
  imports Netlink_Walk Threads Marshalling "HOL-Library.List_Lexorder" "HOL-Library.Char_ord"
begin

text \<open>
  The measurements of the network that the network engine takes over DDS
  (\<open>internal/rankd-net/data-sources/yanpit.cpp\<close>, its header, \<open>yanpit/dds/\<close> and \<open>yanpit/structs/\<close>): four
  subscribers that differ only in their topic and the type of its data, four representations that own
  them, the connection that starts and stops the representations, and the view of the interfaces.
  What the DDS library answers to the requests for its objects is an argument; the types of the data
  are those generated for the topics, of which only the one of the interfaces is looked into.

  A pointer to data is \<open>None\<close> when it is null, a pointer to a lock is whether it is not null.  The
  representations are objects of static storage, so that the members of their subscribers without an
  initialiser (\<open>_running\<close>, \<open>_data\<close>, \<open>_mutex_pointer\<close>) start as zero.  The four classes of subscribers and
  the four of representations are the same text for another topic, hence one definition each over the
  type of the data.
\<close>

section \<open>Subscribers\<close>

record dds_answers =
  participant_created :: bool
  topic_created :: bool
  subscriber_created :: bool
  reader_created :: bool

record 'd dds_subscriber =
  sub_participant :: bool
  sub_topic :: bool
  sub_subscriber :: bool
  sub_reader :: bool
  sub_thread :: worker
  sub_data :: "'d option"
  sub_mutex :: bool

definition Subscriber_new :: "'d dds_subscriber" where
  "Subscriber_new =
     \<lparr> sub_participant = False, sub_topic = False, sub_subscriber = False, sub_reader = False,
       sub_thread = idle_worker, sub_data = None, sub_mutex = False \<rparr>"

definition Subscriber_share :: "'d option \<Rightarrow> bool \<Rightarrow> 'd dds_subscriber \<Rightarrow> 'd dds_subscriber" where
  "Subscriber_share data mutex s = s \<lparr> sub_data := data, sub_mutex := mutex \<rparr>"

definition Subscriber_execute :: "dds_answers \<Rightarrow> 'd dds_subscriber \<Rightarrow> (bool \<times> 'd dds_subscriber) res" where
  "Subscriber_execute A s =
     (let s = s \<lparr> sub_participant := participant_created A \<rparr> in
      if \<not> sub_participant s then Inr (False, s)
      else
        let s = s \<lparr> sub_topic := topic_created A \<rparr> in
        if \<not> sub_topic s then Inr (False, s)
        else
          let s = s \<lparr> sub_subscriber := subscriber_created A \<rparr> in
          if \<not> sub_subscriber s then Inr (False, s)
          else
            let s = s \<lparr> sub_reader := reader_created A \<rparr> in
            if \<not> sub_reader s then Inr (False, s)
            else
              and_then (thread_start ((sub_thread s) \<lparr> is_running := True \<rparr>)) (\<lambda>w.
                Inr (True, s \<lparr> sub_thread := w \<rparr>)))"

definition Subscriber_stop :: "'d dds_subscriber \<Rightarrow> 'd dds_subscriber res" where
  "Subscriber_stop s = and_then (worker_stop False (sub_thread s)) (\<lambda>w. Inr (s \<lparr> sub_thread := w \<rparr>))"

section \<open>Representations\<close>

record 'd representation =
  rep_thread :: worker
  rep_mutex :: bool
  rep_data :: "'d option"
  rep_subscriber :: "'d dds_subscriber"

definition Representation_new :: "'d representation" where
  "Representation_new = \<lparr> rep_thread = idle_worker, rep_mutex = False, rep_data = None, rep_subscriber = Subscriber_new \<rparr>"

text \<open>\<open>execute\<close> does not ask whether the thread runs already.\<close>

definition Representation_execute :: "dds_answers \<Rightarrow> 'd representation \<Rightarrow> 'd representation res" where
  "Representation_execute A x =
     and_then (thread_start ((rep_thread x) \<lparr> is_running := True \<rparr>)) (\<lambda>w.
     and_then (Subscriber_execute A (rep_subscriber x)) (\<lambda>(_, s).
       Inr (x \<lparr> rep_thread := w, rep_subscriber := Subscriber_share (rep_data x) (rep_mutex x) s \<rparr>)))"

definition Representation_stop :: "'d representation \<Rightarrow> 'd representation res" where
  "Representation_stop x =
     (if \<not> is_running (rep_thread x) then Inr x
      else
        and_then (Subscriber_stop (rep_subscriber x)) (\<lambda>s.
        and_then (thread_join False ((rep_thread x) \<lparr> is_running := False \<rparr>)) (\<lambda>w.
          Inr (x \<lparr> rep_thread := w, rep_subscriber := s \<rparr>))))"

definition snapshot_status :: "'d representation \<Rightarrow> 'd res" where
  "snapshot_status x =
     (if \<not> rep_mutex x then Inl NullDeref
      else case rep_data x of None \<Rightarrow> Inl NullDeref | Some d \<Rightarrow> Inr d)"

section \<open>Interfaces\<close>

record LocalnetInterface =
  ln_mac_address :: string
  ln_ip4_addresses :: "string list"
  ln_ip6_addresses :: "string list"
  ln_has_carrier :: bool
  ln_duplex_type :: string
  ln_interface_index :: uint32
  ln_enslaved_interface_index :: uint32
  ln_mtu :: uint32
  ln_operation_state :: string
  ln_speed :: "64 word"
  ln_rx_bytes :: "64 word"
  ln_tx_bytes :: "64 word"
  ln_rx_packets :: "64 word"
  ln_tx_packets :: "64 word"
  ln_rx_errors :: uint32
  ln_tx_errors :: uint32
  ln_rx_dropped :: uint32
  ln_tx_dropped :: uint32

record LocalnetStatus =
  ls_timestamp :: "64 word"
  ls_interfaces :: "(string \<times> LocalnetInterface) list"

record YanpitNetworkInterface =
  yi_name :: string
  yi_address :: string
  yi_ip4_addresses :: "string list"
  yi_ip6_addresses :: "string list"
  yi_carrier :: bool
  yi_duplex_type :: string
  yi_interface_index :: uint32
  yi_enslaved_interface_index :: uint32
  yi_mtu :: uint32
  yi_operation_state :: string
  yi_speed :: uint32
  yi_rx_bytes :: uint32
  yi_tx_bytes :: uint32
  yi_rx_packets :: uint32
  yi_tx_packets :: uint32
  yi_rx_errors :: uint32
  yi_tx_errors :: uint32
  yi_rx_dropped :: uint32
  yi_tx_dropped :: uint32

text \<open>The setters take an \<open>unsigned int\<close>: counters of 64 bits are cut to 32.\<close>

definition temporary_interface :: "string \<Rightarrow> LocalnetInterface \<Rightarrow> YanpitNetworkInterface" where
  "temporary_interface name i =
     \<lparr> yi_name = name, yi_address = ln_mac_address i, yi_ip4_addresses = ln_ip4_addresses i,
       yi_ip6_addresses = ln_ip6_addresses i, yi_carrier = ln_has_carrier i, yi_duplex_type = ln_duplex_type i,
       yi_interface_index = ln_interface_index i, yi_enslaved_interface_index = ln_enslaved_interface_index i,
       yi_mtu = ln_mtu i, yi_operation_state = ln_operation_state i, yi_speed = ucast (ln_speed i),
       yi_rx_bytes = ucast (ln_rx_bytes i), yi_tx_bytes = ucast (ln_tx_bytes i),
       yi_rx_packets = ucast (ln_rx_packets i), yi_tx_packets = ucast (ln_tx_packets i),
       yi_rx_errors = ln_rx_errors i, yi_tx_errors = ln_tx_errors i, yi_rx_dropped = ln_rx_dropped i,
       yi_tx_dropped = ln_tx_dropped i \<rparr>"

definition interfaces_as_map :: "LocalnetStatus \<Rightarrow> (string, YanpitNetworkInterface) std_map" where
  "interfaces_as_map status =
     fold (\<lambda>(name, i). map_insert name (temporary_interface name i)) (ls_interfaces status) []"

definition interface_json :: "YanpitNetworkInterface \<Rightarrow> json" where
  "interface_json i =
     JObject
       [(''mac-address'', JString (yi_address i)), (''ipv4-addresses'', JArray (map JString (yi_ip4_addresses i))),
        (''ipv6-addresses'', JArray (map JString (yi_ip6_addresses i))), (''index'', JInt (uint (yi_interface_index i))),
        (''enslaved-index'', JInt (uint (yi_enslaved_interface_index i))), (''mtu'', JInt (uint (yi_mtu i))),
        (''operation-state'', JString (yi_operation_state i)), (''speed'', JInt (uint (yi_speed i))),
        (''rx_bytes'', JInt (uint (yi_rx_bytes i))), (''tx_bytes'', JInt (uint (yi_tx_bytes i))),
        (''rx_packets'', JInt (uint (yi_rx_packets i))), (''tx_packets'', JInt (uint (yi_tx_packets i))),
        (''rx_errors'', JInt (uint (yi_rx_errors i))), (''tx_errors'', JInt (uint (yi_tx_errors i))),
        (''rx_dropped'', JInt (uint (yi_rx_dropped i))), (''tx_dropped'', JInt (uint (yi_tx_dropped i)))]"

section \<open>The connection and the network\<close>

record ('y, 'i, 'n) YanpitConnection =
  yc_yanpit :: "'y representation"
  yc_iperf :: "'i representation"
  yc_ncm :: "'n representation"
  yc_localnet :: "LocalnetStatus representation"
  yc_thread :: worker

definition YanpitConnection_new :: "('y, 'i, 'n) YanpitConnection" where
  "YanpitConnection_new =
     \<lparr> yc_yanpit = Representation_new, yc_iperf = Representation_new, yc_ncm = Representation_new,
       yc_localnet = Representation_new, yc_thread = idle_worker \<rparr>"

definition YanpitConnection_execute :: "dds_answers \<Rightarrow> ('y, 'i, 'n) YanpitConnection \<Rightarrow> ('y, 'i, 'n) YanpitConnection res" where
  "YanpitConnection_execute A c =
     (if is_running (yc_thread c) then Inr c
      else
        and_then (Representation_execute A (yc_yanpit c)) (\<lambda>y.
        and_then (Representation_execute A (yc_iperf c)) (\<lambda>i.
        and_then (Representation_execute A (yc_ncm c)) (\<lambda>n.
        and_then (Representation_execute A (yc_localnet c)) (\<lambda>l.
        and_then (thread_start ((yc_thread c) \<lparr> is_running := True \<rparr>)) (\<lambda>w.
          Inr \<lparr> yc_yanpit = y, yc_iperf = i, yc_ncm = n, yc_localnet = l, yc_thread = w \<rparr>))))))"

definition YanpitConnection_stop :: "('y, 'i, 'n) YanpitConnection \<Rightarrow> ('y, 'i, 'n) YanpitConnection res" where
  "YanpitConnection_stop c =
     (if \<not> is_running (yc_thread c) then Inr c
      else
        and_then (Representation_stop (yc_yanpit c)) (\<lambda>y.
        and_then (Representation_stop (yc_iperf c)) (\<lambda>i.
        and_then (Representation_stop (yc_ncm c)) (\<lambda>n.
        and_then (Representation_stop (yc_localnet c)) (\<lambda>l.
        and_then (thread_join False ((yc_thread c) \<lparr> is_running := False \<rparr>)) (\<lambda>w.
          Inr \<lparr> yc_yanpit = y, yc_iperf = i, yc_ncm = n, yc_localnet = l, yc_thread = w \<rparr>))))))"

definition interfaces_information_as_map ::
  "('y, 'i, 'n) YanpitConnection \<Rightarrow> (string, YanpitNetworkInterface) std_map res" where
  "interfaces_information_as_map c = and_then (snapshot_status (yc_localnet c)) (\<lambda>s. Inr (interfaces_as_map s))"

record ('y, 'i, 'n) YanpitNetwork =
  yn_interfaces :: "(string, YanpitNetworkInterface) std_map"
  yn_connection :: "('y, 'i, 'n) YanpitConnection"

definition YanpitNetwork_snap :: "('y, 'i, 'n) YanpitNetwork \<Rightarrow> ('y, 'i, 'n) YanpitNetwork res" where
  "YanpitNetwork_snap n =
     and_then (interfaces_information_as_map (yn_connection n)) (\<lambda>m. Inr (n \<lparr> yn_interfaces := m \<rparr>))"

definition YanpitNetwork_new :: "dds_answers \<Rightarrow> ('y, 'i, 'n) YanpitConnection \<Rightarrow> ('y, 'i, 'n) YanpitNetwork res" where
  "YanpitNetwork_new A connection =
     and_then (YanpitConnection_execute A connection) (\<lambda>c.
       YanpitNetwork_snap \<lparr> yn_interfaces = [], yn_connection = c \<rparr>)"

definition YanpitNetwork_json :: "('y, 'i, 'n) YanpitNetwork \<Rightarrow> json" where
  "YanpitNetwork_json n = JObject (map (\<lambda>(name, i). (name, interface_json i)) (yn_interfaces n))"

definition YanpitNetwork_print :: "(json \<Rightarrow> string) \<Rightarrow> ('y, 'i, 'n) YanpitNetwork \<Rightarrow> string" where
  "YanpitNetwork_print writer n = writer (YanpitNetwork_json n)"

section \<open>Starting and stopping\<close>

definition subscriber_ok :: "'d dds_subscriber \<Rightarrow> bool" where
  "subscriber_ok s \<longleftrightarrow> worker_ok (sub_thread s)"

definition representation_ok :: "'d representation \<Rightarrow> bool" where
  "representation_ok x \<longleftrightarrow> worker_ok (rep_thread x) \<and> subscriber_ok (rep_subscriber x)
     \<and> (is_running (sub_thread (rep_subscriber x)) \<longrightarrow> is_running (rep_thread x))"

definition connection_ok :: "('y, 'i, 'n) YanpitConnection \<Rightarrow> bool" where
  "connection_ok c \<longleftrightarrow> worker_ok (yc_thread c)
     \<and> representation_ok (yc_yanpit c) \<and> representation_ok (yc_iperf c)
     \<and> representation_ok (yc_ncm c) \<and> representation_ok (yc_localnet c)
     \<and> is_running (rep_thread (yc_yanpit c)) = is_running (yc_thread c)
     \<and> is_running (rep_thread (yc_iperf c)) = is_running (yc_thread c)
     \<and> is_running (rep_thread (yc_ncm c)) = is_running (yc_thread c)
     \<and> is_running (rep_thread (yc_localnet c)) = is_running (yc_thread c)"

lemma Representation_execute_ok:
  assumes "representation_ok x" "\<not> is_running (rep_thread x)"
  shows "\<exists>x'. Representation_execute A x = Inr x' \<and> representation_ok x' \<and> is_running (rep_thread x')
    \<and> rep_data x' = rep_data x \<and> rep_mutex x' = rep_mutex x"
  using assms
  by (auto simp: Representation_execute_def Subscriber_execute_def Subscriber_share_def representation_ok_def
      subscriber_ok_def worker_ok_def thread_start_def Let_def)

lemma Representation_stop_ok:
  assumes "representation_ok x"
  shows "\<exists>x'. Representation_stop x = Inr x' \<and> representation_ok x' \<and> \<not> is_running (rep_thread x')
    \<and> rep_data x' = rep_data x \<and> rep_mutex x' = rep_mutex x"
  using assms
  by (auto simp: Representation_stop_def Subscriber_stop_def representation_ok_def subscriber_ok_def worker_ok_def
      worker_defs)

text \<open>A representation that runs cannot be executed again, unlike the other units of the program.\<close>

lemma Representation_execute_twice:
  "representation_ok x \<Longrightarrow> is_running (rep_thread x) \<Longrightarrow> Representation_execute A x = Inl Terminated"
  by (simp add: Representation_execute_def representation_ok_def worker_ok_def thread_start_def)

lemma connection_execute_ok:
  assumes "connection_ok c"
  shows "\<exists>c'. YanpitConnection_execute A c = Inr c' \<and> connection_ok c' \<and> is_running (yc_thread c')
    \<and> rep_mutex (yc_localnet c') = rep_mutex (yc_localnet c)"
proof (cases "is_running (yc_thread c)")
  case False
  with assms obtain y i n l where
    "Representation_execute A (yc_yanpit c) = Inr y" "representation_ok y" "is_running (rep_thread y)"
    "Representation_execute A (yc_iperf c) = Inr i" "representation_ok i" "is_running (rep_thread i)"
    "Representation_execute A (yc_ncm c) = Inr n" "representation_ok n" "is_running (rep_thread n)"
    "Representation_execute A (yc_localnet c) = Inr l" "representation_ok l" "is_running (rep_thread l)"
    "rep_mutex l = rep_mutex (yc_localnet c)"
    unfolding connection_ok_def by (metis Representation_execute_ok)
  with False assms show ?thesis
    by (simp add: YanpitConnection_execute_def connection_ok_def worker_ok_def thread_start_def)
qed (use assms in \<open>simp add: YanpitConnection_execute_def\<close>)

lemma connection_stop_ok:
  assumes "connection_ok c"
  shows "\<exists>c'. YanpitConnection_stop c = Inr c' \<and> connection_ok c' \<and> \<not> is_running (yc_thread c')
    \<and> rep_mutex (yc_localnet c') = rep_mutex (yc_localnet c)"
proof (cases "is_running (yc_thread c)")
  case True
  from assms obtain y i n l where
    "Representation_stop (yc_yanpit c) = Inr y" "representation_ok y" "\<not> is_running (rep_thread y)"
    "Representation_stop (yc_iperf c) = Inr i" "representation_ok i" "\<not> is_running (rep_thread i)"
    "Representation_stop (yc_ncm c) = Inr n" "representation_ok n" "\<not> is_running (rep_thread n)"
    "Representation_stop (yc_localnet c) = Inr l" "representation_ok l" "\<not> is_running (rep_thread l)"
    "rep_mutex l = rep_mutex (yc_localnet c)"
    unfolding connection_ok_def by (metis Representation_stop_ok)
  with True assms show ?thesis
    by (simp add: YanpitConnection_stop_def connection_ok_def worker_ok_def thread_join_def)
qed (use assms in \<open>simp add: YanpitConnection_stop_def\<close>)

interpretation yanpit_connection: service "YanpitConnection_execute A" YanpitConnection_stop
  "\<lambda>c. is_running (yc_thread c)" connection_ok for A
proof unfold_locales
  show "\<exists>c'. YanpitConnection_execute A c = Inr c' \<and> connection_ok c' \<and> is_running (yc_thread c')"
    if "connection_ok c" for c :: "('y, 'i, 'n) YanpitConnection"
    using connection_execute_ok [OF that, of A] by blast
  show "\<exists>c'. YanpitConnection_stop c = Inr c' \<and> connection_ok c' \<and> \<not> is_running (yc_thread c')"
    if "connection_ok c" for c :: "('y, 'i, 'n) YanpitConnection"
    using connection_stop_ok [OF that] by blast
qed (simp_all add: YanpitConnection_execute_def YanpitConnection_stop_def)

section \<open>The view of the interfaces\<close>

text \<open>
  The pointers to the data and to its lock are null from the start; sharing them gives copies away, and
  nothing ever assigns them.  Constructing the view therefore locks a mutex that does not exist,
  whatever the library answers and however often the connection was started and stopped before.
\<close>

lemma connection_new_ok: "connection_ok YanpitConnection_new" "\<not> rep_mutex (yc_localnet YanpitConnection_new)"
  by (simp_all add: YanpitConnection_new_def Representation_new_def Subscriber_new_def connection_ok_def
      representation_ok_def subscriber_ok_def worker_ok_def idle_worker_def)

lemma control_keeps_mutex:
  fixes c :: "('y, 'i, 'n) YanpitConnection"
  assumes "connection_ok c"
  shows "\<exists>c'. yanpit_connection.control A cs c = Inr c' \<and> connection_ok c'
    \<and> rep_mutex (yc_localnet c') = rep_mutex (yc_localnet c)"
  using assms
proof (induction cs arbitrary: c)
  case (Cons start cs)
  obtain c1 where c1: "(if start then YanpitConnection_execute A c else YanpitConnection_stop c) = Inr c1"
    "connection_ok c1" "rep_mutex (yc_localnet c1) = rep_mutex (yc_localnet c)"
    using connection_execute_ok [OF Cons.prems, of A] connection_stop_ok [OF Cons.prems] by (cases start) auto
  then show ?case
    using Cons.IH [OF c1(2)] by (auto simp: yanpit_connection.control_def if_distribR)
qed (simp add: yanpit_connection.control_def)

lemma yanpit_network_undefined:
  assumes "yanpit_connection.control A cs (YanpitConnection_new :: ('y, 'i, 'n) YanpitConnection) = Inr c"
  shows "YanpitNetwork_new A c = Inl NullDeref"
proof -
  let ?new = "YanpitConnection_new :: ('y, 'i, 'n) YanpitConnection"
  have "connection_ok ?new" "\<not> rep_mutex (yc_localnet ?new)"
    by (rule connection_new_ok)+
  with assms have "connection_ok c" "\<not> rep_mutex (yc_localnet c)"
    using control_keeps_mutex [of ?new A cs] by auto
  then obtain c' where "YanpitConnection_execute A c = Inr c'" "\<not> rep_mutex (yc_localnet c')"
    using connection_execute_ok [of c A] by auto
  then show ?thesis
    by (simp add: YanpitNetwork_new_def YanpitNetwork_snap_def interfaces_information_as_map_def snapshot_status_def)
qed

text \<open>
  What the view would hold of a status: each name once, with the first of its entries, and the
  counters modulo \<open>2 ^ 32\<close>.
\<close>

lemma interfaces_first_entry:
  "std_map_wf (interfaces_as_map status)
   \<and> map_of (interfaces_as_map status) name = map_option (temporary_interface name) (map_of (ls_interfaces status) name)"
proof -
  have "std_map_wf (fold (\<lambda>(n, i). map_insert n (temporary_interface n i)) es m)
    \<and> map_of (fold (\<lambda>(n, i). map_insert n (temporary_interface n i)) es m) name =
       (case map_of m name of Some x \<Rightarrow> Some x | None \<Rightarrow> map_option (temporary_interface name) (map_of es name))"
    if "std_map_wf m" for es and m :: "(string, YanpitNetworkInterface) std_map"
    using that
    by (induction es arbitrary: m) (auto split: option.splits)
  from this [of "[]"] show ?thesis
    by (simp add: interfaces_as_map_def)
qed

lemma counters_cut:
  "uint (yi_rx_bytes (temporary_interface name i)) = uint (ln_rx_bytes i) mod 2 ^ 32"
  by (simp add: temporary_interface_def unsigned_ucast_eq take_bit_eq_mod)

end
