(* ===== verification/Host_Sensors.thy ===== *)
theory Host_Sensors
  imports Host_Reports
begin

text \<open>
  The sensors of the host as the computing engine reports them
  (\<open>internal/rankd-comp/data-sources/sensors.cpp\<close> and its header): the chips that the sensors
  library detects, each with its features and their subfeatures.  What the library reports is an
  argument; reading a subfeature may throw.  The text of a double and the writer of rapidjson are
  arguments too.
\<close>

section \<open>Kinds of buses, features and subfeatures\<close>

datatype lib_bus_type =
    bus_any | bus_i2c | bus_isa | bus_pci | bus_spi | bus_virt | bus_acpi | bus_hid | bus_mdio
  | bus_scsi

datatype BusType =
    BUS_ANY | BUS_I2C | BUS_ISA | BUS_PCI | BUS_SPI | BUS_VIRT | BUS_ACPI | BUS_HID | BUS_MDIO
  | BUS_SCSI

fun parse_bus_type :: "lib_bus_type \<Rightarrow> BusType" where
  "parse_bus_type bus_any = BUS_ANY"
| "parse_bus_type bus_i2c = BUS_I2C"
| "parse_bus_type bus_isa = BUS_ISA"
| "parse_bus_type bus_pci = BUS_PCI"
| "parse_bus_type bus_spi = BUS_SPI"
| "parse_bus_type bus_virt = BUS_VIRT"
| "parse_bus_type bus_acpi = BUS_ACPI"
| "parse_bus_type bus_hid = BUS_HID"
| "parse_bus_type bus_mdio = BUS_MDIO"
| "parse_bus_type bus_scsi = BUS_SCSI"

fun get_bus_name :: "BusType \<Rightarrow> string" where
  "get_bus_name BUS_ANY = ''Unspecified interface. Considered as Any.''"
| "get_bus_name BUS_I2C = ''I2C''"
| "get_bus_name BUS_ISA = ''ISA''"
| "get_bus_name BUS_PCI = ''PCI''"
| "get_bus_name BUS_SPI = ''SPI''"
| "get_bus_name BUS_VIRT = ''VIRT''"
| "get_bus_name BUS_ACPI = ''ACPI''"
| "get_bus_name BUS_HID = ''HID''"
| "get_bus_name BUS_MDIO = ''MDIO''"
| "get_bus_name BUS_SCSI = ''SCSI''"

fun bus_json_name :: "BusType \<Rightarrow> string" where
  "bus_json_name BUS_ANY = ''any''"
| "bus_json_name BUS_I2C = ''i2c''"
| "bus_json_name BUS_ISA = ''isa''"
| "bus_json_name BUS_PCI = ''pci''"
| "bus_json_name BUS_SPI = ''spi''"
| "bus_json_name BUS_VIRT = ''virt''"
| "bus_json_name BUS_ACPI = ''acpi''"
| "bus_json_name BUS_HID = ''hid''"
| "bus_json_name BUS_MDIO = ''mdio''"
| "bus_json_name BUS_SCSI = ''scsi''"

datatype lib_feature_type =
    feature_in | feature_fan | feature_temp | feature_power | feature_energy | feature_current
  | feature_humidity | feature_vid | feature_intrusion | feature_beep | feature_unknown

datatype FeatureType =
    FEATURE_IN | FEATURE_FAN | FEATURE_TEMPERATURE | FEATURE_POWER | FEATURE_ENERGY
  | FEATURE_CURRENT | FEATURE_HUMIDITY | FEATURE_VID | FEATURE_INTRUSION | FEATURE_BEEP
  | FEATURE_UNKNOWN

fun parse_feature_type :: "lib_feature_type \<Rightarrow> FeatureType" where
  "parse_feature_type feature_in = FEATURE_IN"
| "parse_feature_type feature_fan = FEATURE_FAN"
| "parse_feature_type feature_temp = FEATURE_TEMPERATURE"
| "parse_feature_type feature_power = FEATURE_POWER"
| "parse_feature_type feature_energy = FEATURE_ENERGY"
| "parse_feature_type feature_current = FEATURE_CURRENT"
| "parse_feature_type feature_humidity = FEATURE_HUMIDITY"
| "parse_feature_type feature_vid = FEATURE_VID"
| "parse_feature_type feature_intrusion = FEATURE_INTRUSION"
| "parse_feature_type feature_beep = FEATURE_BEEP"
| "parse_feature_type feature_unknown = FEATURE_UNKNOWN"

fun get_feature_name :: "FeatureType \<Rightarrow> string" where
  "get_feature_name FEATURE_IN = ''In''"
| "get_feature_name FEATURE_FAN = ''Fan''"
| "get_feature_name FEATURE_TEMPERATURE = ''Temperature''"
| "get_feature_name FEATURE_POWER = ''Power''"
| "get_feature_name FEATURE_ENERGY = ''Energy''"
| "get_feature_name FEATURE_CURRENT = ''Current''"
| "get_feature_name FEATURE_HUMIDITY = ''Humidity''"
| "get_feature_name FEATURE_VID = ''Vid''"
| "get_feature_name FEATURE_INTRUSION = ''Intrusion''"
| "get_feature_name FEATURE_BEEP = ''Beep''"
| "get_feature_name FEATURE_UNKNOWN = ''Unknown''"

fun feature_json_name :: "FeatureType \<Rightarrow> string" where
  "feature_json_name FEATURE_IN = ''in''"
| "feature_json_name FEATURE_FAN = ''fan''"
| "feature_json_name FEATURE_TEMPERATURE = ''temperature''"
| "feature_json_name FEATURE_POWER = ''power''"
| "feature_json_name FEATURE_ENERGY = ''energy''"
| "feature_json_name FEATURE_CURRENT = ''current''"
| "feature_json_name FEATURE_HUMIDITY = ''humidity''"
| "feature_json_name FEATURE_VID = ''vid''"
| "feature_json_name FEATURE_INTRUSION = ''intrusion''"
| "feature_json_name FEATURE_BEEP = ''beep''"
| "feature_json_name FEATURE_UNKNOWN = ''unknown''"

datatype lib_subfeature_type =
    sub_input | sub_input_lowest | sub_input_highest | sub_cap | sub_cap_hyst | sub_cap_alarm
  | sub_min | sub_min_hyst | sub_min_alarm | sub_max | sub_max_hyst | sub_max_alarm | sub_average
  | sub_lowest | sub_highest | sub_average_lowest | sub_average_highest | sub_average_interval
  | sub_crit | sub_crit_hyst | sub_crit_alarm | sub_l_crit | sub_l_crit_hyst | sub_l_crit_alarm
  | sub_alarm | sub_fault | sub_emergency | sub_emergency_hyst | sub_emergency_alarm | sub_type
  | sub_offset | sub_div | sub_beep | sub_pulses | sub_vid | sub_enable | sub_unknown

datatype SubfeatureType =
    SUB_INPUT | SUB_INPUT_LOWEST | SUB_INPUT_HIGHEST | SUB_CAP | SUB_CAP_HYSTERESIS | SUB_CAP_ALARM
  | SUB_MIN | SUB_MIN_HYSTERESIS | SUB_MIN_ALARM | SUB_MAX | SUB_MAX_HYSTERESIS | SUB_MAX_ALARM
  | SUB_AVERAGE | SUB_LOWEST | SUB_HIGHEST | SUB_AVERAGE_LOWEST | SUB_AVERAGE_HIGHEST
  | SUB_AVERAGE_INTERVAL | SUB_CRITICAL | SUB_CRITICAL_HYSTERESIS | SUB_CRITICAL_ALARM
  | SUB_L_CRITICAL | SUB_L_CRITICAL_HYSTERESIS | SUB_L_CRITICAL_ALARM | SUB_ALARM | SUB_FAULT
  | SUB_EMERGENCY | SUB_EMERGENCY_HYSTERESIS | SUB_EMERGENCY_ALARM | SUB_TYPE | SUB_OFFSET
  | SUB_DIV | SUB_BEEP | SUB_PULSES | SUB_VID | SUB_ENABLE | SUB_UNKNOWN

fun parse_subfeature_type :: "lib_subfeature_type \<Rightarrow> SubfeatureType" where
  "parse_subfeature_type sub_input = SUB_INPUT"
| "parse_subfeature_type sub_input_lowest = SUB_INPUT_LOWEST"
| "parse_subfeature_type sub_input_highest = SUB_INPUT_HIGHEST"
| "parse_subfeature_type sub_cap = SUB_CAP"
| "parse_subfeature_type sub_cap_hyst = SUB_CAP_HYSTERESIS"
| "parse_subfeature_type sub_cap_alarm = SUB_CAP_ALARM"
| "parse_subfeature_type sub_min = SUB_MIN"
| "parse_subfeature_type sub_min_hyst = SUB_MIN_HYSTERESIS"
| "parse_subfeature_type sub_min_alarm = SUB_MIN_ALARM"
| "parse_subfeature_type sub_max = SUB_MAX"
| "parse_subfeature_type sub_max_hyst = SUB_MAX_HYSTERESIS"
| "parse_subfeature_type sub_max_alarm = SUB_MAX_ALARM"
| "parse_subfeature_type sub_average = SUB_AVERAGE"
| "parse_subfeature_type sub_lowest = SUB_LOWEST"
| "parse_subfeature_type sub_highest = SUB_HIGHEST"
| "parse_subfeature_type sub_average_lowest = SUB_AVERAGE_LOWEST"
| "parse_subfeature_type sub_average_highest = SUB_AVERAGE_HIGHEST"
| "parse_subfeature_type sub_average_interval = SUB_AVERAGE_INTERVAL"
| "parse_subfeature_type sub_crit = SUB_CRITICAL"
| "parse_subfeature_type sub_crit_hyst = SUB_CRITICAL_HYSTERESIS"
| "parse_subfeature_type sub_crit_alarm = SUB_CRITICAL_ALARM"
| "parse_subfeature_type sub_l_crit = SUB_L_CRITICAL"
| "parse_subfeature_type sub_l_crit_hyst = SUB_L_CRITICAL_HYSTERESIS"
| "parse_subfeature_type sub_l_crit_alarm = SUB_L_CRITICAL_ALARM"
| "parse_subfeature_type sub_alarm = SUB_ALARM"
| "parse_subfeature_type sub_fault = SUB_FAULT"
| "parse_subfeature_type sub_emergency = SUB_EMERGENCY"
| "parse_subfeature_type sub_emergency_hyst = SUB_EMERGENCY_HYSTERESIS"
| "parse_subfeature_type sub_emergency_alarm = SUB_EMERGENCY_ALARM"
| "parse_subfeature_type sub_type = SUB_TYPE"
| "parse_subfeature_type sub_offset = SUB_OFFSET"
| "parse_subfeature_type sub_div = SUB_DIV"
| "parse_subfeature_type sub_beep = SUB_BEEP"
| "parse_subfeature_type sub_pulses = SUB_PULSES"
| "parse_subfeature_type sub_vid = SUB_VID"
| "parse_subfeature_type sub_enable = SUB_ENABLE"
| "parse_subfeature_type sub_unknown = SUB_UNKNOWN"

fun get_subfeature_name :: "SubfeatureType \<Rightarrow> string" where
  "get_subfeature_name SUB_INPUT = ''Input''"
| "get_subfeature_name SUB_INPUT_LOWEST = ''Input (lowest value)''"
| "get_subfeature_name SUB_INPUT_HIGHEST = ''Input (highest value)''"
| "get_subfeature_name SUB_CAP = ''Cap''"
| "get_subfeature_name SUB_CAP_HYSTERESIS = ''Cap (hysteresis value)''"
| "get_subfeature_name SUB_CAP_ALARM = ''Cap (alarm value)''"
| "get_subfeature_name SUB_MIN = ''Minimum''"
| "get_subfeature_name SUB_MIN_HYSTERESIS = ''Minimum (hysteresis value)''"
| "get_subfeature_name SUB_MIN_ALARM = ''Minimum (alarm value)''"
| "get_subfeature_name SUB_MAX = ''Maximum''"
| "get_subfeature_name SUB_MAX_HYSTERESIS = ''Maximum (hysteresis value)''"
| "get_subfeature_name SUB_MAX_ALARM = ''Maximum (alarm value)''"
| "get_subfeature_name SUB_AVERAGE = ''Average''"
| "get_subfeature_name SUB_LOWEST = ''Lowest''"
| "get_subfeature_name SUB_HIGHEST = ''Highest''"
| "get_subfeature_name SUB_AVERAGE_LOWEST = ''Average (lowest value)''"
| "get_subfeature_name SUB_AVERAGE_HIGHEST = ''Average (highest value)''"
| "get_subfeature_name SUB_AVERAGE_INTERVAL = ''Average (interval)''"
| "get_subfeature_name SUB_CRITICAL = ''Critical''"
| "get_subfeature_name SUB_CRITICAL_HYSTERESIS = ''Critical (hysteresis value)''"
| "get_subfeature_name SUB_CRITICAL_ALARM = ''Critical (alarm value)''"
| "get_subfeature_name SUB_L_CRITICAL = ''Low Critical''"
| "get_subfeature_name SUB_L_CRITICAL_HYSTERESIS = ''Low Critical (hysteresis value)''"
| "get_subfeature_name SUB_L_CRITICAL_ALARM = ''Low Critical (alarm value)''"
| "get_subfeature_name SUB_ALARM = ''Alarm''"
| "get_subfeature_name SUB_FAULT = ''Fault''"
| "get_subfeature_name SUB_EMERGENCY = ''Emergency''"
| "get_subfeature_name SUB_EMERGENCY_HYSTERESIS = ''Emergency (hysteresis value)''"
| "get_subfeature_name SUB_EMERGENCY_ALARM = ''Emergency (alarm value)''"
| "get_subfeature_name SUB_TYPE = ''Type''"
| "get_subfeature_name SUB_OFFSET = ''Offset''"
| "get_subfeature_name SUB_DIV = ''Div''"
| "get_subfeature_name SUB_BEEP = ''Beep''"
| "get_subfeature_name SUB_PULSES = ''Pulses''"
| "get_subfeature_name SUB_VID = ''Vid''"
| "get_subfeature_name SUB_ENABLE = ''Enable''"
| "get_subfeature_name SUB_UNKNOWN = ''Unknown''"

fun subfeature_json_name :: "SubfeatureType \<Rightarrow> string" where
  "subfeature_json_name SUB_INPUT = ''input''"
| "subfeature_json_name SUB_INPUT_LOWEST = ''input lowest''"
| "subfeature_json_name SUB_INPUT_HIGHEST = ''input highest''"
| "subfeature_json_name SUB_CAP = ''cap''"
| "subfeature_json_name SUB_CAP_HYSTERESIS = ''cap hysteresis''"
| "subfeature_json_name SUB_CAP_ALARM = ''cap alarm''"
| "subfeature_json_name SUB_MIN = ''min''"
| "subfeature_json_name SUB_MIN_HYSTERESIS = ''min hysteresis''"
| "subfeature_json_name SUB_MIN_ALARM = ''min alarm''"
| "subfeature_json_name SUB_MAX = ''max''"
| "subfeature_json_name SUB_MAX_HYSTERESIS = ''max hysteresis''"
| "subfeature_json_name SUB_MAX_ALARM = ''max alarm''"
| "subfeature_json_name SUB_AVERAGE = ''average''"
| "subfeature_json_name SUB_LOWEST = ''lowest''"
| "subfeature_json_name SUB_HIGHEST = ''highest''"
| "subfeature_json_name SUB_AVERAGE_LOWEST = ''average lowest''"
| "subfeature_json_name SUB_AVERAGE_HIGHEST = ''average highest''"
| "subfeature_json_name SUB_AVERAGE_INTERVAL = ''average interval''"
| "subfeature_json_name SUB_CRITICAL = ''critical''"
| "subfeature_json_name SUB_CRITICAL_HYSTERESIS = ''critical hysteresis''"
| "subfeature_json_name SUB_CRITICAL_ALARM = ''critical alarm''"
| "subfeature_json_name SUB_L_CRITICAL = ''l critical''"
| "subfeature_json_name SUB_L_CRITICAL_HYSTERESIS = ''l critical hysteresis''"
| "subfeature_json_name SUB_L_CRITICAL_ALARM = ''l critical alarm''"
| "subfeature_json_name SUB_ALARM = ''alarm''"
| "subfeature_json_name SUB_FAULT = ''fault''"
| "subfeature_json_name SUB_EMERGENCY = ''emergency''"
| "subfeature_json_name SUB_EMERGENCY_HYSTERESIS = ''emergency hysteresis''"
| "subfeature_json_name SUB_EMERGENCY_ALARM = ''emergency alarm''"
| "subfeature_json_name SUB_TYPE = ''type''"
| "subfeature_json_name SUB_OFFSET = ''offset''"
| "subfeature_json_name SUB_DIV = ''div''"
| "subfeature_json_name SUB_BEEP = ''beep''"
| "subfeature_json_name SUB_PULSES = ''pulses''"
| "subfeature_json_name SUB_VID = ''vid''"
| "subfeature_json_name SUB_ENABLE = ''enable''"
| "subfeature_json_name SUB_UNKNOWN = ''unknown''"
text \<open>The names of the documents tell the kinds apart.\<close>

lemma bus_json_name_inj: "bus_json_name s = bus_json_name t \<longleftrightarrow> s = t"
  by (cases s; cases t) simp_all

lemma feature_json_name_inj: "feature_json_name s = feature_json_name t \<longleftrightarrow> s = t"
  by (cases s; cases t) simp_all

section \<open>Sensors\<close>

record Subfeature =
  sub_name :: string
  sub_number :: int
  sub_type :: SubfeatureType
  sub_value :: "64 word"
  sub_is_compute_mapped :: bool
  sub_is_readable :: bool
  sub_is_writable :: bool

record Feature =
  feature_name :: string
  feature_type :: FeatureType
  feature_subfeatures :: "(string, Subfeature) std_map"

record Sensor =
  sensor_address :: int
  sensor_bus_type :: BusType
  sensor_bus_number :: int
  sensor_path :: string
  sensor_prefix :: string
  sensor_features :: "(string, Feature) std_map"

record Sensors =
  sensors_map :: "(string, Sensor) std_map"
  sensors_json_formatted_output :: bool

text \<open>What the library reports.\<close>

record lib_subfeature =
  ls_name :: string
  ls_number :: int
  ls_type :: lib_subfeature_type
  ls_read :: "64 word res"
  ls_compute_mapping :: bool
  ls_readable :: bool
  ls_writable :: bool

record lib_feature =
  lf_name :: string
  lf_type :: lib_feature_type
  lf_subfeatures :: "lib_subfeature list"

record lib_chip =
  lc_address :: int
  lc_bus_type :: lib_bus_type
  lc_bus_nr :: int
  lc_path :: string
  lc_prefix :: string
  lc_features :: "lib_feature list"

definition Subfeature_new :: "lib_subfeature \<Rightarrow> Subfeature res" where
  "Subfeature_new s =
     and_then (ls_read s) (\<lambda>v. Inr
       \<lparr> sub_name = ls_name s, sub_number = ls_number s, sub_type = parse_subfeature_type (ls_type s), sub_value = v,
         sub_is_compute_mapped = ls_compute_mapping s, sub_is_readable = ls_readable s, sub_is_writable = ls_writable s \<rparr>)"

definition update_subfeature :: "string \<Rightarrow> Subfeature \<Rightarrow> Feature \<Rightarrow> Feature" where
  "update_subfeature key v f = f \<lparr> feature_subfeatures := map_assign key v (feature_subfeatures f) \<rparr>"

definition update_features :: "string \<Rightarrow> Feature \<Rightarrow> Sensor \<Rightarrow> Sensor" where
  "update_features key v s = s \<lparr> sensor_features := map_assign key v (sensor_features s) \<rparr>"

definition update_sensors :: "string \<Rightarrow> Sensor \<Rightarrow> Sensors \<Rightarrow> Sensors" where
  "update_sensors key v s = s \<lparr> sensors_map := map_assign key v (sensors_map s) \<rparr>"

definition snap_feature :: "lib_feature \<Rightarrow> Feature res" where
  "snap_feature feature =
     fold_res (\<lambda>subfeature f.
         and_then (Subfeature_new subfeature) (\<lambda>s. Inr (update_subfeature (sub_name s) s f)))
       (lf_subfeatures feature)
       \<lparr> feature_name = lf_name feature, feature_type = parse_feature_type (lf_type feature), feature_subfeatures = [] \<rparr>"

definition snap_chip :: "lib_chip \<Rightarrow> Sensor res" where
  "snap_chip chip =
     fold_res (\<lambda>feature sensor. and_then (snap_feature feature) (\<lambda>f. Inr (update_features (feature_name f) f sensor)))
       (lc_features chip)
       \<lparr> sensor_address = lc_address chip, sensor_bus_type = parse_bus_type (lc_bus_type chip),
         sensor_bus_number = lc_bus_nr chip, sensor_path = lc_path chip, sensor_prefix = lc_prefix chip,
         sensor_features = [] \<rparr>"

definition Sensors_snap :: "lib_chip list \<Rightarrow> Sensors \<Rightarrow> Sensors res" where
  "Sensors_snap chips =
     fold_res (\<lambda>chip sensors. and_then (snap_chip chip) (\<lambda>s. Inr (update_sensors (sensor_path s) s sensors))) chips"

definition Sensors_new :: "lib_chip list \<Rightarrow> Sensors res" where
  "Sensors_new chips = Sensors_snap chips \<lparr> sensors_map = [], sensors_json_formatted_output = False \<rparr>"

definition Sensor_name :: "Sensor \<Rightarrow> string" where
  "Sensor_name s = get_bus_name (sensor_bus_type s) @ ''-'' @ sensor_prefix s @ ''-'' @ to_string (sensor_address s)"

definition Sensors_enable_json_output :: "Sensors \<Rightarrow> Sensors" where
  "Sensors_enable_json_output s = s \<lparr> sensors_json_formatted_output := True \<rparr>"

definition Sensors_disable_json_output :: "Sensors \<Rightarrow> Sensors" where
  "Sensors_disable_json_output s = s \<lparr> sensors_json_formatted_output := False \<rparr>"

section \<open>Output\<close>

text \<open>Members are named after the keys of maps, so that every member is added to its own object.\<close>

definition subfeature_json :: "Subfeature \<Rightarrow> json" where
  "subfeature_json s = JObject
     [(''number'', JInt (sub_number s)), (''type'', JString (subfeature_json_name (sub_type s))),
      (''value'', JDouble (sub_value s)), (''is-compute-mapped'', JBool (sub_is_compute_mapped s)),
      (''is-readable'', JBool (sub_is_readable s)), (''is-writable'', JBool (sub_is_writable s))]"

definition feature_json :: "Feature \<Rightarrow> json" where
  "feature_json f = JObject
     [(''type'', JString (feature_json_name (feature_type f))),
      (''subfeatures'', JObject (map (\<lambda>(k, v). (k, subfeature_json v)) (feature_subfeatures f)))]"

definition sensor_json :: "Sensor \<Rightarrow> json" where
  "sensor_json s = JObject
     [(''address'', JInt (sensor_address s)), (''bus-type'', JString (bus_json_name (sensor_bus_type s))),
      (''path'', JString (sensor_path s)), (''prefix'', JString (sensor_prefix s)),
      (''features'', JObject (map (\<lambda>(k, v). (k, feature_json v)) (sensor_features s)))]"

definition Sensors_json :: "Sensors \<Rightarrow> json" where
  "Sensors_json s = JObject (map (\<lambda>(k, v). (k, sensor_json v)) (sensors_map s))"

text \<open>The first subfeature of a type, in the order of the map.\<close>

definition subfeature_of :: "SubfeatureType \<Rightarrow> Feature \<Rightarrow> Subfeature option" where
  "subfeature_of t f = find (\<lambda>s. sub_type s = t) (map snd (feature_subfeatures f))"

definition degrees :: string where
  "degrees = [CHR 0xC2, CHR 0xBA, CHR 0x43]"

definition feature_lines :: "(64 word \<Rightarrow> string) \<Rightarrow> string \<times> Feature \<Rightarrow> string" where
  "feature_lines show item =
     (let feature = snd item in
      [CHR 0x09] @ '' -Name: '' @ fst item @ [CHR 0x0A]
      @ [CHR 0x09] @ ''  Type: '' @ get_feature_name (feature_type feature) @ [CHR 0x0A]
      @ [CHR 0x09] @ ''  Value: ''
      @ (case subfeature_of SUB_INPUT feature of
           None \<Rightarrow> ''''
         | Some s \<Rightarrow>
             (if feature_type feature = FEATURE_TEMPERATURE then show (sub_value s) @ degrees @ '' ''
              else if feature_type feature = FEATURE_FAN then show (sub_value s) @ '' rpm ''
              else if feature_type feature = FEATURE_IN then show (sub_value s) @ '' V ''
              else ''''))
      @ (case subfeature_of SUB_CRITICAL feature of
           None \<Rightarrow> ''''
         | Some s \<Rightarrow>
             (if feature_type feature = FEATURE_TEMPERATURE then ''out of '' @ show (sub_value s) @ degrees
              else if feature_type feature = FEATURE_FAN then ''out of '' @ show (sub_value s) @ '' rpm''
              else ''''))
      @ [CHR 0x0A])"

definition sensor_lines :: "(64 word \<Rightarrow> string) \<Rightarrow> string \<times> Sensor \<Rightarrow> string" where
  "sensor_lines show item =
     fst item @ '' sensor: '' @ [CHR 0x0A]
     @ [CHR 0x09] @ ''Bus Type: '' @ get_bus_name (sensor_bus_type (snd item)) @ [CHR 0x0A]
     @ [CHR 0x09] @ ''Features: '' @ [CHR 0x0A]
     @ concat (map (feature_lines show) (sensor_features (snd item)))"

definition Sensors_print :: "(json \<Rightarrow> string) \<Rightarrow> (64 word \<Rightarrow> string) \<Rightarrow> Sensors \<Rightarrow> string" where
  "Sensors_print writer show s =
     (if sensors_json_formatted_output s then writer (Sensors_json s)
      else concat (map (sensor_lines show) (sensors_map s)) @ [CHR 0x0A])"

section \<open>What a snapshot holds\<close>

text \<open>A loop that builds an item and stores it is the loop that stores the items built beforehand.\<close>

lemma fold_res_build:
  "fold_res (\<lambda>x s. and_then (g x) (\<lambda>y. Inr (h y s))) xs s
     = and_then (map_res g xs) (\<lambda>ys. Inr (fold h ys s))"
proof (induction xs arbitrary: s)
  case (Cons x xs)
  then show ?case by (cases "g x"; cases "map_res g xs") simp_all
qed simp

lemma map_res_succeeds: "(\<exists>ys. map_res f xs = Inr ys) \<longleftrightarrow> (\<forall>x\<in>set xs. \<exists>y. f x = Inr y)"
proof (induction xs)
  case (Cons x xs)
  then show ?case by (cases "f x"; cases "map_res f xs") auto
qed simp

lemma and_then_Inr_iff: "(\<exists>y. and_then r (\<lambda>x. Inr (f x)) = Inr y) \<longleftrightarrow> (\<exists>x. r = Inr x)"
  by (cases r) auto

text \<open>Storing items one after the other under their own keys: the last item of a key stays, and the
  other keys keep what they had.\<close>

lemma map_of_fold_assign:
  assumes "std_map_wf m"
  shows "std_map_wf (fold (\<lambda>y. map_assign (k y) y) ys m)"
    and "map_of (fold (\<lambda>y. map_assign (k y) y) ys m) = map_of m ++ map_of (rev (map (\<lambda>y. (k y, y)) ys))"
proof -
  have "std_map_wf (fold (\<lambda>y. map_assign (k y) y) ys m)
     \<and> map_of (fold (\<lambda>y. map_assign (k y) y) ys m) = map_of m ++ map_of (rev (map (\<lambda>y. (k y, y)) ys))"
    using assms by (induction ys arbitrary: m) (simp_all add: map_add_def fun_eq_iff split: option.splits)
  then show "std_map_wf (fold (\<lambda>y. map_assign (k y) y) ys m)"
    and "map_of (fold (\<lambda>y. map_assign (k y) y) ys m) = map_of m ++ map_of (rev (map (\<lambda>y. (k y, y)) ys))"
    by simp_all
qed

lemma update_sensors_fold:
  "sensors_map (fold (\<lambda>y. update_sensors (k y) y) ys s) = fold (\<lambda>y. map_assign (k y) y) ys (sensors_map s)"
  by (induction ys arbitrary: s) (simp_all add: update_sensors_def)

text \<open>A new snapshot only adds to the map: the sensors of the chips that are no longer detected stay
  in it, with the values of the last snapshot that read them.\<close>

lemma snap_keeps_sensors:
  assumes "std_map_wf (sensors_map s)" and "Sensors_snap chips s = Inr s'"
  obtains ss where "map_res snap_chip chips = Inr ss" and "std_map_wf (sensors_map s')"
    and "map_of (sensors_map s') = map_of (sensors_map s) ++ map_of (rev (map (\<lambda>x. (sensor_path x, x)) ss))"
proof (cases "map_res snap_chip chips")
  case (Inr ss)
  with assms(2) have "s' = fold (\<lambda>y. update_sensors (sensor_path y) y) ss s"
    by (simp add: Sensors_snap_def fold_res_build)
  with Inr show ?thesis
    using that map_of_fold_assign[OF assms(1)] by (simp add: update_sensors_fold)
qed (use assms(2) in \<open>simp add: Sensors_snap_def fold_res_build\<close>)

lemma update_features_fold: "sensor_path (fold (\<lambda>y. update_features (k y) y) ys s) = sensor_path s"
  by (induction ys arbitrary: s) (simp_all add: update_features_def)

lemma snap_chip_path: "snap_chip c = Inr s \<Longrightarrow> sensor_path s = lc_path c"
  by (cases "map_res snap_feature (lc_features c)") (auto simp: snap_chip_def fold_res_build update_features_fold)

lemma map_res_keys: "map_res f xs = Inr ys \<Longrightarrow> (\<And>x y. f x = Inr y \<Longrightarrow> k y = j x) \<Longrightarrow> map k ys = map j xs"
proof (induction xs arbitrary: ys)
  case (Cons x xs)
  then show ?case by (cases "f x"; cases "map_res f xs") auto
qed simp

lemma undetected_sensor_stays:
  assumes "std_map_wf (sensors_map s)" and "Sensors_snap chips s = Inr s'" and "p \<notin> lc_path ` set chips"
  shows "map_of (sensors_map s') p = map_of (sensors_map s) p"
proof -
  obtain ss where ss: "map_res snap_chip chips = Inr ss"
    and m: "map_of (sensors_map s') = map_of (sensors_map s) ++ map_of (rev (map (\<lambda>x. (sensor_path x, x)) ss))"
    by (rule snap_keeps_sensors[OF assms(1,2)])
  have "map sensor_path ss = map lc_path chips"
    by (rule map_res_keys[OF ss snap_chip_path])
  then have "p \<notin> sensor_path ` set ss"
    using assms(3) by (metis list.set_map)
  then have "map_of (rev (map (\<lambda>x. (sensor_path x, x)) ss)) p = None"
    by (auto simp: map_of_eq_None_iff)
  with m show ?thesis by (simp add: map_add_def)
qed

text \<open>One subfeature that cannot be read makes the whole snapshot fail, whether the library calls it
  readable or not.\<close>

lemma Subfeature_new_succeeds: "(\<exists>y. Subfeature_new s = Inr y) \<longleftrightarrow> (\<exists>v. ls_read s = Inr v)"
  unfolding Subfeature_new_def by (rule and_then_Inr_iff)

lemma snap_feature_succeeds:
  "(\<exists>y. snap_feature f = Inr y) \<longleftrightarrow> (\<forall>s\<in>set (lf_subfeatures f). \<exists>v. ls_read s = Inr v)"
  unfolding snap_feature_def fold_res_build and_then_Inr_iff map_res_succeeds Subfeature_new_succeeds ..

lemma snap_chip_succeeds:
  "(\<exists>y. snap_chip c = Inr y)
     \<longleftrightarrow> (\<forall>f\<in>set (lc_features c). \<forall>s\<in>set (lf_subfeatures f). \<exists>v. ls_read s = Inr v)"
  unfolding snap_chip_def fold_res_build and_then_Inr_iff map_res_succeeds snap_feature_succeeds ..

lemma Sensors_new_succeeds:
  "(\<exists>y. Sensors_new chips = Inr y)
     \<longleftrightarrow> (\<forall>c\<in>set chips. \<forall>f\<in>set (lc_features c). \<forall>s\<in>set (lf_subfeatures f). \<exists>v. ls_read s = Inr v)"
  unfolding Sensors_new_def Sensors_snap_def fold_res_build and_then_Inr_iff map_res_succeeds snap_chip_succeeds ..

end
