(* ===== verification/Net_Neighbors.thy ===== *)
theory Net_Neighbors
  imports Netlink_Walk
begin

text \<open>
  The neighbours of the host (\<open>internal/rankd-net/data-sources/neighbors.cpp\<close>): the snapshot of
  the neighbour table of the kernel, its JSON document and its text, and what the sender of
  frames takes from it.  The kernel and \<open>inet_ntop\<close> are arguments, as is the writer of rapidjson.
\<close>

section \<open>The snapshot\<close>

record NetworkNeighbor =
  nbr_family :: byte
  nbr_interface_index :: byte
  nbr_state :: string
  nbr_flags :: "string list"
  nbr_l2_address :: string
  nbr_l3_address :: string

record NetworkNeighbors =
  nbr_list :: "NetworkNeighbor list"
  nbr_json_formatted_output :: bool

definition neighbor_state :: "nat \<Rightarrow> string" where
  "neighbor_state ndm_state =
     (if ndm_state = 0x01 then ''incomplete''
      else if ndm_state = 0x02 then ''reachable''
      else if ndm_state = 0x04 then ''stale''
      else if ndm_state = 0x08 then ''delay''
      else if ndm_state = 0x10 then ''probe''
      else if ndm_state = 0x20 then ''failed''
      else if ndm_state = 0x40 then ''no ARP''
      else if ndm_state = 0x80 then ''permanent''
      else '''')"

definition neighbor_flags :: "byte \<Rightarrow> string list" where
  "neighbor_flags ndm_flags =
     (if and ndm_flags 0x08 = ndm_flags then [''proxy''] else [])
     @ (if and ndm_flags 0x80 = ndm_flags then [''router''] else [])"

definition neighbor_attribute ::
  "(byte list \<Rightarrow> string) \<Rightarrow> byte list \<Rightarrow> nat \<Rightarrow> nat \<Rightarrow> nat \<Rightarrow> NetworkNeighbor \<Rightarrow> NetworkNeighbor res" where
  "neighbor_attribute inet_ntop buffer ndm_family rta_type attribute neighbor =
     (if rta_type = NDA_DST then
        and_then
          (if ndm_family = AF_BRIDGE then
             and_then (RTA_PAYLOAD buffer attribute) (\<lambda>n. Inr (if n = 16 then AF_INET6 else AF_INET))
           else Inr ndm_family) (\<lambda>family.
        and_then (ip_to_string inet_ntop buffer family (attribute + sizeof_rtattr)) (\<lambda>a.
          Inr (neighbor \<lparr> nbr_l3_address := a \<rparr>)))
      else if rta_type = NDA_LLADDR then
        and_then (mac_to_string buffer (attribute + sizeof_rtattr)) (\<lambda>a.
          Inr (neighbor \<lparr> nbr_l2_address := a \<rparr>))
      else Inr neighbor)"

text \<open>
  The members of \<open>struct ndmsg\<close>: family at offset 0, interface at 4, state at 8, flags at 10.  The
  index of the interface is cut to an octet.  The length for the attributes is that of the whole
  message.
\<close>

definition neighbor_message ::
  "(byte list \<Rightarrow> string) \<Rightarrow> byte list \<Rightarrow> nat \<Rightarrow> nat \<Rightarrow> NetworkNeighbor list \<Rightarrow> (NetworkNeighbor list \<times> bool) run" where
  "neighbor_message inet_ntop buffer response nlmsg_len neighbors =
     (let nd_message = response + sizeof_nlmsghdr in
      run_then (Some (load buffer nd_message)) (\<lambda>ndm_family.
      run_then (Some (load32 buffer (nd_message + 4))) (\<lambda>ndm_ifindex.
      run_then (Some (load16 buffer (nd_message + 8))) (\<lambda>ndm_state.
      run_then (Some (load buffer (nd_message + 10))) (\<lambda>ndm_flags.
      run_then
        (attribute_walk buffer (neighbor_attribute inet_ntop buffer (unat ndm_family))
           (nd_message + sizeof_rtmsg) (int nlmsg_len)
           \<lparr> nbr_family = ndm_family, nbr_interface_index = word_of_nat ndm_ifindex,
             nbr_state = neighbor_state ndm_state, nbr_flags = neighbor_flags ndm_flags,
             nbr_l2_address = '''', nbr_l3_address = '''' \<rparr>)
        (\<lambda>neighbor. Some (Inr (neighbors @ [neighbor], False))))))))"

definition NetworkNeighbors_snap ::
  "(byte list \<Rightarrow> string) \<Rightarrow> (netlink_request \<Rightarrow> netlink_answer) \<Rightarrow> NetworkNeighbors \<Rightarrow> NetworkNeighbors run" where
  "NetworkNeighbors_snap inet_ntop linux n =
     run_then (Some (netlink_dump linux 30 (Some 0))) (\<lambda>(buffer, received_bytes).
     run_then (message_walk buffer (neighbor_message inet_ntop buffer) received_bytes []) (\<lambda>(neighbors, _).
       Some (Inr (n \<lparr> nbr_list := neighbors \<rparr>))))"

definition NetworkNeighbors_new ::
  "(byte list \<Rightarrow> string) \<Rightarrow> (netlink_request \<Rightarrow> netlink_answer) \<Rightarrow> NetworkNeighbors run" where
  "NetworkNeighbors_new inet_ntop linux =
     NetworkNeighbors_snap inet_ntop linux \<lparr> nbr_list = [], nbr_json_formatted_output = False \<rparr>"

definition NetworkNeighbors_enable_json_output :: "NetworkNeighbors \<Rightarrow> NetworkNeighbors" where
  "NetworkNeighbors_enable_json_output n = n \<lparr> nbr_json_formatted_output := True \<rparr>"

definition NetworkNeighbors_disable_json_output :: "NetworkNeighbors \<Rightarrow> NetworkNeighbors" where
  "NetworkNeighbors_disable_json_output n = n \<lparr> nbr_json_formatted_output := False \<rparr>"

section \<open>Output\<close>

definition neighbor_json :: "NetworkNeighbor \<Rightarrow> json" where
  "neighbor_json neighbor = JObject
     [(''family'', JInt (uint (nbr_family neighbor))), (''state'', JString (nbr_state neighbor)),
      (''mac'', JString (nbr_l2_address neighbor)), (''ip'', JString (nbr_l3_address neighbor)),
      (''flags'', JArray (map JString (nbr_flags neighbor)))]"

definition NetworkNeighbors_json :: "NetworkNeighbors \<Rightarrow> json" where
  "NetworkNeighbors_json n = JObject [(''neighbors'', JArray (map neighbor_json (nbr_list n)))]"

text \<open>The index \<open>i\<close> of the loop over the flags decides on the separator.\<close>

fun comma_separated :: "string list \<Rightarrow> string" where
  "comma_separated [] = ''''"
| "comma_separated [x] = x"
| "comma_separated (x # xs) = x @ '', '' @ comma_separated xs"

definition neighbor_line :: "NetworkNeighbor \<Rightarrow> string" where
  "neighbor_line neighbor =
     nbr_l3_address neighbor @ '' has MAC address of '' @ nbr_l2_address neighbor
     @ '' (this record is considered '' @ nbr_state neighbor @ '', with flags of ''
     @ (if nbr_flags neighbor \<noteq> [] then comma_separated (nbr_flags neighbor) else ''--'')
     @ '')'' @ [CHR 0x0A]"

definition NetworkNeighbors_print :: "(json \<Rightarrow> string) \<Rightarrow> NetworkNeighbors \<Rightarrow> string" where
  "NetworkNeighbors_print writer n =
     (if nbr_json_formatted_output n then writer (NetworkNeighbors_json n)
      else concat (map neighbor_line (nbr_list n)))"

text \<open>
  The tests for the flags hold for a subset of the flag, not for a superset: an entry without
  flags is reported as proxy and as router, and a router with any other flag is not reported.
\<close>

lemma neighbor_flags_inverted:
  "neighbor_flags 0 = [''proxy'', ''router'']" "neighbor_flags 0x81 = []"
  by (simp_all add: neighbor_flags_def)

section \<open>Termination\<close>

lemma neighbor_message_returns: "neighbor_message ntop b p n ns \<noteq> None"
  by (simp add: neighbor_message_def Let_def)

lemma NetworkNeighbors_snap_terminates: "NetworkNeighbors_snap ntop linux n \<noteq> None"
  using message_walk_terminates [OF neighbor_message_returns]
  by (auto simp: NetworkNeighbors_snap_def)

section \<open>A dump of the kernel\<close>

text \<open>
  The members of a message of the neighbour table and its octets.  \<open>kn_header\<close> are the twelve
  octets of the netlink header behind the length, \<open>kn_pad\<close> the padding behind the family.
\<close>

record kernel_neighbor =
  kn_header :: "byte list"
  kn_family :: byte
  kn_pad :: "byte list"
  kn_ifindex :: nat
  kn_state :: nat
  kn_flags :: byte
  kn_type :: byte
  kn_attributes :: "(nat \<times> byte list) list"

definition kn_body :: "kernel_neighbor \<Rightarrow> byte list" where
  "kn_body k = concat (map rtattr_octets (kn_attributes k))"

definition kn_octets :: "kernel_neighbor \<Rightarrow> byte list" where
  "kn_octets k =
     le16 (28 + length (kn_body k)) @ [0, 0] @ kn_header k @ [kn_family k] @ kn_pad k
     @ le16 (kn_ifindex k mod 65536) @ le16 (kn_ifindex k div 65536) @ le16 (kn_state k)
     @ [kn_flags k, kn_type k] @ kn_body k"

definition kn_attribute_ok :: "byte \<Rightarrow> nat \<times> byte list \<Rightarrow> bool" where
  "kn_attribute_ok family a \<longleftrightarrow>
     rtattr_fits a
     \<and> (fst a = NDA_DST \<longrightarrow> length (snd a) = (if unat family = AF_INET then 4 else 16))
     \<and> (fst a = NDA_LLADDR \<longrightarrow> length (snd a) = 6)"

definition kn_ok :: "kernel_neighbor \<Rightarrow> bool" where
  "kn_ok k \<longleftrightarrow>
     length (kn_header k) = 12 \<and> length (kn_pad k) = 3 \<and> kn_ifindex k < 2 ^ 32 \<and> kn_state k < 2 ^ 16
     \<and> (unat (kn_family k) = AF_INET \<or> unat (kn_family k) = AF_INET6)
     \<and> kn_attributes k \<noteq> [] \<and> list_all (kn_attribute_ok (kn_family k)) (kn_attributes k)
     \<and> 28 + length (kn_body k) < 2 ^ 16"

text \<open>What the snapshot is to hold for it: the last address of each kind.\<close>

definition kn_add_attribute :: "(byte list \<Rightarrow> string) \<Rightarrow> nat \<times> byte list \<Rightarrow> NetworkNeighbor \<Rightarrow> NetworkNeighbor" where
  "kn_add_attribute inet_ntop a neighbor =
     (if fst a = NDA_DST then neighbor \<lparr> nbr_l3_address := inet_ntop (snd a) \<rparr>
      else if fst a = NDA_LLADDR then neighbor \<lparr> nbr_l2_address := colon_separated (map hex_byte (snd a)) \<rparr>
      else neighbor)"

definition kn_neighbor :: "(byte list \<Rightarrow> string) \<Rightarrow> kernel_neighbor \<Rightarrow> NetworkNeighbor" where
  "kn_neighbor inet_ntop k =
     fold (kn_add_attribute inet_ntop) (kn_attributes k)
       \<lparr> nbr_family = kn_family k, nbr_interface_index = word_of_nat (kn_ifindex k),
         nbr_state = neighbor_state (kn_state k), nbr_flags = neighbor_flags (kn_flags k),
         nbr_l2_address = '''', nbr_l3_address = '''' \<rparr>"

lemma kn_length: "kn_ok k \<Longrightarrow> length (kn_octets k) = 28 + length (kn_body k)"
  by (simp add: kn_ok_def kn_octets_def)

lemma kn_framed: "kn_ok k \<Longrightarrow> framed (kn_octets k)"
  using length_attributes_mod [of "kn_attributes k"]
  by (simp add: framed_def kn_length) (simp add: kn_ok_def kn_octets_def kn_body_def mod_add_eq [symmetric])

lemma kn_long: "kn_ok k \<Longrightarrow> 28 < length (kn_octets k)"
  by (cases "kn_attributes k") (auto simp: kn_length kn_ok_def kn_body_def)

lemma kn_loads:
  assumes "kn_ok k" "b = pre @ kn_octets k @ post" "p = length pre + 16"
  shows "load b p = Inr (kn_family k)" "load32 b (p + 4) = Inr (kn_ifindex k)"
    and "load16 b (p + 8) = Inr (kn_state k)" "load b (p + 10) = Inr (kn_flags k)"
proof -
  let ?h = "pre @ le16 (28 + length (kn_body k)) @ [0, 0] @ kn_header k"
  let ?f = "?h @ [kn_family k] @ kn_pad k"
  let ?i = "?f @ le16 (kn_ifindex k mod 65536) @ le16 (kn_ifindex k div 65536)"
  have lengths: "length ?h = p" "length ?f = p + 4" "length ?i = p + 8"
    using assms(1,3) by (simp_all add: kn_ok_def)
  show "load b p = Inr (kn_family k)"
    by (rule load_at [OF _ lengths(1) [symmetric]]) (simp add: assms(2) kn_octets_def)
  show "load32 b (p + 4) = Inr (kn_ifindex k)"
    by (rule load32_at [OF _ _ lengths(2) [symmetric]]) (use assms in \<open>simp_all add: kn_octets_def kn_ok_def\<close>)
  show "load16 b (p + 8) = Inr (kn_state k)"
    by (rule load16_at [OF _ _ lengths(3) [symmetric]]) (use assms in \<open>simp_all add: kn_octets_def kn_ok_def\<close>)
  show "load b (p + 10) = Inr (kn_flags k)"
    by (rule load_at [where pre = "?i @ le16 (kn_state k)"]) (use lengths in \<open>simp_all add: assms(2) kn_octets_def\<close>)
qed

lemma neighbor_attribute_at:
  assumes "kn_attribute_ok family a" "unat family = AF_INET \<or> unat family = AF_INET6" "attribute_at b p a"
  shows "neighbor_attribute ntop b (unat family) (fst a) p n = Inr (kn_add_attribute ntop a n)"
proof -
  have "fst a = NDA_DST \<Longrightarrow> ip_to_string ntop b (unat family) (p + 4) = Inr (ntop (snd a))"
    using assms by (cases "unat family = AF_INET") (simp_all add: kn_attribute_ok_def ip_to_string_def attribute_at_def)
  moreover have "fst a = NDA_LLADDR \<Longrightarrow> mac_to_string b (p + 4) = Inr (colon_separated (map hex_byte (snd a)))"
    using assms by (simp add: kn_attribute_ok_def mac_to_string_def attribute_at_def)
  moreover have "unat family \<noteq> AF_BRIDGE"
    using assms(2) by auto
  ultimately show ?thesis
    by (simp add: neighbor_attribute_def kn_add_attribute_def)
qed

text \<open>One message, whatever follows it: the attributes end where no further one fits into 28 octets.\<close>

lemma neighbor_message_of_kernel:
  assumes "kn_ok k" "b = pre @ kn_octets k @ post"
    and "RTA_OK b (length pre + length (kn_octets k)) 28 = Inr False"
  shows "neighbor_message ntop b (length pre) (length (kn_octets k)) ns = Some (Inr (ns @ [kn_neighbor ntop k], False))"
proof -
  let ?as = "kn_attributes k"
  let ?head = "take 28 (kn_octets k)"
  have octets: "kn_octets k = ?head @ concat (map rtattr_octets ?as)" and head: "length ?head = 28"
    using assms(1) by (simp_all add: kn_octets_def kn_ok_def kn_body_def)
  have b: "b = (pre @ ?head) @ concat (map rtattr_octets ?as) @ post"
    using assms(2) octets by simp
  have total: "length (kn_octets k) = 28 + length (concat (map rtattr_octets ?as))"
    using kn_length [OF assms(1)] by (simp add: kn_body_def)
  have "attribute_walk b (neighbor_attribute ntop b (unat (kn_family k))) (length (pre @ ?head))
      (int (length (concat (map rtattr_octets ?as))) + 28) n = Some (Inr (fold (kn_add_attribute ntop) ?as n))" for n
  proof (rule attribute_walk_is_fold [OF _ b])
    show "list_all rtattr_fits ?as"
      using assms(1) by (auto simp: kn_ok_def kn_attribute_ok_def list_all_iff)
    show "RTA_OK b (length ((pre @ ?head) @ concat (map rtattr_octets ?as))) 28 = Inr False"
      using assms(3) total head by (simp add: add.assoc)
    show "neighbor_attribute ntop b (unat (kn_family k)) (fst a) p x = Inr (kn_add_attribute ntop a x)"
      if "a \<in> set ?as" "attribute_at b p a" for a p x
      using that assms(1) by (intro neighbor_attribute_at) (auto simp: kn_ok_def list_all_iff)
  qed simp
  then show ?thesis
    using kn_loads [OF assms(1,2), of "length pre + 16"] head total
    by (simp add: neighbor_message_def kn_neighbor_def Let_def add.commute)
qed

text \<open>
  The snapshot of the neighbours is the neighbour table of the kernel.  For a response that
  holds messages as the kernel writes them, each with an attribute, and behind which the buffer
  does not look like an attribute, the snapshot has exactly one entry per message, in their order:
  its family, state and flags, the texts of its hardware and its network address, and the lowest
  octet of the index of its interface.
\<close>

lemma neighbors_snapshot:
  assumes "list_all kn_ok ks"
    and "netlink_dump linux 30 (Some 0) = Inr (concat (map kn_octets ks) @ post, int (length (concat (map kn_octets ks))))"
    and "RTA_OK post 0 28 = Inr False"
  shows "NetworkNeighbors_snap ntop linux n = Some (Inr (n \<lparr> nbr_list := map (kn_neighbor ntop) ks \<rparr>))"
proof -
  let ?b = "concat (map kn_octets ks) @ post"
  have body: "neighbor_message ntop ?b (length (concat (map kn_octets ks1))) (length (kn_octets k)) ns
      = Some (Inr (ns @ [kn_neighbor ntop k], False))" if "ks = ks1 @ k # ks2" for ks1 k ks2 ns
  proof (rule neighbor_message_of_kernel)
    show ok: "kn_ok k" and b: "?b = concat (map kn_octets ks1) @ kn_octets k @ (concat (map kn_octets ks2) @ post)"
      using that assms(1) by simp_all
    let ?p = "length (concat (map kn_octets ks1)) + length (kn_octets k)"
    show "RTA_OK ?b ?p 28 = Inr False"
    proof (cases ks2)
      case Nil
      then have "load16 ?b (?p + i) = load16 post i" for i
        using that by (simp add: load16_def load_def nth_append)
      with assms(3) show ?thesis
        by (simp add: RTA_OK_def) (metis add.right_neutral)
    next
      case (Cons k' ks')
      have "kn_ok k'"
        using that assms(1) Cons by simp
      moreover have "?b = concat (map kn_octets (ks1 @ [k])) @ kn_octets k' @ (concat (map kn_octets ks') @ post)"
        using that Cons by simp
      ultimately have "load16 ?b (length (concat (map kn_octets (ks1 @ [k])))) = Inr (length (kn_octets k'))"
        using framed_loads(1) [OF kn_framed] by blast
      then show ?thesis
        using kn_long [OF \<open>kn_ok k'\<close>] by (simp add: RTA_OK_def)
    qed
  qed
  have "message_walk ?b (neighbor_message ntop ?b) (int (length (concat (map kn_octets ks)))) []
      = Some (Inr (fold (\<lambda>k ns. ns @ [kn_neighbor ntop k]) ks [], False))"
    by (rule message_walk_is_fold [where post = post])
      (use body assms(1) in \<open>auto simp: list_all_iff intro: kn_framed\<close>)
  moreover have "fold (\<lambda>k ns. ns @ [kn_neighbor ntop k]) ks ns = ns @ map (kn_neighbor ntop) ks" for ns
    by (induction ks arbitrary: ns) simp_all
  ultimately show ?thesis
    by (simp add: NetworkNeighbors_snap_def assms(2))
qed

definition sample_entry :: kernel_neighbor where
  "sample_entry =
     \<lparr> kn_header = [28, 0, 2, 0, 0, 0, 0, 0, 0, 0, 0, 0], kn_family = 2, kn_pad = [0, 0, 0], kn_ifindex = 259,
       kn_state = 2, kn_flags = 0, kn_type = 1,
       kn_attributes = [(1, [192, 168, 0, 7]), (2, [2, 0, 0, 0, 0, 9])] \<rparr>"

definition sample_answer :: "netlink_request \<Rightarrow> netlink_answer" where
  "sample_answer request =
     \<lparr> nl_socket = 3, nl_bind = 0, nl_send = 28, nl_recv = 48, nl_buffer = kn_octets sample_entry @ replicate 60 0 \<rparr>"

lemma sample_entry_ok: "kn_ok sample_entry" "length (kn_octets sample_entry) = 48"
  "RTA_OK (replicate 60 0) 0 28 = Inr False"
  "netlink_dump sample_answer 30 (Some 0) = Inr (kn_octets sample_entry @ replicate 60 0, 48)"
  by (simp_all add: kn_ok_def sample_entry_def kn_attribute_ok_def rtattr_fits_def kn_body_def align4_def
      kn_octets_def RTA_OK_def load16_def netlink_dump_def sample_answer_def)

section \<open>The interface of a frame\<close>

text \<open>What \<open>Sender::make_and_send_frame\<close> reads of the snapshot it takes.\<close>

definition sender_neighbors :: "NetworkNeighbors \<Rightarrow> (string \<times> int) list" where
  "sender_neighbors n = map (\<lambda>x. (nbr_l2_address x, uint (nbr_interface_index x))) (nbr_list n)"

definition kn_mac :: "kernel_neighbor \<Rightarrow> byte list option" where
  "kn_mac k = fold (\<lambda>a m. if fst a = NDA_LLADDR then Some (snd a) else m) (kn_attributes k) None"

definition mac_text :: "byte list option \<Rightarrow> string" where
  "mac_text m = (case m of None \<Rightarrow> '''' | Some a \<Rightarrow> colon_separated (map hex_byte a))"

lemma kn_neighbor_l2: "nbr_l2_address (kn_neighbor ntop k) = mac_text (kn_mac k)"
proof -
  have "nbr_l2_address (fold (kn_add_attribute ntop) as n)
      = mac_text (fold (\<lambda>a m. if fst a = NDA_LLADDR then Some (snd a) else m) as m)"
    if "nbr_l2_address n = mac_text m" for as n m
    using that by (induction as arbitrary: n m) (simp_all add: kn_add_attribute_def mac_text_def)
  then show ?thesis
    by (simp add: kn_neighbor_def kn_mac_def mac_text_def)
qed

lemma kn_neighbor_interface: "nbr_interface_index (kn_neighbor ntop k) = word_of_nat (kn_ifindex k)"
proof -
  have "nbr_interface_index (fold (kn_add_attribute ntop) as n) = nbr_interface_index n" for as n
    by (induction as arbitrary: n) (simp_all add: kn_add_attribute_def)
  then show ?thesis
    by (simp add: kn_neighbor_def)
qed

lemma last_mac_length:
  assumes "list_all (kn_attribute_ok f) as" "pred_option (\<lambda>a. length a = 6) m"
  shows "pred_option (\<lambda>a. length a = 6) (fold (\<lambda>a m. if fst a = NDA_LLADDR then Some (snd a) else m) as m)"
  using assms
proof (induction as arbitrary: m)
  case (Cons x as)
  then show ?case
    by (cases "fst x = NDA_LLADDR") (simp_all add: kn_attribute_ok_def)
qed simp

lemma kn_mac_length: "kn_ok k \<Longrightarrow> kn_mac k = Some a \<Longrightarrow> length a = 6"
  using last_mac_length [of "kn_family k" "kn_attributes k" None] by (simp add: kn_ok_def kn_mac_def)

lemma kn_text_matches:
  assumes "kn_ok k" "length tgt = 6"
  shows "mac_text (kn_mac k) = colon_separated (map hex_byte tgt) \<longleftrightarrow> kn_mac k = Some tgt"
proof (cases "kn_mac k")
  case None
  obtain x y xs where "tgt = x # y # xs"
    using assms(2) by (cases tgt; cases "tl tgt") auto
  then show ?thesis
    using None by (simp add: mac_text_def hex_byte_def)
next
  case (Some a)
  then show ?thesis
    using kn_mac_length [OF assms(1) Some] assms(2) by (simp add: mac_text_def mac_text_inj)
qed

lemma find_interface_filter:
  "find_interface ns name = (case filter (\<lambda>x. fst x = name) ns of [] \<Rightarrow> - 1 | xs \<Rightarrow> snd (last xs))"
proof -
  have "fold (\<lambda>(l, i) found. if l = name then i else found) ns j
      = (case filter (\<lambda>x. fst x = name) ns of [] \<Rightarrow> j | xs \<Rightarrow> snd (last xs))" for j
    by (induction ns arbitrary: j) (auto split: list.splits)
  then show ?thesis
    by (simp add: find_interface_def)
qed


definition sample_link_layer :: link_layer where
  "sample_link_layer = \<lparr> ll_neighbors = [], ll_indextoname = [3 \<mapsto> ''eth0''],
     ll_device = [''eth0'' \<mapsto> \<lparr> pcap_opens = True, pcap_sends = (\<lambda>_. True) \<rparr>] \<rparr>"


end
