(* ===== verification/Net_Routes.thy ===== *)
theory Net_Routes
  imports Netlink_Walk
begin

text \<open>
  The routes of the host (\<open>internal/rankd-net/data-sources/routes.cpp\<close>): the snapshot of the
  routing tables of the kernel, its JSON document and its text.  The kernel, \<open>inet_ntop\<close>, the names
  of interfaces and the highest attribute type of the kernel headers are arguments.  A member that
  the constructor of \<open>NetworkRoute\<close> leaves uninitialised is \<open>None\<close> until it is written.
\<close>

section \<open>The snapshot\<close>

record NetworkRoute =
  rt_family :: int
  rt_destination :: string
  rt_destination_length :: int
  rt_source :: string
  rt_source_length :: int
  rt_input_interface :: string
  rt_tos :: int
  rt_output_interface :: string
  rt_table_id :: int
  rt_gateway :: string
  rt_route_protocol :: string
  rt_scope :: string
  rt_type :: string
  rt_flags :: string
  rt_priority :: "int option"
  rt_metric :: "int option"

record NetworkRoutes =
  rt_list :: "NetworkRoute list"
  rt_json_formatted_output :: bool

text \<open>The switches over the members of \<open>struct rtmsg\<close>, as tables with the empty text as default.\<close>

definition table_lookup :: "(nat \<times> string) list \<Rightarrow> nat \<Rightarrow> string" where
  "table_lookup entries n = (case map_of entries n of None \<Rightarrow> '''' | Some name \<Rightarrow> name)"

definition route_type :: "nat \<Rightarrow> string" where
  "route_type = table_lookup
     [(1, ''unicast''), (2, ''local''), (3, ''broadcast''), (4, ''anycast''), (5, ''multicast''),
      (6, ''blackhole''), (7, ''unreachable''), (8, ''prohibit''), (9, ''throw''), (10, ''nat''),
      (11, ''xresolve'')]"

definition route_protocol :: "nat \<Rightarrow> string" where
  "route_protocol = table_lookup
     [(1, ''redirect''), (2, ''kernel''), (3, ''boot''), (4, ''static''), (8, ''GateD''),
      (9, ''RDISC/ND router advertisements''), (10, ''Merit MRT''), (11, ''Zebra''), (12, ''BIRD''),
      (13, ''DECnet routing daemon''), (14, ''XORP''), (15, ''Netsukuku''), (16, ''DHCP client''),
      (17, ''Multicast daemon''), (42, ''Babel daemon''), (186, ''BGP''), (187, ''IS-IS''),
      (188, ''OSPF''), (189, ''RIP''), (192, ''EIGRP'')]"

definition route_scope :: "nat \<Rightarrow> string" where
  "route_scope = table_lookup
     [(0, ''universe''), (200, ''site''), (253, ''link''), (254, ''host''), (255, ''nowhere'')]"

definition route_flags :: "nat \<Rightarrow> string" where
  "route_flags = table_lookup
     [(0x100, ''notify''), (0x200, ''cloned from another''), (0x400, ''multipath equalizer'')]"

abbreviation (input) "RTA_SRC \<equiv> 2 :: nat"
abbreviation (input) "RTA_IIF \<equiv> 3 :: nat"
abbreviation (input) "RTA_OIF \<equiv> 4 :: nat"
abbreviation (input) "RTA_PRIORITY \<equiv> 6 :: nat"
abbreviation (input) "RTA_METRICS \<equiv> 8 :: nat"

definition route_attributes ::
  "(byte list \<Rightarrow> string) \<Rightarrow> (int \<Rightarrow> string option) \<Rightarrow> byte list \<Rightarrow> nat option list \<Rightarrow> NetworkRoute \<Rightarrow> NetworkRoute res" where
  "route_attributes inet_ntop SIOCGIFNAME buffer table route =
     (let ip = ip_to_string inet_ntop buffer (nat (rt_family route));
          name = (\<lambda>p. and_then (load_int buffer p) (\<lambda>i. Inr (get_interface_name SIOCGIFNAME i)));
          number = (\<lambda>p. and_then (load_int buffer p) (\<lambda>i. Inr (Some i))) in
      and_then (table_member table RTA_GATEWAY ip (rt_gateway route)) (\<lambda>gateway.
      and_then (table_member table RTA_DST ip (rt_destination route)) (\<lambda>destination.
      and_then (table_member table RTA_SRC ip (rt_source route)) (\<lambda>source.
      and_then (table_member table RTA_IIF name (rt_input_interface route)) (\<lambda>input_interface.
      and_then (table_member table RTA_OIF name (rt_output_interface route)) (\<lambda>output_interface.
      and_then (table_member table RTA_PRIORITY number (rt_priority route)) (\<lambda>priority.
      and_then (table_member table RTA_METRICS number (rt_metric route)) (\<lambda>metric.
        Inr (route \<lparr> rt_gateway := gateway, rt_destination := destination, rt_source := source,
               rt_input_interface := input_interface, rt_output_interface := output_interface,
               rt_priority := priority, rt_metric := metric \<rparr>)))))))))"

text \<open>
  \<open>struct rtmsg\<close>: one octet each for family, destination length, source length, TOS, table,
  protocol, scope and type, then four octets of flags.
\<close>

definition route_header :: "byte list \<Rightarrow> nat \<Rightarrow> NetworkRoute res" where
  "route_header buffer content =
     and_then (load_octets buffer content 8) (\<lambda>c.
     and_then (load32 buffer (content + 8)) (\<lambda>rtm_flags.
       Inr \<lparr> rt_family = uint (c ! 0), rt_destination = '''', rt_destination_length = uint (c ! 1),
             rt_source = '''', rt_source_length = uint (c ! 2), rt_input_interface = '''',
             rt_tos = uint (c ! 3), rt_output_interface = '''', rt_table_id = uint (c ! 4),
             rt_gateway = '''', rt_route_protocol = route_protocol (unat (c ! 5)),
             rt_scope = route_scope (unat (c ! 6)), rt_type = route_type (unat (c ! 7)),
             rt_flags = route_flags rtm_flags, rt_priority = None, rt_metric = None \<rparr>))"

text \<open>A message shorter than its fixed part ends the snapshot with the routes read so far.\<close>

definition route_message ::
  "(byte list \<Rightarrow> string) \<Rightarrow> (int \<Rightarrow> string option) \<Rightarrow> nat \<Rightarrow> byte list \<Rightarrow> nat \<Rightarrow> nat \<Rightarrow> NetworkRoute list
     \<Rightarrow> (NetworkRoute list \<times> bool) run" where
  "route_message inet_ntop SIOCGIFNAME RTA_MAX buffer response nlmsg_len routes =
     (let content = response + sizeof_nlmsghdr;
          content_length = int nlmsg_len - int (sizeof_nlmsghdr + sizeof_rtmsg) in
      if content_length < 0 then Some (Inr (routes, True))
      else
        run_then (net_parse_rtattr buffer RTA_MAX (content + sizeof_rtmsg) content_length) (\<lambda>table.
        run_then (Some (route_header buffer content)) (\<lambda>route.
        run_then (Some (route_attributes inet_ntop SIOCGIFNAME buffer table route)) (\<lambda>route.
          Some (Inr (routes @ [route], False))))))"

definition NetworkRoutes_snap ::
  "(byte list \<Rightarrow> string) \<Rightarrow> (int \<Rightarrow> string option) \<Rightarrow> nat \<Rightarrow> (netlink_request \<Rightarrow> netlink_answer)
     \<Rightarrow> NetworkRoutes \<Rightarrow> NetworkRoutes run" where
  "NetworkRoutes_snap inet_ntop SIOCGIFNAME RTA_MAX linux r =
     run_then (Some (netlink_dump linux 26 (Some 0))) (\<lambda>(buffer, received_bytes).
     run_then (message_walk buffer (route_message inet_ntop SIOCGIFNAME RTA_MAX buffer) received_bytes []) (\<lambda>(routes, _).
       Some (Inr (r \<lparr> rt_list := routes \<rparr>))))"

definition NetworkRoutes_new ::
  "(byte list \<Rightarrow> string) \<Rightarrow> (int \<Rightarrow> string option) \<Rightarrow> nat \<Rightarrow> (netlink_request \<Rightarrow> netlink_answer) \<Rightarrow> NetworkRoutes run" where
  "NetworkRoutes_new inet_ntop SIOCGIFNAME RTA_MAX linux =
     NetworkRoutes_snap inet_ntop SIOCGIFNAME RTA_MAX linux \<lparr> rt_list = [], rt_json_formatted_output = False \<rparr>"

definition NetworkRoutes_enable_json_output :: "NetworkRoutes \<Rightarrow> NetworkRoutes" where
  "NetworkRoutes_enable_json_output r = r \<lparr> rt_json_formatted_output := True \<rparr>"

definition NetworkRoutes_disable_json_output :: "NetworkRoutes \<Rightarrow> NetworkRoutes" where
  "NetworkRoutes_disable_json_output r = r \<lparr> rt_json_formatted_output := False \<rparr>"

section \<open>Output\<close>

definition route_json :: "NetworkRoute \<Rightarrow> json res" where
  "route_json route =
     and_then (initialised (rt_priority route)) (\<lambda>priority.
     and_then (initialised (rt_metric route)) (\<lambda>metric.
       Inr (JObject
         [(''family'', JInt (rt_family route)), (''destination'', JString (rt_destination route)),
          (''destination-length'', JInt (rt_destination_length route)),
          (''source'', JString (rt_source route)), (''gateway'', JString (rt_gateway route)),
          (''source-length'', JInt (rt_source_length route)),
          (''input-interface'', JString (rt_input_interface route)),
          (''output-interface'', JString (rt_output_interface route)), (''tos'', JInt (rt_tos route)),
          (''protocol'', JString (rt_route_protocol route)), (''scope'', JString (rt_scope route)),
          (''type'', JString (rt_type route)), (''priority'', JInt priority),
          (''metric'', JInt metric), (''flags'', JString (rt_flags route))])))"

definition NetworkRoutes_json :: "NetworkRoutes \<Rightarrow> json res" where
  "NetworkRoutes_json r =
     and_then (map_res route_json (rt_list r)) (\<lambda>routes. Inr (JObject [(''routes'', JArray routes)]))"

definition route_lines :: "NetworkRoute \<Rightarrow> string res" where
  "route_lines route =
     and_then (initialised (rt_priority route)) (\<lambda>priority.
     and_then (initialised (rt_metric route)) (\<lambda>metric.
       Inr ((if rt_gateway route = '''' then
               rt_destination route @ ''/'' @ to_string (rt_destination_length route) @ '' -> ''
               @ rt_output_interface route @ [CHR 0x0A]
             else
               ''default -> '' @ rt_gateway route @ '' through '' @ rt_output_interface route @ [CHR 0x0A])
            @ (if rt_source route \<noteq> '''' then
                 [CHR 0x09] @ ''source: '' @ rt_source route @ ''/'' @ to_string (rt_source_length route) @ [CHR 0x0A]
               else '''')
            @ [CHR 0x09] @ ''protocol: '' @ rt_route_protocol route @ [CHR 0x0A]
            @ [CHR 0x09] @ ''scope: '' @ rt_scope route @ '', type: '' @ rt_type route @ [CHR 0x0A]
            @ [CHR 0x09] @ ''tos: '' @ to_string (rt_tos route) @ '', priority: '' @ to_string priority
            @ '', metric: '' @ to_string metric @ [CHR 0x0A] @ [CHR 0x0A])))"

definition NetworkRoutes_print :: "(json \<Rightarrow> string) \<Rightarrow> NetworkRoutes \<Rightarrow> string res" where
  "NetworkRoutes_print writer r =
     (if rt_json_formatted_output r then and_then (NetworkRoutes_json r) (\<lambda>json. Inr (writer json))
      else and_then (map_res route_lines (rt_list r)) (\<lambda>lines. Inr (concat lines)))"

section \<open>Termination\<close>

lemma route_message_returns: "route_message ntop ifname h b p n rs \<noteq> None"
  by (simp add: route_message_def Let_def parse_rtattr_terminates)

lemma NetworkRoutes_snap_terminates: "NetworkRoutes_snap ntop ifname h linux r \<noteq> None"
  using message_walk_terminates [OF route_message_returns] by (auto simp: NetworkRoutes_snap_def)

section \<open>A dump of the kernel\<close>

text \<open>
  A message of the routing table: the twelve octets of the netlink header behind the length, the
  eight octets at the start of \<open>struct rtmsg\<close>, its flags, and the attributes.
\<close>

record kernel_route =
  kr_header :: "byte list"
  kr_fixed :: "byte list"
  kr_flags :: nat
  kr_attributes :: "(nat \<times> byte list) list"

definition kr_body :: "kernel_route \<Rightarrow> byte list" where
  "kr_body k = concat (map rtattr_octets (kr_attributes k))"

definition kr_octets :: "kernel_route \<Rightarrow> byte list" where
  "kr_octets k =
     le16 (28 + length (kr_body k)) @ [0, 0] @ kr_header k @ kr_fixed k
     @ le16 (kr_flags k mod 65536) @ le16 (kr_flags k div 65536) @ kr_body k"

definition kr_attribute_ok :: "byte \<Rightarrow> nat \<times> byte list \<Rightarrow> bool" where
  "kr_attribute_ok family a \<longleftrightarrow>
     rtattr_fits a
     \<and> (fst a \<in> {RTA_DST, RTA_SRC, RTA_GATEWAY} \<longrightarrow> length (snd a) = (if unat family = AF_INET then 4 else 16))
     \<and> (fst a \<in> {RTA_IIF, RTA_OIF, RTA_PRIORITY, RTA_METRICS} \<longrightarrow> 4 \<le> length (snd a))"

definition kr_ok :: "kernel_route \<Rightarrow> bool" where
  "kr_ok k \<longleftrightarrow>
     length (kr_header k) = 12 \<and> length (kr_fixed k) = 8 \<and> kr_flags k < 2 ^ 32
     \<and> (unat (kr_fixed k ! 0) = AF_INET \<or> unat (kr_fixed k ! 0) = AF_INET6)
     \<and> list_all (kr_attribute_ok (kr_fixed k ! 0)) (kr_attributes k)
     \<and> 28 + length (kr_body k) < 2 ^ 16"

text \<open>What the snapshot is to hold for it: the first attribute of each type.\<close>

definition kr_route :: "(byte list \<Rightarrow> string) \<Rightarrow> (int \<Rightarrow> string option) \<Rightarrow> kernel_route \<Rightarrow> NetworkRoute" where
  "kr_route inet_ntop SIOCGIFNAME k =
     (let c = kr_fixed k; as = kr_attributes k;
          name = (\<lambda>d. get_interface_name SIOCGIFNAME (attribute_int d));
          number = (\<lambda>d. Some (attribute_int d)) in
      \<lparr> rt_family = uint (c ! 0), rt_destination = attribute_or as RTA_DST inet_ntop '''',
        rt_destination_length = uint (c ! 1), rt_source = attribute_or as RTA_SRC inet_ntop '''',
        rt_source_length = uint (c ! 2), rt_input_interface = attribute_or as RTA_IIF name '''',
        rt_tos = uint (c ! 3), rt_output_interface = attribute_or as RTA_OIF name '''',
        rt_table_id = uint (c ! 4), rt_gateway = attribute_or as RTA_GATEWAY inet_ntop '''',
        rt_route_protocol = route_protocol (unat (c ! 5)), rt_scope = route_scope (unat (c ! 6)),
        rt_type = route_type (unat (c ! 7)), rt_flags = route_flags (kr_flags k),
        rt_priority = attribute_or as RTA_PRIORITY number None,
        rt_metric = attribute_or as RTA_METRICS number None \<rparr>)"

definition kr_base :: "kernel_route \<Rightarrow> NetworkRoute" where
  "kr_base k =
     (let c = kr_fixed k in
      \<lparr> rt_family = uint (c ! 0), rt_destination = '''', rt_destination_length = uint (c ! 1),
        rt_source = '''', rt_source_length = uint (c ! 2), rt_input_interface = '''',
        rt_tos = uint (c ! 3), rt_output_interface = '''', rt_table_id = uint (c ! 4),
        rt_gateway = '''', rt_route_protocol = route_protocol (unat (c ! 5)),
        rt_scope = route_scope (unat (c ! 6)), rt_type = route_type (unat (c ! 7)),
        rt_flags = route_flags (kr_flags k), rt_priority = None, rt_metric = None \<rparr>)"

lemma kr_length: "kr_ok k \<Longrightarrow> length (kr_octets k) = 28 + length (kr_body k)"
  by (simp add: kr_ok_def kr_octets_def)

lemma kr_framed: "kr_ok k \<Longrightarrow> framed (kr_octets k)"
  using length_attributes_mod [of "kr_attributes k"]
  by (simp add: framed_def kr_length) (simp add: kr_ok_def kr_octets_def kr_body_def mod_add_eq [symmetric])

lemma route_attributes_of_kernel:
  assumes "kr_ok k" "8 \<le> h" "rt_family route = uint (kr_fixed k ! 0)"
    and lookup: "\<And>t. t \<le> h \<Longrightarrow> case map_of (kr_attributes k) t of
        None \<Rightarrow> tb ! t = None
      | Some d \<Rightarrow> \<exists>p. tb ! t = Some p \<and> load_octets b (p + 4) (length d) = Inr d"
  shows "route_attributes ntop ifname b tb route = Inr (route \<lparr>
      rt_gateway := attribute_or (kr_attributes k) RTA_GATEWAY ntop (rt_gateway route),
      rt_destination := attribute_or (kr_attributes k) RTA_DST ntop (rt_destination route),
      rt_source := attribute_or (kr_attributes k) RTA_SRC ntop (rt_source route),
      rt_input_interface := attribute_or (kr_attributes k) RTA_IIF (\<lambda>d. get_interface_name ifname (attribute_int d)) (rt_input_interface route),
      rt_output_interface := attribute_or (kr_attributes k) RTA_OIF (\<lambda>d. get_interface_name ifname (attribute_int d)) (rt_output_interface route),
      rt_priority := attribute_or (kr_attributes k) RTA_PRIORITY (\<lambda>d. Some (attribute_int d)) (rt_priority route),
      rt_metric := attribute_or (kr_attributes k) RTA_METRICS (\<lambda>d. Some (attribute_int d)) (rt_metric route) \<rparr>)"
proof -
  let ?as = "kr_attributes k" and ?ip = "ip_to_string ntop b (nat (rt_family route))"
  have ok: "kr_attribute_ok (kr_fixed k ! 0) (t, d)" if "map_of ?as t = Some d" for t d
    using that assms(1) by (auto simp: kr_ok_def list_all_iff dest: map_of_SomeD)
  have family: "nat (rt_family route) = unat (kr_fixed k ! 0)"
    using assms(3) by simp
  have fam: "unat (kr_fixed k ! 0) = AF_INET \<or> unat (kr_fixed k ! 0) = AF_INET6"
    using assms(1) by (simp add: kr_ok_def)
  have ip: "table_member tb t ?ip x = Inr (attribute_or ?as t ntop x)" if "t \<in> {RTA_DST, RTA_SRC, RTA_GATEWAY}" for t x
  proof (rule table_member_lookup)
    fix d p
    assume d: "map_of ?as t = Some d" "load_octets b p (length d) = Inr d"
    have "length d = (if unat (kr_fixed k ! 0) = AF_INET then 4 else 16)"
      using ok [OF d(1)] that unfolding kr_attribute_ok_def by (simp del: insert_iff)
    with d(2) show "?ip p = Inr (ntop d)"
      using fam unfolding ip_to_string_def family by (cases "unat (kr_fixed k ! 0) = AF_INET") simp_all
  qed (use that assms(2) lookup in auto)
  have int: "table_member tb t (\<lambda>p. and_then (load_int b p) (\<lambda>i. Inr (g i))) x = Inr (attribute_or ?as t (\<lambda>d. g (attribute_int d)) x)"
    if "t \<in> {RTA_IIF, RTA_OIF, RTA_PRIORITY, RTA_METRICS}" for t x and g :: "int \<Rightarrow> 'c"
  proof (rule table_member_lookup)
    fix d p
    assume d: "map_of ?as t = Some d" "load_octets b p (length d) = Inr d"
    have "4 \<le> length d"
      using ok [OF d(1)] that unfolding kr_attribute_ok_def by (simp del: insert_iff)
    then show "and_then (load_int b p) (\<lambda>i. Inr (g i)) = Inr (g (attribute_int d))"
      using load_int_of_octets [OF d(2)] by simp
  qed (use that assms(2) lookup in auto)
  show ?thesis
    by (simp add: route_attributes_def Let_def ip int)
qed

lemma route_message_of_kernel:
  assumes "kr_ok k" "8 \<le> h" "b = pre @ kr_octets k @ post"
  shows "route_message ntop ifname h b (length pre) (length (kr_octets k)) rs
    = Some (Inr (rs @ [kr_route ntop ifname k], False))"
proof -
  let ?as = "kr_attributes k" and ?c = "length pre + 16"
  let ?h = "pre @ le16 (28 + length (kr_body k)) @ [0, 0] @ kr_header k"
  let ?head = "?h @ kr_fixed k @ le16 (kr_flags k mod 65536) @ le16 (kr_flags k div 65536)"
  have lengths: "length ?h = ?c" "length (?h @ kr_fixed k) = ?c + 8" "length ?head = ?c + 12"
    using assms(1) by (simp_all add: kr_ok_def)
  have b: "b = ?head @ concat (map rtattr_octets ?as) @ post"
    using assms(3) by (simp add: kr_octets_def kr_body_def)
  have fits: "list_all rtattr_fits ?as"
    using assms(1) by (auto simp: kr_ok_def kr_attribute_ok_def list_all_iff)
  have total: "int (length (kr_octets k)) - 28 = int (length (concat (map rtattr_octets ?as)))"
    using kr_length [OF assms(1)] by (simp add: kr_body_def)
  obtain tb where table: "parse_rtattr b h (?c + 12) (int (length (kr_octets k)) - 28) = Some (Inr tb)"
    and lookup: "\<forall>t \<le> h. case map_of ?as t of None \<Rightarrow> tb ! t = None
        | Some d \<Rightarrow> \<exists>p. tb ! t = Some p \<and> load_octets b (p + 4) (length d) = Inr d"
    using parse_rtattr_lookup [OF fits b, of h] unfolding lengths total by blast
  have "load_octets b ?c 8 = Inr (kr_fixed k)"
    by (rule load_octets_at [OF _ lengths(1) [symmetric]]) (use assms in \<open>simp_all add: b kr_ok_def\<close>)
  moreover have "load32 b (?c + 8) = Inr (kr_flags k)"
    by (rule load32_at [OF _ _ lengths(2) [symmetric]]) (use assms in \<open>simp_all add: b kr_ok_def\<close>)
  ultimately have header: "route_header b ?c = Inr (kr_base k)"
    by (simp add: route_header_def kr_base_def Let_def)
  have attributes: "route_attributes ntop ifname b tb (kr_base k) = Inr (kr_route ntop ifname k)"
    by (subst route_attributes_of_kernel [OF assms(1,2), where b = b])
      (use lookup in \<open>simp_all add: kr_base_def kr_route_def Let_def\<close>)
  show ?thesis
    using table header attributes kr_length [OF assms(1)] by (simp add: route_message_def Let_def add.assoc)
qed

lemma routes_walk:
  assumes "list_all kr_ok ks" "8 \<le> h"
    and "netlink_dump linux 26 (Some 0) = Inr (concat (map kr_octets ks) @ post, int (length (concat (map kr_octets ks))))"
  shows "NetworkRoutes_snap ntop ifname h linux r = Some (Inr (r \<lparr> rt_list := map (kr_route ntop ifname) ks \<rparr>))"
proof -
  let ?b = "concat (map kr_octets ks) @ post"
  have "route_message ntop ifname h ?b (length (concat (map kr_octets ks1))) (length (kr_octets k)) rs
      = Some (Inr (rs @ [kr_route ntop ifname k], False))" if "ks = ks1 @ k # ks2" for ks1 k ks2 rs
    by (rule route_message_of_kernel [OF _ assms(2), where post = "concat (map kr_octets ks2) @ post"])
      (use that assms(1) in simp_all)
  then have "message_walk ?b (route_message ntop ifname h ?b) (int (length (concat (map kr_octets ks)))) []
      = Some (Inr (fold (\<lambda>k rs. rs @ [kr_route ntop ifname k]) ks [], False))"
    by (intro message_walk_is_fold [where post = post]) (use assms(1) in \<open>auto simp: list_all_iff intro: kr_framed\<close>)
  moreover have "fold (\<lambda>k rs. rs @ [kr_route ntop ifname k]) ks rs = rs @ map (kr_route ntop ifname) ks" for rs
    by (induction ks arbitrary: rs) simp_all
  ultimately show ?thesis
    by (simp add: NetworkRoutes_snap_def assms(3))
qed

text \<open>The document of a route both of whose optional numbers the kernel has sent.\<close>

definition has_numbers :: "kernel_route \<Rightarrow> bool" where
  "has_numbers k \<longleftrightarrow> map_of (kr_attributes k) RTA_PRIORITY \<noteq> None \<and> map_of (kr_attributes k) RTA_METRICS \<noteq> None"

definition kr_document :: "(byte list \<Rightarrow> string) \<Rightarrow> (int \<Rightarrow> string option) \<Rightarrow> kernel_route \<Rightarrow> json" where
  "kr_document inet_ntop SIOCGIFNAME k =
     (let r = kr_route inet_ntop SIOCGIFNAME k in JObject
        [(''family'', JInt (rt_family r)), (''destination'', JString (rt_destination r)),
         (''destination-length'', JInt (rt_destination_length r)), (''source'', JString (rt_source r)),
         (''gateway'', JString (rt_gateway r)), (''source-length'', JInt (rt_source_length r)),
         (''input-interface'', JString (rt_input_interface r)),
         (''output-interface'', JString (rt_output_interface r)), (''tos'', JInt (rt_tos r)),
         (''protocol'', JString (rt_route_protocol r)), (''scope'', JString (rt_scope r)),
         (''type'', JString (rt_type r)),
         (''priority'', JInt (attribute_or (kr_attributes k) RTA_PRIORITY attribute_int 0)),
         (''metric'', JInt (attribute_or (kr_attributes k) RTA_METRICS attribute_int 0)),
         (''flags'', JString (rt_flags r))])"

lemma route_json_of_kernel:
  "route_json (kr_route ntop ifname k) =
     (if has_numbers k then Inr (kr_document ntop ifname k) else Inl UndefinedBehaviour)"
  by (auto simp: route_json_def kr_document_def kr_route_def has_numbers_def initialised_def attribute_or_def Let_def
      split: option.split)

lemma map_res_conditional:
  assumes "\<And>x. f x = (if P x then Inr (g x) else Inl e)"
  shows "map_res f xs = (if list_all P xs then Inr (map g xs) else Inl e)"
  by (induction xs) (simp_all add: assms)

text \<open>
  C40. The routes of the host are the routing table of the kernel, one entry per message and in
  their order, with the first attribute of each type; but their document exists only if the kernel
  has sent a priority and metrics with every route.  A route without one of them, such as a default
  route, leaves a member uninitialised, and both the document and the text read it.
\<close>

theorem routes_document:
  assumes "list_all kr_ok ks" "8 \<le> RTA_MAX"
    and "netlink_dump linux 26 (Some 0) = Inr (concat (map kr_octets ks) @ post, int (length (concat (map kr_octets ks))))"
  shows "\<exists>r. NetworkRoutes_new ntop ifname RTA_MAX linux = Some (Inr r)
    \<and> rt_list r = map (kr_route ntop ifname) ks
    \<and> NetworkRoutes_json r =
        (if list_all has_numbers ks then Inr (JObject [(''routes'', JArray (map (kr_document ntop ifname) ks))])
         else Inl UndefinedBehaviour)"
  using routes_walk [OF assms, of ntop ifname "\<lparr> rt_list = [], rt_json_formatted_output = False \<rparr>"]
    map_res_conditional [of "\<lambda>k. route_json (kr_route ntop ifname k)" has_numbers, OF route_json_of_kernel, of ks]
  by (simp add: NetworkRoutes_new_def NetworkRoutes_json_def map_res_map)

definition sample_default_route :: kernel_route where
  "sample_default_route =
     \<lparr> kr_header = replicate 12 0, kr_fixed = [2, 0, 0, 0, 254, 16, 0, 1], kr_flags = 0,
       kr_attributes = [(RTA_GATEWAY, [192, 168, 0, 1]), (RTA_OIF, [3, 0, 0, 0]), (RTA_PRIORITY, [100, 0, 0, 0])] \<rparr>"

definition sample_tuned_route :: kernel_route where
  "sample_tuned_route = sample_default_route \<lparr> kr_attributes :=
     kr_attributes sample_default_route @ [(RTA_METRICS, [8, 0, 2, 0, 220, 5, 0, 0])] \<rparr>"

definition routes_answer :: "kernel_route list \<Rightarrow> netlink_request \<Rightarrow> netlink_answer" where
  "routes_answer ks request =
     \<lparr> nl_socket = 3, nl_bind = 0, nl_send = 28, nl_recv = int (length (concat (map kr_octets ks))),
       nl_buffer = concat (map kr_octets ks) \<rparr>"

lemma sample_routes_ok: "kr_ok sample_default_route" "kr_ok sample_tuned_route"
  by (simp_all add: kr_ok_def kr_attribute_ok_def sample_default_route_def sample_tuned_route_def kr_body_def
      rtattr_fits_def align4_def)

text \<open>A route with metrics has a document; a default route with a priority alone makes it undefined.\<close>

theorem routes_document_witness:
  "\<exists>r r'. NetworkRoutes_new (\<lambda>_. ''192.168.0.1'') (\<lambda>_. Some ''eth0'') 30 (routes_answer [sample_tuned_route]) = Some (Inr r)
     \<and> NetworkRoutes_json r = Inr (JObject [(''routes'',
         JArray [kr_document (\<lambda>_. ''192.168.0.1'') (\<lambda>_. Some ''eth0'') sample_tuned_route])])
     \<and> NetworkRoutes_new (\<lambda>_. ''192.168.0.1'') (\<lambda>_. Some ''eth0'') 30
         (routes_answer [sample_tuned_route, sample_default_route]) = Some (Inr r')
     \<and> NetworkRoutes_json r' = Inl UndefinedBehaviour"
proof -
  have dump: "netlink_dump (routes_answer ks) 26 (Some 0)
      = Inr (concat (map kr_octets ks) @ [], int (length (concat (map kr_octets ks))))" for ks
    by (simp add: netlink_dump_def routes_answer_def)
  have "has_numbers sample_tuned_route" "\<not> has_numbers sample_default_route"
    by (simp_all add: has_numbers_def sample_tuned_route_def sample_default_route_def)
  then show ?thesis
    using routes_document [of "[sample_tuned_route]" 30 "routes_answer [sample_tuned_route]" "[]", OF _ _ dump]
      routes_document [of "[sample_tuned_route, sample_default_route]" 30
        "routes_answer [sample_tuned_route, sample_default_route]" "[]", OF _ _ dump]
      sample_routes_ok by fastforce
qed

end
