(* ===== verification/Net_Devices.thy ===== *)
theory Net_Devices
  imports Netlink_Walk Std_Map
begin

text \<open>
  The network devices of the host (\<open>internal/rankd-net/data-sources/interfaces.cpp\<close>): the
  snapshot in two phases, the links of the kernel and then their addresses, its JSON document and
  its text.  A phase receives until a message says that the dump is done; what the calls of
  \<open>recv\<close> return is a list, and a call behind its end blocks for ever.  Members that the constructor
  leaves uninitialised are \<open>None\<close> until they are written.
\<close>

section \<open>Devices\<close>

record NetworkDevice =
  dev_index :: int
  dev_flags :: nat
  dev_l2_address :: string
  dev_l2_broadcast_address :: string
  dev_name :: string
  dev_addresses :: "(int \<times> string) list"
  dev_mtu :: "nat option"
  dev_link_type :: "int option"
  dev_qdisc :: string
  dev_statistics :: "nat list option"

record NetworkDevices =
  dev_map :: "(int, NetworkDevice) std_map"
  dev_json_formatted_output :: bool

text \<open>
  The members of \<open>struct rtnl_link_stats\<close> in their order, each of four octets, with the names of
  the document.
\<close>

definition statistics_names :: "string list" where
  "statistics_names =
     [''rx_packets'', ''tx_packets'', ''rx_bytes'', ''tx_bytes'', ''rx_errors'', ''tx_errors'',
      ''rx_dropped'', ''tx_dropped'', ''multicast'', ''collisions'', ''rx_length_errors'',
      ''rx_over_errors'', ''rx_crc_errors'', ''rx_frame_errors'', ''rx_fifo_errors'',
      ''rx_missed_errors'', ''tx_aborted_errors'', ''tx_carrier_errors'', ''tx_fifo_errors'',
      ''tx_heartbeat_errors'', ''tx_window_errors'', ''rx_compressed'', ''tx_compressed'',
      ''rx_nohandler'']"

fun load_words :: "byte list \<Rightarrow> nat \<Rightarrow> nat \<Rightarrow> nat list res" where
  "load_words buffer p 0 = Inr []"
| "load_words buffer p (Suc n) =
     and_then (load32 buffer p) (\<lambda>w. and_then (load_words buffer (p + 4) n) (\<lambda>ws. Inr (w # ws)))"

text \<open>A device that is declared has its numbers uninitialised; one that \<open>_devices[i]\<close> creates has them zero.\<close>

definition declared_device :: "int \<Rightarrow> nat \<Rightarrow> NetworkDevice" where
  "declared_device i fl =
     \<lparr> dev_index = i, dev_flags = fl, dev_l2_address = '''', dev_l2_broadcast_address = '''', dev_name = '''',
       dev_addresses = [], dev_mtu = None, dev_link_type = None, dev_qdisc = '''', dev_statistics = None \<rparr>"

definition created_device :: NetworkDevice where
  "created_device =
     (declared_device 0 0) \<lparr> dev_mtu := Some 0, dev_link_type := Some 0, dev_statistics := Some (replicate 24 0) \<rparr>"

section \<open>Receiving\<close>

definition receive_round ::
  "(byte list \<Rightarrow> nat \<Rightarrow> nat \<Rightarrow> 'a \<Rightarrow> ('a \<times> bool) run) \<Rightarrow> (int \<times> byte list) list \<times> 'a \<times> bool
     \<Rightarrow> ((int \<times> byte list) list \<times> 'a \<times> bool) option run" where
  "receive_round handle s =
     (case s of (recvs, x, receiving) \<Rightarrow>
        if \<not> receiving then Some (Inr None)
        else case recvs of
          [] \<Rightarrow> None
        | (received_bytes, buffer) # recvs \<Rightarrow>
            if received_bytes < 0 then Some (Inl StdException)
            else
              run_then (message_walk buffer (handle buffer) received_bytes x) (\<lambda>(x, left_loop).
                Some (Inr (Some (recvs, x, \<not> left_loop)))))"

definition receive_loop ::
  "(byte list \<Rightarrow> nat \<Rightarrow> nat \<Rightarrow> 'a \<Rightarrow> ('a \<times> bool) run) \<Rightarrow> (int \<times> byte list) list \<Rightarrow> 'a \<Rightarrow> 'a run" where
  "receive_loop handle recvs x =
     run_then (iterate (receive_round handle) (recvs, x, True)) (\<lambda>(_, x, _). Some (Inr x))"

abbreviation (input) "NLMSG_DONE \<equiv> 3 :: nat"

definition until_done ::
  "(byte list \<Rightarrow> nat \<Rightarrow> nat \<Rightarrow> 'a \<Rightarrow> 'a run) \<Rightarrow> byte list \<Rightarrow> nat \<Rightarrow> nat \<Rightarrow> 'a \<Rightarrow> ('a \<times> bool) run" where
  "until_done handle buffer response nlmsg_len x =
     run_then (Some (load16 buffer (response + 4))) (\<lambda>nlmsg_type.
       if nlmsg_type = NLMSG_DONE then Some (Inr (x, True))
       else run_then (handle buffer response nlmsg_len x) (\<lambda>x. Some (Inr (x, False))))"

section \<open>The snapshot\<close>

abbreviation (input) "IFLA_ADDRESS \<equiv> 1 :: nat"
abbreviation (input) "IFLA_BROADCAST \<equiv> 2 :: nat"
abbreviation (input) "IFLA_IFNAME \<equiv> 3 :: nat"
abbreviation (input) "IFLA_MTU \<equiv> 4 :: nat"
abbreviation (input) "IFLA_LINK \<equiv> 5 :: nat"
abbreviation (input) "IFLA_QDISC \<equiv> 6 :: nat"
abbreviation (input) "IFLA_STATS \<equiv> 7 :: nat"
abbreviation (input) "IFA_ADDRESS \<equiv> 1 :: nat"

definition link_attribute :: "byte list \<Rightarrow> nat \<Rightarrow> nat \<Rightarrow> NetworkDevice \<Rightarrow> NetworkDevice res" where
  "link_attribute buffer rta_type attribute device =
     (let data = attribute + sizeof_rtattr in
      if rta_type = IFLA_IFNAME then
        and_then (c_string buffer data) (\<lambda>v. Inr (device \<lparr> dev_name := v \<rparr>))
      else if rta_type = IFLA_ADDRESS then
        and_then (mac_to_string buffer data) (\<lambda>v. Inr (device \<lparr> dev_l2_address := v \<rparr>))
      else if rta_type = IFLA_BROADCAST then
        and_then (mac_to_string buffer data) (\<lambda>v. Inr (device \<lparr> dev_l2_broadcast_address := v \<rparr>))
      else if rta_type = IFLA_MTU then
        and_then (load32 buffer data) (\<lambda>v. Inr (device \<lparr> dev_mtu := Some v \<rparr>))
      else if rta_type = IFLA_LINK then
        and_then (load_int buffer data) (\<lambda>v. Inr (device \<lparr> dev_link_type := Some v \<rparr>))
      else if rta_type = IFLA_QDISC then
        and_then (c_string buffer data) (\<lambda>v. Inr (device \<lparr> dev_qdisc := v \<rparr>))
      else if rta_type = IFLA_STATS then
        and_then (load_words buffer data 24) (\<lambda>v. Inr (device \<lparr> dev_statistics := Some v \<rparr>))
      else Inr device)"

text \<open>\<open>struct ifinfomsg\<close>: 16 octets, the index at offset 4, the flags at offset 8.\<close>

definition link_message ::
  "byte list \<Rightarrow> nat \<Rightarrow> nat \<Rightarrow> (int, NetworkDevice) std_map \<Rightarrow> (int, NetworkDevice) std_map run" where
  "link_message buffer response nlmsg_len devices =
     (let content = response + sizeof_nlmsghdr in
      run_then (Some (load_int buffer (content + 4))) (\<lambda>ifi_index.
      run_then (Some (load32 buffer (content + 8))) (\<lambda>ifi_flags.
      run_then (attribute_walk buffer (link_attribute buffer) (content + 16) (int nlmsg_len - 32)
                  (declared_device ifi_index ifi_flags)) (\<lambda>device.
        Some (Inr (map_assign (dev_index device) device devices))))))"

text \<open>\<open>struct ifaddrmsg\<close>: 8 octets, the family at offset 0, the index at offset 4.\<close>

definition address_attribute ::
  "(byte list \<Rightarrow> string) \<Rightarrow> byte list \<Rightarrow> nat \<Rightarrow> int \<Rightarrow> nat \<Rightarrow> nat \<Rightarrow> (int, NetworkDevice) std_map
     \<Rightarrow> (int, NetworkDevice) std_map res" where
  "address_attribute inet_ntop buffer family interface_index rta_type attribute devices =
     (if rta_type = IFA_ADDRESS then
        and_then (ip_to_string inet_ntop buffer family (attribute + sizeof_rtattr)) (\<lambda>a.
        let device = (case map_of devices interface_index of None \<Rightarrow> created_device | Some device \<Rightarrow> device) in
          Inr (map_assign interface_index
                 (device \<lparr> dev_addresses := dev_addresses device @ [(int family, a)] \<rparr>) devices))
      else Inr devices)"

definition address_message ::
  "(byte list \<Rightarrow> string) \<Rightarrow> byte list \<Rightarrow> nat \<Rightarrow> nat \<Rightarrow> (int, NetworkDevice) std_map
     \<Rightarrow> (int, NetworkDevice) std_map run" where
  "address_message inet_ntop buffer response nlmsg_len devices =
     (let content = response + sizeof_nlmsghdr in
      run_then (Some (load_int buffer (content + 4))) (\<lambda>interface_index.
      run_then (Some (load buffer content)) (\<lambda>ifa_family.
        attribute_walk buffer (address_attribute inet_ntop buffer (unat ifa_family) interface_index)
          (content + 8) (int nlmsg_len - 24) devices)))"

text \<open>What the calls of the two phases return.\<close>

record device_answers =
  first_socket :: int
  first_bind :: int
  first_send :: int
  first_recvs :: "(int \<times> byte list) list"
  second_socket :: int
  second_send :: int
  second_recvs :: "(int \<times> byte list) list"

definition NetworkDevices_snap ::
  "(byte list \<Rightarrow> string) \<Rightarrow> device_answers \<Rightarrow> NetworkDevices \<Rightarrow> NetworkDevices run" where
  "NetworkDevices_snap inet_ntop linux n =
     run_then (Some (require (0 \<le> first_socket linux) StdException)) (\<lambda>_.
     run_then (Some (require (0 \<le> first_bind linux) StdException)) (\<lambda>_.
     run_then (Some (require (0 \<le> first_send linux) StdException)) (\<lambda>_.
     run_then (receive_loop (until_done link_message) (first_recvs linux) []) (\<lambda>devices.
     run_then (Some (require (0 \<le> second_socket linux) StdException)) (\<lambda>_.
     run_then (Some (require (0 \<le> second_send linux) StdException)) (\<lambda>_.
     run_then (receive_loop (until_done (address_message inet_ntop)) (second_recvs linux) devices) (\<lambda>devices.
       Some (Inr (n \<lparr> dev_map := devices \<rparr>)))))))))"

definition NetworkDevices_new :: "(byte list \<Rightarrow> string) \<Rightarrow> device_answers \<Rightarrow> NetworkDevices run" where
  "NetworkDevices_new inet_ntop linux =
     NetworkDevices_snap inet_ntop linux \<lparr> dev_map = [], dev_json_formatted_output = False \<rparr>"

definition NetworkDevices_enable_json_output :: "NetworkDevices \<Rightarrow> NetworkDevices" where
  "NetworkDevices_enable_json_output n = n \<lparr> dev_json_formatted_output := True \<rparr>"

definition NetworkDevices_disable_json_output :: "NetworkDevices \<Rightarrow> NetworkDevices" where
  "NetworkDevices_disable_json_output n = n \<lparr> dev_json_formatted_output := False \<rparr>"

section \<open>Output\<close>

definition as_int :: "nat \<Rightarrow> int" where
  "as_int n = sint (word_of_nat n :: uint32)"

text \<open>
  Each member is added to what \<open>json_document[device.name]\<close> refers to, which is the first member of
  that name.
\<close>

definition address_json :: "int \<times> string \<Rightarrow> json" where
  "address_json a = JObject [(''family'', JInt (fst a)), (''address'', JString (snd a))]"

definition json_push_back :: "json \<Rightarrow> json \<Rightarrow> json res" where
  "json_push_back v array = and_then (GetArray array) (\<lambda>xs. Inr (JArray (xs @ [v])))"

definition add_statistics :: "string \<Rightarrow> nat list \<Rightarrow> json \<Rightarrow> json res" where
  "add_statistics name statistics =
     fold_res (\<lambda>(key, v). at_member name (at_member ''statistics'' (\<lambda>s. AddMember s key (JInt (int v)))))
       (zip statistics_names statistics)"

definition device_json :: "int \<times> NetworkDevice \<Rightarrow> json \<Rightarrow> json res" where
  "device_json entry json_document =
     (let device = snd entry; name = dev_name device; add = (\<lambda>key v. at_member name (\<lambda>d. AddMember d key v)) in
      and_then (AddMember json_document name (JObject [])) (\<lambda>doc.
      and_then (add ''flags'' (JInt (as_int (dev_flags device))) doc) (\<lambda>doc.
      and_then (add ''l2-address'' (JString (dev_l2_address device)) doc) (\<lambda>doc.
      and_then (add ''l2-broadcast'' (JString (dev_l2_broadcast_address device)) doc) (\<lambda>doc.
      and_then (add ''addresses'' (JArray []) doc) (\<lambda>doc.
      and_then (fold_res (\<lambda>a. at_member name (at_member ''addresses'' (json_push_back (address_json a)))) (dev_addresses device) doc) (\<lambda>doc.
      and_then (initialised (dev_mtu device)) (\<lambda>mtu.
      and_then (add ''mtu'' (JInt (as_int mtu)) doc) (\<lambda>doc.
      and_then (initialised (dev_link_type device)) (\<lambda>link_type.
      and_then (add ''link-type'' (JInt link_type) doc) (\<lambda>doc.
      and_then (add ''qdisc'' (JString (dev_qdisc device)) doc) (\<lambda>doc.
      and_then (add ''statistics'' (JObject []) doc) (\<lambda>doc.
      and_then (initialised (dev_statistics device)) (\<lambda>statistics.
        add_statistics name statistics doc))))))))))))))"

definition NetworkDevices_json :: "NetworkDevices \<Rightarrow> json res" where
  "NetworkDevices_json n = fold_res device_json (dev_map n) (JObject [])"

definition device_text :: "int \<times> NetworkDevice \<Rightarrow> string res" where
  "device_text entry =
     (let interface = snd entry in
      and_then (initialised (dev_mtu interface)) (\<lambda>mtu.
      and_then
        (if dev_l2_address interface \<noteq> '''' then
           and_then (initialised (dev_link_type interface)) (\<lambda>link_type.
             Inr ([CHR 0x09] @ ''link '' @ dev_l2_address interface @ '' broadcast ''
                  @ dev_l2_broadcast_address interface @ '' link-type '' @ to_string link_type @ [CHR 0x0A]))
         else Inr '''') (\<lambda>link.
        Inr (''('' @ to_string (fst entry) @ '') '' @ dev_name interface @ '': '' @ ''flags=''
             @ decimal (dev_flags interface) @ ''  mtu '' @ decimal mtu @ [CHR 0x0A] @ link
             @ concat (map (\<lambda>(family, address).
                 if family = int AF_INET then [CHR 0x09] @ ''inet '' @ address @ [CHR 0x0A]
                 else if family = int AF_INET6 then [CHR 0x09] @ ''inet6 '' @ address @ [CHR 0x0A]
                 else '''') (dev_addresses interface))
             @ [CHR 0x09] @ ''qdisc '' @ dev_qdisc interface @ [CHR 0x0A] @ [CHR 0x0A]))))"

definition NetworkDevices_print :: "(json \<Rightarrow> string) \<Rightarrow> NetworkDevices \<Rightarrow> string res" where
  "NetworkDevices_print writer n =
     (if dev_json_formatted_output n then and_then (NetworkDevices_json n) (\<lambda>json. Inr (writer json))
      else and_then (map_res device_text (dev_map n)) (\<lambda>texts. Inr (concat texts)))"

subsection \<open>The document of devices with distinct names\<close>

definition device_members :: "NetworkDevice \<Rightarrow> nat \<Rightarrow> int \<Rightarrow> nat list \<Rightarrow> json" where
  "device_members device mtu link_type statistics = JObject
     [(''flags'', JInt (as_int (dev_flags device))), (''l2-address'', JString (dev_l2_address device)),
      (''l2-broadcast'', JString (dev_l2_broadcast_address device)),
      (''addresses'', JArray (map address_json (dev_addresses device))), (''mtu'', JInt (as_int mtu)),
      (''link-type'', JInt link_type), (''qdisc'', JString (dev_qdisc device)),
      (''statistics'', JObject (map (\<lambda>(key, v). (key, JInt (int v))) (zip statistics_names statistics)))]"

definition complete_device :: "NetworkDevice \<Rightarrow> bool" where
  "complete_device d \<longleftrightarrow> dev_mtu d \<noteq> None \<and> dev_link_type d \<noteq> None \<and> dev_statistics d \<noteq> None"

definition complete_members :: "NetworkDevice \<Rightarrow> json" where
  "complete_members d = device_members d (the (dev_mtu d)) (the (dev_link_type d)) (the (dev_statistics d))"

lemma fold_addresses:
  assumes "name \<notin> fst ` set ms" "''addresses'' \<notin> fst ` set fs"
  shows "fold_res (\<lambda>a. at_member name (at_member ''addresses'' (json_push_back (address_json a)))) as
       (JObject (ms @ [(name, JObject (fs @ [(''addresses'', JArray xs)]))]))
     = Inr (JObject (ms @ [(name, JObject (fs @ [(''addresses'', JArray (xs @ map address_json as))]))]))"
  using assms by (induction as arbitrary: xs) (simp_all add: at_member_last json_push_back_def GetArray_def)

lemma add_statistics_last:
  assumes "name \<notin> fst ` set ms" "''statistics'' \<notin> fst ` set fs"
  shows "add_statistics name st (JObject (ms @ [(name, JObject (fs @ [(''statistics'', JObject xs)]))]))
     = Inr (JObject (ms @ [(name, JObject (fs @ [(''statistics'',
         JObject (xs @ map (\<lambda>(key, v). (key, JInt (int v))) (zip statistics_names st)))]))]))"
proof -
  have "fold_res (\<lambda>(key, v). at_member name (at_member ''statistics'' (\<lambda>s. AddMember s key (JInt (int v))))) kvs
       (JObject (ms @ [(name, JObject (fs @ [(''statistics'', JObject xs)]))]))
     = Inr (JObject (ms @ [(name, JObject (fs @ [(''statistics'', JObject (xs @ map (\<lambda>(key, v). (key, JInt (int v))) kvs))]))]))" for kvs
    using assms by (induction kvs arbitrary: xs) (auto simp: at_member_last)
  then show ?thesis
    by (simp add: add_statistics_def)
qed

lemma device_json_fresh:
  assumes "dev_name d \<notin> fst ` set ms"
  shows "device_json (i, d) (JObject ms) =
    (if complete_device d then Inr (JObject (ms @ [(dev_name d, complete_members d)])) else Inl UndefinedBehaviour)"
proof -
  let ?fs = "[(''flags'', JInt (as_int (dev_flags d))), (''l2-address'', JString (dev_l2_address d)),
      (''l2-broadcast'', JString (dev_l2_broadcast_address d))]"
  have addresses: "fold_res (\<lambda>a. at_member (dev_name d) (at_member ''addresses'' (json_push_back (address_json a)))) (dev_addresses d)
       (JObject (ms @ [(dev_name d, JObject (?fs @ [(''addresses'', JArray [])]))]))
     = Inr (JObject (ms @ [(dev_name d, JObject (?fs @ [(''addresses'', JArray (map address_json (dev_addresses d)))]))]))"
    using fold_addresses [OF assms, of ?fs "dev_addresses d" "[]"] by simp
  have statistics: "add_statistics (dev_name d) st (JObject (ms @ [(dev_name d, JObject
        (?fs @ [(''addresses'', a), (''mtu'', m), (''link-type'', l), (''qdisc'', q), (''statistics'', JObject [])]))]))
     = Inr (JObject (ms @ [(dev_name d, JObject (?fs @ [(''addresses'', a), (''mtu'', m), (''link-type'', l),
         (''qdisc'', q), (''statistics'', JObject (map (\<lambda>(key, v). (key, JInt (int v))) (zip statistics_names st)))]))]))"
    for st a m l q
    using add_statistics_last [OF assms, of "?fs @ [(''addresses'', a), (''mtu'', m), (''link-type'', l), (''qdisc'', q)]" st "[]"]
    by simp
  show ?thesis
    using addresses statistics
    by (simp add: device_json_def Let_def at_member_last [OF assms] initialised_def complete_device_def
        complete_members_def device_members_def split: option.split)
qed

lemma devices_json_distinct:
  assumes "distinct (map (dev_name \<circ> snd) entries)" "fst ` set ms \<inter> (dev_name \<circ> snd) ` set entries = {}"
  shows "fold_res device_json entries (JObject ms) =
    (if list_all (complete_device \<circ> snd) entries
     then Inr (JObject (ms @ map (\<lambda>e. (dev_name (snd e), complete_members (snd e))) entries))
     else Inl UndefinedBehaviour)"
  using assms
proof (induction entries arbitrary: ms)
  case (Cons e entries)
  obtain i d where e: "e = (i, d)"
    by fastforce
  have "dev_name d \<notin> fst ` set ms"
    using Cons.prems(2) e by auto
  then show ?case
    using Cons.IH [of "ms @ [(dev_name d, complete_members d)]"] Cons.prems
    by (auto simp: e device_json_fresh)
qed simp

section \<open>Dumps in several parts\<close>

text \<open>
  A part of a dump: messages and what lies behind them in the buffer; the last part ends with the
  message that the dump is done.
\<close>

definition dump_part :: "('k \<Rightarrow> byte list) \<Rightarrow> 'k list \<times> byte list \<Rightarrow> int \<times> byte list" where
  "dump_part enc part =
     (let octets = concat (map enc (fst part)) in (int (length octets), octets @ snd part))"

definition done_part :: "('k \<Rightarrow> byte list) \<Rightarrow> 'k list \<Rightarrow> byte list \<Rightarrow> byte list \<Rightarrow> int \<times> byte list" where
  "done_part enc ks m post = dump_part (\<lambda>x. case x of None \<Rightarrow> m | Some k \<Rightarrow> enc k) (map Some ks @ [None], post)"

definition done_message :: "byte list \<Rightarrow> bool" where
  "done_message m \<longleftrightarrow> framed m \<and> take 2 (drop 4 m) = le16 NLMSG_DONE"

lemma type_of_message:
  assumes "b = pre @ m @ post" "take 2 (drop 4 m) = le16 t" "t < 2 ^ 16"
  shows "load16 b (length pre + 4) = Inr t"
proof -
  have "length (take 2 (drop 4 m)) = 2"
    using assms(2) by simp
  then have "4 \<le> length m"
    unfolding length_take length_drop by linarith
  moreover have "m = take 4 m @ le16 t @ drop 6 m"
    using assms(2) append_take_drop_id [of 4 m] append_take_drop_id [of 2 "drop 4 m"] by auto
  ultimately show ?thesis
    using load16_at [OF assms(3), of b "pre @ take 4 m" "drop 6 m @ post"] assms(1)
    by (metis append.assoc length_append length_take min.absorb2)
qed

text \<open>The body of the loop reads a message \<open>enc k\<close> that is not the end of the dump as \<open>g k\<close>.\<close>

definition reads :: "('k \<Rightarrow> byte list) \<Rightarrow> (byte list \<Rightarrow> nat \<Rightarrow> nat \<Rightarrow> 'a \<Rightarrow> 'a run) \<Rightarrow> ('k \<Rightarrow> 'a \<Rightarrow> 'a) \<Rightarrow> 'k \<Rightarrow> bool" where
  "reads enc f g k \<longleftrightarrow>
     framed (enc k) \<and> (\<exists>t. take 2 (drop 4 (enc k)) = le16 t \<and> t < 2 ^ 16 \<and> t \<noteq> NLMSG_DONE)
     \<and> (\<forall>b pre post x. b = pre @ enc k @ post \<longrightarrow> f b (length pre) (length (enc k)) x = Some (Inr (g k x)))"

lemma until_done_reads:
  assumes "reads enc f g k" "b = pre @ enc k @ post"
  shows "until_done f b (length pre) (length (enc k)) x = Some (Inr (g k x, False))"
proof -
  obtain t where "load16 b (length pre + 4) = Inr t" "t \<noteq> NLMSG_DONE"
    using assms type_of_message [OF assms(2)] by (auto simp: reads_def)
  then show ?thesis
    using assms by (simp add: until_done_def reads_def)
qed

lemma receive_parts:
  assumes "list_all (\<lambda>part. list_all (reads enc f g) (fst part)) parts"
  shows "iterate (receive_round (until_done f)) (map (dump_part enc) parts @ rest, x, True)
    = iterate (receive_round (until_done f)) (rest, fold g (concat (map fst parts)) x, True)"
  using assms
proof (induction parts arbitrary: x)
  case (Cons part parts)
  obtain ks post where part: "part = (ks, post)"
    by fastforce
  let ?b = "concat (map enc ks) @ post"
  have reads: "list_all (reads enc f g) ks"
    using Cons.prems part by simp
  have "message_walk ?b (until_done f ?b) (int (length (concat (map enc ks)))) x = Some (Inr (fold g ks x, False))"
  proof (rule message_walk_is_fold)
    show "list_all (\<lambda>k. framed (enc k)) ks"
      using reads by (auto simp: list_all_iff reads_def)
    fix ks1 k ks2 y
    assume "ks = ks1 @ k # ks2"
    then show "until_done f ?b (length (concat (map enc ks1))) (length (enc k)) y = Some (Inr (g k y, False))"
      using until_done_reads [of enc f g k ?b "concat (map enc ks1)"] reads by simp
  qed simp
  then have "receive_round (until_done f) (map (dump_part enc) (part # parts) @ rest, x, True)
      = Some (Inr (Some (map (dump_part enc) parts @ rest, fold g ks x, True)))"
    by (simp add: receive_round_def dump_part_def part Let_def)
  then show ?case
    using Cons.IH [of "fold g ks x"] Cons.prems by (simp add: part)
qed simp

lemma receive_until_done:
  assumes "list_all (\<lambda>part. list_all (reads enc f g) (fst part)) parts" "list_all (reads enc f g) ks" "done_message m"
  shows "receive_loop (until_done f) (map (dump_part enc) parts @ done_part enc ks m post # rest) x
    = Some (Inr (fold g (concat (map fst parts) @ ks) x))"
proof -
  let ?all = "concat (map enc ks)" and ?x = "fold g (concat (map fst parts)) x"
  let ?b = "?all @ m @ post"
  have part: "done_part enc ks m post = (int (length (?all @ m)), ?b)"
    by (simp add: done_part_def dump_part_def Let_def comp_def)
  have "message_walk ?b (until_done f ?b) (int (length (?all @ m))) ?x = Some (Inr (fold g ks ?x, True))"
  proof (rule message_walk_until [where post = post])
    show "list_all (\<lambda>k. framed (enc k)) ks" "framed m"
      using assms(2,3) by (auto simp: list_all_iff reads_def done_message_def)
    show "until_done f ?b (length ?all) (length m) y = Some (Inr (y, True))" for y
      using type_of_message [of ?b ?all m post NLMSG_DONE] assms(3) by (simp add: until_done_def done_message_def)
    fix ks1 k ks2 y
    assume "ks = ks1 @ k # ks2"
    then show "until_done f ?b (length (concat (map enc ks1))) (length (enc k)) y = Some (Inr (g k y, False))"
      using until_done_reads [of enc f g k ?b "concat (map enc ks1)"] assms(2) by simp
  qed simp
  then have "receive_round (until_done f) (done_part enc ks m post # rest, ?x, True) = Some (Inr (Some (rest, fold g ks ?x, False)))"
    by (simp add: receive_round_def part)
  moreover have "receive_round (until_done f) (rest, fold g ks ?x, False) = Some (Inr None)"
    by (simp add: receive_round_def)
  ultimately show ?thesis
    using receive_parts [OF assms(1), of "done_part enc ks m post # rest" x] by (simp add: receive_loop_def)
qed

text \<open>A dump of which the end is missing is waited for: the loop never returns.\<close>

lemma receive_without_done:
  assumes "list_all (\<lambda>part. list_all (reads enc f g) (fst part)) parts"
  shows "receive_loop (until_done f) (map (dump_part enc) parts) x = None"
  using receive_parts [OF assms, of "[]" x] by (simp add: receive_loop_def receive_round_def)

section \<open>The dumps of the kernel\<close>

text \<open>
  A message of the links: its type, the ten octets of the netlink header behind it, the four
  octets in front of the index, the index and the flags as they are on the wire, four octets of
  the change mask, and the attributes.
\<close>

record kernel_link =
  kl_type :: nat
  kl_header :: "byte list"
  kl_before :: "byte list"
  kl_index :: nat
  kl_flags :: nat
  kl_change :: "byte list"
  kl_attributes :: "(nat \<times> byte list) list"

definition kl_body :: "kernel_link \<Rightarrow> byte list" where
  "kl_body k = concat (map rtattr_octets (kl_attributes k))"

definition kl_octets :: "kernel_link \<Rightarrow> byte list" where
  "kl_octets k =
     le16 (32 + length (kl_body k)) @ [0, 0] @ le16 (kl_type k) @ kl_header k @ kl_before k
     @ le16 (kl_index k mod 65536) @ le16 (kl_index k div 65536)
     @ le16 (kl_flags k mod 65536) @ le16 (kl_flags k div 65536) @ kl_change k @ kl_body k"

definition kl_attribute_ok :: "nat \<times> byte list \<Rightarrow> bool" where
  "kl_attribute_ok a \<longleftrightarrow>
     rtattr_fits a
     \<and> (fst a = IFLA_ADDRESS \<or> fst a = IFLA_BROADCAST \<longrightarrow> 6 \<le> length (snd a))
     \<and> (fst a = IFLA_IFNAME \<or> fst a = IFLA_QDISC \<longrightarrow> 0 \<in> set (snd a))
     \<and> (fst a = IFLA_MTU \<or> fst a = IFLA_LINK \<longrightarrow> 4 \<le> length (snd a))
     \<and> (fst a = IFLA_STATS \<longrightarrow> 96 \<le> length (snd a))"

definition kl_ok :: "kernel_link \<Rightarrow> bool" where
  "kl_ok k \<longleftrightarrow>
     kl_type k < 2 ^ 16 \<and> kl_type k \<noteq> NLMSG_DONE \<and> length (kl_header k) = 10 \<and> length (kl_before k) = 4
     \<and> kl_index k < 2 ^ 32 \<and> kl_flags k < 2 ^ 32 \<and> length (kl_change k) = 4
     \<and> list_all kl_attribute_ok (kl_attributes k) \<and> 32 + length (kl_body k) < 2 ^ 16"

text \<open>What an attribute says, read from its data alone.\<close>

definition right :: "'a res \<Rightarrow> 'a" where
  "right r = (case r of Inr x \<Rightarrow> x | Inl e \<Rightarrow> undefined)"

definition data_text :: "byte list \<Rightarrow> string" where
  "data_text d = map char_of_byte (takeWhile (\<lambda>x. x \<noteq> 0) d)"

definition data_mac :: "byte list \<Rightarrow> string" where
  "data_mac d = colon_separated (map hex_byte (take 6 d))"

definition kl_add_attribute :: "nat \<times> byte list \<Rightarrow> NetworkDevice \<Rightarrow> NetworkDevice" where
  "kl_add_attribute a device =
     (let t = fst a; d = snd a in
      if t = IFLA_IFNAME then device \<lparr> dev_name := data_text d \<rparr>
      else if t = IFLA_ADDRESS then device \<lparr> dev_l2_address := data_mac d \<rparr>
      else if t = IFLA_BROADCAST then device \<lparr> dev_l2_broadcast_address := data_mac d \<rparr>
      else if t = IFLA_MTU then device \<lparr> dev_mtu := Some (right (load32 d 0)) \<rparr>
      else if t = IFLA_LINK then device \<lparr> dev_link_type := Some (right (load_int d 0)) \<rparr>
      else if t = IFLA_QDISC then device \<lparr> dev_qdisc := data_text d \<rparr>
      else if t = IFLA_STATS then device \<lparr> dev_statistics := Some (right (load_words d 0 24)) \<rparr>
      else device)"

definition kl_device :: "kernel_link \<Rightarrow> NetworkDevice" where
  "kl_device k = fold kl_add_attribute (kl_attributes k) (declared_device (as_int (kl_index k)) (kl_flags k))"

lemma load32_total: "4 \<le> length d \<Longrightarrow> \<exists>n. load32 d 0 = Inr n"
  by (simp add: load32_def load16_in)

lemma load_words_total: "p + 4 * n \<le> length d \<Longrightarrow> \<exists>ws. load_words d p n = Inr ws"
proof (induction n arbitrary: p)
  case (Suc n)
  then show ?case
    using Suc.IH [of "p + 4"] by (simp add: load32_def load16_in)
qed simp

lemma load_words_within:
  "take (length d) (drop p b) = d \<Longrightarrow> i + 4 * n \<le> length d \<Longrightarrow> load_words b (p + i) n = load_words d i n"
proof (induction n arbitrary: i)
  case (Suc n)
  then show ?case
    using load32_within [of d p b i] Suc.IH [of "i + 4"] by (simp add: add.assoc)
qed simp

lemma right_Inr [simp]: "right (Inr x) = x"
  by (simp add: right_def)

lemma link_attribute_at:
  assumes "kl_attribute_ok a" "attribute_at b p a"
  shows "link_attribute b (fst a) p dev = Inr (kl_add_attribute a dev)"
proof -
  obtain t d where a: "a = (t, d)"
    by fastforce
  have here: "take (length d) (drop (p + 4) b) = d"
    using assms(2) by (simp add: a attribute_at_def)
  have name: "0 \<in> set d \<Longrightarrow> c_string b (p + 4) = Inr (data_text d)"
    using c_string_within [OF here] by (simp add: data_text_def)
  have mac: "6 \<le> length d \<Longrightarrow> mac_to_string b (p + 4) = Inr (data_mac d)"
    using load_octets_within [OF here, of 0 6] by (simp add: mac_to_string_def data_mac_def load_octets_in)
  have word: "4 \<le> length d \<Longrightarrow> load32 b (p + 4) = Inr (right (load32 d 0))"
    using load32_within [OF here, of 0] load32_total [of d] by auto
  have int: "4 \<le> length d \<Longrightarrow> load_int b (p + 4) = Inr (right (load_int d 0))"
    using load32_within [OF here, of 0] load32_total [of d] by (auto simp: load_int_def)
  have words: "96 \<le> length d \<Longrightarrow> load_words b (p + 4) 24 = Inr (right (load_words d 0 24))"
    using load_words_within [OF here, of 0 24] load_words_total [of 0 24 d] by auto
  show ?thesis
    using assms(1) name mac word int words
    by (simp add: a link_attribute_def kl_add_attribute_def kl_attribute_ok_def Let_def)
qed

definition link_fold :: "kernel_link \<Rightarrow> (int, NetworkDevice) std_map \<Rightarrow> (int, NetworkDevice) std_map" where
  "link_fold k devices = map_assign (as_int (kl_index k)) (kl_device k) devices"

lemma kl_length: "kl_ok k \<Longrightarrow> length (kl_octets k) = 32 + length (kl_body k)"
  by (simp add: kl_ok_def kl_octets_def)

lemma kl_framed: "kl_ok k \<Longrightarrow> framed (kl_octets k)"
  using length_attributes_mod [of "kl_attributes k"]
  by (simp add: framed_def kl_length) (simp add: kl_ok_def kl_octets_def kl_body_def mod_add_eq [symmetric])

lemma kl_device_index: "dev_index (kl_device k) = as_int (kl_index k)"
proof -
  have "dev_index (fold kl_add_attribute as d) = dev_index d" for as d
    by (induction as arbitrary: d) (simp_all add: kl_add_attribute_def Let_def)
  then show ?thesis
    by (simp add: kl_device_def declared_device_def)
qed

lemma link_reads:
  assumes "kl_ok k"
  shows "reads kl_octets link_message link_fold k"
proof -
  have "link_message b (length pre) (length (kl_octets k)) x = Some (Inr (link_fold k x))"
    if b: "b = pre @ kl_octets k @ post" for b pre post x
  proof -
    let ?as = "kl_attributes k"
    let ?h = "pre @ le16 (32 + length (kl_body k)) @ [0, 0] @ le16 (kl_type k) @ kl_header k @ kl_before k"
    let ?f = "?h @ le16 (kl_index k mod 65536) @ le16 (kl_index k div 65536)"
    let ?head = "?f @ le16 (kl_flags k mod 65536) @ le16 (kl_flags k div 65536) @ kl_change k"
    have lengths: "length ?h = length pre + 20" "length ?f = length pre + 24" "length ?head = length pre + 32"
      using assms by (simp_all add: kl_ok_def)
    have split: "b = ?head @ concat (map rtattr_octets ?as) @ post"
      using b by (simp add: kl_octets_def kl_body_def)
    have index: "load_int b (length pre + 20) = Inr (as_int (kl_index k))"
      unfolding load_int_def as_int_def
      by (subst load32_at [OF _ _ lengths(1) [symmetric]]) (use assms in \<open>auto simp: split kl_ok_def\<close>)
    have flags: "load32 b (length pre + 24) = Inr (kl_flags k)"
      by (rule load32_at [OF _ _ lengths(2) [symmetric]]) (use assms in \<open>auto simp: split kl_ok_def\<close>)
    have "attribute_walk b (link_attribute b) (length ?head) (int (length (concat (map rtattr_octets ?as))) + 0) d
        = Some (Inr (fold kl_add_attribute ?as d))" for d
      by (rule attribute_walk_is_fold [OF _ split])
        (use assms link_attribute_at in \<open>auto simp: kl_ok_def kl_attribute_ok_def list_all_iff RTA_OK_def\<close>)
    moreover have "int (length (kl_octets k)) - 32 = int (length (concat (map rtattr_octets ?as)))"
      using kl_length [OF assms] by (simp add: kl_body_def)
    ultimately have walk: "attribute_walk b (link_attribute b) (length pre + 32) (int (length (kl_octets k)) - 32) d
        = Some (Inr (fold kl_add_attribute ?as d))" for d
      unfolding lengths(3) by simp
    show ?thesis
      unfolding link_message_def Let_def
      using index flags walk kl_device_index [of k]
      by (simp add: add.assoc kl_device_def link_fold_def)
  qed
  moreover have "take 2 (drop 4 (kl_octets k)) = le16 (kl_type k)"
    by (simp add: kl_octets_def)
  ultimately show ?thesis
    using kl_framed [OF assms] assms by (auto simp: reads_def kl_ok_def)
qed

text \<open>
  A message of the addresses: its type, the rest of its header, the family, the three octets
  behind it, the index and the attributes.
\<close>

record kernel_address =
  ka_type :: nat
  ka_header :: "byte list"
  ka_family :: byte
  ka_before :: "byte list"
  ka_index :: nat
  ka_attributes :: "(nat \<times> byte list) list"

definition ka_body :: "kernel_address \<Rightarrow> byte list" where
  "ka_body k = concat (map rtattr_octets (ka_attributes k))"

definition ka_octets :: "kernel_address \<Rightarrow> byte list" where
  "ka_octets k =
     le16 (24 + length (ka_body k)) @ [0, 0] @ le16 (ka_type k) @ ka_header k @ [ka_family k] @ ka_before k
     @ le16 (ka_index k mod 65536) @ le16 (ka_index k div 65536) @ ka_body k"

definition ka_ok :: "kernel_address \<Rightarrow> bool" where
  "ka_ok k \<longleftrightarrow>
     ka_type k < 2 ^ 16 \<and> ka_type k \<noteq> NLMSG_DONE \<and> length (ka_header k) = 10 \<and> length (ka_before k) = 3
     \<and> ka_index k < 2 ^ 32 \<and> (unat (ka_family k) = AF_INET \<or> unat (ka_family k) = AF_INET6)
     \<and> list_all (\<lambda>a. rtattr_fits a \<and> (fst a = IFA_ADDRESS \<longrightarrow> length (snd a) = (if unat (ka_family k) = AF_INET then 4 else 16)))
         (ka_attributes k)
     \<and> 24 + length (ka_body k) < 2 ^ 16"

type_synonym address_entry = "int \<times> int \<times> string"

definition ka_entries :: "(byte list \<Rightarrow> string) \<Rightarrow> kernel_address \<Rightarrow> address_entry list" where
  "ka_entries inet_ntop k =
     map (\<lambda>a. (as_int (ka_index k), int (unat (ka_family k)), inet_ntop (snd a)))
       (filter (\<lambda>a. fst a = IFA_ADDRESS) (ka_attributes k))"

definition add_entry :: "address_entry \<Rightarrow> (int, NetworkDevice) std_map \<Rightarrow> (int, NetworkDevice) std_map" where
  "add_entry e devices =
     (let device = (case map_of devices (fst e) of None \<Rightarrow> created_device | Some device \<Rightarrow> device) in
      map_assign (fst e) (device \<lparr> dev_addresses := dev_addresses device @ [snd e] \<rparr>) devices)"

definition address_fold :: "(byte list \<Rightarrow> string) \<Rightarrow> kernel_address \<Rightarrow> (int, NetworkDevice) std_map \<Rightarrow> (int, NetworkDevice) std_map" where
  "address_fold inet_ntop k = fold add_entry (ka_entries inet_ntop k)"

lemma ka_length: "ka_ok k \<Longrightarrow> length (ka_octets k) = 24 + length (ka_body k)"
  by (simp add: ka_ok_def ka_octets_def)

lemma ka_framed: "ka_ok k \<Longrightarrow> framed (ka_octets k)"
  using length_attributes_mod [of "ka_attributes k"]
  by (simp add: framed_def ka_length) (simp add: ka_ok_def ka_octets_def ka_body_def mod_add_eq [symmetric])

definition ka_add_attribute ::
  "(byte list \<Rightarrow> string) \<Rightarrow> kernel_address \<Rightarrow> nat \<times> byte list \<Rightarrow> (int, NetworkDevice) std_map \<Rightarrow> (int, NetworkDevice) std_map" where
  "ka_add_attribute inet_ntop k a devices =
     (if fst a = IFA_ADDRESS
      then add_entry (as_int (ka_index k), int (unat (ka_family k)), inet_ntop (snd a)) devices else devices)"

lemma ka_add_attributes: "fold (ka_add_attribute ntop k) as d
    = fold add_entry (map (\<lambda>a. (as_int (ka_index k), int (unat (ka_family k)), ntop (snd a)))
        (filter (\<lambda>a. fst a = IFA_ADDRESS) as)) d"
  by (induction as arbitrary: d) (simp_all add: ka_add_attribute_def)

lemma address_attribute_at:
  assumes "ka_ok k" "a \<in> set (ka_attributes k)" "attribute_at b p a"
  shows "address_attribute ntop b (unat (ka_family k)) (as_int (ka_index k)) (fst a) p devices
    = Inr (ka_add_attribute ntop k a devices)"
proof -
  have ok: "fst a = IFA_ADDRESS \<Longrightarrow> length (snd a) = (if unat (ka_family k) = AF_INET then 4 else 16)"
    "unat (ka_family k) = AF_INET \<or> unat (ka_family k) = AF_INET6"
    using assms(1,2) by (auto simp: ka_ok_def list_all_iff)
  then have "fst a = IFA_ADDRESS \<Longrightarrow> ip_to_string ntop b (unat (ka_family k)) (p + 4) = Inr (ntop (snd a))"
    using assms(3) by (cases "unat (ka_family k) = AF_INET") (simp_all add: ip_to_string_def attribute_at_def)
  then show ?thesis
    by (simp add: address_attribute_def ka_add_attribute_def add_entry_def Let_def)
qed

lemma address_reads:
  assumes "ka_ok k"
  shows "reads ka_octets (address_message ntop) (address_fold ntop) k"
proof -
  have "address_message ntop b (length pre) (length (ka_octets k)) x = Some (Inr (address_fold ntop k x))"
    if b: "b = pre @ ka_octets k @ post" for b pre post x
  proof -
    let ?as = "ka_attributes k"
    let ?h = "pre @ le16 (24 + length (ka_body k)) @ [0, 0] @ le16 (ka_type k) @ ka_header k"
    let ?f = "?h @ [ka_family k] @ ka_before k"
    let ?head = "?f @ le16 (ka_index k mod 65536) @ le16 (ka_index k div 65536)"
    have lengths: "length ?h = length pre + 16" "length ?f = length pre + 20" "length ?head = length pre + 24"
      using assms by (simp_all add: ka_ok_def)
    have split: "b = ?head @ concat (map rtattr_octets ?as) @ post"
      using b by (simp add: ka_octets_def ka_body_def)
    have family: "load b (length pre + 16) = Inr (ka_family k)"
      by (rule load_at [OF _ lengths(1) [symmetric]]) (simp add: split)
    have index: "load_int b (length pre + 20) = Inr (as_int (ka_index k))"
      unfolding load_int_def as_int_def
      by (subst load32_at [OF _ _ lengths(2) [symmetric]]) (use assms in \<open>auto simp: split ka_ok_def\<close>)
    have "attribute_walk b (address_attribute ntop b (unat (ka_family k)) (as_int (ka_index k))) (length ?head)
        (int (length (concat (map rtattr_octets ?as))) + 0) d = Some (Inr (fold (ka_add_attribute ntop k) ?as d))" for d
      by (rule attribute_walk_is_fold [OF _ split])
        (use assms address_attribute_at [OF assms] in \<open>auto simp: ka_ok_def list_all_iff RTA_OK_def\<close>)
    moreover have "int (length (ka_octets k)) - 24 = int (length (concat (map rtattr_octets ?as)))"
      using ka_length [OF assms] by (simp add: ka_body_def)
    ultimately have "attribute_walk b (address_attribute ntop b (unat (ka_family k)) (as_int (ka_index k))) (length pre + 24)
        (int (length (ka_octets k)) - 24) d = Some (Inr (fold (ka_add_attribute ntop k) ?as d))" for d
      unfolding lengths(3) by simp
    then show ?thesis
      unfolding address_message_def Let_def
      using index family by (simp add: add.assoc ka_add_attributes address_fold_def ka_entries_def)
  qed
  moreover have "take 2 (drop 4 (ka_octets k)) = le16 (ka_type k)"
    by (simp add: ka_octets_def)
  ultimately show ?thesis
    using ka_framed [OF assms] assms by (auto simp: reads_def ka_ok_def)
qed

subsection \<open>What the two phases leave in the map\<close>

lemma link_folds:
  "std_map_wf m \<Longrightarrow> std_map_wf (fold link_fold ks m)
    \<and> map_of (fold link_fold ks m) = map_of m ++ map_of (rev (map (\<lambda>k. (as_int (kl_index k), kl_device k)) ks))"
  by (induction ks arbitrary: m) (simp_all add: link_fold_def map_add_def fun_eq_iff split: option.split)

definition with_addresses :: "(int \<times> string) list \<Rightarrow> NetworkDevice option \<Rightarrow> NetworkDevice option" where
  "with_addresses as device =
     (if as = [] then device
      else Some (let d = (case device of None \<Rightarrow> created_device | Some d \<Rightarrow> d) in
                 d \<lparr> dev_addresses := dev_addresses d @ as \<rparr>))"

lemma entry_folds:
  "std_map_wf m \<Longrightarrow> std_map_wf (fold add_entry es m)
    \<and> map_of (fold add_entry es m) i = with_addresses (map snd (filter (\<lambda>e. fst e = i) es)) (map_of m i)"
proof (induction es arbitrary: m)
  case (Cons e es)
  then have "std_map_wf (add_entry e m)"
    by (simp add: add_entry_def Let_def)
  with Cons show ?case
    by (auto simp: add_entry_def with_addresses_def Let_def split: option.split)
qed (simp add: with_addresses_def)

lemma address_folds: "fold (address_fold ntop) ks m = fold add_entry (concat (map (ka_entries ntop) ks)) m"
  by (induction ks arbitrary: m) (simp_all add: address_fold_def)

text \<open>
  C24. The snapshot of the devices is what the kernel dumps, in however many parts it comes: for
  dumps of links and of addresses as the kernel writes them, each ended by its message, the
  snapshot returns; its map is ordered, and holds for every index the device of the last link
  message of the index, with all the addresses of the address messages of the index in the order
  of arrival.  An address of an index without a link creates a nameless device.
\<close>

theorem devices_snapshot:
  assumes "0 \<le> first_socket linux" "0 \<le> first_bind linux" "0 \<le> first_send linux"
    and "0 \<le> second_socket linux" "0 \<le> second_send linux"
    and "first_recvs linux = map (dump_part kl_octets) lparts @ done_part kl_octets ls m post # later"
    and "list_all (\<lambda>p. list_all kl_ok (fst p)) lparts" "list_all kl_ok ls" "done_message m"
    and "second_recvs linux = map (dump_part ka_octets) aparts @ done_part ka_octets as m' post' # later'"
    and "list_all (\<lambda>p. list_all ka_ok (fst p)) aparts" "list_all ka_ok as" "done_message m'"
  shows "\<exists>n. NetworkDevices_new ntop linux = Some (Inr n) \<and> std_map_wf (dev_map n)
    \<and> (\<forall>i. map_of (dev_map n) i =
          with_addresses
            (map snd (filter (\<lambda>e. fst e = i) (concat (map (ka_entries ntop) (concat (map fst aparts) @ as)))))
            (map_of (rev (map (\<lambda>k. (as_int (kl_index k), kl_device k)) (concat (map fst lparts) @ ls))) i))"
proof -
  let ?links = "concat (map fst lparts) @ ls" and ?addrs = "concat (map fst aparts) @ as"
  let ?first = "fold link_fold ?links []"
  have "receive_loop (until_done link_message) (first_recvs linux) [] = Some (Inr ?first)"
    unfolding assms(6) by (rule receive_until_done) (use assms(7-9) link_reads in \<open>auto simp: list_all_iff\<close>)
  moreover have "receive_loop (until_done (address_message ntop)) (second_recvs linux) ?first
      = Some (Inr (fold (address_fold ntop) ?addrs ?first))"
    unfolding assms(10) by (rule receive_until_done) (use assms(11-13) address_reads in \<open>auto simp: list_all_iff\<close>)
  ultimately have "NetworkDevices_new ntop linux
      = Some (Inr \<lparr> dev_map = fold (address_fold ntop) ?addrs ?first, dev_json_formatted_output = False \<rparr>)"
    using assms(1-5) by (simp add: NetworkDevices_new_def NetworkDevices_snap_def require_def)
  moreover have "std_map_wf ?first"
    "map_of ?first = map_of (rev (map (\<lambda>k. (as_int (kl_index k), kl_device k)) ?links))"
    using link_folds [of "[]" ?links] by simp_all
  ultimately show ?thesis
    using entry_folds [of ?first "concat (map (ka_entries ntop) ?addrs)"] unfolding address_folds by auto
qed

text \<open>A first dump without its end is waited for.\<close>

lemma devices_wait_for_done:
  assumes "0 \<le> first_socket linux" "0 \<le> first_bind linux" "0 \<le> first_send linux"
    and "first_recvs linux = map (dump_part kl_octets) parts" "list_all (\<lambda>p. list_all kl_ok (fst p)) parts"
  shows "NetworkDevices_new ntop linux = None"
proof -
  have "receive_loop (until_done link_message) (first_recvs linux) [] = None"
    unfolding assms(4) by (rule receive_without_done) (use assms(5) link_reads in \<open>auto simp: list_all_iff\<close>)
  then show ?thesis
    using assms(1-3) by (simp add: NetworkDevices_new_def NetworkDevices_snap_def require_def)
qed

definition sample_link :: kernel_link where
  "sample_link =
     \<lparr> kl_type = 16, kl_header = replicate 10 0, kl_before = [0, 0, 4, 3], kl_index = 1, kl_flags = 73,
       kl_change = [0, 0, 0, 0], kl_attributes = [(3, [108, 111, 0]), (4, [0, 0, 1, 0])] \<rparr>"

definition sample_address :: kernel_address where
  "sample_address =
     \<lparr> ka_type = 20, ka_header = replicate 10 0, ka_family = 2, ka_before = [8, 128, 254], ka_index = 1,
       ka_attributes = [(1, [127, 0, 0, 1])] \<rparr>"

definition sample_done :: "byte list" where
  "sample_done = le16 20 @ [0, 0] @ le16 3 @ replicate 14 0"

definition sample_devices :: device_answers where
  "sample_devices =
     \<lparr> first_socket = 3, first_bind = 0, first_send = 32,
       first_recvs = [dump_part kl_octets ([sample_link], []), done_part kl_octets [] sample_done []],
       second_socket = 4, second_send = 32, second_recvs = [done_part ka_octets [sample_address] sample_done []] \<rparr>"

lemma sample_devices_ok: "kl_ok sample_link" "ka_ok sample_address" "done_message sample_done"
  by (simp_all add: kl_ok_def sample_link_def kl_attribute_ok_def rtattr_fits_def kl_body_def align4_def
      ka_ok_def sample_address_def ka_body_def done_message_def framed_def sample_done_def)

theorem devices_snapshot_witness:
  "\<exists>n. NetworkDevices_new (\<lambda>_. ''127.0.0.1'') sample_devices = Some (Inr n)
     \<and> map_option (\<lambda>d. (dev_name d, dev_addresses d, dev_link_type d)) (map_of (dev_map n) 1)
        = Some (''lo'', [(2, ''127.0.0.1'')], None)"
proof -
  have letters: "char_of (108 :: nat) = CHR ''l''" "char_of (111 :: nat) = CHR ''o''"
    by code_simp+
  have device: "dev_name (kl_device sample_link) = ''lo''" "dev_addresses (kl_device sample_link) = []"
      "dev_link_type (kl_device sample_link) = None"
    and index: "as_int (kl_index sample_link) = 1"
    and entries: "ka_entries (\<lambda>_. ''127.0.0.1'') sample_address = [(1, 2, ''127.0.0.1'')]"
    by (simp_all add: kl_device_def sample_link_def kl_add_attribute_def declared_device_def data_text_def
        char_of_byte_def as_int_def ka_entries_def sample_address_def letters Let_def)
  obtain n where "NetworkDevices_new (\<lambda>_. ''127.0.0.1'') sample_devices = Some (Inr n)"
    and "map_of (dev_map n) 1 = with_addresses [(2, ''127.0.0.1'')] (Some (kl_device sample_link))"
    using devices_snapshot [of sample_devices "[([sample_link], [])]" "[]" sample_done "[]" "[]" "[]"
        "[sample_address]" sample_done "[]" "[]" "\<lambda>_. ''127.0.0.1''"] sample_devices_ok index entries
    by (auto simp: sample_devices_def)
  then show ?thesis
    using device by (simp add: with_addresses_def)
qed

end
