(* ===== verification/Daemon.thy ===== *)
theory Daemon
  imports Host_System Host_Sensors Host_Storage Net_Neighbors Net_Routes Net_Devices Threads
begin

text \<open>
  The monitoring daemon (\<open>cmd/rankd\<close>): the engines of \<open>components/\<close>, which own the sources of the host
  and of the network and answer requests about them, the controller of \<open>api/\<close>, which publishes their
  resources, the configuration of \<open>configs/\<close> and \<open>main\<close>.  What the system holds at the time of a call
  is a \<open>host\<close>; the functions of the libraries that do not depend on it are a \<open>platform\<close>.  The REST
  library is not modelled: a resource is its path, its method and the handler it was given, and a
  handler returns what it closes the session with.
\<close>

section \<open>The system\<close>

record platform =
  pl_stod :: "string \<Rightarrow> 64 word res"
  pl_double :: "real \<Rightarrow> 64 word"
  pl_percentage :: "real option \<Rightarrow> 64 word"
  pl_to_float :: "nat \<Rightarrow> real"
  pl_inet_ntop :: "byte list \<Rightarrow> string"
  pl_RTA_MAX :: nat
  pl_writer :: "json \<Rightarrow> string"
  pl_hardware_concurrency :: uint32

record host =
  ho_cpuinfo :: "string option"
  ho_stat :: proc_stat
  ho_meminfo :: "string \<rightharpoonup> size_t"
  ho_vmstat :: "string option"
  ho_uninitialised :: int
  ho_partitions :: "string option"
  ho_mounts :: "mntent list option"
  ho_statvfs :: "string \<Rightarrow> statvfs option"
  ho_diskstats :: "string option"
  ho_chips :: "lib_chip list"
  ho_getpwuid :: "int \<Rightarrow> string option"
  ho_uname :: os_kernel
  ho_processes :: "pfs_process list"
  ho_sysinfo :: sysinfo
  ho_neighbors :: "netlink_request \<Rightarrow> netlink_answer"
  ho_routes :: "netlink_request \<Rightarrow> netlink_answer"
  ho_ifname :: "int \<Rightarrow> string option"
  ho_devices :: device_answers

section \<open>Answers and resources\<close>

record response =
  rs_status :: nat
  rs_body :: string
  rs_headers :: "(string \<times> string) list"

text \<open>\<open>buffer.GetString()\<close> is taken as a text that ends with its first zero.\<close>

definition close_with_document :: "platform \<Rightarrow> json \<Rightarrow> response" where
  "close_with_document P json_document =
     (let buffer = pl_writer P json_document in
      \<lparr> rs_status = 200, rs_body = takeWhile (\<lambda>c. c \<noteq> CHR 0x00) buffer,
        rs_headers = [(''Content-Length'', decimal (length buffer)), (''Connection'', ''close'')] \<rparr>)"

definition close_empty :: response where
  "close_empty = \<lparr> rs_status = 200, rs_body = '''',
     rs_headers = [(''Content-Length'', decimal 0), (''Connection'', ''close'')] \<rparr>"

datatype endpoint =
  Comp | Comp_cpu | Comp_memory | Comp_os | Comp_sensors | Comp_storage
| Net | Net_neighbors | Net_routes | Net_interfaces
| Time | Time_ptp

record resource =
  re_path :: string
  re_method :: string
  re_handler :: endpoint

section \<open>Engines\<close>

text \<open>The bodies that the three engines share.  \<open>execute\<close> does not ask whether the thread runs.\<close>

definition Engine_execute :: "worker \<Rightarrow> worker res" where
  "Engine_execute w = thread_start (w \<lparr> is_running := True \<rparr>)"

definition Engine_stop :: "worker \<Rightarrow> worker res" where
  "Engine_stop = worker_stop False"

record ComputingEngine =
  ce_worker :: worker
  ce_cpu :: CPU
  ce_memory :: Memory
  ce_storage :: Storage
  ce_sensors :: Sensors
  ce_os :: OperativeSystem

definition ComputingEngine_new :: "platform \<Rightarrow> host \<Rightarrow> ComputingEngine run" where
  "ComputingEngine_new P h =
     run_then (CPU_new (pl_stod P) (ho_cpuinfo h) (ho_stat h)) (\<lambda>cpu.
     run_then (Memory_snap (ho_uninitialised h) (ho_meminfo h) (ho_vmstat h)) (\<lambda>memory.
     run_then (Storage_new (ho_partitions h) (ho_mounts h) (ho_statvfs h) (ho_diskstats h)) (\<lambda>storage.
     run_then (Some (Sensors_new (ho_chips h))) (\<lambda>sensors.
     run_then (Some (OperativeSystem_new (ho_getpwuid h) (pl_to_float P) (ho_uname h) (ho_processes h) (ho_sysinfo h))) (\<lambda>os.
       Some (Inr \<lparr> ce_worker = idle_worker, ce_cpu = cpu, ce_memory = memory, ce_storage = storage,
                   ce_sensors = sensors, ce_os = os \<rparr>))))))"

definition ComputingEngine_execute :: "ComputingEngine \<Rightarrow> ComputingEngine res" where
  "ComputingEngine_execute e = and_then (Engine_execute (ce_worker e)) (\<lambda>w. Inr (e \<lparr> ce_worker := w \<rparr>))"

definition ComputingEngine_stop :: "ComputingEngine \<Rightarrow> ComputingEngine res" where
  "ComputingEngine_stop e = and_then (Engine_stop (ce_worker e)) (\<lambda>w. Inr (e \<lparr> ce_worker := w \<rparr>))"

definition ComputingEngine_get_resources :: "resource list" where
  "ComputingEngine_get_resources =
     [\<lparr> re_path = ''api/v1/comp'', re_method = ''GET'', re_handler = Comp \<rparr>,
      \<lparr> re_path = ''api/v1/comp/cpu'', re_method = ''GET'', re_handler = Comp_cpu \<rparr>,
      \<lparr> re_path = ''api/v1/comp/memory'', re_method = ''GET'', re_handler = Comp_memory \<rparr>,
      \<lparr> re_path = ''api/v1/comp/os'', re_method = ''GET'', re_handler = Comp_os \<rparr>,
      \<lparr> re_path = ''api/v1/comp/sensors'', re_method = ''GET'', re_handler = Comp_sensors \<rparr>,
      \<lparr> re_path = ''api/v1/comp/storage'', re_method = ''GET'', re_handler = Comp_storage \<rparr>]"

definition tell_cpu :: "platform \<Rightarrow> host \<Rightarrow> ComputingEngine \<Rightarrow> (response \<times> ComputingEngine) run" where
  "tell_cpu P h e =
     (let e = e \<lparr> ce_cpu := (ce_cpu e) \<lparr> cpu_snapshot := CPU_snap (ho_stat h) \<rparr> \<rparr> in
      run_then (Some (CPU_json (pl_double P) (ce_cpu e))) (\<lambda>json_document.
        Some (Inr (close_with_document P json_document, e))))"

definition tell_memory :: "platform \<Rightarrow> host \<Rightarrow> ComputingEngine \<Rightarrow> (response \<times> ComputingEngine) run" where
  "tell_memory P h e =
     run_then (Memory_snap (ho_uninitialised h) (ho_meminfo h) (ho_vmstat h)) (\<lambda>memory.
       Some (Inr (close_with_document P (Memory_json memory), e \<lparr> ce_memory := memory \<rparr>)))"

definition tell_os :: "platform \<Rightarrow> host \<Rightarrow> ComputingEngine \<Rightarrow> (response \<times> ComputingEngine) run" where
  "tell_os P h e =
     run_then (Some (OperativeSystem_snap (ho_getpwuid h) (pl_to_float P) (ho_processes h) (ho_sysinfo h) (ce_os e))) (\<lambda>os.
     run_then (Some (OperativeSystem_json (pl_double P) os)) (\<lambda>json_document.
       Some (Inr (close_with_document P json_document, e \<lparr> ce_os := os \<rparr>))))"

definition tell_sensors :: "platform \<Rightarrow> host \<Rightarrow> ComputingEngine \<Rightarrow> (response \<times> ComputingEngine) run" where
  "tell_sensors P h e =
     run_then (Some (Sensors_snap (ho_chips h) (ce_sensors e))) (\<lambda>sensors.
       Some (Inr (close_with_document P (Sensors_json sensors), e \<lparr> ce_sensors := sensors \<rparr>)))"

definition tell_storage :: "platform \<Rightarrow> host \<Rightarrow> ComputingEngine \<Rightarrow> (response \<times> ComputingEngine) run" where
  "tell_storage P h e =
     run_then (Storage_snap (ho_partitions h) (ho_mounts h) (ho_statvfs h) (ho_diskstats h) (ce_storage e)) (\<lambda>storage.
     run_then (Some (Storage_json (pl_percentage P) storage)) (\<lambda>json_document.
       Some (Inr (close_with_document P json_document, e \<lparr> ce_storage := storage \<rparr>))))"

record NetworkEngine =
  ne_worker :: worker
  ne_neighbors :: NetworkNeighbors
  ne_routes :: NetworkRoutes
  ne_interfaces :: NetworkDevices

definition NetworkEngine_new :: "platform \<Rightarrow> host \<Rightarrow> NetworkEngine run" where
  "NetworkEngine_new P h =
     run_then (NetworkNeighbors_new (pl_inet_ntop P) (ho_neighbors h)) (\<lambda>neighbors.
     run_then (NetworkRoutes_new (pl_inet_ntop P) (ho_ifname h) (pl_RTA_MAX P) (ho_routes h)) (\<lambda>routes.
     run_then (NetworkDevices_new (pl_inet_ntop P) (ho_devices h)) (\<lambda>interfaces.
       Some (Inr \<lparr> ne_worker = idle_worker, ne_neighbors = neighbors, ne_routes = routes, ne_interfaces = interfaces \<rparr>))))"

definition NetworkEngine_execute :: "NetworkEngine \<Rightarrow> NetworkEngine res" where
  "NetworkEngine_execute e = and_then (Engine_execute (ne_worker e)) (\<lambda>w. Inr (e \<lparr> ne_worker := w \<rparr>))"

definition NetworkEngine_stop :: "NetworkEngine \<Rightarrow> NetworkEngine res" where
  "NetworkEngine_stop e = and_then (Engine_stop (ne_worker e)) (\<lambda>w. Inr (e \<lparr> ne_worker := w \<rparr>))"

definition NetworkEngine_get_resources :: "resource list" where
  "NetworkEngine_get_resources =
     [\<lparr> re_path = ''api/v1/net'', re_method = ''GET'', re_handler = Net \<rparr>,
      \<lparr> re_path = ''api/v1/net/neighbors'', re_method = ''GET'', re_handler = Net_neighbors \<rparr>,
      \<lparr> re_path = ''api/v1/net/routes'', re_method = ''GET'', re_handler = Net_routes \<rparr>,
      \<lparr> re_path = ''api/v1/net/interfaces'', re_method = ''GET'', re_handler = Net_interfaces \<rparr>]"

definition tell_neighbors :: "platform \<Rightarrow> host \<Rightarrow> NetworkEngine \<Rightarrow> (response \<times> NetworkEngine) run" where
  "tell_neighbors P h e =
     run_then (NetworkNeighbors_snap (pl_inet_ntop P) (ho_neighbors h) (ne_neighbors e)) (\<lambda>neighbors.
       Some (Inr (close_with_document P (NetworkNeighbors_json neighbors), e \<lparr> ne_neighbors := neighbors \<rparr>)))"

definition tell_routes :: "platform \<Rightarrow> host \<Rightarrow> NetworkEngine \<Rightarrow> (response \<times> NetworkEngine) run" where
  "tell_routes P h e =
     run_then (NetworkRoutes_snap (pl_inet_ntop P) (ho_ifname h) (pl_RTA_MAX P) (ho_routes h) (ne_routes e)) (\<lambda>routes.
     run_then (Some (NetworkRoutes_json routes)) (\<lambda>json_document.
       Some (Inr (close_with_document P json_document, e \<lparr> ne_routes := routes \<rparr>))))"

definition tell_interfaces :: "platform \<Rightarrow> host \<Rightarrow> NetworkEngine \<Rightarrow> (response \<times> NetworkEngine) run" where
  "tell_interfaces P h e =
     run_then (NetworkDevices_snap (pl_inet_ntop P) (ho_devices h) (ne_interfaces e)) (\<lambda>interfaces.
     run_then (Some (NetworkDevices_json interfaces)) (\<lambda>json_document.
       Some (Inr (close_with_document P json_document, e \<lparr> ne_interfaces := interfaces \<rparr>))))"

text \<open>The engine of the time has no source; the body of \<open>tell_ptp\<close> is a comment.\<close>

record TimeEngine =
  te_worker :: worker

definition TimeEngine_new :: TimeEngine where
  "TimeEngine_new = \<lparr> te_worker = idle_worker \<rparr>"

definition TimeEngine_execute :: "TimeEngine \<Rightarrow> TimeEngine res" where
  "TimeEngine_execute e = and_then (Engine_execute (te_worker e)) (\<lambda>w. Inr (e \<lparr> te_worker := w \<rparr>))"

definition TimeEngine_stop :: "TimeEngine \<Rightarrow> TimeEngine res" where
  "TimeEngine_stop e = and_then (Engine_stop (te_worker e)) (\<lambda>w. Inr (e \<lparr> te_worker := w \<rparr>))"

definition TimeEngine_get_resources :: "resource list" where
  "TimeEngine_get_resources =
     [\<lparr> re_path = ''api/v1/time'', re_method = ''GET'', re_handler = Time \<rparr>,
      \<lparr> re_path = ''api/v1/time/ptp'', re_method = ''GET'', re_handler = Time_ptp \<rparr>]"

definition tell_ptp :: "response option" where
  "tell_ptp = None"

section \<open>The controller of the interface\<close>

record api_settings =
  as_port :: nat
  as_default_headers :: "(string \<times> string) list"
  as_worker_limit :: uint32

record ApiController =
  ac_worker :: worker
  ac_settings :: "api_settings option"
  ac_resources :: "resource list"

definition ApiController_new :: ApiController where
  "ApiController_new = \<lparr> ac_worker = idle_worker, ac_settings = None, ac_resources = [] \<rparr>"

definition ApiController_execute :: "ApiController \<Rightarrow> ApiController res" where
  "ApiController_execute c = and_then (thread_start ((ac_worker c) \<lparr> is_running := True \<rparr>)) (\<lambda>w. Inr (c \<lparr> ac_worker := w \<rparr>))"

definition ApiController_stop :: "ApiController \<Rightarrow> ApiController res" where
  "ApiController_stop c =
     (if is_running (ac_worker c)
      then and_then (thread_join False ((ac_worker c) \<lparr> is_running := False \<rparr>)) (\<lambda>w. Inr (c \<lparr> ac_worker := w \<rparr>))
      else Inr c)"

definition ApiController_apply_settings :: "platform \<Rightarrow> ApiController \<Rightarrow> ApiController" where
  "ApiController_apply_settings P c = c \<lparr> ac_settings :=
     Some \<lparr> as_port = 7265, as_default_headers = [(''Connection'', ''close'')],
            as_worker_limit = pl_hardware_concurrency P \<rparr> \<rparr>"

definition ApiController_append_resource :: "resource \<Rightarrow> ApiController \<Rightarrow> ApiController" where
  "ApiController_append_resource resource c = c \<lparr> ac_resources := ac_resources c @ [resource] \<rparr>"

definition ApiController_append_resources :: "resource list \<Rightarrow> ApiController \<Rightarrow> ApiController" where
  "ApiController_append_resources resources c =
     fold (\<lambda>resource c. c \<lparr> ac_resources := ac_resources c @ [resource] \<rparr>) resources c"

text \<open>
  A round of the thread, over the two calls of the REST library: \<open>publish\<close> may throw, and \<open>start\<close>
  comes back when the service is stopped.
\<close>

definition api_round ::
  "(resource \<Rightarrow> 's \<Rightarrow> 's res) \<Rightarrow> (api_settings option \<Rightarrow> 's \<Rightarrow> 's run) \<Rightarrow> ApiController \<Rightarrow> 's \<Rightarrow> 's run" where
  "api_round publish start c rest =
     run_then (Some (fold_res publish (ac_resources c) rest)) (\<lambda>rest.
       if ac_resources c \<noteq> [] then start (ac_settings c) rest else Some (Inr rest))"

section \<open>Configuration, command line and main\<close>

record RankdConfiguration =
  title :: "string option"

text \<open>
  \<open>parse_file\<close> gives \<open>None\<close> for a text the TOML library rejects, and otherwise for each key whether it
  is there and, if so, its value if that is a string.
\<close>

definition parse_configuration ::
  "(string \<Rightarrow> (string \<Rightarrow> string option option) option) \<Rightarrow> string \<Rightarrow> RankdConfiguration option" where
  "parse_configuration parse_file configuration_path =
     (case parse_file configuration_path of
        None \<Rightarrow> None
      | Some config \<Rightarrow>
          Some \<lparr> title = (case config ''title'' of None \<Rightarrow> None | Some v \<Rightarrow> v) \<rparr>)"

text \<open>How often each declared option was given; \<open>debug\<close> is not declared, and its count is 0.\<close>

record command_line =
  cl_help :: nat
  cl_verbose :: nat
  cl_config :: "string option"
  cl_HOME :: "string option"
  cl_log_opens :: "string \<Rightarrow> bool"

datatype log_level = Level_trace | Level_debug | Level_info

definition logger_level :: "nat \<Rightarrow> log_level" where
  "logger_level logger_depth =
     (if logger_depth = 2 then Level_debug else if logger_depth > 2 then Level_trace else Level_info)"

record daemon =
  da_level :: log_level
  da_computing :: ComputingEngine
  da_network :: NetworkEngine
  da_controller :: ApiController

datatype outcome = Exited int | Serving daemon

text \<open>
  \<open>main\<close> up to the loop that never ends.  The file of the log is opened in any case; without \<open>HOME\<close> a
  text is made from a null pointer.  The configuration file is not read.
\<close>

definition rankd_main :: "platform \<Rightarrow> host \<Rightarrow> command_line \<Rightarrow> outcome run" where
  "rankd_main P h cli =
     (if cl_help cli > 0 then Some (Inr (Exited 0))
      else
        run_then (Some (initialised (cl_HOME cli))) (\<lambda>home.
        run_then (Some (require (cl_log_opens cli (home @ ''/.rank/execution.log'')) StdException)) (\<lambda>_.
        let api_controller = ApiController_apply_settings P ApiController_new in
        run_then (ComputingEngine_new P h) (\<lambda>computing_engine.
        run_then (NetworkEngine_new P h) (\<lambda>network_engine.
        let api_controller =
              ApiController_append_resources NetworkEngine_get_resources
                (ApiController_append_resources ComputingEngine_get_resources api_controller) in
        run_then (Some (ComputingEngine_execute computing_engine)) (\<lambda>computing_engine.
        run_then (Some (NetworkEngine_execute network_engine)) (\<lambda>network_engine.
        run_then (Some (ApiController_execute api_controller)) (\<lambda>api_controller.
          Some (Inr (Serving
            \<lparr> da_level = logger_level (cl_verbose cli), da_computing = computing_engine,
              da_network = network_engine, da_controller = api_controller \<rparr>))))))))))"

section \<open>Serving requests\<close>

definition on_computing ::
  "(ComputingEngine \<Rightarrow> (response \<times> ComputingEngine) run) \<Rightarrow> daemon \<Rightarrow> (response option \<times> daemon) run" where
  "on_computing tell d =
     run_then (tell (da_computing d)) (\<lambda>(r, e). Some (Inr (Some r, d \<lparr> da_computing := e \<rparr>)))"

definition on_network ::
  "(NetworkEngine \<Rightarrow> (response \<times> NetworkEngine) run) \<Rightarrow> daemon \<Rightarrow> (response option \<times> daemon) run" where
  "on_network tell d =
     run_then (tell (da_network d)) (\<lambda>(r, e). Some (Inr (Some r, d \<lparr> da_network := e \<rparr>)))"

text \<open>
  The handlers that \<open>get_resources\<close> of the engines gives to the resources; \<open>teller\<close> of each engine
  closes the session with an empty text.
\<close>

fun tell :: "platform \<Rightarrow> host \<Rightarrow> endpoint \<Rightarrow> daemon \<Rightarrow> (response option \<times> daemon) run" where
  "tell P h Comp d = Some (Inr (Some close_empty, d))"
| "tell P h Comp_cpu d = on_computing (tell_cpu P h) d"
| "tell P h Comp_memory d = on_computing (tell_memory P h) d"
| "tell P h Comp_os d = on_computing (tell_os P h) d"
| "tell P h Comp_sensors d = on_computing (tell_sensors P h) d"
| "tell P h Comp_storage d = on_computing (tell_storage P h) d"
| "tell P h Net d = Some (Inr (Some close_empty, d))"
| "tell P h Net_neighbors d = on_network (tell_neighbors P h) d"
| "tell P h Net_routes d = on_network (tell_routes P h) d"
| "tell P h Net_interfaces d = on_network (tell_interfaces P h) d"
| "tell P h Time d = Some (Inr (Some close_empty, d))"
| "tell P h Time_ptp d = Some (Inr (tell_ptp, d))"

text \<open>Requests served one after the other, each while the system holds what stands beside it.\<close>

fun serve :: "platform \<Rightarrow> (host \<times> endpoint) list \<Rightarrow> daemon \<Rightarrow> daemon run" where
  "serve P [] d = Some (Inr d)"
| "serve P ((h, e) # rs) d = run_then (tell P h e d) (\<lambda>(_, d). serve P rs d)"

definition answer :: "platform \<Rightarrow> host \<Rightarrow> endpoint \<Rightarrow> daemon \<Rightarrow> response option run" where
  "answer P h e d = run_then (tell P h e d) (\<lambda>(r, _). Some (Inr r))"

section \<open>What an answer rests on\<close>

text \<open>
  What a snapshot leaves alone in the sources that it renews as a whole.
\<close>

definition renewable_alike :: "daemon \<Rightarrow> daemon \<Rightarrow> bool" where
  "renewable_alike d d' \<longleftrightarrow>
     (\<forall>s. (ce_cpu (da_computing d)) \<lparr> cpu_snapshot := s \<rparr> = (ce_cpu (da_computing d')) \<lparr> cpu_snapshot := s \<rparr>)
     \<and> os_kernel (ce_os (da_computing d)) = os_kernel (ce_os (da_computing d'))
     \<and> os_json_formatted_output (ce_os (da_computing d)) = os_json_formatted_output (ce_os (da_computing d'))
     \<and> nbr_json_formatted_output (ne_neighbors (da_network d)) = nbr_json_formatted_output (ne_neighbors (da_network d'))
     \<and> rt_json_formatted_output (ne_routes (da_network d)) = rt_json_formatted_output (ne_routes (da_network d'))
     \<and> dev_json_formatted_output (ne_interfaces (da_network d)) = dev_json_formatted_output (ne_interfaces (da_network d'))"

lemma renewable_alike_refl [simp]: "renewable_alike d d"
  by (simp add: renewable_alike_def)

lemma renewable_alike_trans: "renewable_alike d d' \<Longrightarrow> renewable_alike d' d'' \<Longrightarrow> renewable_alike d d''"
  by (simp add: renewable_alike_def)

text \<open>Snapshots of sources that are alike are equal.\<close>

lemma OperativeSystem_snap_alike:
  assumes "os_kernel s = os_kernel t" "os_json_formatted_output s = os_json_formatted_output t"
  shows "OperativeSystem_snap g f ps i s = OperativeSystem_snap g f ps i t"
proof -
  have "s \<lparr> os_processes := p, os_uptime := u, os_load1m := l, os_load5m := m, os_load15m := n \<rparr>
      = t \<lparr> os_processes := p, os_uptime := u, os_load1m := l, os_load5m := m, os_load15m := n \<rparr>" for p u l m n
    using assms by (simp add: OperativeSystem.equality)
  then show ?thesis
    by (simp add: OperativeSystem_snap_def)
qed

lemma network_snap_alike:
  "nbr_json_formatted_output n = nbr_json_formatted_output n' \<Longrightarrow> NetworkNeighbors_snap t l n = NetworkNeighbors_snap t l n'"
  "rt_json_formatted_output r = rt_json_formatted_output r' \<Longrightarrow> NetworkRoutes_snap t i m l r = NetworkRoutes_snap t i m l r'"
  "dev_json_formatted_output v = dev_json_formatted_output v' \<Longrightarrow> NetworkDevices_snap t a v = NetworkDevices_snap t a v'"
proof -
  assume "nbr_json_formatted_output n = nbr_json_formatted_output n'"
  then have "n \<lparr> nbr_list := x \<rparr> = n' \<lparr> nbr_list := x \<rparr>" for x
    by (simp add: NetworkNeighbors.equality)
  then show "NetworkNeighbors_snap t l n = NetworkNeighbors_snap t l n'"
    by (simp add: NetworkNeighbors_snap_def)
next
  assume "rt_json_formatted_output r = rt_json_formatted_output r'"
  then have "r \<lparr> rt_list := x \<rparr> = r' \<lparr> rt_list := x \<rparr>" for x
    by (simp add: NetworkRoutes.equality)
  then show "NetworkRoutes_snap t i m l r = NetworkRoutes_snap t i m l r'"
    by (simp add: NetworkRoutes_snap_def)
next
  assume "dev_json_formatted_output v = dev_json_formatted_output v'"
  then have "v \<lparr> dev_map := x \<rparr> = v' \<lparr> dev_map := x \<rparr>" for x
    by (simp add: NetworkDevices.equality)
  then show "NetworkDevices_snap t a v = NetworkDevices_snap t a v'"
    by (simp add: NetworkDevices_snap_def)
qed

lemma OperativeSystem_snap_keeps:
  "OperativeSystem_snap g f ps i s = Inr t \<Longrightarrow>
    os_kernel t = os_kernel s \<and> os_json_formatted_output t = os_json_formatted_output s"
  by (cases "si_loads i") (auto simp: OperativeSystem_snap_def)

lemmas tell_defs =
  on_computing_def on_network_def tell_cpu_def tell_memory_def tell_os_def tell_sensors_def tell_storage_def
  tell_neighbors_def tell_routes_def tell_interfaces_def

text \<open>A request leaves all that is not renewed as a whole as it was.\<close>

lemma tell_alike:
  assumes "tell P h e d = Some (Inr (r, d'))"
  shows "renewable_alike d d'"
  using assms
  by (cases e)
    (auto simp: renewable_alike_def tell_defs NetworkNeighbors_snap_def NetworkRoutes_snap_def
      NetworkDevices_snap_def Let_def dest: OperativeSystem_snap_keeps)

lemma serve_alike: "serve P rs d = Some (Inr d') \<Longrightarrow> renewable_alike d d'"
proof (induction rs arbitrary: d)
  case (Cons q rs)
  then show ?case
    by (cases q) (auto dest: tell_alike intro: renewable_alike_trans)
qed simp

text \<open>The two sources that a snapshot adds to are changed by requests for them only.\<close>

lemma tell_accumulating:
  assumes "tell P h e d = Some (Inr (r, d'))"
  shows "e \<noteq> Comp_sensors \<Longrightarrow> ce_sensors (da_computing d') = ce_sensors (da_computing d)"
    "e \<noteq> Comp_storage \<Longrightarrow> ce_storage (da_computing d') = ce_storage (da_computing d)"
  using assms by (cases e; auto simp: tell_defs Let_def)+

lemma serve_accumulating:
  assumes "serve P rs d = Some (Inr d')"
  shows "Comp_sensors \<notin> snd ` set rs \<Longrightarrow> ce_sensors (da_computing d') = ce_sensors (da_computing d)"
    "Comp_storage \<notin> snd ` set rs \<Longrightarrow> ce_storage (da_computing d') = ce_storage (da_computing d)"
  using assms
proof (induction rs arbitrary: d)
  case (Cons q rs)
  {
    case 1
    with Cons.IH(1) show ?case
      by (cases q) (auto dest: tell_accumulating(1))
  next
    case 2
    with Cons.IH(2) show ?case
      by (cases q) (auto dest: tell_accumulating(2))
  }
qed simp_all

lemma answer_alike:
  assumes "renewable_alike d d'"
    and "e = Comp_sensors \<Longrightarrow> ce_sensors (da_computing d') = ce_sensors (da_computing d)"
    and "e = Comp_storage \<Longrightarrow> ce_storage (da_computing d') = ce_storage (da_computing d)"
  shows "answer P h e d' = answer P h e d"
proof -
  have "OperativeSystem_snap g f ps i (ce_os (da_computing d')) = OperativeSystem_snap g f ps i (ce_os (da_computing d))"
    for g f ps i
    using assms(1) by (intro OperativeSystem_snap_alike) (simp_all add: renewable_alike_def)
  moreover have "NetworkNeighbors_snap t l (ne_neighbors (da_network d')) = NetworkNeighbors_snap t l (ne_neighbors (da_network d))"
    "NetworkRoutes_snap t n m l (ne_routes (da_network d')) = NetworkRoutes_snap t n m l (ne_routes (da_network d))"
    "NetworkDevices_snap t a (ne_interfaces (da_network d')) = NetworkDevices_snap t a (ne_interfaces (da_network d))"
    for t l n m a
    using assms(1) by (intro network_snap_alike; simp add: renewable_alike_def)+
  moreover have "(ce_cpu (da_computing d')) \<lparr> cpu_snapshot := s \<rparr> = (ce_cpu (da_computing d)) \<lparr> cpu_snapshot := s \<rparr>" for s
    using assms(1) by (simp add: renewable_alike_def)
  ultimately show ?thesis
    using assms(2,3) by (cases e) (simp_all add: answer_def tell_defs run_then_assoc Let_def)
qed

text \<open>
  C36. The answer to a request depends on the system at that time and not on the requests served
  before, whatever the system held then: after any sequence of requests the daemon answers a request
  as it would have at the start.  The two exceptions are the sensors and the storage, whose sources
  are added to by every request for them; for these it holds while they have not been asked for.
\<close>

theorem monitoring_forgets:
  assumes "serve P rs d = Some (Inr d')"
    and "e \<in> {Comp_sensors, Comp_storage} \<Longrightarrow> e \<notin> snd ` set rs"
  shows "answer P h e d' = answer P h e d"
  using serve_alike [OF assms(1)] serve_accumulating [OF assms(1)] assms(2) by (intro answer_alike) auto

text \<open>A host whose processor and sensors have been asked for before.\<close>

definition sample_platform :: platform where
  "sample_platform =
     \<lparr> pl_stod = sample_stod, pl_double = (\<lambda>_. 0), pl_percentage = (\<lambda>_. 0), pl_to_float = real,
       pl_inet_ntop = (\<lambda>_. ''''), pl_RTA_MAX = 30, pl_writer = (\<lambda>_. ''{}''), pl_hardware_concurrency = 4 \<rparr>"

definition sample_host :: host where
  "sample_host =
     \<lparr> ho_cpuinfo = None, ho_stat = sample_stat, ho_meminfo = Map.empty, ho_vmstat = None, ho_uninitialised = 0,
       ho_partitions = None, ho_mounts = None, ho_statvfs = (\<lambda>_. None), ho_diskstats = None, ho_chips = [],
       ho_getpwuid = (\<lambda>_. None),
       ho_uname = \<lparr> sysname = ''Linux'', nodename = ''node'', release = '''', version = '''', machine = '''' \<rparr>,
       ho_processes = [], ho_sysinfo = \<lparr> si_uptime = 0, si_loads = (0, 0, 0) \<rparr>, ho_neighbors = sample_kernel,
       ho_routes = sample_kernel, ho_ifname = (\<lambda>_. None), ho_devices = sample_devices \<rparr>"

definition sample_computing :: ComputingEngine where
  "sample_computing =
     \<lparr> ce_worker = idle_worker,
       ce_cpu = \<lparr> cpu_identifier = 0, cpu_byte_order = LITTLE, cpu_vendor_id = Some ''v'', cpu_family = Some ''6'',
         cpu_model = Some ''m'', cpu_model_name = Some ''n'', cpu_stepping = Some ''1'', cpu_microcode = Some ''2'',
         cpu_flags = [(''fpu'', ())], cpu_bugs = [(''spectre'', ())], cpu_bogomips = 0, cpu_cores = [],
         cpu_snapshot = CPU_snap (sample_stat \<lparr> ps_user := 7 \<rparr>) \<rparr>,
       ce_memory = \<lparr> mem_values = [], mem_oom_killer_invocations = None \<rparr>,
       ce_storage = \<lparr> st_devices = [], st_root_storage = None, st_json_formatted_output = False \<rparr>,
       ce_sensors = \<lparr> sensors_map = [], sensors_json_formatted_output = False \<rparr>,
       ce_os = \<lparr> os_kernel = ho_uname sample_host, os_uptime = 0, os_load1m = 0, os_load5m = 0, os_load15m = 0,
         os_processes = [], os_json_formatted_output = False \<rparr> \<rparr>"

definition sample_daemon :: daemon where
  "sample_daemon =
     \<lparr> da_level = Level_info, da_computing = sample_computing,
       da_network = \<lparr> ne_worker = idle_worker, ne_neighbors = \<lparr> nbr_list = [], nbr_json_formatted_output = False \<rparr>,
         ne_routes = \<lparr> rt_list = [], rt_json_formatted_output = False \<rparr>,
         ne_interfaces = \<lparr> dev_map = [], dev_json_formatted_output = False \<rparr> \<rparr>,
       da_controller = ApiController_new \<rparr>"

theorem monitoring_forgets_witness:
  "\<exists>d'. serve sample_platform [(sample_host, Comp_cpu), (sample_host, Comp_sensors)] sample_daemon = Some (Inr d')
    \<and> cpu_snapshot (ce_cpu (da_computing d')) \<noteq> cpu_snapshot (ce_cpu (da_computing sample_daemon))
    \<and> answer sample_platform sample_host Comp_os d' = answer sample_platform sample_host Comp_os sample_daemon"
proof -
  obtain d' where d': "serve sample_platform [(sample_host, Comp_cpu), (sample_host, Comp_sensors)] sample_daemon = Some (Inr d')"
    "cpu_snapshot (ce_cpu (da_computing d')) \<noteq> cpu_snapshot (ce_cpu (da_computing sample_daemon))"
    by (simp add: sample_daemon_def sample_computing_def sample_host_def sample_platform_def tell_defs CPU_json_def
        optional_c_str_def joined_def Sensors_snap_def CPU_snap_def sample_stat_def Let_def)
  show ?thesis
    using d' monitoring_forgets [OF d'(1), of Comp_os sample_host] by auto
qed

section \<open>What stays\<close>

text \<open>A device that was reported once is reported for ever, whether it is still there or not.\<close>

definition devices_within :: "string set \<Rightarrow> (string, Device) std_map \<Rightarrow> bool" where
  "devices_within ks m \<longleftrightarrow> std_map_wf m \<and> ks \<subseteq> dom (map_of m)"

lemma devices_within_assign: "devices_within ks m \<Longrightarrow> devices_within ks (map_assign k v m)"
  by (auto simp: devices_within_def)

lemma device_round_keeps:
  assumes "device_round f item (s, st) = Inr (s', st')" and "devices_within ks (st_devices st)"
  shows "devices_within ks (st_devices st')"
  using assms by (auto simp: device_round_def Let_def devices_within_assign split: if_splits prod.splits)

lemma device_rounds_keep:
  assumes "fold_res (device_round f) items (s, st) = Inr (s', st')" and "devices_within ks (st_devices st)"
  shows "devices_within ks (st_devices st')"
  using assms by (induction items arbitrary: s st) (auto dest: device_round_keeps)

lemma diskstats_round_keeps:
  assumes "diskstats_round names (s, m) = Inr (Some (s', m'))" and "devices_within ks m"
  shows "devices_within ks m'"
  using assms by (auto simp: diskstats_round_def assign_iops_def Let_def devices_within_assign split: if_splits prod.splits)

lemma reported_devices_stay:
  assumes "Storage_snap p m f i st = Some (Inr st')" and "std_map_wf (st_devices st)"
  shows "dom (map_of (st_devices st)) \<subseteq> dom (map_of (st_devices st'))"
proof -
  let ?ks = "dom (map_of (st_devices st))"
  from assms(1) obtain names items s st1 q where
    fold: "fold_res (device_round f) items (None, st) = Inr (s, st1)"
    and loop: "iterate (\<lambda>p. Some (diskstats_round names p)) (open_file i, st_devices st1) = Some (Inr q)"
    and st': "st_devices st' = snd q"
    by (auto simp: Storage_snap_def)
  have "devices_within ?ks (st_devices st1)"
    by (rule device_rounds_keep [OF fold]) (use assms(2) in \<open>simp add: devices_within_def\<close>)
  then have "devices_within ?ks (snd q)"
    by (rule iterate_keeps [OF loop, where stays = "\<lambda>q. devices_within ?ks (snd q)", simplified])
       (auto dest: diskstats_round_keeps)
  then show ?thesis
    by (simp add: devices_within_def st')
qed

section \<open>Starting\<close>

text \<open>
  If the sources can be read, the daemon serves: its threads run, the paths are published once each,
  and every handler of the two engines is behind one of them.
\<close>

lemma rankd_serves:
  assumes "cl_help cli = 0" "cl_HOME cli = Some home" "cl_log_opens cli (home @ ''/.rank/execution.log'')"
    and "ComputingEngine_new P h = Some (Inr ce)" "NetworkEngine_new P h = Some (Inr ne)"
  shows "\<exists>d. rankd_main P h cli = Some (Inr (Serving d))
    \<and> is_running (ce_worker (da_computing d)) \<and> is_running (ne_worker (da_network d)) \<and> is_running (ac_worker (da_controller d))
    \<and> distinct (map re_path (ac_resources (da_controller d)))
    \<and> set (map re_handler (ac_resources (da_controller d))) = UNIV - {Time, Time_ptp}"
proof -
  have "ce_worker ce = idle_worker" "ne_worker ne = idle_worker"
    using assms(4,5) by (auto simp: ComputingEngine_new_def NetworkEngine_new_def)
  moreover have "UNIV - {Time, Time_ptp} =
      {Comp, Comp_cpu, Comp_memory, Comp_os, Comp_sensors, Comp_storage, Net, Net_neighbors, Net_routes, Net_interfaces}"
    by (auto intro: endpoint.exhaust)
  ultimately show ?thesis
    using assms
    by (simp add: rankd_main_def initialised_def ComputingEngine_execute_def NetworkEngine_execute_def
        ApiController_execute_def Engine_execute_def thread_start_def idle_worker_def ApiController_append_resources_def
        ApiController_apply_settings_def ApiController_new_def ComputingEngine_get_resources_def
        NetworkEngine_get_resources_def Let_def)
qed

text \<open>An engine that runs cannot be executed again.\<close>

lemma Engine_execute_twice: "Engine_execute w = Inr w' \<Longrightarrow> Engine_execute w' = Inl Terminated"
  by (auto simp: Engine_execute_def thread_start_def split: if_splits)

text \<open>
  A process without a command line, such as a thread of the kernel, keeps the daemon from starting;
  on a host without one the request for the operating system is undefined.
\<close>

lemma rankd_undefined:
  assumes "list_all pfs_reported (ho_processes h)" "\<not> list_all has_command (ho_processes h)"
  shows "rankd_main P h cli \<noteq> Some (Inr (Serving d))"
proof -
  have "OperativeSystem_new g f k (ho_processes h) i = Inl UndefinedBehaviour" for g f k i
    using snap_processes [of "ho_processes h" "[]" g] assms
    by (simp add: OperativeSystem_new_def OperativeSystem_snap_def unmeasured_def)
  then have "ComputingEngine_new P h \<noteq> Some (Inr ce)" for ce
    by (simp add: ComputingEngine_new_def)
  then show ?thesis
    by (auto simp: rankd_main_def Let_def)
qed

lemma tell_os_undefined:
  assumes "list_all pfs_reported (ho_processes h)" "ho_processes h \<noteq> []"
  shows "answer P h Comp_os d = Some (Inl UndefinedBehaviour)"
proof (cases "list_all has_command (ho_processes h)")
  case True
  then obtain ps where "fold_res (snap_process (ho_getpwuid h)) (ho_processes h) [] = Inr ps" "unmeasured ps" "ps \<noteq> []"
    using snap_processes [of "ho_processes h" "[]" "ho_getpwuid h"] assms by (auto simp: unmeasured_def)
  then show ?thesis
    by (cases "si_loads (ho_sysinfo h)")
      (simp add: answer_def tell_defs OperativeSystem_snap_def OperativeSystem_json_def unmeasured_json)
next
  case False
  then show ?thesis
    using snap_processes [of "ho_processes h" "[]" "ho_getpwuid h"] assms
    by (simp add: answer_def tell_defs OperativeSystem_snap_def unmeasured_def)
qed

end
