(* ===== verification/Spec2Isabelle.thy ===== *)
theory Spec2Isabelle
  imports Session_Spec Neighbouring Memory_Info Receivers Api_Server Latency_Source Timers Process_Start
    Simulated_Host Net_Measurements Daemon
begin

text \<open>
  A verification development for Rank (\<open>rankd\<close>), a daemon that reserves computing and network
  resources along a path of nodes.  A client places an admission request at a node.  The request
  travels towards its listener as an EAR message; where several ways lead on, the node holds an
  auction (a MAR message to each neighbour, answered by a BID) and hands the request to the
  highest bidder.  The listener answers with an ACC or a REF, which travels back and turns the
  pre-reservations on the way into reservations or drops them; a REP message releases them.

  \<^bold>\<open>The program and its model.\<close>  Paths are below \<open>src/internal/rank-prelude\<close> unless they start
  with another engine of \<open>src/internal\<close> or with \<open>cmd\<close>.  The node is modelled in its simulated
  configuration (the macro \<open>FROM_SIMUZILLA\<close>), in which nodes exchange octets through functions of a
  simulator; code that the other configuration shares is modelled for all kinds of address, and so
  are the receivers, the client interface and the data sources of that configuration.  A function of the source is a definition of the same name,
  prefixed with its class where several classes have a method of that name.

  \<^item> \<open>Rank_Prelude\<close>: results that may fail (\<open>res\<close>; the faults are thrown exceptions, failed
    assertions, null and dangling pointers, undefined behaviour), vectors with \<open>at\<close>, machine
    words, and the interfaces \<open>codec\<close>, \<open>fixed_codec\<close>, \<open>fifo\<close>, \<open>step_system\<close> and
    \<open>component_simulation\<close>.
  \<^item> \<open>Loops\<close>: loops over buffers and streams that may run forever (\<open>run\<close>, \<open>iterate\<close>; not returning
    is \<open>None\<close>) and the interface \<open>bounded_loop\<close> that proves they do not.
  \<^item> \<open>Std_Map\<close>: \<open>std::map\<close> as an ordered association list; the interface \<open>dictionary\<close>.
  \<^item> \<open>Identifiers\<close>: request identifiers (\<open>structs/identifier.cpp\<close>) over the ULID library.
  \<^item> \<open>Capabilities\<close>: requirements (\<open>structs/capabilities.cpp\<close>,
    \<open>structs/requesting_capabilities.cpp\<close>) and the FNV hash of their keys (\<open>utils/hashing.h\<close>).
  \<^item> \<open>Marshalling\<close>: requirements as JSON and CBOR and their validation (\<open>utils/marshalling\<close>).
  \<^item> \<open>Messages\<close>: headers and the six messages, marshalled and parsed (\<open>structs/messages\<close>,
    \<open>utils/messaging.cpp\<close>, \<open>utils/marshalling.cpp\<close>).
  \<^item> \<open>Api_Wire\<close>: what a client writes to the daemon and how it is read (\<open>rankd-api.h\<close>,
    \<open>structs/dispatchers/api.h\<close>).
  \<^item> \<open>Dispatcher\<close>: the queues of a node, its sender, its receivers and the client interface
    (\<open>structs/dispatcher.cpp\<close>, \<open>structs/dispatchers\<close>).
  \<^item> \<open>Threads\<close>: starting and stopping the units of a node and their common contract (the interface
    \<open>service\<close>); \<open>Receivers\<close>: every schedule of the receivers of the simulation, the receivers of layer
    2, layer 3 and DDS; \<open>Api_Server\<close>: the client interface of the networked configuration.
  \<^item> \<open>Reservations\<close>: one reservation and its state machine (\<open>structs/reservation.cpp\<close>).
  \<^item> \<open>Resources\<close>: bids and the pool of reservations (\<open>structs/resources.cpp\<close>,
    \<open>structs/current_capabilities.cpp\<close>).
  \<^item> \<open>Bids\<close>: the ordered set of bids and the highest bidders (\<open>structs/bidset.h\<close>, \<open>max_bids\<close>).
  \<^item> \<open>Handler\<close> and \<open>Handler_Steps\<close>: a session: its state, and \<open>Handler::operator()\<close> branch by
    branch (\<open>structs/handler.cpp\<close>), and which timer runs for which session.
  \<^item> \<open>Timers\<close>: the threads of a timer in time, and the object that owns the timers
    (\<open>structs/timeouts\<close>, \<open>structs/timeout_handler.cpp\<close>).
  \<^item> \<open>Process\<close>: the store of sessions and the main loop (\<open>structs/process.cpp\<close>).
  \<^item> \<open>Process_Start\<close>: starting and stopping a process, and the interface that its networked
    constructor asks the kernel for.
  \<^item> \<open>Node\<close>: the threads of a node as one step relation.
  \<^item> \<open>Sessions\<close> and \<open>Dispatching\<close>: the properties of sessions and of the main loop.
  \<^item> \<open>Session_Spec\<close>: what a session looks like from outside as an abstract machine on its state and
    running flag, and the proof that the node refines it.
  \<^item> \<open>Neighbouring\<close>: the search for connections over netlink and the test for own addresses
    (\<open>utils/neighboring.cpp\<close>, \<open>utils/identity/network.cpp\<close>), down to the octets of the buffer.
  \<^item> \<open>Cpu_Info\<close>: the processor as read from \<open>/proc/cpuinfo\<close> (\<open>rankd-comp/data-sources/cpu.cpp\<close>,
    \<open>rankd-comp/utils/strings.cpp\<close>).
  \<^item> \<open>Memory_Info\<close>: the memory as read from \<open>/proc/meminfo\<close> and \<open>/proc/vmstat\<close>
    (\<open>rankd-comp/data-sources/memory.cpp\<close>).
  \<^item> \<open>Host_Reports\<close>: documents and numbers that the other sources of the host share; \<open>Host_System\<close>,
    \<open>Host_Sensors\<close>, \<open>Host_Storage\<close>: operating system, sensors and storage (\<open>rankd-comp/data-sources\<close>).
  \<^item> \<open>Netlink_Walk\<close>: the loops over netlink messages and attributes that the sources of the network
    share; \<open>Net_Neighbors\<close>, \<open>Net_Routes\<close>, \<open>Net_Devices\<close>: neighbours, routes and interfaces
    (\<open>rankd-net/data-sources\<close>); \<open>Net_Measurements\<close>: the measurements taken over DDS
    (\<open>rankd-net/data-sources/yanpit.cpp\<close>).
  \<^item> \<open>Shaping\<close> and \<open>Latency_Source\<close>: the rules of the traffic shapers and how they are read
    (\<open>rankd-time/data-sources/latency\<close>).
  \<^item> \<open>Simulated_Host\<close>: the sources of the simulated configuration (\<open>dry-rankd-comp\<close>) and the current
    capabilities made of them.
  \<^item> \<open>Daemon\<close>: the monitoring daemon that answers requests about the sources (\<open>cmd/rankd\<close>).

  \<^bold>\<open>State.\<close>  The members of \<open>Process\<close> that handlers reach through pointers are the record
  \<open>world\<close>: the resource manager, the dispatcher, the translation table, the origin set, the
  store, the handlers by address, and the timers that are running.  A handler is the record
  \<open>handler\<close>; a round of its thread works on its own record and the world (\<open>session\<close>).
  Reservations are shared between handlers and the manager and mutated through pointers: they
  live in a heap of the manager, in which \<open>delete\<close> and \<open>erase\<close> free an address.  Integers keep
  their width; a \<open>float\<close> is its bit pattern, compared as IEEE 754 orders it; a \<open>double\<close> is a real
  number, which is why bids are exact here.

  \<^bold>\<open>Threads.\<close>  One iteration of a thread's loop is one step, and \<open>node_step\<close> interleaves the
  steps of all threads in any order; the locks of the code are what makes its rounds atomic on
  each structure, the model makes them atomic as a whole.  The only place where a round blocks,
  the wait for bids, ends the step; the condition variable is the field \<open>h_auction\<close>.  Two things about
  that wait are outside the model: the thread that notifies unlocks a mutex it does not own, which
  the standard leaves undefined and the model lets pass, and a notification that comes before the
  wait, in the middle of a round, would be lost, since the wait has no predicate.  Time is
  no part of a node: a timer that runs may expire at any moment; what its threads do on a clock is
  in \<open>Timers\<close>.  Loops that never end in the code
  appear as their rounds, and the theorems say how many rounds are enough: one round of the
  sender, the raw receiver and the receiver per message (\<open>simulated_delivery\<close>,
  \<open>request_reaches_next_node\<close>), one round of the handler per message.  The loops over netlink messages, attributes and text streams, which nothing in their
  text bounds, are \<open>partial_function\<close>s, proved to return for every input
  (\<open>connection_search_terminates\<close>, \<open>cpu_reading_terminates\<close>), or not to return where the code
  loops forever (\<open>memory_snapshot\<close>), as are the threads of a timer (\<open>timer_calls_once\<close>).  Nothing
  uses fuel.

  \<^bold>\<open>Parameters.\<close>  Code outside the sources is an argument: the ULID, CBOR, JSON and libyang
  libraries (\<open>ulid_lib\<close>, \<open>marshal_lib\<close>), the answers of the simulator and the operating system,
  the conversion of a \<open>double\<close> to a \<open>float\<close> and the content of uninitialised memory
  (\<open>node_config\<close>, \<open>environment\<close>, \<open>netlink_answer\<close>), and \<open>std::stod\<close>.  What a theorem needs of a library is a hypothesis on its
  documented behaviour (\<open>ulid_ok\<close>, \<open>cbor_inverts\<close>, \<open>encode_time_ok\<close>), instantiated in witnesses.

  \<^bold>\<open>What is shown.\<close>
  \<^item> Round trips: messages, requirements and client requests, with what each of them loses.
  \<^item> The pool: its invariant over every sequence of operations, the exact condition of
    admission, the bounds of a bid, and the life of an entry from admission to release.
  \<^item> Sessions: which states a message may lead to, and for a fresh request at the listener, on
    the way with one, several or no connections, for an invitation, the end of an auction with
    and without a tie, an acceptance and an expired timer, the complete effect of the round:
    state, pool, messages queued, timers started.
  \<^item> The main loop: when a message starts a session, is dropped as a duplicate or is discarded; and,
    below, the way of a request from the queue of one node to a session of the next.
  \<^item> The node: an invariant of every interleaving of its threads; the refinement of the abstract
    session machine, from which it follows that a closed session stays closed; and that the store
    has one session per timestamp.
  \<^item> Types: requirements decoded from any payload are such that their admission cannot fault.
  \<^item> The host: netlink attributes are found where the kernel put them and no read leaves the
    message; one core per processor of \<open>/proc/cpuinfo\<close>; that the snapshots of memory,
    storage, neighbours, routes, interfaces and shapers return and hold what the kernel reports, and
    for which reports their documents are undefined.
  \<^item> Timers: the threads of a timer end and call what they were given once, not before its time.
  \<^item> The daemon: its answers do not depend on the requests before, with two exceptions.
  \<^item> The places where the code does something else than it means to: theorems that state the
    actual effect, such as undefined behaviour, a reservation that is never released, or octets
    that are lost.

  \<^bold>\<open>Not modelled.\<close>  Logging and locks; the registration of callbacks at the simulator; the opening of
  FIFOs and sockets beyond what their calls return; the type support that the DDS library generates
  (\<open>rankd-net/data-sources/yanpit/dds/descriptors\<close>); the REST library and the parsers of command lines,
  TOML, JSON, CBOR and YANG, which are vendored or submodules; the classes of \<open>dry-rankd-net\<close> and
  \<open>dry-rankd-time\<close> whose functions are empty; the directories \<open>archive\<close> that no build file names.
\<close>

section \<open>From one node to the next\<close>

lemma received_request:
  assumes "length junk = 16" "m = EAR_msg r \<and> req_listener_length r = LT_CODE_0 \<or> m = MAR_msg r" "message_ok m"
  shows "Message_uuid (message_received junk m) = Message_uuid m"
    and "case message_received junk m of EAR_msg r \<Rightarrow> hdr_type (req_header r) = MessageType.EAR
           \<and> req_listener_length r = LT_CODE_0 \<and> req_listener r \<noteq> []
         | MAR_msg r \<Rightarrow> hdr_type (req_header r) = MessageType.MAR | _ \<Rightarrow> False"
  using assms by (auto simp: request_received_def request_ok_def Message_uuid_def)

text \<open>
  C18. A request goes from one node to the next.  When a well-formed request (an EAR with a simulated
  listener, or a MAR) is at the head of the sending queue of one node, for a simulated neighbour,
  one round of the sender takes it from the queue and hands its octets to the simulator; and when
  those octets arrive at the neighbour, whose queues are empty and whose store does not know the timestamp
  of the request, one round each of its raw receiver, its receiver and its main loop leave it with a
  session for the request: at an address no handler had, entered in the store under the identifier
  of the request, running in the state \<open>READY\<close>, with the message as the parser restores it and the
  sending node as its source.  The neighbour's queue of received messages is empty again, and the
  rest of both nodes is unchanged.
\<close>

theorem request_reaches_next_node:
  assumes "ulid_ok (cfg_ulid C)" "length junk = 16" "a \<noteq> 255"
    and "m = EAR_msg r \<and> req_listener_length r = LT_CODE_0 \<or> m = MAR_msg r" "message_ok m"
    and "sending_messages d = (m, [p], Simulation) # rest"
    and "world_wf w" "received_messages (w_dispatcher w) = []" "related_uuids (cfg_ulid C) (Message_uuid m) w = []"
  shows "\<exists>octets e w' h. Sender_step (cfg_ulid C) link d = Inr (SimulatedSend p octets, d \<lparr> sending_messages := rest \<rparr>)
    \<and> ReceiverSimulation_step (cfg_ulid C) junk (RawReceiverSimulation_step (a, octets) [], w_dispatcher w) = Inr ([], e)
    \<and> Process_round C (w \<lparr> w_dispatcher := e \<rparr>) = Inr w'
    \<and> w_handlers w (w_next_handler w) = None \<and> w_handlers w' = (w_handlers w)(w_next_handler w \<mapsto> h)
    \<and> w_next_handler w' = Suc (w_next_handler w)
    \<and> map_of (w_store w') = (map_of (w_store w))(Message_uuid m \<mapsto> w_next_handler w)
    \<and> h_uuid h = Message_uuid m \<and> h_state h = READY \<and> h_running h \<and> h_source h = ([a], Simulation)
    \<and> h_message h = Some (message_received junk m)
    \<and> w_dispatcher w' = w_dispatcher w \<and> w_resources w' = w_resources w \<and> w_timeouts w' = w_timeouts w
    \<and> w_translations w' = w_translations w \<and> w_origins w' = w_origins w \<and> w_draws w' = w_draws w"
proof -
  let ?m = "message_received junk m" and ?L = "cfg_ulid C"
  obtain octets where octets: "raw_payload ?L m = Inr octets" "parse_message_from_bytes ?L junk octets False = Inr (Some ?m)"
    using message_trip [OF assms(1,5,2)] by blast
  have sent: "Sender_step ?L link d = Inr (SimulatedSend p octets, d \<lparr> sending_messages := rest \<rparr>)"
    using Sender_step_ok [OF assms(1,5,6)] octets(1) by (metis sum.inject(2))
  let ?e = "enqueue_item (?m, [a], Simulation) (w_dispatcher w)"
  have received: "ReceiverSimulation_step ?L junk (RawReceiverSimulation_step (a, octets) [], w_dispatcher w) = Inr ([], ?e)"
    using assms(3) octets(2) by (simp add: RawReceiverSimulation_step_def ReceiverSimulation_step_def)
  have "dequeue_item ?e = Inr ((?m, [a], Simulation), w_dispatcher w)" "\<not> receiving_queue_is_empty ?e"
    using assms(8) by (simp_all add: enqueue_item_def dequeue_item_def receiving_queue_is_empty_def)
  then have round: "Process_round C (w \<lparr> w_dispatcher := ?e \<rparr>) = dispatch C ?m ([a], Simulation) w"
    by (simp add: Process_round_def)
  note m = received_request [OF assms(2,4,5)]
  have "w_handlers w (w_next_handler w) = None"
    using assms(7) by (cases "w_handlers w (w_next_handler w)") (auto simp: world_wf_def)
  moreover have "std_map_wf (w_store w)"
    using assms(7) by (simp add: world_wf_def world_maps_wf_def)
  ultimately show ?thesis
    using sent received round dispatch_unknown [of C ?m w "([a], Simulation)", OF _ m(2)] assms(9) m(1)
    by (intro exI [of _ octets] exI [of _ ?e] exI [of _ "_ :: world"]
        exI [of _ "(Handler_new (w_next_handler w) (Message_uuid m)) \<lparr> h_running := True, h_source := ([a], Simulation), h_message := Some ?m \<rparr>"])
      (auto simp: Handler_new_def)
qed

theorem request_reaches_next_node_witness:
  "let d = \<lparr> received_messages = [], sending_messages = [(EAR_msg (sample_EAR 8), [2], Simulation)] \<rparr> in
   \<exists>octets e w' h. Sender_step (cfg_ulid sample_config) sample_link_layer d = Inr (SimulatedSend 2 octets, d \<lparr> sending_messages := [] \<rparr>)
     \<and> ReceiverSimulation_step (cfg_ulid sample_config) (replicate 16 9)
         (RawReceiverSimulation_step (1, octets) [], w_dispatcher world_init) = Inr ([], e)
     \<and> Process_round sample_config (world_init \<lparr> w_dispatcher := e \<rparr>) = Inr w'
     \<and> w_handlers w' = [0 \<mapsto> h] \<and> h_state h = READY \<and> h_source h = ([1], Simulation) \<and> map_of (w_store w') = [77 \<mapsto> 0]"
proof -
  let ?d = "\<lparr> received_messages = [], sending_messages = [(EAR_msg (sample_EAR 8), [2], Simulation)] \<rparr>"
  have ok: "message_ok (EAR_msg (sample_EAR 8))" and u: "Message_uuid (EAR_msg (sample_EAR 8)) = 77"
    and l: "req_listener_length (sample_EAR 8) = LT_CODE_0"
    by (simp_all add: sample_EAR_def request_ok_def header_ok_def Header_def RANK_HEADER_VERSION_def
        message_type_of_code_def sample_payload_def Message_uuid_def addr_len_def cbor_text_def requirements_key_def)
  have L: "ulid_ok (cfg_ulid sample_config)"
    using ulid_spec_ok by (simp add: sample_config_def)
  have "related_uuids (cfg_ulid sample_config) 77 world_init = []" "received_messages (w_dispatcher world_init) = []"
    by (simp_all add: related_uuids_def world_init_def)
  then show ?thesis
    using request_reaches_next_node [OF L, of "replicate 16 9" 1 "EAR_msg (sample_EAR 8)" "sample_EAR 8" ?d 2 "[]" world_init sample_link_layer]
      ok u l world_wf_init
    by (simp add: Let_def world_init_def) blast
qed

end
